(* ===== verification/Prelude.thy ===== *)
theory Prelude
  imports Main "HOL-Library.Word" "HOL-Library.List_Lexorder"
begin

text \<open>
  Shared vocabulary of the development: the fixed-width integers and byte ranges of the C++
  sources, exceptions as values, the standard containers the components use (an ordered
  \<open>std::map\<close> as a strictly sorted association list), little-endian byte strings, and the generic
  lemmas and named collections the component theories build on.
\<close>

unbundle bit_operations_syntax

named_theorems result_simps \<open>equations of the exception result type\<close>
named_theorems codec_simps \<open>sizes and round trips of the byte codecs\<close>
named_theorems smap_simps \<open>lookups in and updates of ordered maps\<close>

section \<open>Fixed-width integers and byte ranges\<close>

type_synonym byte = "8 word"
type_synonym uint8 = "8 word"
type_synonym uint16 = "16 word"
type_synonym uint32 = "32 word"
type_synonym uint64 = "64 word"

text \<open>A read-only byte range (\<open>util::const_byte_span\<close>) is the list of its bytes.\<close>

type_synonym const_byte_span = "byte list"

text \<open>
  A writable range (\<open>util::byte_span\<close>) is a cursor into a buffer: the bytes already written in
  front of the cursor and the bytes (with their old contents) from the cursor to the end.
\<close>

type_synonym byte_span = "byte list \<times> byte list"

abbreviation span_size :: "byte_span \<Rightarrow> nat" where
  "span_size s \<equiv> length (snd s)"

text \<open>Text is a list of characters; raw storage and text are reinterpreted byte by byte.\<close>

definition as_const_byte_span :: "string \<Rightarrow> byte list" where
  "as_const_byte_span s = map of_char s"

definition as_string_view :: "byte list \<Rightarrow> string" where
  "as_string_view bs = map (\<lambda>b. char_of (unat b)) bs"

lemma unat_byte_less [simp]: "unat (b :: byte) < 256"
proof -
  have "unat b < 2 ^ LENGTH(8)" by (rule unsigned_less)
  then show ?thesis by simp
qed

lemma unat_ucast_mod: "unat (ucast (w :: 'a::len word) :: 'b::len word) = unat w mod 2 ^ LENGTH('b)"
  by (simp add: unsigned_ucast_eq take_bit_eq_mod)

lemma of_char_eq_of_nat: "(of_char c :: 'a::len word) = of_nat (of_char c)"
  by (simp only: of_nat_of_char)

lemma char_of_unat_of_char [simp]: "char_of (unat (of_char c :: byte)) = c"
proof -
  have "(of_char c :: nat) < 256"
    by (cases c) (auto simp: of_char_def horner_sum_simps)
  then have "unat (of_char c :: byte) = of_char c"
    by (subst of_char_eq_of_nat) (simp only: unat_of_nat, simp)
  then show ?thesis by simp
qed

lemma of_char_char_of_unat [simp]: "(of_char (char_of (unat (b :: byte)) :: char) :: byte) = b"
proof -
  have "(of_char (char_of (unat b) :: char) :: nat) = unat b"
    by simp
  then show ?thesis
    by (subst of_char_eq_of_nat) simp
qed

lemma as_string_view_as_const_byte_span [simp]: "as_string_view (as_const_byte_span s) = s"
  by (simp add: as_string_view_def as_const_byte_span_def o_def)

lemma as_const_byte_span_as_string_view [simp]: "as_const_byte_span (as_string_view bs) = bs"
  by (simp add: as_string_view_def as_const_byte_span_def o_def map_idI)

lemma length_as_const_byte_span [simp]: "length (as_const_byte_span s) = length s"
  by (simp add: as_const_byte_span_def)

lemma length_as_string_view [simp]: "length (as_string_view bs) = length bs"
  by (simp add: as_string_view_def)

section \<open>Exceptions as values\<close>

text \<open>
  Every \<open>exception_location().raise<E>(message)\<close> of the sources is the left value
  \<open>Inl (E message)\<close>. \<open>Undefined_behaviour\<close> stands for an operation applied outside its
  precondition (a failed \<open>assert\<close>, an out-of-range \<open>subspan\<close>, \<open>front()\<close> of an empty
  container): a theorem that an operation succeeds therefore also says that no precondition of
  the operations it calls is violated. \<open>Bad_alloc\<close> is the exception of a fixed-capacity container
  that would overflow, \<open>Core_error\<close> an error of the MySQL client library with its code, \<open>Terminate\<close> the end of the process when an exception leaves a function
  declared \<open>noexcept\<close>.
\<close>

datatype cpp_error =
    Invalid_argument string
  | Logic_error string
  | Runtime_error string
  | Out_of_range string
  | Bad_alloc string
  | Core_error nat string
  | Terminate string
  | Undefined_behaviour string

type_synonym 'a result = "cpp_error + 'a"

definition rbind :: "'a result \<Rightarrow> ('a \<Rightarrow> 'b result) \<Rightarrow> 'b result" where
  "rbind m f = (case m of Inl e \<Rightarrow> Inl e | Inr x \<Rightarrow> f x)"

lemma rbind_Inl [simp, result_simps]: "rbind (Inl e) f = Inl e"
  by (simp add: rbind_def)

lemma rbind_Inr [simp, result_simps]: "rbind (Inr x) f = f x"
  by (simp add: rbind_def)

lemma rbind_eq_Inr [result_simps]: "rbind m f = Inr y \<longleftrightarrow> (\<exists>x. m = Inr x \<and> f x = Inr y)"
  by (cases m) auto

lemma rbind_eq_Inl: "rbind m f = Inl e \<longleftrightarrow> m = Inl e \<or> (\<exists>x. m = Inr x \<and> f x = Inl e)"
  by (cases m) auto

lemma rbind_cong [fundef_cong]:
  "m = m' \<Longrightarrow> (\<And>x. m' = Inr x \<Longrightarrow> f x = f' x) \<Longrightarrow> rbind m f = rbind m' f'"
  by (cases m') auto

text \<open>A check that raises: \<open>if (!ok) raise e\<close>.\<close>

definition ensure :: "bool \<Rightarrow> cpp_error \<Rightarrow> unit result" where
  "ensure ok e = (if ok then Inr () else Inl e)"

lemma ensure_eq_Inr [simp, result_simps]: "ensure ok e = Inr u \<longleftrightarrow> ok"
  by (simp add: ensure_def)

lemma ensure_True [simp]: "ensure True e = Inr ()"
  by (simp add: ensure_def)

lemma ensure_False [simp]: "ensure False e = Inl e"
  by (simp add: ensure_def)

text \<open>The boolean-returning checked helpers: \<open>if (!helper(...)) raise e\<close>.\<close>

definition or_raise :: "'a option \<Rightarrow> cpp_error \<Rightarrow> 'a result" where
  "or_raise x e = (case x of None \<Rightarrow> Inl e | Some v \<Rightarrow> Inr v)"

lemma or_raise_simps [simp]: "or_raise None e = Inl e" "or_raise (Some v) e = Inr v"
  by (simp_all add: or_raise_def)

lemma or_raise_eq_Inr [result_simps]: "or_raise x e = Inr v \<longleftrightarrow> x = Some v"
  by (cases x) auto

fun is_ok :: "'a result \<Rightarrow> bool" where
  "is_ok (Inl e) = False"
| "is_ok (Inr x) = True"

lemma is_ok_iff: "is_ok r \<longleftrightarrow> (\<exists>x. r = Inr x)"
  by (cases r) auto

text \<open>A loop over a sequence whose body may raise.\<close>

primrec rfold :: "('a \<Rightarrow> 's \<Rightarrow> 's result) \<Rightarrow> 'a list \<Rightarrow> 's \<Rightarrow> 's result" where
  "rfold f [] s = Inr s"
| "rfold f (x # xs) s = rbind (f x s) (rfold f xs)"

lemma rbind_assoc: "rbind (rbind m f) g = rbind m (\<lambda>x. rbind (f x) g)"
  by (cases m) auto

lemma rfold_append: "rfold f (xs @ ys) s = rbind (rfold f xs s) (rfold f ys)"
  by (induction xs arbitrary: s) (auto simp: rbind_assoc intro!: rbind_cong)

section \<open>Ordered maps (\<open>std::map\<close>)\<close>

text \<open>
  A \<open>std::map\<close> is its sequence of entries in key order. \<open>smap_find\<close> is \<open>find\<close>,
  \<open>smap_at d f k\<close> is \<open>f(m[k])\<close> (which first inserts the default value \<open>d\<close> when the
  key is absent), \<open>smap_erase\<close> is \<open>erase\<close>.
\<close>

type_synonym ('k, 'v) smap = "('k \<times> 'v) list"

definition smap_ok :: "('k::linorder, 'v) smap \<Rightarrow> bool" where
  "smap_ok m \<longleftrightarrow> sorted_wrt (<) (map fst m)"

definition smap_find :: "('k, 'v) smap \<Rightarrow> 'k \<Rightarrow> 'v option" where
  "smap_find m k = map_of m k"

fun smap_at :: "'v \<Rightarrow> ('v \<Rightarrow> 'v) \<Rightarrow> 'k::linorder \<Rightarrow> ('k, 'v) smap \<Rightarrow> ('k, 'v) smap" where
  "smap_at d f k [] = [(k, f d)]"
| "smap_at d f k ((a, b) # m) =
     (if k < a then (k, f d) # (a, b) # m
      else if k = a then (a, f b) # m
      else (a, b) # smap_at d f k m)"

fun smap_erase :: "'k \<Rightarrow> ('k, 'v) smap \<Rightarrow> ('k, 'v) smap" where
  "smap_erase k [] = []"
| "smap_erase k ((a, b) # m) = (if k = a then m else (a, b) # smap_erase k m)"

lemma smap_ok_Nil [simp]: "smap_ok []"
  by (simp add: smap_ok_def)

lemma smap_ok_Cons: "smap_ok ((k, v) # m) \<longleftrightarrow> (\<forall>a \<in> fst ` set m. k < a) \<and> smap_ok m"
  by (auto simp: smap_ok_def)

lemma smap_find_Nil [simp]: "smap_find [] k = None"
  by (simp add: smap_find_def)

lemma smap_find_Cons: "smap_find ((a, b) # m) k = (if k = a then Some b else smap_find m k)"
  by (auto simp: smap_find_def)

lemma smap_find_SomeD: "smap_find m k = Some v \<Longrightarrow> (k, v) \<in> set m"
  by (simp add: smap_find_def map_of_SomeD)

lemma smap_find_None_iff: "smap_find m k = None \<longleftrightarrow> k \<notin> fst ` set m"
  by (simp add: smap_find_def map_of_eq_None_iff)

lemma smap_ok_distinct: "smap_ok m \<Longrightarrow> distinct (map fst m)"
  by (simp add: smap_ok_def strict_sorted_iff)

lemma smap_find_iff [smap_simps]: "smap_ok m \<Longrightarrow> smap_find m k = Some v \<longleftrightarrow> (k, v) \<in> set m"
  by (simp add: smap_find_def smap_ok_distinct)

lemma keys_smap_at: "fst ` set (smap_at d f k m) = insert k (fst ` set m)"
  by (induction d f k m rule: smap_at.induct) auto

lemma smap_ok_at [simp, intro]: "smap_ok m \<Longrightarrow> smap_ok (smap_at d f k m)"
  by (induction d f k m rule: smap_at.induct) (auto simp: smap_ok_Cons keys_smap_at)

lemma smap_find_below: "smap_ok ((a, b) # m) \<Longrightarrow> k < a \<Longrightarrow> smap_find m k = None"
  by (auto simp: smap_ok_Cons smap_find_None_iff)

lemma smap_find_at [smap_simps]:
  "smap_ok m \<Longrightarrow> smap_find (smap_at d f k m) k' =
     (if k' = k then Some (f (case smap_find m k of None \<Rightarrow> d | Some v \<Rightarrow> v)) else smap_find m k')"
proof (induction d f k m rule: smap_at.induct)
  case (2 d f k a b m)
  then show ?case
    using smap_find_below [of a b m k] by (auto simp: smap_ok_Cons smap_find_Cons)
qed (simp add: smap_find_Cons)

lemma keys_smap_erase: "smap_ok m \<Longrightarrow> fst ` set (smap_erase k m) = fst ` set m - {k}"
proof (induction k m rule: smap_erase.induct)
  case (2 k a b m)
  then show ?case by (auto simp: smap_ok_Cons)
qed simp

lemma smap_ok_erase [simp, intro]: "smap_ok m \<Longrightarrow> smap_ok (smap_erase k m)"
  by (induction k m rule: smap_erase.induct) (auto simp: smap_ok_Cons keys_smap_erase)

lemma smap_find_erase [smap_simps]:
  "smap_ok m \<Longrightarrow> smap_find (smap_erase k m) k' = (if k' = k then None else smap_find m k')"
proof (induction k m rule: smap_erase.induct)
  case (2 k a b m)
  then have "smap_find m a = None"
    by (auto simp: smap_ok_Cons smap_find_None_iff)
  with 2 show ?case by (auto simp: smap_ok_Cons smap_find_Cons)
qed simp

text \<open>A sorted association list is determined by its lookups.\<close>

lemma smap_ext:
  assumes "smap_ok m" and "smap_ok n" and "\<And>k. smap_find m k = smap_find n k"
  shows "m = n"
proof -
  have sets: "set m = set n"
    using assms by (auto simp flip: smap_find_iff)
  have "sorted_wrt (<) (map fst m)" and "sorted_wrt (<) (map fst n)"
    using assms(1,2) by (simp_all add: smap_ok_def)
  moreover have "set (map fst m) = set (map fst n)"
    using sets by simp
  ultimately have keys: "map fst m = map fst n"
    by (metis strict_sorted_equal)
  show ?thesis
  proof (rule nth_equalityI)
    show len: "length m = length n"
      using keys by (metis length_map)
    fix i assume i: "i < length m"
    then have fst_eq: "fst (m ! i) = fst (n ! i)"
      using keys len by (metis nth_map)
    have "m ! i \<in> set m" and n: "n ! i \<in> set n"
      using i len by simp_all
    then have "m ! i \<in> set n" by (simp only: sets)
    then have "(fst (n ! i), snd (m ! i)) \<in> set n" by (simp flip: fst_eq)
    moreover have "(fst (n ! i), snd (n ! i)) \<in> set n" using n by simp
    ultimately have "snd (m ! i) = snd (n ! i)"
      by (rule eq_key_imp_eq_value [OF smap_ok_distinct [OF assms(2)]])
    with fst_eq show "m ! i = n ! i"
      by (rule prod_eqI)
  qed
qed

section \<open>Little-endian byte strings\<close>

primrec nat_of_le :: "byte list \<Rightarrow> nat" where
  "nat_of_le [] = 0"
| "nat_of_le (b # bs) = unat b + 256 * nat_of_le bs"

primrec le_of_nat :: "nat \<Rightarrow> nat \<Rightarrow> byte list" where
  "le_of_nat 0 v = []"
| "le_of_nat (Suc n) v = of_nat v # le_of_nat n (v div 256)"

lemma length_le_of_nat [simp, codec_simps]: "length (le_of_nat n v) = n"
  by (induction n arbitrary: v) auto

lemma nat_of_le_less: "nat_of_le bs < 256 ^ length bs"
proof (induction bs)
  case (Cons b bs)
  have "unat b + 256 * nat_of_le bs < 256 + 256 * nat_of_le bs" by simp
  also have "\<dots> = 256 * Suc (nat_of_le bs)" by simp
  also have "\<dots> \<le> 256 * 256 ^ length bs" using Cons by (intro mult_le_mono) auto
  finally show ?case by simp
qed simp

lemma nat_of_le_le_of_nat: "nat_of_le (le_of_nat n v) = v mod 256 ^ n"
proof (induction n arbitrary: v)
  case (Suc n)
  have "v mod 256 ^ Suc n = v mod 256 + 256 * (v div 256 mod 256 ^ n)"
    by (simp add: mod_mult2_eq)
  then show ?case by (simp add: Suc unat_of_nat)
qed simp

lemma le_of_nat_nat_of_le: "le_of_nat (length bs) (nat_of_le bs) = bs"
proof (induction bs)
  case (Cons b bs)
  have "unat (of_nat (unat b + 256 * nat_of_le bs) :: byte) = unat b"
    by (simp only: unat_of_nat) simp
  then have "(of_nat (unat b + 256 * nat_of_le bs) :: byte) = b"
    by (simp only: word_unat_eq_iff)
  moreover have "(unat b + 256 * nat_of_le bs) div 256 = nat_of_le bs"
    using unat_byte_less [of b] by simp
  ultimately show ?case using Cons by simp
qed simp

lemma nat_of_le_eq [codec_simps]: "v < 256 ^ n \<Longrightarrow> nat_of_le (le_of_nat n v) = v"
  by (simp add: nat_of_le_le_of_nat)

lemma nat_of_le_append: "nat_of_le (xs @ ys) = nat_of_le xs + 256 ^ length xs * nat_of_le ys"
  by (induction xs) (auto simp: algebra_simps)

end
