(* ===== verification/Byte_Span.thy ===== *)
theory Byte_Span
  imports Prelude
begin

text \<open>
  The byte-level codecs of \<open>util/byte_span_extractors.hpp\<close>, \<open>util/byte_span_inserters.hpp\<close> and
  \<open>util/byte_span_packed_int_constants.hpp\<close>: fixed-width little-endian integers, MySQL packed
  integers, variable-length integers and raw byte ranges, in their checked (boolean result,
  modelled by \<open>option\<close>) and unchecked (precondition, modelled by \<open>Undefined_behaviour\<close>) forms.
  The lemmas give each codec's size and round trip.
\<close>

section \<open>Extractors\<close>

text \<open>The bytes are copied into a zero-initialised integer and read least significant first.\<close>

definition read_fixed_int :: "nat \<Rightarrow> const_byte_span \<Rightarrow> 'a::len word \<times> const_byte_span" where
  "read_fixed_int n remainder = (of_nat (nat_of_le (take n remainder)), drop n remainder)"

definition extract_fixed_int_from_byte_span ::
    "nat \<Rightarrow> const_byte_span \<Rightarrow> ('a::len word \<times> const_byte_span) result" where
  "extract_fixed_int_from_byte_span bytes_to_extract remainder =
     rbind (ensure (bytes_to_extract \<noteq> 0 \<and> 8 * bytes_to_extract \<le> LENGTH('a)
                    \<and> bytes_to_extract \<le> length remainder)
              (Undefined_behaviour ''extract_fixed_int_from_byte_span''))
       (\<lambda>_. Inr (read_fixed_int bytes_to_extract remainder))"

definition extract_fixed_int_from_byte_span_checked ::
    "nat \<Rightarrow> const_byte_span \<Rightarrow> ('a::len word \<times> const_byte_span) option" where
  "extract_fixed_int_from_byte_span_checked bytes_to_extract remainder =
     (if bytes_to_extract > length remainder then None
      else Some (read_fixed_int bytes_to_extract remainder))"

text \<open>
  A signed integer is kept as the word with its two's complement bits (read by \<open>sint\<close>), so the
  \<open>static_cast\<close> from the unsigned value is the identity; partial extraction is refused.
\<close>

definition extract_fixed_sint_from_byte_span_checked ::
    "nat \<Rightarrow> const_byte_span \<Rightarrow> ('a::len word \<times> const_byte_span) option" where
  "extract_fixed_sint_from_byte_span_checked bytes_to_extract remainder =
     (if 8 * bytes_to_extract \<noteq> LENGTH('a) \<or> bytes_to_extract > length remainder then None
      else Some (read_fixed_int bytes_to_extract remainder))"

definition extract_byte_span_from_byte_span ::
    "nat \<Rightarrow> const_byte_span \<Rightarrow> (byte list \<times> const_byte_span) result" where
  "extract_byte_span_from_byte_span storage_size remainder =
     rbind (ensure (storage_size \<le> length remainder)
              (Undefined_behaviour ''extract_byte_span_from_byte_span''))
       (\<lambda>_. Inr (take storage_size remainder, drop storage_size remainder))"

definition extract_byte_span_from_byte_span_checked ::
    "nat \<Rightarrow> const_byte_span \<Rightarrow> (byte list \<times> const_byte_span) option" where
  "extract_byte_span_from_byte_span_checked storage_size remainder =
     (if storage_size > length remainder then None
      else Some (take storage_size remainder, drop storage_size remainder))"

definition extract_byte_array_from_byte_span_checked ::
    "nat \<Rightarrow> const_byte_span \<Rightarrow> (byte list \<times> const_byte_span) option" where
  "extract_byte_array_from_byte_span_checked n remainder =
     (if n > length remainder then None else Some (take n remainder, drop n remainder))"

definition packed_int_single_boundary :: uint64 where "packed_int_single_boundary = 251"
definition packed_int_double_boundary :: uint64 where "packed_int_double_boundary = push_bit 16 1"
definition packed_int_triple_boundary :: uint64 where "packed_int_triple_boundary = push_bit 24 1"
definition packed_int_max_marker :: uint8 where "packed_int_max_marker = 251"
definition packed_int_double_marker :: uint8 where "packed_int_double_marker = 252"
definition packed_int_triple_marker :: uint8 where "packed_int_triple_marker = 253"
definition packed_int_octuple_marker :: uint8 where "packed_int_octuple_marker = 254"
definition packed_int_forbidden_marker :: uint8 where "packed_int_forbidden_marker = 255"
definition packed_int_double_size :: nat where "packed_int_double_size = 2"
definition packed_int_triple_size :: nat where "packed_int_triple_size = 3"
definition packed_int_octuple_size :: nat where "packed_int_octuple_size = 8"

lemmas packed_int_constants [simp] =
  packed_int_single_boundary_def packed_int_double_boundary_def packed_int_triple_boundary_def
  packed_int_max_marker_def packed_int_double_marker_def packed_int_triple_marker_def
  packed_int_octuple_marker_def packed_int_forbidden_marker_def
  packed_int_double_size_def packed_int_triple_size_def packed_int_octuple_size_def

definition extract_packed_int_from_byte_span_checked ::
    "const_byte_span \<Rightarrow> (uint64 \<times> const_byte_span) option" where
  "extract_packed_int_from_byte_span_checked remainder =
     (case extract_fixed_int_from_byte_span_checked 1 remainder of
        None \<Rightarrow> None
      | Some (first_byte :: uint8, local_remainder) \<Rightarrow>
          if first_byte = packed_int_max_marker then Some (- 1, local_remainder)
          else if first_byte = packed_int_double_marker then
            extract_fixed_int_from_byte_span_checked packed_int_double_size local_remainder
          else if first_byte = packed_int_triple_marker then
            extract_fixed_int_from_byte_span_checked packed_int_triple_size local_remainder
          else if first_byte = packed_int_octuple_marker then
            extract_fixed_int_from_byte_span_checked packed_int_octuple_size local_remainder
          else if first_byte = packed_int_forbidden_marker then None
          else Some (ucast first_byte, local_remainder))"

definition countr_one :: "uint8 \<Rightarrow> nat" where
  "countr_one b = length (takeWhile (bit b) [0..<8])"

definition extract_varlen_int_from_byte_span_checked ::
    "const_byte_span \<Rightarrow> ('a::len word \<times> const_byte_span) option" where
  "extract_varlen_int_from_byte_span_checked remainder =
     (case extract_fixed_int_from_byte_span_checked 1 remainder of
        None \<Rightarrow> None
      | Some (first_byte :: uint8, local_remainder) \<Rightarrow>
          let num_bytes = countr_one first_byte + 1 in
          if num_bytes > length remainder then None
          else
            let value_cpy = ucast (drop_bit num_bytes first_byte) :: 'a word in
            if num_bytes = 1 then Some (value_cpy, local_remainder)
            else
              let (value_read :: uint64, local_remainder') = read_fixed_int (num_bytes - 1) local_remainder;
                  value_tmp = (if num_bytes < 8 then push_bit (8 - num_bytes) value_read else value_read)
              in if unat value_tmp > 2 ^ LENGTH('a) - 1 then None
                 else Some (value_cpy OR ucast value_tmp, local_remainder'))"

definition extract_varlen_sint_from_byte_span_checked ::
    "const_byte_span \<Rightarrow> ('a::len word \<times> const_byte_span) option" where
  "extract_varlen_sint_from_byte_span_checked remainder =
     (case extract_varlen_int_from_byte_span_checked remainder of
        None \<Rightarrow> None
      | Some (data_tmp :: 'a word, remainder') \<Rightarrow>
          let sign_mask = (if data_tmp AND 1 \<noteq> 0 then - 1 else 0 :: 'a word)
          in Some (drop_bit 1 data_tmp XOR sign_mask, remainder'))"

section \<open>Inserters\<close>

text \<open>Writing copies the bytes over the front of the range and advances the cursor.\<close>

definition write_bytes :: "byte list \<Rightarrow> byte_span \<Rightarrow> byte_span" where
  "write_bytes bs s = (fst s @ bs, drop (length bs) (snd s))"

definition insert_fixed_int_to_byte_span :: "nat \<Rightarrow> 'a::len word \<Rightarrow> byte_span \<Rightarrow> byte_span result" where
  "insert_fixed_int_to_byte_span bytes_to_insert value remainder =
     rbind (ensure (bytes_to_insert \<noteq> 0 \<and> 8 * bytes_to_insert \<le> LENGTH('a)
                    \<and> bytes_to_insert \<le> span_size remainder)
              (Undefined_behaviour ''insert_fixed_int_to_byte_span''))
       (\<lambda>_. Inr (write_bytes (le_of_nat bytes_to_insert (unat value)) remainder))"

definition insert_fixed_int_to_byte_span_checked ::
    "nat \<Rightarrow> 'a::len word \<Rightarrow> byte_span \<Rightarrow> byte_span option" where
  "insert_fixed_int_to_byte_span_checked bytes_to_insert value remainder =
     (if bytes_to_insert > span_size remainder then None
      else Some (write_bytes (le_of_nat bytes_to_insert (unat value)) remainder))"

definition insert_byte_span_to_byte_span :: "byte list \<Rightarrow> byte_span \<Rightarrow> byte_span result" where
  "insert_byte_span_to_byte_span storage_span remainder =
     rbind (ensure (length storage_span \<le> span_size remainder)
              (Undefined_behaviour ''insert_byte_span_to_byte_span''))
       (\<lambda>_. Inr (write_bytes storage_span remainder))"

definition insert_byte_span_to_byte_span_checked :: "byte list \<Rightarrow> byte_span \<Rightarrow> byte_span option" where
  "insert_byte_span_to_byte_span_checked storage_span remainder =
     (if length storage_span > span_size remainder then None
      else Some (write_bytes storage_span remainder))"

definition calculate_packed_int_size :: "uint64 \<Rightarrow> nat" where
  "calculate_packed_int_size value =
     (if value < packed_int_single_boundary then 1
      else if value < packed_int_double_boundary then packed_int_double_size + 1
      else if value < packed_int_triple_boundary then packed_int_triple_size + 1
      else packed_int_octuple_size + 1)"

definition insert_packed_int_to_byte_span_checked :: "uint64 \<Rightarrow> byte_span \<Rightarrow> byte_span option" where
  "insert_packed_int_to_byte_span_checked value remainder =
     (let marked = (\<lambda>marker size.
            if span_size remainder < 1 + size then None
            else Some (write_bytes (le_of_nat size (unat value)) (write_bytes [marker] remainder)))
      in if value < packed_int_single_boundary then
           (if span_size remainder < 1 then None
            else Some (write_bytes (le_of_nat 1 (unat value)) remainder))
         else if value < packed_int_double_boundary then marked packed_int_double_marker packed_int_double_size
         else if value < packed_int_triple_boundary then marked packed_int_triple_marker packed_int_triple_size
         else marked packed_int_octuple_marker packed_int_octuple_size)"

definition get_signed_representation_as_unsigned :: "'a::len word \<Rightarrow> 'a word" where
  "get_signed_representation_as_unsigned value =
     (let sign_mask = (if sint value < 0 then - 1 else 0 :: 'a word)
      in push_bit 1 (value XOR sign_mask) OR (sign_mask AND 1))"

fun bit_width_nat :: "nat \<Rightarrow> nat" where
  "bit_width_nat n = (if n = 0 then 0 else Suc (bit_width_nat (n div 2)))"

declare bit_width_nat.simps [simp del]

definition calculate_varlen_int_size :: "'a::len word \<Rightarrow> nat" where
  "calculate_varlen_int_size value =
     (let magic_factor = 575; magic_shift = 12; bits_in_value = bit_width_nat (unat value)
      in drop_bit magic_shift (bits_in_value * magic_factor) + 1)"

definition calculate_varlen_sint_size :: "'a::len word \<Rightarrow> nat" where
  "calculate_varlen_sint_size value =
     calculate_varlen_int_size (get_signed_representation_as_unsigned value)"

definition insert_varlen_int_to_byte_span_checked ::
    "'a::len word \<Rightarrow> byte_span \<Rightarrow> byte_span option" where
  "insert_varlen_int_to_byte_span_checked value remainder =
     (let num_bytes = calculate_varlen_int_size value in
      if span_size remainder < num_bytes then None
      else
        let value_cpy = ucast value :: uint64;
            first_byte = ucast ((push_bit (num_bytes - 1) 1 - 1) OR push_bit num_bytes value_cpy) :: uint8;
            remainder' = write_bytes [first_byte] remainder
        in if num_bytes = 1 then Some remainder'
           else
             let value_cpy' = (if num_bytes < 8 then drop_bit (8 - num_bytes) value_cpy else value_cpy)
             in Some (write_bytes (le_of_nat (num_bytes - 1) (unat value_cpy')) remainder'))"

definition insert_varlen_sint_to_byte_span_checked ::
    "'a::len word \<Rightarrow> byte_span \<Rightarrow> byte_span option" where
  "insert_varlen_sint_to_byte_span_checked value remainder =
     insert_varlen_int_to_byte_span_checked (get_signed_representation_as_unsigned value) remainder"

section \<open>Writing and reading back\<close>

lemma write_bytes_write_bytes [simp]: "write_bytes ys (write_bytes xs s) = write_bytes (xs @ ys) s"
  by (simp add: write_bytes_def add.commute)

lemma write_bytes_Nil [simp]: "write_bytes [] s = s"
  by (simp add: write_bytes_def)

lemma fst_write_bytes [simp]: "fst (write_bytes bs s) = fst s @ bs"
  by (simp add: write_bytes_def)

lemma snd_write_bytes [simp]: "snd (write_bytes bs s) = drop (length bs) (snd s)"
  by (simp add: write_bytes_def)

lemma read_fixed_int_append:
  "length bs = n \<Longrightarrow> read_fixed_int n (bs @ r) = (of_nat (nat_of_le bs), r)"
  by (simp add: read_fixed_int_def)

lemma read_fixed_int_le [codec_simps]:
  "unat v < 256 ^ n \<Longrightarrow> read_fixed_int n (le_of_nat n (unat v) @ r) = (v, r)"
  by (simp add: read_fixed_int_append nat_of_le_eq)

lemma extract_fixed_append [codec_simps]:
  "unat v < 256 ^ n \<Longrightarrow>
   extract_fixed_int_from_byte_span_checked n (le_of_nat n (unat v) @ r) = Some (v, r)"
  by (simp add: extract_fixed_int_from_byte_span_checked_def read_fixed_int_le)

lemma extract_fixed_None_iff:
  "extract_fixed_int_from_byte_span_checked n r = None \<longleftrightarrow> length r < n"
  by (simp add: extract_fixed_int_from_byte_span_checked_def)

lemma extract_one_byte [simp]:
  "extract_fixed_int_from_byte_span_checked (Suc 0) (b # r) = Some (b :: uint8, r)"
  by (simp add: extract_fixed_int_from_byte_span_checked_def read_fixed_int_def)

text \<open>
  The contract every integer codec of the two headers keeps: inserting a valid value appends
  exactly its encoding (or fails, leaving the range alone, when the room is too small), and
  extracting from a range that starts with the encoding yields the value and the rest.
\<close>

locale checked_codec =
  fixes valid :: "'v \<Rightarrow> bool"
    and encoded_size :: "'v \<Rightarrow> nat"
    and bytes :: "'v \<Rightarrow> byte list"
    and put :: "'v \<Rightarrow> byte_span \<Rightarrow> byte_span option"
    and get :: "const_byte_span \<Rightarrow> ('v \<times> const_byte_span) option"
  assumes put_eq: "valid v \<Longrightarrow>
      put v s = (if span_size s < encoded_size v then None else Some (write_bytes (bytes v) s))"
    and length_bytes: "valid v \<Longrightarrow> length (bytes v) = encoded_size v"
    and get_bytes: "valid v \<Longrightarrow> get (bytes v @ r) = Some (v, r)"
begin

text \<open>What was inserted is what the reader gets back, followed by whatever comes after it.\<close>

lemma put_get:
  "valid v \<Longrightarrow> put v s = Some s' \<Longrightarrow>
   get (drop (length (fst s)) (fst s' @ r)) = Some (v, r)"
  by (auto simp: put_eq get_bytes split: if_splits)

lemma put_fails_iff: "valid v \<Longrightarrow> put v s = None \<longleftrightarrow> span_size s < encoded_size v"
  by (auto simp: put_eq)

lemma put_conserves_buffer:
  "valid v \<Longrightarrow> put v s = Some s' \<Longrightarrow>
   length (fst s') + span_size s' = length (fst s) + span_size s"
  by (auto simp: put_eq length_bytes split: if_splits)

text \<open>No encoding is a prefix of the encoding of another value.\<close>

lemma bytes_prefix_free:
  "valid v \<Longrightarrow> valid w \<Longrightarrow> bytes v @ r = bytes w @ r' \<Longrightarrow> v = w \<and> r = r'"
  by (metis get_bytes option.inject prod.inject)

end

section \<open>Fixed-width integers\<close>

abbreviation fits_in_bytes :: "nat \<Rightarrow> 'a::len word \<Rightarrow> bool" where
  "fits_in_bytes n v \<equiv> unat v < 256 ^ n"

interpretation fixed: checked_codec
  "fits_in_bytes n" "\<lambda>_. n" "\<lambda>v. le_of_nat n (unat v)"
  "insert_fixed_int_to_byte_span_checked n" "extract_fixed_int_from_byte_span_checked n" for n
proof (unfold_locales, goal_cases)
  case (1 v s)
  show ?case by (simp add: insert_fixed_int_to_byte_span_checked_def)
next
  case (2 v)
  show ?case by simp
next
  case (3 v r)
  then show ?case by (rule extract_fixed_append)
qed

lemma uint64_fits [simp]: "fits_in_bytes 8 (v :: uint64)"
  using unsigned_less [of v] by simp

lemma uint32_fits [simp]: "fits_in_bytes 4 (v :: uint32)"
  using unsigned_less [of v] by simp

lemma uint16_fits [simp]: "fits_in_bytes 2 (v :: uint16)"
  using unsigned_less [of v] by simp

lemma extract_fixed_uint64 [simp]:
  "extract_fixed_int_from_byte_span_checked 8 (le_of_nat 8 (unat v) @ r) = Some (v :: uint64, r)"
  by (rule extract_fixed_append [OF uint64_fits])

lemma extract_fixed_uint32 [simp]:
  "extract_fixed_int_from_byte_span_checked 4 (le_of_nat 4 (unat v) @ r) = Some (v :: uint32, r)"
  by (rule extract_fixed_append [OF uint32_fits])

section \<open>Packed integers\<close>

definition packed_int_bytes :: "uint64 \<Rightarrow> byte list" where
  "packed_int_bytes v =
     (if v < 251 then [ucast v]
      else if v < 2 ^ 16 then 252 # le_of_nat 2 (unat v)
      else if v < 2 ^ 24 then 253 # le_of_nat 3 (unat v)
      else 254 # le_of_nat 8 (unat v))"

lemma extract_packed_Cons:
  "extract_packed_int_from_byte_span_checked (b # r) =
     (if b = 251 then Some (- 1, r)
      else if b = 252 then extract_fixed_int_from_byte_span_checked 2 r
      else if b = 253 then extract_fixed_int_from_byte_span_checked 3 r
      else if b = 254 then extract_fixed_int_from_byte_span_checked 8 r
      else if b = 255 then None else Some (ucast b, r))"
  by (simp add: extract_packed_int_from_byte_span_checked_def)

lemma small_uint64_as_byte:
  assumes "v < (251 :: uint64)"
  shows "ucast (ucast v :: uint8) = v" and "unat (ucast v :: uint8) = unat v"
    and "unat (ucast v :: uint8) < 251"
  using assms by (simp_all add: word_less_nat_alt word_unat_eq_iff unat_ucast_mod)

lemma extract_packed_bytes:
  "extract_packed_int_from_byte_span_checked (packed_int_bytes v @ r) = Some (v, r)"
proof -
  have fits: "v < 2 ^ 16 \<Longrightarrow> fits_in_bytes 2 v" "v < 2 ^ 24 \<Longrightarrow> fits_in_bytes 3 v"
    by (simp_all add: word_less_nat_alt)
  show ?thesis
  proof (cases "v < 251")
    case True
    note facts = small_uint64_as_byte [OF True]
    have "(ucast v :: uint8) \<noteq> m" if "m \<in> {251, 252, 253, 254, 255}" for m
      using facts(3) that by (auto simp: word_unat_eq_iff)
    then show ?thesis
      using True facts(1) by (simp add: packed_int_bytes_def extract_packed_Cons)
  next
    case False
    then show ?thesis
      using fits by (simp add: packed_int_bytes_def extract_packed_Cons extract_fixed_append)
  qed
qed

lemma length_packed_int_bytes [codec_simps]:
  "length (packed_int_bytes v) = calculate_packed_int_size v"
  by (simp add: packed_int_bytes_def calculate_packed_int_size_def)

lemma insert_packed_eq:
  "insert_packed_int_to_byte_span_checked v s =
     (if span_size s < calculate_packed_int_size v then None
      else Some (write_bytes (packed_int_bytes v) s))"
  by (simp add: insert_packed_int_to_byte_span_checked_def calculate_packed_int_size_def
      packed_int_bytes_def Let_def)

interpretation packed: checked_codec
  "\<lambda>_. True" calculate_packed_int_size packed_int_bytes
  insert_packed_int_to_byte_span_checked extract_packed_int_from_byte_span_checked
  by unfold_locales (simp_all only: insert_packed_eq length_packed_int_bytes extract_packed_bytes)

section \<open>Variable-length integers\<close>

text \<open>
  The size formula multiplies the bit width by 575 and shifts by 12 bits; it agrees with the
  format's rule of seven payload bits per byte, capped at nine bytes.
\<close>

lemma bit_width_nat_le_iff: "bit_width_nat n \<le> k \<longleftrightarrow> n < 2 ^ k"
proof (induction n arbitrary: k rule: bit_width_nat.induct)
  case (1 n)
  show ?case
  proof (cases "n = 0")
    case False
    then have unfold: "bit_width_nat n = Suc (bit_width_nat (n div 2))"
      by (subst bit_width_nat.simps) simp
    show ?thesis
    proof (cases k)
      case 0
      with False unfold show ?thesis by simp
    next
      case (Suc j)
      have "bit_width_nat n \<le> k \<longleftrightarrow> n div 2 < 2 ^ j"
        using False "1.IH" [of j] unfold Suc by simp
      also have "\<dots> \<longleftrightarrow> n < 2 ^ k"
        using Suc by auto
      finally show ?thesis .
    qed
  qed (simp add: bit_width_nat.simps)
qed

lemma bit_width_word_le: "bit_width_nat (unat (w :: 'a::len word)) \<le> LENGTH('a)"
  by (simp add: bit_width_nat_le_iff unsigned_less)

lemma varlen_size_table:
  assumes "b \<le> 64"
  shows "drop_bit 12 (b * 575) + 1 = (if b = 0 then 1 else min 9 ((b + 6) div 7) :: nat)"
proof (cases "b = 0 \<or> b = 64")
  case False
  define k where "k = (b - 1) div 7"
  define r where "r = b - 7 * k"
  have b: "b = 7 * k + r" and r: "1 \<le> r" "r \<le> 7" and k: "k \<le> 8"
    using False assms unfolding k_def r_def by auto
  have "b * 575 div 4096 = k"
    using b r k by (intro div_nat_eqI) auto
  moreover have "(b + 6) div 7 = k + 1"
    using b r by (intro div_nat_eqI) auto
  ultimately show ?thesis
    using False k by (simp add: drop_bit_eq_div)
qed (auto simp: drop_bit_eq_div)

lemma calculate_varlen_int_size_eq:
  assumes "LENGTH('a::len) \<le> 64"
  shows "calculate_varlen_int_size (v :: 'a word) =
     (if v = 0 then 1 else min 9 ((bit_width_nat (unat v) + 6) div 7))"
proof -
  have "bit_width_nat (unat v) \<le> 64"
    using bit_width_word_le [of v] assms by simp
  moreover have "bit_width_nat (unat v) = 0 \<longleftrightarrow> v = 0"
    using bit_width_nat_le_iff [of "unat v" 0] by (simp add: unat_eq_0)
  ultimately show ?thesis
    using varlen_size_table [of "bit_width_nat (unat v)"]
    by (simp add: calculate_varlen_int_size_def Let_def)
qed

lemma varlen_size_bounds:
  assumes "LENGTH('a::len) \<le> 64"
  shows "1 \<le> calculate_varlen_int_size (v :: 'a word)" and "calculate_varlen_int_size v \<le> 9"
    and "calculate_varlen_int_size v \<le> 8 \<Longrightarrow> unat v < 2 ^ (7 * calculate_varlen_int_size v)"
proof -
  let ?w = "bit_width_nat (unat v)"
  have nz: "?w = 0 \<longleftrightarrow> v = 0"
    using bit_width_nat_le_iff [of "unat v" 0] by (simp add: unat_eq_0)
  show "1 \<le> calculate_varlen_int_size v" and "calculate_varlen_int_size v \<le> 9"
    using nz by (auto simp: calculate_varlen_int_size_eq [OF assms])
  assume "calculate_varlen_int_size v \<le> 8"
  then have "?w \<le> 7 * calculate_varlen_int_size v"
    using nz by (auto simp: calculate_varlen_int_size_eq [OF assms] min_def split: if_splits)
  then show "unat v < 2 ^ (7 * calculate_varlen_int_size v)"
    by (simp only: bit_width_nat_le_iff)
qed

definition varlen_first_byte :: "nat \<Rightarrow> uint64 \<Rightarrow> uint8" where
  "varlen_first_byte n x = ucast ((push_bit (n - 1) 1 - 1) OR push_bit n x)"

lemma bit_varlen_first_byte:
  assumes "1 \<le> n" and "n \<le> 9"
  shows "bit (varlen_first_byte n x) i \<longleftrightarrow> i < 8 \<and> (i < n - 1 \<or> n \<le> i \<and> bit x (i - n))"
proof -
  have "push_bit (n - 1) 1 - 1 = (mask (n - 1) :: uint64)"
    by (simp add: mask_eq_exp_minus_1)
  then show ?thesis
    unfolding varlen_first_byte_def using assms by (auto simp: bit_simps)
qed

lemma countr_one_eq:
  assumes "k \<le> 8" and "\<And>i. i < k \<Longrightarrow> bit b i" and "k < 8 \<Longrightarrow> \<not> bit b k"
  shows "countr_one b = k"
proof -
  have split: "[0..<8] = [0..<k] @ [k..<8]"
    using assms(1) by (metis le_add_diff_inverse upt_add_eq_append zero_le)
  have "takeWhile (bit b) ([0..<k] @ [k..<8]) = [0..<k] @ takeWhile (bit b) [k..<8]"
    using assms(2) by (intro takeWhile_append2) auto
  moreover have "takeWhile (bit b) [k..<8] = []"
    using assms(3) by (cases "k < 8") (auto simp: upt_conv_Cons)
  ultimately show ?thesis
    unfolding countr_one_def split by simp
qed

lemma countr_one_varlen_first_byte:
  "1 \<le> n \<Longrightarrow> n \<le> 9 \<Longrightarrow> countr_one (varlen_first_byte n x) = n - 1"
  by (rule countr_one_eq) (auto simp: bit_varlen_first_byte)

lemma drop_bit_varlen_first_byte:
  assumes "1 \<le> n" and "n \<le> 9"
  shows "drop_bit n (varlen_first_byte n x) = ucast (take_bit (8 - n) x)"
  using assms by (intro bit_eqI) (auto simp: bit_simps bit_varlen_first_byte)

definition varlen_tail :: "nat \<Rightarrow> uint64 \<Rightarrow> uint64" where
  "varlen_tail n x = (if n < 8 then drop_bit (8 - n) x else x)"

lemma varlen_tail_fits:
  assumes "1 \<le> n" and "n \<le> 9" and "n \<le> 8 \<Longrightarrow> unat x < 2 ^ (7 * n)"
  shows "fits_in_bytes (n - 1) (varlen_tail n x)"
proof (cases "n < 8")
  case True
  have e: "7 * n = (8 - n) + 8 * (n - 1)" using assms(1) True by simp
  have "unat x div 2 ^ (8 - n) < 2 ^ (8 * (n - 1))"
    using assms(3) True unfolding e power_add by (simp add: less_mult_imp_div_less mult.commute)
  moreover have "unat (drop_bit (8 - n) x) = unat x div 2 ^ (8 - n)"
    by (subst unat_drop_bit_eq) (simp only: drop_bit_eq_div)
  ultimately show ?thesis
    using True by (simp add: varlen_tail_def power_mult del: drop_bit_eq_div)
next
  case False
  then have "n = 8 \<or> n = 9" using assms(2) by auto
  then show ?thesis
    using assms(3) uint64_fits [of x] by (auto simp: varlen_tail_def)
qed

definition varlen_int_bytes :: "'a::len word \<Rightarrow> byte list" where
  "varlen_int_bytes v =
     (let n = calculate_varlen_int_size v
      in varlen_first_byte n (ucast v) # le_of_nat (n - 1) (unat (varlen_tail n (ucast v))))"

lemma length_varlen_int_bytes:
  "LENGTH('a::len) \<le> 64 \<Longrightarrow> length (varlen_int_bytes (v :: 'a word)) = calculate_varlen_int_size v"
  using varlen_size_bounds(1) [of v] by (simp add: varlen_int_bytes_def Let_def)

lemma insert_varlen_eq:
  "insert_varlen_int_to_byte_span_checked v s =
     (if span_size s < calculate_varlen_int_size v then None
      else Some (write_bytes (varlen_int_bytes v) s))"
  by (simp add: insert_varlen_int_to_byte_span_checked_def varlen_int_bytes_def Let_def
      varlen_first_byte_def varlen_tail_def)

lemma extract_varlen_Cons:
  "extract_varlen_int_from_byte_span_checked (b # r) =
     (let n = countr_one b + 1 in
      if n > Suc (length r) then None
      else if n = 1 then Some (ucast (drop_bit n b) :: 'a::len word, r)
      else let x = (if n < 8 then push_bit (8 - n) else id) (fst (read_fixed_int (n - 1) r) :: uint64)
           in if unat x > 2 ^ LENGTH('a) - 1 then None
              else Some (ucast (drop_bit n b) OR ucast x, drop (n - 1) r))"
  by (simp add: extract_varlen_int_from_byte_span_checked_def Let_def read_fixed_int_def)

lemma varlen_recombine:
  fixes x :: uint64
  assumes "1 \<le> n"
  shows "take_bit (8 - n) x OR (if n < 8 then push_bit (8 - n) else id) (varlen_tail n x) = x"
proof (cases "n < 8")
  case True
  have "take_bit k x OR push_bit k (drop_bit k x) = x" for k
  proof (rule bit_eqI)
    fix i
    show "bit (take_bit k x OR push_bit k (drop_bit k x)) i = bit x i"
      by (cases "i < k") (auto simp: bit_simps dest: bit_imp_le_length)
  qed
  with True show ?thesis by (simp add: varlen_tail_def del: drop_bit_eq_div push_bit_eq_mult)
qed (simp add: varlen_tail_def)

lemma extract_varlen_bytes:
  assumes len: "LENGTH('a::len) \<le> 64"
  shows "extract_varlen_int_from_byte_span_checked (varlen_int_bytes (v :: 'a word) @ r) = Some (v, r)"
proof -
  define n where "n = calculate_varlen_int_size v"
  define x where "x = (ucast v :: uint64)"
  define y where "y = (if n < 8 then push_bit (8 - n) else id) (varlen_tail n x)"
  have ux: "unat x = unat v"
  proof -
    have "unat v < 2 ^ LENGTH('a)" by (rule unsigned_less)
    also have "\<dots> \<le> 2 ^ 64" using len by (intro power_increasing) auto
    finally show ?thesis by (simp add: x_def unat_ucast_mod)
  qed
  have n: "1 \<le> n" "n \<le> 9" "n \<le> 8 \<Longrightarrow> unat x < 2 ^ (7 * n)"
    using varlen_size_bounds [OF len, of v] ux by (simp_all add: n_def)
  have vx: "ucast x = v"
    using ux by (simp add: word_unat_eq_iff unat_ucast_mod unsigned_less)
  have parts: "take_bit (8 - n) x OR y = x"
    unfolding y_def by (rule varlen_recombine [OF n(1)])
  have "y \<le> x"
    using le_word_or2 [of y "take_bit (8 - n) x"] parts by (simp add: or.commute)
  then have "unat y \<le> unat v" using ux by (simp add: word_le_nat_alt)
  moreover have "unat v < 2 ^ LENGTH('a)" by (rule unsigned_less)
  ultimately have small: "unat y \<le> 2 ^ LENGTH('a) - 1" by linarith
  have "ucast (ucast (take_bit (8 - n) x) :: uint8) = (ucast (take_bit (8 - n) x) :: 'a word)"
    using n(1) by (intro bit_word_eqI) (auto simp: bit_simps)
  then have whole: "ucast (ucast (take_bit (8 - n) x) :: uint8) OR ucast y = v"
    using parts vx by (metis unsigned_or_eq)
  have "n = Suc 0 \<Longrightarrow> y = 0"
    using varlen_tail_fits [OF n] by (simp add: y_def unat_eq_0)
  with whole have short: "n = Suc 0 \<Longrightarrow> ucast (ucast (take_bit 7 x) :: uint8) = v"
    by auto
  have read: "fst (read_fixed_int (n - Suc 0) (le_of_nat (n - Suc 0) (unat (varlen_tail n x)) @ r)) =
      varlen_tail n x"
    using read_fixed_int_le [OF varlen_tail_fits [OF n], of r] by simp
  have "varlen_int_bytes v @ r = varlen_first_byte n x # (le_of_nat (n - 1) (unat (varlen_tail n x)) @ r)"
    by (simp add: varlen_int_bytes_def n_def x_def Let_def)
  moreover have "Suc (countr_one (varlen_first_byte n x)) = n"
    using n by (simp add: countr_one_varlen_first_byte)
  ultimately show ?thesis
    using n small whole short
    by (simp add: extract_varlen_Cons read drop_bit_varlen_first_byte Let_def flip: y_def)
qed

lemma zigzag_inverse:
  fixes v :: "'a::len word"
  defines "r \<equiv> get_signed_representation_as_unsigned v"
  shows "drop_bit 1 r XOR (if r AND 1 \<noteq> 0 then - 1 else 0) = v"
proof -
  define m where "m = (if sint v < 0 then - 1 else 0 :: 'a word)"
  have r: "r = push_bit 1 (v XOR m) OR (m AND 1)"
    by (simp add: r_def get_signed_representation_as_unsigned_def m_def Let_def)
  have "r AND 1 \<noteq> 0 \<longleftrightarrow> bit r 0"
    by (simp add: and_one_eq odd_iff_mod_2_eq_one bit_0)
  also have "\<dots> \<longleftrightarrow> bit m 0"
    by (simp only: r bit_or_iff bit_and_iff bit_push_bit_iff bit_1_iff) simp
  also have "\<dots> \<longleftrightarrow> sint v < 0"
    by (simp add: m_def)
  finally have mask: "(if r AND 1 \<noteq> 0 then - 1 else 0) = m"
    by (simp add: m_def)
  have rS: "bit r (Suc i) \<longleftrightarrow> Suc i < LENGTH('a) \<and> bit (v XOR m) i" for i
    by (simp only: r bit_or_iff bit_and_iff bit_push_bit_iff bit_1_iff) auto
  have top: "bit (v XOR m) (LENGTH('a) - Suc 0) = False"
    unfolding bit_xor_iff by (simp add: bit_last_iff m_def)
  have "bit (drop_bit 1 r XOR m) i = bit v i" if "i < LENGTH('a)" for i
  proof -
    have "bit (drop_bit 1 r) i \<longleftrightarrow> bit (v XOR m) i"
      using rS [of i] top that by (cases "Suc i < LENGTH('a)") (auto simp: bit_drop_bit_eq not_less_eq less_Suc_eq)
    then show ?thesis by (auto simp: bit_xor_iff)
  qed
  then show ?thesis unfolding mask by (rule bit_word_eqI)
qed


text \<open>The codecs serve every width up to 64 bits, so the width is the validity condition.\<close>

interpretation varlen: checked_codec
  "\<lambda>_ :: 'a::len word. LENGTH('a) \<le> 64" calculate_varlen_int_size varlen_int_bytes
  insert_varlen_int_to_byte_span_checked extract_varlen_int_from_byte_span_checked
  by unfold_locales (simp_all only: insert_varlen_eq length_varlen_int_bytes extract_varlen_bytes)

interpretation varlen_signed: checked_codec
  "\<lambda>_ :: 'a::len word. LENGTH('a) \<le> 64" calculate_varlen_sint_size
  "\<lambda>v. varlen_int_bytes (get_signed_representation_as_unsigned v)"
  insert_varlen_sint_to_byte_span_checked extract_varlen_sint_from_byte_span_checked
proof (unfold_locales, goal_cases)
  case (1 v s)
  show ?case
    by (simp add: insert_varlen_sint_to_byte_span_checked_def insert_varlen_eq calculate_varlen_sint_size_def)
next
  case (2 v)
  then show ?case by (simp add: length_varlen_int_bytes calculate_varlen_sint_size_def)
next
  case (3 v r)
  then show ?case
    using zigzag_inverse [of v]
    by (simp add: extract_varlen_sint_from_byte_span_checked_def extract_varlen_bytes Let_def
        del: drop_bit_eq_div)
qed

section \<open>Properties of the integer codecs\<close>

text \<open>
  A variable-length integer of any width up to 64 bits that was inserted into a byte range is
  read back by the extractor as the same value, and the extractor stops exactly where the
  inserter stopped.
\<close>

lemma varlen_int_roundtrip:
  fixes v :: "'a::len word"
  assumes "LENGTH('a) \<le> 64" and "insert_varlen_int_to_byte_span_checked v s = Some s'"
  shows "extract_varlen_int_from_byte_span_checked (drop (length (fst s)) (fst s' @ r)) = Some (v, r)"
  using assms by (rule varlen.put_get)

text \<open>
  The inserter of variable-length integers succeeds exactly when the room is at least the size
  of the format (seven payload bits per byte, at least one byte and at most nine), and then it
  writes exactly that many bytes: the multiplication by 575 and the shift by 12 compute the right
  size for every value of every width up to 64 bits.
\<close>

theorem varlen_int_size_correct:
  fixes v :: "'a::len word"
  assumes "LENGTH('a) \<le> 64"
    and "n = (if v = 0 then 1 else min 9 ((bit_width_nat (unat v) + 6) div 7))"
  shows "map_option (length \<circ> fst) (insert_varlen_int_to_byte_span_checked v s) =
         (if span_size s < n then None else Some (length (fst s) + n))"
proof -
  have "n = calculate_varlen_int_size v"
    using assms by (simp only: calculate_varlen_int_size_eq)
  then show ?thesis
    using length_varlen_int_bytes [OF assms(1), of v] by (simp add: insert_varlen_eq)
qed

theorem varlen_int_size_correct_witness:
  "map_option (length \<circ> fst) (insert_varlen_int_to_byte_span_checked (803 :: uint32) ([9], [0, 0])) =
   Some 3"
proof -
  have n: "(2 :: nat) = (if (803 :: uint32) = 0 then 1 else min 9 ((bit_width_nat (unat (803 :: uint32)) + 6) div 7))"
    by code_simp
  show ?thesis
    using varlen_int_size_correct [OF _ n, of "([9], [0, 0])"] by (simp add: numeral_3_eq_3)
qed

text \<open>
  Signed integers survive the zigzag representation: what the signed inserter wrote, the
  signed extractor reads back, for every two's complement value of every width up to 64 bits.
\<close>

theorem varlen_sint_roundtrip:
  fixes v :: "'a::len word"
  assumes "LENGTH('a) \<le> 64" and "insert_varlen_sint_to_byte_span_checked v s = Some s'"
  shows "extract_varlen_sint_from_byte_span_checked (drop (length (fst s)) (fst s' @ r)) = Some (v, r)"
  using assms by (rule varlen_signed.put_get)

theorem varlen_sint_roundtrip_witness:
  "extract_varlen_sint_from_byte_span_checked [0x0D, 0x02, 7] = Some (- 66 :: uint32, [7])"
proof -
  have ins: "insert_varlen_sint_to_byte_span_checked (- 66 :: uint32) ([], [0, 0]) = Some ([0x0D, 0x02], [])"
    by code_simp
  show ?thesis
    using varlen_sint_roundtrip [OF _ ins, of "[7]"] by simp
qed

text \<open>
  MySQL packed integers: the inserter fails exactly when the room is smaller than the
  calculated size, and otherwise the extractor reads the inserted value back from what was
  written, whatever follows it.
\<close>

theorem packed_int_roundtrip:
  "case insert_packed_int_to_byte_span_checked v s of
     None \<Rightarrow> span_size s < calculate_packed_int_size v
   | Some s' \<Rightarrow> length (fst s') = length (fst s) + calculate_packed_int_size v
       \<and> extract_packed_int_from_byte_span_checked (drop (length (fst s)) (fst s' @ r)) = Some (v, r)"
proof (cases "insert_packed_int_to_byte_span_checked v s")
  case None
  then have "span_size s < calculate_packed_int_size v" by (simp add: packed.put_fails_iff)
  with None show ?thesis by simp
next
  case (Some s')
  moreover have "length (fst s') = length (fst s) + calculate_packed_int_size v"
    using Some packed.put_eq packed.length_bytes by (auto split: if_splits)
  ultimately show ?thesis
    using packed.put_get [OF _ Some, of r] by simp
qed

end
