(* ===== verification/Text.thy ===== *)
theory Text
  imports Prelude
begin

text \<open>
  Text handling: the character classes of \<open><cctype>\<close> (in the C locale), \<open>std::to_string\<close> of an
  unsigned integer, and the recursive-descent helpers of \<open>util/bnf_parser_helpers.hpp\<close>. A parser
  takes the rest of the input and returns it advanced; the throwing helpers are results, the
  boolean ones (suffix \<open>_ex\<close>) are options. The lemmas say how far each helper advances and that
  decimal text reads back as the number it was printed from.
\<close>

section \<open>Character classes\<close>

abbreviation char_code :: "char \<Rightarrow> nat" where
  "char_code c \<equiv> of_char c"

definition isdigit :: "char \<Rightarrow> bool" where
  "isdigit c \<longleftrightarrow> 48 \<le> char_code c \<and> char_code c \<le> 57"

definition isupper_char :: "char \<Rightarrow> bool" where
  "isupper_char c \<longleftrightarrow> 65 \<le> char_code c \<and> char_code c \<le> 90"

definition islower_char :: "char \<Rightarrow> bool" where
  "islower_char c \<longleftrightarrow> 97 \<le> char_code c \<and> char_code c \<le> 122"

definition isalpha :: "char \<Rightarrow> bool" where
  "isalpha c \<longleftrightarrow> isupper_char c \<or> islower_char c"

definition isalnum :: "char \<Rightarrow> bool" where
  "isalnum c \<longleftrightarrow> isalpha c \<or> isdigit c"

definition isxdigit :: "char \<Rightarrow> bool" where
  "isxdigit c \<longleftrightarrow> isdigit c \<or> 65 \<le> char_code c \<and> char_code c \<le> 70
                 \<or> 97 \<le> char_code c \<and> char_code c \<le> 102"

definition isspace :: "char \<Rightarrow> bool" where
  "isspace c \<longleftrightarrow> char_code c = 32 \<or> 9 \<le> char_code c \<and> char_code c \<le> 13"

lemmas ctype_defs =
  isdigit_def isupper_char_def islower_char_def isalpha_def isalnum_def isxdigit_def isspace_def

section \<open>Decimal text\<close>

definition digit_char :: "nat \<Rightarrow> char" where
  "digit_char d = char_of (48 + d)"

fun to_string :: "nat \<Rightarrow> string" where
  "to_string n = (if n < 10 then [digit_char n] else to_string (n div 10) @ [digit_char (n mod 10)])"

declare to_string.simps [simp del]

primrec decimal_value :: "nat \<Rightarrow> string \<Rightarrow> nat" where
  "decimal_value acc [] = acc"
| "decimal_value acc (c # cs) = decimal_value (10 * acc + (char_code c - 48)) cs"

lemma char_code_digit_char [simp]: "d < 10 \<Longrightarrow> char_code (digit_char d) = 48 + d"
  by (simp add: digit_char_def)

lemma isdigit_digit_char [simp]: "d < 10 \<Longrightarrow> isdigit (digit_char d)"
  by (simp add: isdigit_def)

lemma to_string_digits: "c \<in> set (to_string n) \<Longrightarrow> isdigit c"
proof (induction n rule: to_string.induct)
  case (1 n)
  show ?case
    using 1 by (cases "n < 10") (auto simp: to_string.simps [of n])
qed

lemma to_string_nonempty [simp]: "to_string n \<noteq> []"
  by (simp add: to_string.simps [of n])

lemma decimal_value_append: "decimal_value acc (xs @ ys) = decimal_value (decimal_value acc xs) ys"
  by (induction xs arbitrary: acc) auto

lemma decimal_value_to_string: "decimal_value 0 (to_string n) = n"
proof (induction n rule: to_string.induct)
  case (1 n)
  show ?case
    using 1 by (cases "n < 10") (simp_all add: to_string.simps [of n] decimal_value_append)
qed

section \<open>Parser helpers\<close>

definition check_character :: "string \<Rightarrow> char \<Rightarrow> bool" where
  "check_character remainder expected_character \<longleftrightarrow>
     (if remainder = [] then False else hd remainder = expected_character)"

definition parse_character_ex :: "string \<Rightarrow> char \<Rightarrow> (char \<times> string) option" where
  "parse_character_ex remainder expected_character =
     (if \<not> check_character remainder expected_character then None
      else Some (expected_character, tl remainder))"

definition parse_character :: "string \<Rightarrow> char \<Rightarrow> (char \<times> string) result" where
  "parse_character remainder expected_character =
     or_raise (parse_character_ex remainder expected_character)
       (Invalid_argument ''character does not match the expected one'')"

definition check_character_predicate :: "string \<Rightarrow> (char \<Rightarrow> bool) \<Rightarrow> bool" where
  "check_character_predicate remainder predicate \<longleftrightarrow>
     (if remainder = [] then False else predicate (hd remainder))"

definition parse_character_predicate_ex :: "string \<Rightarrow> (char \<Rightarrow> bool) \<Rightarrow> (char \<times> string) option" where
  "parse_character_predicate_ex remainder predicate =
     (if \<not> check_character_predicate remainder predicate then None
      else Some (hd remainder, tl remainder))"

definition parse_character_predicate :: "string \<Rightarrow> (char \<Rightarrow> bool) \<Rightarrow> (char \<times> string) result" where
  "parse_character_predicate remainder predicate =
     or_raise (parse_character_predicate_ex remainder predicate)
       (Invalid_argument ''character does not satisfy the specified predicate'')"

lemma parse_character_ex_simps [simp]:
  "parse_character_ex [] c = None"
  "parse_character_ex (d # r) c = (if d = c then Some (c, r) else None)"
  by (auto simp: parse_character_ex_def check_character_def)

lemma parse_character_simps [simp]:
  "parse_character (c # r) c = Inr (c, r)"
  by (simp add: parse_character_def)

lemma parse_character_predicate_ex_simps [simp]:
  "parse_character_predicate_ex [] P = None"
  "parse_character_predicate_ex (c # r) P = (if P c then Some (c, r) else None)"
  by (auto simp: parse_character_predicate_ex_def check_character_predicate_def)

lemma check_character_predicate_simps [simp]:
  "check_character_predicate [] P = False"
  "check_character_predicate (c # r) P = P c"
  by (auto simp: check_character_predicate_def)

lemma parse_character_predicate_Cons [simp]:
  "P c \<Longrightarrow> parse_character_predicate (c # r) P = Inr (c, r)"
  by (simp add: parse_character_predicate_def)

lemma parse_character_Inr:
  "parse_character r c = Inr (d, r') \<longleftrightarrow> d = c \<and> r = c # r'"
  by (cases r) (auto simp: parse_character_def)

lemma parse_character_ex_Some: "parse_character_ex r c = Some (d, r') \<longleftrightarrow> d = c \<and> r = c # r'"
  by (cases r) auto

lemma parse_character_predicate_Inr:
  "parse_character_predicate r P = Inr (d, r') \<longleftrightarrow> P d \<and> r = d # r'"
  by (cases r) (auto simp: parse_character_predicate_def)

end
