(* ===== verification/Interval_Set.thy ===== *)
theory Interval_Set
  imports Prelude
begin

text \<open>
  The interface of \<open>boost::icl::interval_set<gno_t>\<close>, the third-party container in which a GTID
  set keeps its transaction numbers. The container is a parameter of the model: \<open>icl\<close> is the
  record of the operations the sources call, and the locale \<open>icl_interval_set\<close> lists what the
  library documents about them (an interval set denotes a set of elements and stores it as the
  sorted sequence of its maximal, disjoint, non-touching right-open intervals). The interval
  lists at the end are an executable container with these laws.
\<close>

type_synonym gno_t = "64 word"

record 'c icl =
  icl_empty :: 'c
  icl_insert :: "gno_t \<Rightarrow> gno_t \<Rightarrow> 'c \<Rightarrow> 'c"
  icl_erase :: "gno_t \<Rightarrow> gno_t \<Rightarrow> 'c \<Rightarrow> 'c"
  icl_add :: "'c \<Rightarrow> 'c \<Rightarrow> 'c"
  icl_subtract :: "'c \<Rightarrow> 'c \<Rightarrow> 'c"
  icl_contains :: "'c \<Rightarrow> gno_t \<Rightarrow> bool"
  icl_intersects :: "'c \<Rightarrow> 'c \<Rightarrow> bool"
  icl_is_empty :: "'c \<Rightarrow> bool"
  icl_intervals :: "'c \<Rightarrow> (gno_t \<times> gno_t) list"
  icl_equal :: "'c \<Rightarrow> 'c \<Rightarrow> bool"

text \<open>The elements of a list of right-open intervals, and the canonical lists.\<close>

definition ivl_elems :: "(gno_t \<times> gno_t) list \<Rightarrow> gno_t set" where
  "ivl_elems xs = (\<Union>(lo, up) \<in> set xs. {lo..<up})"

fun ivl_canonical :: "(gno_t \<times> gno_t) list \<Rightarrow> bool" where
  "ivl_canonical [] = True"
| "ivl_canonical [(a, b)] = (a < b)"
| "ivl_canonical ((a, b) # (c, d) # xs) = (a < b \<and> b < c \<and> ivl_canonical ((c, d) # xs))"

abbreviation icl_elems :: "'c icl \<Rightarrow> 'c \<Rightarrow> gno_t set" where
  "icl_elems I c \<equiv> ivl_elems (icl_intervals I c)"

locale icl_interval_set =
  fixes I :: "'c icl" and invar :: "'c \<Rightarrow> bool"
  assumes icl_canonical: "invar c \<Longrightarrow> ivl_canonical (icl_intervals I c)"
    and icl_invar_empty: "invar (icl_empty I)"
    and icl_elems_empty: "icl_elems I (icl_empty I) = {}"
    and icl_invar_insert: "invar c \<Longrightarrow> invar (icl_insert I lo up c)"
    and icl_elems_insert: "invar c \<Longrightarrow> icl_elems I (icl_insert I lo up c) = icl_elems I c \<union> {lo..<up}"
    and icl_invar_erase: "invar c \<Longrightarrow> invar (icl_erase I lo up c)"
    and icl_elems_erase: "invar c \<Longrightarrow> icl_elems I (icl_erase I lo up c) = icl_elems I c - {lo..<up}"
    and icl_invar_add: "invar c \<Longrightarrow> invar d \<Longrightarrow> invar (icl_add I c d)"
    and icl_elems_add: "invar c \<Longrightarrow> invar d \<Longrightarrow> icl_elems I (icl_add I c d) = icl_elems I c \<union> icl_elems I d"
    and icl_invar_subtract: "invar c \<Longrightarrow> invar d \<Longrightarrow> invar (icl_subtract I c d)"
    and icl_elems_subtract: "invar c \<Longrightarrow> invar d \<Longrightarrow>
          icl_elems I (icl_subtract I c d) = icl_elems I c - icl_elems I d"
    and icl_contains_iff: "invar c \<Longrightarrow> icl_contains I c x \<longleftrightarrow> x \<in> icl_elems I c"
    and icl_intersects_iff: "invar c \<Longrightarrow> invar d \<Longrightarrow>
          icl_intersects I c d \<longleftrightarrow> icl_elems I c \<inter> icl_elems I d \<noteq> {}"
    and icl_is_empty_iff: "invar c \<Longrightarrow> icl_is_empty I c \<longleftrightarrow> icl_elems I c = {}"
    and icl_equal_iff: "invar c \<Longrightarrow> invar d \<Longrightarrow>
          icl_equal I c d \<longleftrightarrow> icl_intervals I c = icl_intervals I d"

section \<open>Canonical interval lists\<close>

lemma ivl_elems_Nil [simp]: "ivl_elems [] = {}"
  by (simp add: ivl_elems_def)

lemma ivl_elems_Cons [simp]: "ivl_elems ((a, b) # xs) = {a..<b} \<union> ivl_elems xs"
  by (simp add: ivl_elems_def)

lemma ivl_elems_append [simp]: "ivl_elems (xs @ ys) = ivl_elems xs \<union> ivl_elems ys"
  by (simp add: ivl_elems_def)

lemma ivl_elems_iff: "g \<in> ivl_elems xs \<longleftrightarrow> (\<exists>lo up. (lo, up) \<in> set xs \<and> lo \<le> g \<and> g < up)"
  by (force simp: ivl_elems_def)

lemma ivl_canonical_Cons:
  "ivl_canonical ((a, b) # xs) \<longleftrightarrow> a < b \<and> (\<forall>(c, d) \<in> set xs. b < c) \<and> ivl_canonical xs"
proof (induction xs arbitrary: a b)
  case (Cons x xs)
  obtain c d where x: "x = (c, d)" by fastforce
  show ?case
    using Cons [of c d] by (auto simp: x)
qed simp

lemma ivl_canonical_tl: "ivl_canonical (x # xs) \<Longrightarrow> ivl_canonical xs"
  by (cases x) (simp add: ivl_canonical_Cons)

lemma ivl_canonical_nonempty: "ivl_canonical xs \<Longrightarrow> (a, b) \<in> set xs \<Longrightarrow> a < b"
proof (induction xs)
  case (Cons x xs)
  then show ?case by (cases x) (auto simp: ivl_canonical_Cons)
qed simp

lemma ivl_elems_eq_empty_iff: "ivl_canonical xs \<Longrightarrow> ivl_elems xs = {} \<longleftrightarrow> xs = []"
proof (cases xs)
  case (Cons x ys)
  moreover assume "ivl_canonical xs"
  ultimately show ?thesis by (cases x) (auto simp: ivl_canonical_Cons)
qed simp

lemma ivl_elems_above: "\<forall>(c, d) \<in> set xs. b < c \<Longrightarrow> x \<in> ivl_elems xs \<Longrightarrow> b < x"
  by (fastforce simp: ivl_elems_def)

text \<open>A set of numbers has exactly one canonical list of intervals.\<close>

lemma ivl_canonical_head:
  assumes "ivl_canonical ((a, b) # xs)" and "ivl_canonical ((c, d) # ys)"
    and "ivl_elems ((a, b) # xs) = ivl_elems ((c, d) # ys)"
  shows "c \<le> a" and "d \<le> b"
proof -
  have ab: "a < b" "\<forall>(c, d) \<in> set xs. b < c" and cd: "c < d" "\<forall>(a, b) \<in> set ys. d < a"
    using assms(1,2) by (auto simp: ivl_canonical_Cons)
  have "a \<in> ivl_elems ((c, d) # ys)"
    using ab(1) assms(3) by (metis UnCI atLeastLessThan_iff ivl_elems_Cons order_refl)
  then show ca: "c \<le> a"
    using ivl_elems_above [OF cd(2)] cd(1) by fastforce
  have b: "b \<notin> ivl_elems ((a, b) # xs)"
    using ivl_elems_above [OF ab(2), of b] by auto
  have "c \<in> ivl_elems ((a, b) # xs)"
    using cd(1) assms(3) by (metis UnCI atLeastLessThan_iff ivl_elems_Cons order_refl)
  then have "c < b"
    using ivl_elems_above [OF ab(2), of c] ca ab(1) by auto
  show "d \<le> b"
  proof (rule ccontr)
    assume "\<not> d \<le> b"
    then have "b \<in> ivl_elems ((c, d) # ys)"
      using \<open>c < b\<close> by (simp add: not_le order_less_imp_le)
    with b show False unfolding assms(3) by contradiction
  qed
qed

lemma ivl_canonical_unique:
  "ivl_canonical xs \<Longrightarrow> ivl_canonical ys \<Longrightarrow> ivl_elems xs = ivl_elems ys \<Longrightarrow> xs = ys"
proof (induction xs arbitrary: ys)
  case Nil
  then show ?case using ivl_elems_eq_empty_iff [of ys] by simp
next
  case (Cons x xs)
  obtain a b where x: "x = (a, b)" by fastforce
  have "ys \<noteq> []"
    using Cons.prems ivl_elems_eq_empty_iff [of "x # xs"] by auto
  then obtain c d zs where ys: "ys = (c, d) # zs" by (metis list.exhaust surj_pair)
  have eq: "c = a" "d = b"
    using ivl_canonical_head [of a b xs c d zs] ivl_canonical_head [of c d zs a b xs] Cons.prems
    unfolding x ys by (simp_all add: order_antisym)
  have above: "\<forall>(c, d) \<in> set xs. b < c" "\<forall>(c, d) \<in> set zs. b < c"
    using Cons.prems(1,2) unfolding x ys eq by (simp_all add: ivl_canonical_Cons)
  have disjoint: "z \<notin> {a..<b}" if "z \<in> ivl_elems xs \<or> z \<in> ivl_elems zs" for z
    using that ivl_elems_above [OF above(1), of z] ivl_elems_above [OF above(2), of z] by auto
  have whole: "{a..<b} \<union> ivl_elems xs = {a..<b} \<union> ivl_elems zs"
    using Cons.prems(3) unfolding x ys eq by simp
  have "ivl_elems xs = ivl_elems zs"
    using whole disjoint by blast
  then show ?case
    using Cons.IH [of zs] Cons.prems(1,2) by (auto simp: x ys eq dest: ivl_canonical_tl)
qed

context icl_interval_set begin

lemma icl_equal_elems:
  "invar c \<Longrightarrow> invar d \<Longrightarrow> icl_equal I c d \<longleftrightarrow> icl_elems I c = icl_elems I d"
  using icl_equal_iff ivl_canonical_unique icl_canonical by metis

lemma icl_intervals_Nil_iff: "invar c \<Longrightarrow> icl_intervals I c = [] \<longleftrightarrow> icl_is_empty I c"
  using icl_is_empty_iff ivl_elems_eq_empty_iff icl_canonical by metis

lemma icl_fold_insert:
  "invar c \<Longrightarrow>
   invar (fold (\<lambda>(lo, up). icl_insert I lo up) xs c) \<and>
   icl_elems I (fold (\<lambda>(lo, up). icl_insert I lo up) xs c) = icl_elems I c \<union> ivl_elems xs"
proof (induction xs arbitrary: c)
  case (Cons x xs)
  obtain a b where x: "x = (a, b)" by fastforce
  show ?case
    using Cons.IH [OF icl_invar_insert [OF Cons.prems]]
    by (simp add: x icl_elems_insert [OF Cons.prems] Un_assoc)
qed simp

text \<open>Inserting the stored intervals into an empty container rebuilds the container's intervals.\<close>

lemma icl_rebuild:
  assumes "invar c"
  shows "icl_intervals I (fold (\<lambda>(lo, up). icl_insert I lo up) (icl_intervals I c) (icl_empty I)) =
         icl_intervals I c"
  using icl_fold_insert [OF icl_invar_empty, of "icl_intervals I c"] assms
  by (intro ivl_canonical_unique icl_canonical) (simp_all add: icl_elems_empty)

end

section \<open>An executable container\<close>

fun ivl_insert :: "gno_t \<Rightarrow> gno_t \<Rightarrow> (gno_t \<times> gno_t) list \<Rightarrow> (gno_t \<times> gno_t) list" where
  "ivl_insert lo up [] = [(lo, up)]"
| "ivl_insert lo up ((a, b) # xs) =
     (if up < a then (lo, up) # (a, b) # xs
      else if b < lo then (a, b) # ivl_insert lo up xs
      else ivl_insert (min lo a) (max up b) xs)"

fun ivl_erase :: "gno_t \<Rightarrow> gno_t \<Rightarrow> (gno_t \<times> gno_t) list \<Rightarrow> (gno_t \<times> gno_t) list" where
  "ivl_erase lo up [] = []"
| "ivl_erase lo up ((a, b) # xs) =
     (if a < min b lo then [(a, min b lo)] else []) @
     (if max a up < b then [(max a up, b)] else []) @ ivl_erase lo up xs"

definition list_icl :: "(gno_t \<times> gno_t) list icl" where
  "list_icl = \<lparr>
     icl_empty = [],
     icl_insert = (\<lambda>lo up xs. if lo < up then ivl_insert lo up xs else xs),
     icl_erase = (\<lambda>lo up xs. if lo < up then ivl_erase lo up xs else xs),
     icl_add = (\<lambda>xs ys. fold (\<lambda>(lo, up). ivl_insert lo up) ys xs),
     icl_subtract = (\<lambda>xs ys. fold (\<lambda>(lo, up). ivl_erase lo up) ys xs),
     icl_contains = (\<lambda>xs x. list_ex (\<lambda>(lo, up). lo \<le> x \<and> x < up) xs),
     icl_intersects = (\<lambda>xs ys. list_ex (\<lambda>(a, b). list_ex (\<lambda>(c, d). max a c < min b d) ys) xs),
     icl_is_empty = (\<lambda>xs. xs = []),
     icl_intervals = (\<lambda>xs. xs),
     icl_equal = (\<lambda>xs ys. xs = ys) \<rparr>"

lemma ivl_insert_starts:
  "(c, d) \<in> set (ivl_insert lo up xs) \<Longrightarrow> c = lo \<or> c \<in> fst ` set xs"
  by (induction lo up xs rule: ivl_insert.induct) (force split: if_splits simp: min_def)+

lemma ivl_canonical_insert:
  "ivl_canonical xs \<Longrightarrow> lo < up \<Longrightarrow> ivl_canonical (ivl_insert lo up xs)"
proof (induction lo up xs rule: ivl_insert.induct)
  case (2 lo up a b xs)
  consider "up < a" | "\<not> up < a" "b < lo" | "\<not> up < a" "\<not> b < lo" by blast
  then show ?case
  proof cases
    case 1
    with 2 show ?thesis by simp
  next
    case 2
    have "b < c" if "(c, d) \<in> set (ivl_insert lo up xs)" for c d
      using ivl_insert_starts [OF that] 2(2) "2.prems"(1) by (auto simp: ivl_canonical_Cons)
    then show ?thesis
      using 2 "2.IH"(1) "2.prems" by (auto simp: ivl_canonical_Cons)
  next
    case 3
    have "min lo a < max up b"
      using "2.prems"(2) by (simp add: min_less_iff_disj less_max_iff_disj)
    then show ?thesis
      using 3 "2.IH"(2) "2.prems" by (auto simp: ivl_canonical_Cons)
  qed
qed simp

lemma ivl_join: "\<not> up < a \<Longrightarrow> \<not> b < lo \<Longrightarrow> lo < up \<Longrightarrow> a < b \<Longrightarrow>
    {min lo a..<max up b} = {lo..<up} \<union> {a..<b :: gno_t}"
  by (auto simp: min_def max_def)

lemma ivl_elems_insert:
  "ivl_canonical xs \<Longrightarrow> lo < up \<Longrightarrow> ivl_elems (ivl_insert lo up xs) = ivl_elems xs \<union> {lo..<up}"
proof (induction lo up xs rule: ivl_insert.induct)
  case (2 lo up a b xs)
  then have ab: "a < b" and xs: "ivl_canonical xs" by (simp_all add: ivl_canonical_Cons)
  have lu: "min lo a < max up b"
    using "2.prems"(2) by (simp add: min_less_iff_disj less_max_iff_disj)
  show ?case
    using 2 ab xs ivl_join [of up a b lo] lu by (simp add: Un_ac)
qed simp

lemma ivl_erase_starts:
  "ivl_canonical xs \<Longrightarrow> (c, d) \<in> set (ivl_erase lo up xs) \<Longrightarrow> \<exists>(a, b) \<in> set xs. a \<le> c"
proof (induction lo up xs rule: ivl_erase.induct)
  case (2 lo up a b xs)
  then show ?case by (fastforce simp: ivl_canonical_Cons split: if_splits)
qed simp

lemma ivl_canonical_erase:
  "ivl_canonical xs \<Longrightarrow> lo < up \<Longrightarrow> ivl_canonical (ivl_erase lo up xs)"
proof (induction lo up xs rule: ivl_erase.induct)
  case (2 lo up a b xs)
  then have xs: "ivl_canonical xs" and IH: "ivl_canonical (ivl_erase lo up xs)"
    by (simp_all add: ivl_canonical_Cons)
  have above: "b < c" if "(c, d) \<in> set (ivl_erase lo up xs)" for c d
    using ivl_erase_starts [OF xs that] "2.prems"(1) by (fastforce simp: ivl_canonical_Cons)
  have "min b lo < c" if "(c, d) \<in> set (ivl_erase lo up xs)" for c d
    using above [OF that] by (simp add: min_less_iff_disj)
  moreover have "min b lo < max a up"
    using "2.prems"(2) by (simp add: min_less_iff_disj less_max_iff_disj)
  ultimately show ?case
    using IH above by (auto simp: ivl_canonical_Cons)
qed simp

lemma ivl_elems_erase:
  "ivl_canonical xs \<Longrightarrow> lo < up \<Longrightarrow> ivl_elems (ivl_erase lo up xs) = ivl_elems xs - {lo..<up}"
proof (induction lo up xs rule: ivl_erase.induct)
  case (2 lo up a b xs)
  have "{a..<min b lo} \<union> {max a up..<b} = {a..<b} - {lo..<up}"
    using "2.prems"(2) by auto
  moreover have "ivl_elems (ivl_erase lo up ((a, b) # xs)) =
      ({a..<min b lo} \<union> {max a up..<b}) \<union> ivl_elems (ivl_erase lo up xs)"
    by auto
  ultimately show ?case
    using 2 by (simp add: ivl_canonical_Cons Un_Diff)
qed simp

lemma ivl_fold_insert:
  "ivl_canonical xs \<Longrightarrow> ivl_canonical ys \<Longrightarrow>
   ivl_canonical (fold (\<lambda>(lo, up). ivl_insert lo up) ys xs) \<and>
   ivl_elems (fold (\<lambda>(lo, up). ivl_insert lo up) ys xs) = ivl_elems xs \<union> ivl_elems ys"
proof (induction ys arbitrary: xs)
  case (Cons y ys)
  obtain a b where y: "y = (a, b)" by fastforce
  have "a < b" "ivl_canonical ys" using Cons.prems(2) by (simp_all add: y ivl_canonical_Cons)
  then show ?case
    using Cons.IH [of "ivl_insert a b xs"] Cons.prems(1)
    by (simp add: y ivl_canonical_insert ivl_elems_insert Un_assoc)
qed simp

lemma ivl_fold_erase:
  "ivl_canonical xs \<Longrightarrow> ivl_canonical ys \<Longrightarrow>
   ivl_canonical (fold (\<lambda>(lo, up). ivl_erase lo up) ys xs) \<and>
   ivl_elems (fold (\<lambda>(lo, up). ivl_erase lo up) ys xs) = ivl_elems xs - ivl_elems ys"
proof (induction ys arbitrary: xs)
  case (Cons y ys)
  obtain a b where y: "y = (a, b)" by fastforce
  have "a < b" "ivl_canonical ys" using Cons.prems(2) by (simp_all add: y ivl_canonical_Cons)
  then show ?case
    using Cons.IH [of "ivl_erase a b xs"] Cons.prems(1)
    by (simp add: y ivl_canonical_erase ivl_elems_erase Diff_eq Int_assoc)
qed simp

lemma ivl_contains_iff: "list_ex (\<lambda>(lo, up). lo \<le> x \<and> x < up) xs \<longleftrightarrow> x \<in> ivl_elems xs"
  by (simp add: list_ex_iff ivl_elems_def case_prod_beta)

lemma ivl_overlap_iff: "max a c < min b d \<longleftrightarrow> {a..<b} \<inter> {c..<d :: gno_t} \<noteq> {}"
  by (auto simp: Int_atLeastLessThan)

lemma ivl_intersects_iff:
  "list_ex (\<lambda>(a, b). list_ex (\<lambda>(c, d). max a c < min b d) ys) xs \<longleftrightarrow>
   ivl_elems xs \<inter> ivl_elems ys \<noteq> {}"
proof -
  have "ivl_elems xs \<inter> ivl_elems ys \<noteq> {} \<longleftrightarrow>
        (\<exists>x \<in> set xs. \<exists>y \<in> set ys. {fst x..<snd x} \<inter> {fst y..<snd y} \<noteq> {})"
    unfolding ivl_elems_def case_prod_beta by blast
  then show ?thesis
    unfolding ivl_overlap_iff list_ex_iff by (simp add: case_prod_unfold)
qed

lemmas list_icl_simps =
  ivl_canonical_insert ivl_elems_insert ivl_canonical_erase ivl_elems_erase
  ivl_fold_insert ivl_fold_erase ivl_elems_eq_empty_iff

interpretation list_icl: icl_interval_set list_icl ivl_canonical
proof (unfold_locales, goal_cases)
  case (12 c x)
  then show ?case by (simp only: list_icl_def icl.simps ivl_contains_iff)
next
  case (13 c d)
  then show ?case by (simp only: list_icl_def icl.simps ivl_intersects_iff)
qed (simp_all add: list_icl_def list_icl_simps)

lemma list_icl_interval_set: "icl_interval_set list_icl ivl_canonical"
  by (rule list_icl.icl_interval_set_axioms)

end
