(* ===== verification/Gtid.thy ===== *)
theory Gtid
  imports Byte_Span Text Interval_Set
begin

text \<open>
  The identifiers of \<open>binsrv/gtids\<close>: server UUIDs (\<open>uuid.cpp\<close>), tags (\<open>tag.cpp\<close>) and global
  transaction identifiers (\<open>gtid.cpp\<close>). The conversion of a UUID to text is Boost's
  \<open>boost::uuids::to_string\<close>, a parameter of the printers; \<open>uuid_text\<close> is the form Boost documents.
\<close>

section \<open>Common constants\<close>

definition uuid_length :: nat where "uuid_length = 16"
definition tag_max_length :: nat where "tag_max_length = 32"
definition min_gno :: gno_t where "min_gno = 1"
definition max_gno :: gno_t where "max_gno = 0x7FFFFFFFFFFFFFFF"

lemmas gtid_constants [simp] = uuid_length_def tag_max_length_def min_gno_def max_gno_def

section \<open>UUIDs\<close>

text \<open>A UUID is its array of 16 bytes; UUIDs are ordered lexicographically.\<close>

datatype uuid = Uuid (uuid_get_raw: "byte list")

definition uuid_ok :: "uuid \<Rightarrow> bool" where
  "uuid_ok u \<longleftrightarrow> length (uuid_get_raw u) = uuid_length"

definition uuid_nil :: uuid where
  "uuid_nil = Uuid (replicate uuid_length 0)"

definition uuid_is_empty :: "uuid \<Rightarrow> bool" where
  "uuid_is_empty u \<longleftrightarrow> list_all (\<lambda>b. b = 0) (uuid_get_raw u)"

definition uuid_calculate_encoded_size :: nat where
  "uuid_calculate_encoded_size = uuid_length"

definition uuid_encode_to :: "uuid \<Rightarrow> byte_span \<Rightarrow> byte_span result" where
  "uuid_encode_to u destination =
     or_raise (insert_byte_span_to_byte_span_checked (uuid_get_raw u) destination)
       (Invalid_argument ''cannot encode uuid'')"

instantiation uuid :: linorder
begin

definition less_eq_uuid :: "uuid \<Rightarrow> uuid \<Rightarrow> bool" where
  "less_eq_uuid a b \<longleftrightarrow> uuid_get_raw a \<le> uuid_get_raw b"

definition less_uuid :: "uuid \<Rightarrow> uuid \<Rightarrow> bool" where
  "less_uuid a b \<longleftrightarrow> uuid_get_raw a < uuid_get_raw b"

instance
  by standard (auto simp: less_eq_uuid_def less_uuid_def uuid.expand)

end

text \<open>The canonical text of a UUID: five groups of lower-case hexadecimal pairs.\<close>

type_synonym uuid_printer = "byte list \<Rightarrow> string"

definition hex_char :: "nat \<Rightarrow> char" where
  "hex_char d = (if d < 10 then char_of (48 + d) else char_of (87 + d))"

definition hex_pair :: "byte \<Rightarrow> string" where
  "hex_pair b = [hex_char (unat b div 16), hex_char (unat b mod 16)]"

definition uuid_text :: uuid_printer where
  "uuid_text bs =
     concat (map hex_pair (take 4 bs)) @ ''-'' @
     concat (map hex_pair (take 2 (drop 4 bs))) @ ''-'' @
     concat (map hex_pair (take 2 (drop 6 bs))) @ ''-'' @
     concat (map hex_pair (take 2 (drop 8 bs))) @ ''-'' @
     concat (map hex_pair (take 6 (drop 10 bs)))"

definition uuid_str :: "uuid_printer \<Rightarrow> uuid \<Rightarrow> string" where
  "uuid_str to_text u = to_text (uuid_get_raw u)"

section \<open>Tags\<close>

datatype tag = Tag (tag_get_raw: "byte list")

instantiation tag :: linorder
begin

definition less_eq_tag :: "tag \<Rightarrow> tag \<Rightarrow> bool" where
  "less_eq_tag a b \<longleftrightarrow> tag_get_raw a \<le> tag_get_raw b"

definition less_tag :: "tag \<Rightarrow> tag \<Rightarrow> bool" where
  "less_tag a b \<longleftrightarrow> tag_get_raw a < tag_get_raw b"

instance
  by standard (auto simp: less_eq_tag_def less_tag_def tag.expand)

end

definition tag_first_character :: "char \<Rightarrow> bool" where
  "tag_first_character c \<longleftrightarrow> c = CHR ''_'' \<or> isalpha c"

definition tag_other_character :: "char \<Rightarrow> bool" where
  "tag_other_character c \<longleftrightarrow> c = CHR ''_'' \<or> isalnum c"

definition tag_of_name :: "string \<Rightarrow> tag result" where
  "tag_of_name name =
     rbind (ensure (length name \<le> tag_max_length) (Invalid_argument ''tag name is too long'')) (\<lambda>_.
     case name of
       [] \<Rightarrow> Inr (Tag [])
     | c # cs \<Rightarrow>
         rbind (ensure (tag_first_character c)
           (Invalid_argument ''tag name must start with a letter or an underscore'')) (\<lambda>_.
         rbind (ensure (list_all tag_other_character cs)
           (Invalid_argument ''tag name must include only alphanumeric characters or underscores'')) (\<lambda>_.
         Inr (Tag (as_const_byte_span name)))))"

definition tag_of_raw :: "byte list \<Rightarrow> tag result" where
  "tag_of_raw data = tag_of_name (as_string_view data)"

definition tag_get_name :: "tag \<Rightarrow> string" where
  "tag_get_name t = as_string_view (tag_get_raw t)"

definition tag_is_empty :: "tag \<Rightarrow> bool" where
  "tag_is_empty t \<longleftrightarrow> tag_get_raw t = []"

definition tag_get_size :: "tag \<Rightarrow> nat" where
  "tag_get_size t = length (tag_get_raw t)"

definition tag_calculate_encoded_size :: "tag \<Rightarrow> nat" where
  "tag_calculate_encoded_size t =
     calculate_varlen_int_size (of_nat (tag_get_size t) :: uint64) + tag_get_size t"

definition tag_encode_to :: "tag \<Rightarrow> byte_span \<Rightarrow> byte_span result" where
  "tag_encode_to t destination =
     rbind (or_raise (insert_varlen_int_to_byte_span_checked (of_nat (tag_get_size t) :: uint64) destination)
              (Invalid_argument ''cannot encode tag length'')) (\<lambda>remainder.
     or_raise (insert_byte_span_to_byte_span_checked (tag_get_raw t) remainder)
       (Invalid_argument ''cannot encode tag data''))"

text \<open>The tags the class can hold: what its constructor accepts.\<close>

definition tag_ok :: "tag \<Rightarrow> bool" where
  "tag_ok t \<longleftrightarrow> tag_of_raw (tag_get_raw t) = Inr t"

section \<open>Global transaction identifiers\<close>

record gtid =
  gtid_uuid :: uuid
  gtid_tag :: tag
  gtid_gno :: gno_t

definition gtid_empty :: gtid where
  "gtid_empty = \<lparr> gtid_uuid = uuid_nil, gtid_tag = Tag [], gtid_gno = 0 \<rparr>"

definition component_separator :: char where "component_separator = CHR '':''"

definition validate_components :: "uuid \<Rightarrow> tag \<Rightarrow> gno_t \<Rightarrow> unit result" where
  "validate_components uuid_component tag_component gno_component =
     rbind (ensure (\<not> uuid_is_empty uuid_component) (Invalid_argument ''uuid must not be empty'')) (\<lambda>_.
     ensure (\<not> (gno_component < min_gno \<or> gno_component > max_gno))
       (Invalid_argument ''gno is out of range''))"

definition make_gtid :: "uuid \<Rightarrow> tag \<Rightarrow> gno_t \<Rightarrow> gtid result" where
  "make_gtid uuid_component tag_component gno_component =
     rbind (validate_components uuid_component tag_component gno_component) (\<lambda>_.
     Inr \<lparr> gtid_uuid = uuid_component, gtid_tag = tag_component, gtid_gno = gno_component \<rparr>)"

definition gtid_is_empty :: "gtid \<Rightarrow> bool" where
  "gtid_is_empty g \<longleftrightarrow> gtid_gno g = 0"

definition gtid_has_tag :: "gtid \<Rightarrow> bool" where
  "gtid_has_tag g \<longleftrightarrow> \<not> tag_is_empty (gtid_tag g)"

definition gtid_str :: "uuid_printer \<Rightarrow> gtid \<Rightarrow> string" where
  "gtid_str to_text g =
     uuid_str to_text (gtid_uuid g) @
     (if gtid_has_tag g then component_separator # tag_get_name (gtid_tag g) else []) @
     [component_separator] @ to_string (unat (gtid_gno g))"

section \<open>Lemmas\<close>

abbreviation gno_ok :: "gno_t \<Rightarrow> bool" where
  "gno_ok g \<equiv> min_gno \<le> g \<and> g \<le> max_gno"

lemma validate_components_Inr [result_simps]:
  "validate_components u t g = Inr x \<longleftrightarrow> \<not> uuid_is_empty u \<and> gno_ok g"
  by (auto simp: validate_components_def result_simps not_less simp del: gtid_constants)

lemma make_gtid_Inr:
  "make_gtid u t g = Inr x \<longleftrightarrow>
   \<not> uuid_is_empty u \<and> gno_ok g \<and> x = \<lparr> gtid_uuid = u, gtid_tag = t, gtid_gno = g \<rparr>"
  by (auto simp: make_gtid_def result_simps simp del: gtid_constants)

lemma gno_ok_Suc: "gno_ok g \<Longrightarrow> g < g + 1"
  by (simp add: word_less_nat_alt word_le_nat_alt unat_word_ariths)

lemma singleton_interval: "gno_ok g \<Longrightarrow> {g..<g + 1} = {g}"
  by (rule set_eqI) (auto simp: word_less_nat_alt word_le_nat_alt unat_word_ariths word_unat_eq_iff)

lemma tag_of_name_Inr:
  "tag_of_name name = Inr t \<longleftrightarrow>
     t = Tag (as_const_byte_span name) \<and> length name \<le> tag_max_length \<and>
     (name \<noteq> [] \<longrightarrow> tag_first_character (hd name) \<and> list_all tag_other_character (tl name))"
  by (cases name) (auto simp: tag_of_name_def result_simps as_const_byte_span_def)

lemma tag_ok_iff:
  "tag_ok t \<longleftrightarrow> tag_get_size t \<le> tag_max_length \<and>
     (tag_get_name t \<noteq> [] \<longrightarrow>
        tag_first_character (hd (tag_get_name t)) \<and> list_all tag_other_character (tl (tag_get_name t)))"
  by (cases t) (simp add: tag_ok_def tag_of_raw_def tag_of_name_Inr tag_get_size_def tag_get_name_def)

lemma tag_of_name_ok: "tag_of_name name = Inr t \<Longrightarrow> tag_ok t \<and> tag_get_name t = name"
  by (auto simp: tag_of_name_Inr tag_ok_iff tag_get_size_def tag_get_name_def)

lemma tag_of_raw_ok: "tag_of_raw data = Inr t \<Longrightarrow> tag_ok t \<and> tag_get_raw t = data"
  using tag_of_name_ok [of "as_string_view data" t] by (auto simp: tag_of_raw_def tag_of_name_Inr)

lemma tag_ok_size: "tag_ok t \<Longrightarrow> tag_get_size t \<le> 32"
  by (simp add: tag_ok_iff)

end
