(* ===== verification/Gtid_Set.thy ===== *)
theory Gtid_Set
  imports Gtid
begin

text \<open>
  The class \<open>binsrv::gtids::gtid_set\<close> (\<open>gtid_set.cpp\<close>, \<open>gtid_set.hpp\<close>): an ordered map from
  server UUIDs to ordered maps from tags to interval sets of transaction numbers. The abstract
  specification of a GTID set is a finite set of triples (UUID, tag, number); \<open>gtid_set_abs\<close> is
  the abstraction, \<open>gtid_set_inv\<close> the representation invariant (ordered maps, no empty inner map
  and no empty interval set), and the lemmas show that each operation keeps the invariant and
  implements the operation on sets of triples.
\<close>

type_synonym 'c gnos_by_tag = "(tag, 'c) smap"
type_synonym 'c gtid_set = "(uuid, 'c gnos_by_tag) smap"

section \<open>Operations\<close>

text \<open>\<open>data_[u][t]\<close> with the container updated in place.\<close>

definition gtid_set_at :: "'c icl \<Rightarrow> uuid \<Rightarrow> tag \<Rightarrow> ('c \<Rightarrow> 'c) \<Rightarrow> 'c gtid_set \<Rightarrow> 'c gtid_set" where
  "gtid_set_at I u t f data = smap_at [] (smap_at (icl_empty I) f t) u data"

definition gtid_set_is_empty :: "'c gtid_set \<Rightarrow> bool" where
  "gtid_set_is_empty data \<longleftrightarrow> data = []"

definition contains_tags :: "'c gtid_set \<Rightarrow> bool" where
  "contains_tags data \<longleftrightarrow>
     list_ex (\<lambda>(current_uuid, current_tagged_gnos).
       list_ex (\<lambda>(current_tag, current_gnos). \<not> tag_is_empty current_tag) current_tagged_gnos) data"

definition contains :: "'c icl \<Rightarrow> 'c gtid_set \<Rightarrow> gtid \<Rightarrow> bool" where
  "contains I data value =
     (case smap_find data (gtid_uuid value) of
        None \<Rightarrow> False
      | Some tagged_gnos \<Rightarrow>
          (case smap_find tagged_gnos (gtid_tag value) of
             None \<Rightarrow> False
           | Some gnos \<Rightarrow> icl_contains I gnos (gtid_gno value)))"

definition add_components ::
    "'c icl \<Rightarrow> uuid \<Rightarrow> tag \<Rightarrow> gno_t \<Rightarrow> 'c gtid_set \<Rightarrow> 'c gtid_set result" where
  "add_components I uuid_component tag_component gno_component data =
     rbind (validate_components uuid_component tag_component gno_component) (\<lambda>_.
     Inr (gtid_set_at I uuid_component tag_component
            (icl_insert I gno_component (gno_component + 1)) data))"

definition add_gtid :: "'c icl \<Rightarrow> gtid \<Rightarrow> 'c gtid_set \<Rightarrow> 'c gtid_set result" where
  "add_gtid I value data =
     rbind (ensure (\<not> gtid_is_empty value) (Invalid_argument ''cannot add an empty gtid'')) (\<lambda>_.
     Inr (gtid_set_at I (gtid_uuid value) (gtid_tag value)
            (icl_insert I (gtid_gno value) (gtid_gno value + 1)) data))"

definition gtid_set_of_gtid :: "'c icl \<Rightarrow> gtid \<Rightarrow> 'c gtid_set result" where
  "gtid_set_of_gtid I value = add_gtid I value []"

definition add_set :: "'c icl \<Rightarrow> 'c gtid_set \<Rightarrow> 'c gtid_set \<Rightarrow> 'c gtid_set" where
  "add_set I values data =
     fold (\<lambda>(current_uuid, current_tagged_gnos).
       fold (\<lambda>(current_tag, current_gnos).
         gtid_set_at I current_uuid current_tag (\<lambda>gnos. icl_add I gnos current_gnos))
       current_tagged_gnos) values data"

definition add_interval ::
    "'c icl \<Rightarrow> uuid \<Rightarrow> tag \<Rightarrow> gno_t \<Rightarrow> gno_t \<Rightarrow> 'c gtid_set \<Rightarrow> 'c gtid_set result" where
  "add_interval I uuid_component tag_component gno_lower_component gno_upper_component data =
     (if gno_upper_component = gno_lower_component
      then add_components I uuid_component tag_component gno_lower_component data
      else
        rbind (ensure (\<not> gno_upper_component < gno_lower_component)
          (Invalid_argument ''cannot add an interval with invalid bounds'')) (\<lambda>_.
        rbind (validate_components uuid_component tag_component gno_lower_component) (\<lambda>_.
        Inr (gtid_set_at I uuid_component tag_component
               (icl_insert I gno_lower_component (gno_upper_component + 1)) data))))"

text \<open>\<open>find_gnos\<close> yields the inner map and the container its two iterators point to.\<close>

definition find_gnos :: "'c gtid_set \<Rightarrow> uuid \<Rightarrow> tag \<Rightarrow> ('c gnos_by_tag \<times> 'c) option" where
  "find_gnos data uuid_component tag_component =
     (case smap_find data uuid_component of
        None \<Rightarrow> None
      | Some tagged_gnos \<Rightarrow>
          (case smap_find tagged_gnos tag_component of
             None \<Rightarrow> None
           | Some gnos \<Rightarrow> Some (tagged_gnos, gnos)))"

definition cleanup_if_empty :: "'c icl \<Rightarrow> uuid \<Rightarrow> tag \<Rightarrow> 'c gtid_set \<Rightarrow> 'c gtid_set" where
  "cleanup_if_empty I u t data =
     (case find_gnos data u t of
        None \<Rightarrow> data
      | Some (tagged_gnos, gnos) \<Rightarrow>
          if \<not> icl_is_empty I gnos then data
          else
            let tagged_gnos' = smap_erase t tagged_gnos in
            if tagged_gnos' \<noteq> [] then smap_at [] (\<lambda>_. tagged_gnos') u data
            else smap_erase u data)"

text \<open>The common tail of the subtractions: look the container up, shrink it, clean up.\<close>

definition subtract_with ::
    "'c icl \<Rightarrow> uuid \<Rightarrow> tag \<Rightarrow> ('c \<Rightarrow> 'c) \<Rightarrow> 'c gtid_set \<Rightarrow> 'c gtid_set" where
  "subtract_with I u t shrink data =
     (case find_gnos data u t of
        None \<Rightarrow> data
      | Some _ \<Rightarrow> cleanup_if_empty I u t (gtid_set_at I u t shrink data))"

definition subtract_components ::
    "'c icl \<Rightarrow> uuid \<Rightarrow> tag \<Rightarrow> gno_t \<Rightarrow> 'c gtid_set \<Rightarrow> 'c gtid_set result" where
  "subtract_components I uuid_component tag_component gno_component data =
     rbind (validate_components uuid_component tag_component gno_component) (\<lambda>_.
     Inr (subtract_with I uuid_component tag_component
            (icl_erase I gno_component (gno_component + 1)) data))"

definition subtract_gtid :: "'c icl \<Rightarrow> gtid \<Rightarrow> 'c gtid_set \<Rightarrow> 'c gtid_set result" where
  "subtract_gtid I value data =
     rbind (ensure (\<not> gtid_is_empty value) (Invalid_argument ''cannot subtract an empty gtid'')) (\<lambda>_.
     Inr (subtract_with I (gtid_uuid value) (gtid_tag value)
            (icl_erase I (gtid_gno value) (gtid_gno value + 1)) data))"

definition subtract_set :: "'c icl \<Rightarrow> 'c gtid_set \<Rightarrow> 'c gtid_set \<Rightarrow> 'c gtid_set" where
  "subtract_set I values data =
     fold (\<lambda>(current_uuid, current_tagged_gnos).
       fold (\<lambda>(current_tag, current_gnos).
         subtract_with I current_uuid current_tag (\<lambda>gnos. icl_subtract I gnos current_gnos))
       current_tagged_gnos) values data"

definition subtract_interval ::
    "'c icl \<Rightarrow> uuid \<Rightarrow> tag \<Rightarrow> gno_t \<Rightarrow> gno_t \<Rightarrow> 'c gtid_set \<Rightarrow> 'c gtid_set result" where
  "subtract_interval I uuid_component tag_component gno_lower_component gno_upper_component data =
     (if gno_upper_component = gno_lower_component
      then subtract_components I uuid_component tag_component gno_lower_component data
      else
        rbind (ensure (\<not> gno_upper_component < gno_lower_component)
          (Invalid_argument ''cannot subtract an interval with invalid bounds'')) (\<lambda>_.
        rbind (validate_components uuid_component tag_component gno_lower_component) (\<lambda>_.
        Inr (subtract_with I uuid_component tag_component
               (icl_erase I gno_lower_component (gno_upper_component + 1)) data))))"

definition gtid_set_clear :: "'c gtid_set \<Rightarrow> 'c gtid_set" where
  "gtid_set_clear data = []"

definition gtid_set_plus :: "'c icl \<Rightarrow> 'c gtid_set \<Rightarrow> 'c gtid_set \<Rightarrow> 'c gtid_set" where
  "gtid_set_plus I first second = add_set I second first"

definition gtid_set_minus :: "'c icl \<Rightarrow> 'c gtid_set \<Rightarrow> 'c gtid_set \<Rightarrow> 'c gtid_set" where
  "gtid_set_minus I first second = subtract_set I second first"

text \<open>The defaulted \<open>operator==\<close>: entry-wise equality of the maps and of the containers.\<close>

definition gtid_set_equal :: "'c icl \<Rightarrow> 'c gtid_set \<Rightarrow> 'c gtid_set \<Rightarrow> bool" where
  "gtid_set_equal I first second \<longleftrightarrow>
     list_all2 (\<lambda>(u, m) (v, n). u = v \<and>
       list_all2 (\<lambda>(s, c) (t, d). s = t \<and> icl_equal I c d) m n) first second"

definition intersects :: "'c icl \<Rightarrow> 'c gtid_set \<Rightarrow> 'c gtid_set \<Rightarrow> bool" where
  "intersects I first second \<longleftrightarrow>
     list_ex (\<lambda>(current_uuid, current_tagged_gnos).
       case smap_find first current_uuid of
         None \<Rightarrow> False
       | Some tagged_gnos \<Rightarrow>
           list_ex (\<lambda>(current_tag, current_gnos).
             case smap_find tagged_gnos current_tag of
               None \<Rightarrow> False
             | Some gnos \<Rightarrow> icl_intersects I gnos current_gnos) current_tagged_gnos) second"

section \<open>Abstraction and representation invariant\<close>

type_synonym gtid_triple = "uuid \<times> tag \<times> gno_t"

abbreviation gtid_triple_of :: "gtid \<Rightarrow> gtid_triple" where
  "gtid_triple_of g \<equiv> (gtid_uuid g, gtid_tag g, gtid_gno g)"

definition gtid_set_abs :: "'c icl \<Rightarrow> 'c gtid_set \<Rightarrow> gtid_triple set" where
  "gtid_set_abs I data =
     {(u, t, g). \<exists>tagged_gnos gnos. find_gnos data u t = Some (tagged_gnos, gnos) \<and> g \<in> icl_elems I gnos}"

definition tagged_gnos_inv :: "'c icl \<Rightarrow> ('c \<Rightarrow> bool) \<Rightarrow> 'c gnos_by_tag \<Rightarrow> bool" where
  "tagged_gnos_inv I invar m \<longleftrightarrow>
     smap_ok m \<and> m \<noteq> [] \<and> (\<forall>(t, c) \<in> set m. invar c \<and> \<not> icl_is_empty I c)"

definition gtid_set_inv :: "'c icl \<Rightarrow> ('c \<Rightarrow> bool) \<Rightarrow> 'c gtid_set \<Rightarrow> bool" where
  "gtid_set_inv I invar data \<longleftrightarrow>
     smap_ok data \<and> (\<forall>(u, m) \<in> set data. tagged_gnos_inv I invar m)"

text \<open>The sets that hold proper transaction identifiers only.\<close>

definition gtid_triple_ok :: "gtid_triple \<Rightarrow> bool" where
  "gtid_triple_ok = (\<lambda>(u, t, g). uuid_ok u \<and> \<not> uuid_is_empty u \<and> tag_ok t \<and> gno_ok g)"

definition gtid_set_valid :: "'c icl \<Rightarrow> 'c gtid_set \<Rightarrow> bool" where
  "gtid_set_valid I data \<longleftrightarrow> (\<forall>x \<in> gtid_set_abs I data. gtid_triple_ok x)"

lemma mem_gtid_set_abs:
  "(u, t, g) \<in> gtid_set_abs I data \<longleftrightarrow>
     (\<exists>m c. smap_find data u = Some m \<and> smap_find m t = Some c \<and> g \<in> icl_elems I c)"
  by (auto simp: gtid_set_abs_def find_gnos_def split: option.splits)

lemma gtid_set_abs_Nil [simp]: "gtid_set_abs I [] = {}"
  by (auto simp: gtid_set_abs_def find_gnos_def)

lemma gtid_set_inv_Nil [simp]: "gtid_set_inv I invar []"
  by (simp add: gtid_set_inv_def)

text \<open>Lookup of a container as a total function: an absent one is empty.\<close>

definition gnos_of :: "'c icl \<Rightarrow> 'c gtid_set \<Rightarrow> uuid \<Rightarrow> tag \<Rightarrow> gno_t set" where
  "gnos_of I data u t = {g. (u, t, g) \<in> gtid_set_abs I data}"

lemma gtid_set_abs_eqI: "(\<And>u t. gnos_of I data u t = gnos_of I data' u t) \<Longrightarrow>
    gtid_set_abs I data = gtid_set_abs I data'"
  by (auto simp: gnos_of_def)

section \<open>Refinement of the set operations\<close>

context icl_interval_set begin

lemma tagged_gnos_find:
  "tagged_gnos_inv I invar m \<Longrightarrow> smap_find m t = Some c \<Longrightarrow> invar c \<and> icl_elems I c \<noteq> {}"
  by (auto simp: tagged_gnos_inv_def smap_find_iff icl_is_empty_iff)

lemma gtid_set_find:
  "gtid_set_inv I invar data \<Longrightarrow> smap_find data u = Some m \<Longrightarrow> tagged_gnos_inv I invar m"
  by (auto simp: gtid_set_inv_def smap_find_iff)

lemma tagged_gnos_invI:
  assumes "smap_ok m" and "m \<noteq> []"
    and "\<And>t c. smap_find m t = Some c \<Longrightarrow> invar c \<and> icl_elems I c \<noteq> {}"
  shows "tagged_gnos_inv I invar m"
  using assms by (auto simp: tagged_gnos_inv_def smap_find_iff icl_is_empty_iff)

lemma gtid_set_invI:
  assumes "smap_ok data" and "\<And>u m. smap_find data u = Some m \<Longrightarrow> tagged_gnos_inv I invar m"
  shows "gtid_set_inv I invar data"
  using assms by (auto simp: gtid_set_inv_def smap_find_iff)

lemma gtid_set_inv_ok: "gtid_set_inv I invar data \<Longrightarrow> smap_ok data"
  by (simp add: gtid_set_inv_def)

lemma tagged_gnos_ok: "tagged_gnos_inv I invar m \<Longrightarrow> smap_ok m"
  by (simp add: tagged_gnos_inv_def)

text \<open>Growing one container.\<close>

lemma at_inner:
  assumes m: "m = [] \<or> tagged_gnos_inv I invar m"
    and f: "\<And>c. invar c \<Longrightarrow> invar (f c) \<and> icl_elems I (f c) = icl_elems I c \<union> S" and S: "S \<noteq> {}"
  shows "tagged_gnos_inv I invar (smap_at (icl_empty I) f t m)"
proof (rule tagged_gnos_invI)
  have ok: "smap_ok m" using m by (auto simp: tagged_gnos_ok)
  then show "smap_ok (smap_at (icl_empty I) f t m)" by simp
  show "smap_at (icl_empty I) f t m \<noteq> []"
    using keys_smap_at [of "icl_empty I" f t m] by auto
  fix t' c
  assume "smap_find (smap_at (icl_empty I) f t m) t' = Some c"
  then show "invar c \<and> icl_elems I c \<noteq> {}"
    using m f S icl_invar_empty tagged_gnos_find [of m]
    by (auto simp: smap_find_at [OF ok] split: if_splits option.splits)
qed

lemma gtid_set_at_grow:
  assumes inv: "gtid_set_inv I invar data"
    and f: "\<And>c. invar c \<Longrightarrow> invar (f c) \<and> icl_elems I (f c) = icl_elems I c \<union> S" and S: "S \<noteq> {}"
  shows "gtid_set_inv I invar (gtid_set_at I u t f data)"
    and "gtid_set_abs I (gtid_set_at I u t f data) = gtid_set_abs I data \<union> {u} \<times> {t} \<times> S"
proof -
  define m where "m = (case smap_find data u of None \<Rightarrow> [] | Some m \<Rightarrow> m)"
  have m: "m = [] \<or> tagged_gnos_inv I invar m"
    using gtid_set_find [OF inv, of u] by (auto simp: m_def split: option.splits)
  have okm: "smap_ok m" using m by (auto simp: tagged_gnos_ok)
  have find: "smap_find (gtid_set_at I u t f data) u' =
      (if u' = u then Some (smap_at (icl_empty I) f t m) else smap_find data u')" for u'
    by (simp add: gtid_set_at_def smap_find_at [OF gtid_set_inv_ok [OF inv]] m_def)
  show "gtid_set_inv I invar (gtid_set_at I u t f data)"
  proof (rule gtid_set_invI)
    show "smap_ok (gtid_set_at I u t f data)"
      using gtid_set_inv_ok [OF inv] by (simp add: gtid_set_at_def)
  qed (auto simp: find split: if_splits intro: at_inner [OF m f S] gtid_set_find [OF inv])
  have mem: "(u, t', g) \<in> gtid_set_abs I data \<longleftrightarrow> (\<exists>c. smap_find m t' = Some c \<and> g \<in> icl_elems I c)" for t' g
    by (auto simp: mem_gtid_set_abs m_def split: option.splits)
  have inner: "(\<exists>c. smap_find (smap_at (icl_empty I) f t m) t' = Some c \<and> g \<in> icl_elems I c) \<longleftrightarrow>
      (u, t', g) \<in> gtid_set_abs I data \<or> t' = t \<and> g \<in> S" for t' g
    using f icl_invar_empty icl_elems_empty m tagged_gnos_find [of m t]
    by (auto simp: mem smap_find_at [OF okm] split: option.splits)
  have "(u', t', g) \<in> gtid_set_abs I (gtid_set_at I u t f data) \<longleftrightarrow>
      (u', t', g) \<in> gtid_set_abs I data \<union> {u} \<times> {t} \<times> S" for u' t' g
    using inner [of t' g] by (auto simp: mem_gtid_set_abs [of _ _ _ _ "gtid_set_at I u t f data"] find mem_gtid_set_abs)
  then show "gtid_set_abs I (gtid_set_at I u t f data) = gtid_set_abs I data \<union> {u} \<times> {t} \<times> S"
    by auto
qed

text \<open>Shrinking one container; an emptied one disappears together with an emptied inner map.\<close>

lemma erase_inner:
  assumes "tagged_gnos_inv I invar m" and "smap_erase t m \<noteq> []"
  shows "tagged_gnos_inv I invar (smap_erase t m)"
  using assms tagged_gnos_find [OF assms(1)]
  by (intro tagged_gnos_invI)
    (auto simp: smap_find_erase [OF tagged_gnos_ok [OF assms(1)]] tagged_gnos_ok split: if_splits)

lemma smap_at_same: "smap_ok m \<Longrightarrow> smap_find m k = Some v \<Longrightarrow> f v = v \<Longrightarrow> smap_at d f k m = m"
  by (rule smap_ext) (auto simp: smap_find_at)

lemma subtract_with_cases:
  assumes inv: "gtid_set_inv I invar data" and find: "find_gnos data u t = Some (m, c)"
  shows "subtract_with I u t f data =
     (if \<not> icl_is_empty I (f c) then smap_at [] (\<lambda>_. smap_at (icl_empty I) f t m) u data
      else if smap_erase t m \<noteq> [] then smap_at [] (\<lambda>_. smap_erase t m) u data
      else smap_erase u data)"
proof -
  define m' where "m' = smap_at (icl_empty I) f t m"
  have u: "smap_find data u = Some m" and t: "smap_find m t = Some c"
    using find by (auto simp: find_gnos_def split: option.splits)
  have ok: "smap_ok data" "smap_ok m"
    using inv u by (auto intro: gtid_set_inv_ok tagged_gnos_ok gtid_set_find)
  have at: "gtid_set_at I u t f data = smap_at [] (\<lambda>_. m') u data"
    using ok u by (intro smap_ext) (auto simp: gtid_set_at_def smap_find_at m'_def)
  have find': "find_gnos (smap_at [] (\<lambda>_. m') u data) u t = Some (m', f c)"
    using ok t by (simp add: find_gnos_def smap_find_at m'_def)
  have er: "smap_erase t m' = smap_erase t m"
    using ok by (intro smap_ext) (auto simp: smap_find_erase smap_find_at m'_def)
  have "smap_at [] (\<lambda>_. x) u (smap_at [] (\<lambda>_. m') u data) = smap_at [] (\<lambda>_. x) u data" for x
    using ok by (intro smap_ext) (auto simp: smap_find_at)
  moreover have "smap_erase u (smap_at [] (\<lambda>_. m') u data) = smap_erase u data"
    using ok by (intro smap_ext) (auto simp: smap_find_at smap_find_erase)
  ultimately show ?thesis
    by (simp add: subtract_with_def find at cleanup_if_empty_def find' er Let_def flip: m'_def)
qed

lemma subtract_with_find:
  assumes inv: "gtid_set_inv I invar data" and find: "find_gnos data u t = Some (m, c)"
  obtains m' where
    "\<And>u'. smap_find (subtract_with I u t f data) u' =
       (if u' = u then (if m' = [] then None else Some m') else smap_find data u')"
    and "smap_ok (subtract_with I u t f data)" and "smap_ok m'"
    and "\<And>t'. smap_find m' t' =
       (if t' = t then (if icl_is_empty I (f c) then None else Some (f c)) else smap_find m t')"
proof -
  have u: "smap_find data u = Some m" and t: "smap_find m t = Some c"
    using find by (auto simp: find_gnos_def split: option.splits)
  have ok: "smap_ok data" "smap_ok m"
    using inv u by (auto intro: gtid_set_inv_ok tagged_gnos_ok gtid_set_find)
  define m' where "m' = (if icl_is_empty I (f c) then smap_erase t m else smap_at (icl_empty I) f t m)"
  have ne: "smap_at (icl_empty I) f t m \<noteq> []"
    using keys_smap_at [of "icl_empty I" f t m] by auto
  show ?thesis
  proof (rule that [of m'])
    show "smap_ok m'" using ok by (simp add: m'_def)
    show "smap_ok (subtract_with I u t f data)"
      using ok by (simp add: subtract_with_cases [OF inv find])
    show "smap_find m' t' = (if t' = t then (if icl_is_empty I (f c) then None else Some (f c))
        else smap_find m t')" for t'
      using ok t by (simp add: m'_def smap_find_erase smap_find_at)
    show "smap_find (subtract_with I u t f data) u' =
       (if u' = u then (if m' = [] then None else Some m') else smap_find data u')" for u'
      using ok ne by (simp add: subtract_with_cases [OF inv find] m'_def smap_find_at smap_find_erase)
  qed
qed

lemma subtract_with_shrink:
  assumes inv: "gtid_set_inv I invar data"
    and f: "\<And>c. invar c \<Longrightarrow> invar (f c) \<and> icl_elems I (f c) = icl_elems I c - S"
  shows "gtid_set_inv I invar (subtract_with I u t f data) \<and>
         gtid_set_abs I (subtract_with I u t f data) = gtid_set_abs I data - {u} \<times> {t} \<times> S"
proof (cases "find_gnos data u t")
  case None
  then have "(u, t, g) \<notin> gtid_set_abs I data" for g
    by (simp add: gtid_set_abs_def)
  then show ?thesis using None inv by (auto simp: subtract_with_def)
next
  case (Some p)
  obtain m c where find: "find_gnos data u t = Some (m, c)" using Some by (cases p) auto
  then have u: "smap_find data u = Some m" and t: "smap_find m t = Some c"
    by (auto simp: find_gnos_def split: option.splits)
  have minv: "tagged_gnos_inv I invar m" by (rule gtid_set_find [OF inv u])
  have c: "invar (f c)" "icl_elems I (f c) = icl_elems I c - S"
    using f tagged_gnos_find [OF minv t] by auto
  obtain m' where new: "\<And>u'. smap_find (subtract_with I u t f data) u' =
       (if u' = u then (if m' = [] then None else Some m') else smap_find data u')"
    and ok: "smap_ok (subtract_with I u t f data)" "smap_ok m'"
    and m': "\<And>t'. smap_find m' t' =
       (if t' = t then (if icl_is_empty I (f c) then None else Some (f c)) else smap_find m t')"
    by (rule subtract_with_find [OF inv find, of f]) (rule that)
  have "tagged_gnos_inv I invar m'" if "m' \<noteq> []"
    using ok(2) that c tagged_gnos_find [OF minv]
    by (intro tagged_gnos_invI) (auto simp: m' icl_is_empty_iff split: if_splits)
  then have 1: "gtid_set_inv I invar (subtract_with I u t f data)"
    using ok(1) gtid_set_find [OF inv] by (intro gtid_set_invI) (auto simp: new split: if_splits)
  have nil: "m' = [] \<Longrightarrow> smap_find m' t' = None" for t' by simp
  have "(u', t', g) \<in> gtid_set_abs I (subtract_with I u t f data) \<longleftrightarrow>
      (u', t', g) \<in> gtid_set_abs I data \<and> \<not> (u' = u \<and> t' = t \<and> g \<in> S)" for u' t' g
    using u t c nil [of t'] icl_is_empty_iff [OF c(1)] m' [of t']
    by (cases "u' = u"; cases "t' = t"; cases "m' = []") (auto simp: mem_gtid_set_abs new split: if_splits)
  with 1 show ?thesis by auto
qed

end

section \<open>Whole-set operations\<close>

definition gtid_entries :: "'c gtid_set \<Rightarrow> (uuid \<times> tag \<times> 'c) list" where
  "gtid_entries data = concat (map (\<lambda>(u, m). map (\<lambda>(t, c). (u, t, c)) m) data)"

lemma gtid_entries_simps [simp]:
  "gtid_entries [] = []"
  "gtid_entries ((u, m) # data) = map (\<lambda>(t, c). (u, t, c)) m @ gtid_entries data"
  by (simp_all add: gtid_entries_def)

lemma set_gtid_entries: "(u, t, c) \<in> set (gtid_entries data) \<longleftrightarrow> (\<exists>m. (u, m) \<in> set data \<and> (t, c) \<in> set m)"
  by (force simp: gtid_entries_def)

lemma fold_gtid_entries:
  "fold (\<lambda>(u, m). fold (\<lambda>(t, c). F u t c) m) data s = fold (\<lambda>(u, t, c). F u t c) (gtid_entries data) s"
proof (induction data arbitrary: s)
  case (Cons x data)
  then show ?case
    by (cases x) (simp add: fold_map o_def case_prod_unfold)
qed simp

context icl_interval_set begin

lemma gtid_set_abs_entries:
  "gtid_set_inv I invar data \<Longrightarrow>
   gtid_set_abs I data = {(u, t, g). \<exists>c. (u, t, c) \<in> set (gtid_entries data) \<and> g \<in> icl_elems I c}"
  by (fastforce simp: mem_gtid_set_abs set_gtid_entries gtid_set_inv_def tagged_gnos_inv_def smap_find_iff)

lemma gtid_entries_inv:
  "gtid_set_inv I invar data \<Longrightarrow> (u, t, c) \<in> set (gtid_entries data) \<Longrightarrow> invar c \<and> icl_elems I c \<noteq> {}"
  using icl_is_empty_iff [of c] by (fastforce simp: set_gtid_entries gtid_set_inv_def tagged_gnos_inv_def)

lemma fold_add_entries:
  assumes "gtid_set_inv I invar data" and "\<forall>(u, t, c) \<in> set es. invar c \<and> icl_elems I c \<noteq> {}"
  shows "gtid_set_inv I invar (fold (\<lambda>(u, t, c). gtid_set_at I u t (\<lambda>gnos. icl_add I gnos c)) es data) \<and>
    gtid_set_abs I (fold (\<lambda>(u, t, c). gtid_set_at I u t (\<lambda>gnos. icl_add I gnos c)) es data) =
    gtid_set_abs I data \<union> {(u, t, g). \<exists>c. (u, t, c) \<in> set es \<and> g \<in> icl_elems I c}"
  using assms
proof (induction es arbitrary: data)
  case (Cons e es)
  obtain u t c where e: "e = (u, t, c)" by (cases e)
  have c: "invar c" "icl_elems I c \<noteq> {}" using Cons.prems(2) by (auto simp: e)
  have "invar d \<Longrightarrow> invar (icl_add I d c) \<and> icl_elems I (icl_add I d c) = icl_elems I d \<union> icl_elems I c" for d
    using c(1) by (simp add: icl_invar_add icl_elems_add)
  note grow = gtid_set_at_grow [OF Cons.prems(1) this c(2), of u t]
  show ?case
    using Cons.IH [OF grow(1)] Cons.prems(2) by (auto simp: e grow(2))
qed auto

lemma add_set_refines:
  assumes "gtid_set_inv I invar data" and "gtid_set_inv I invar values"
  shows "gtid_set_inv I invar (add_set I values data) \<and>
         gtid_set_abs I (add_set I values data) = gtid_set_abs I data \<union> gtid_set_abs I values"
  using fold_add_entries [OF assms(1), of "gtid_entries values"] gtid_entries_inv [OF assms(2)]
  by (fastforce simp: add_set_def fold_gtid_entries gtid_set_abs_entries [OF assms(2)])

lemma fold_subtract_entries:
  assumes "gtid_set_inv I invar data" and "\<forall>(u, t, c) \<in> set es. invar c"
  shows "gtid_set_inv I invar (fold (\<lambda>(u, t, c). subtract_with I u t (\<lambda>gnos. icl_subtract I gnos c)) es data) \<and>
    gtid_set_abs I (fold (\<lambda>(u, t, c). subtract_with I u t (\<lambda>gnos. icl_subtract I gnos c)) es data) =
    gtid_set_abs I data - {(u, t, g). \<exists>c. (u, t, c) \<in> set es \<and> g \<in> icl_elems I c}"
  using assms
proof (induction es arbitrary: data)
  case (Cons e es)
  obtain u t c where e: "e = (u, t, c)" by (cases e)
  have c: "invar c" using Cons.prems(2) by (auto simp: e)
  have "invar d \<Longrightarrow> invar (icl_subtract I d c) \<and>
      icl_elems I (icl_subtract I d c) = icl_elems I d - icl_elems I c" for d
    using c(1) by (simp add: icl_invar_subtract icl_elems_subtract)
  note shrink = subtract_with_shrink [OF Cons.prems(1) this, of u t]
  show ?case
    using Cons.IH [of "subtract_with I u t (\<lambda>gnos. icl_subtract I gnos c) data"] shrink Cons.prems(2)
    by (auto simp: e)
qed auto

lemma subtract_set_refines:
  assumes "gtid_set_inv I invar data" and "gtid_set_inv I invar values"
  shows "gtid_set_inv I invar (subtract_set I values data) \<and>
         gtid_set_abs I (subtract_set I values data) = gtid_set_abs I data - gtid_set_abs I values"
  using fold_subtract_entries [OF assms(1), of "gtid_entries values"] gtid_entries_inv [OF assms(2)]
  by (fastforce simp: subtract_set_def fold_gtid_entries gtid_set_abs_entries [OF assms(2)])

lemma contains_refines:
  assumes "gtid_set_inv I invar data"
  shows "contains I data g \<longleftrightarrow> gtid_triple_of g \<in> gtid_set_abs I data"
  using tagged_gnos_find gtid_set_find [OF assms]
  by (fastforce simp: contains_def mem_gtid_set_abs icl_contains_iff split: option.splits)

lemma is_empty_refines:
  assumes "gtid_set_inv I invar data"
  shows "gtid_set_is_empty data \<longleftrightarrow> gtid_set_abs I data = {}"
proof (cases data)
  case (Cons x rest)
  obtain u m where x: "x = (u, m)" by fastforce
  then have "tagged_gnos_inv I invar m" using assms Cons by (auto simp: gtid_set_inv_def)
  then obtain t c where "(t, c) \<in> set m" "icl_elems I c \<noteq> {}"
    using icl_is_empty_iff by (cases m) (force simp: tagged_gnos_inv_def)+
  moreover from this(1) have "(u, t, c) \<in> set (gtid_entries data)"
    using Cons x by (auto simp: set_gtid_entries)
  ultimately have "gtid_set_abs I data \<noteq> {}"
    unfolding gtid_set_abs_entries [OF assms] by blast
  with Cons show ?thesis by (simp add: gtid_set_is_empty_def)
qed (simp add: gtid_set_is_empty_def)

lemma intersects_refines:
  assumes "gtid_set_inv I invar first" and "gtid_set_inv I invar second"
  shows "intersects I first second \<longleftrightarrow> gtid_set_abs I first \<inter> gtid_set_abs I second \<noteq> {}"
proof -
  have "intersects I first second \<longleftrightarrow>
      (\<exists>u n t d m c. smap_find second u = Some n \<and> smap_find n t = Some d \<and>
         smap_find first u = Some m \<and> smap_find m t = Some c \<and> icl_intersects I c d)"
    using assms(2)
    by (fastforce simp: intersects_def list_ex_iff gtid_set_inv_def tagged_gnos_inv_def smap_find_iff
        split: option.splits)
  also have "\<dots> \<longleftrightarrow> (\<exists>u n t d m c. smap_find second u = Some n \<and> smap_find n t = Some d \<and>
         smap_find first u = Some m \<and> smap_find m t = Some c \<and> icl_elems I c \<inter> icl_elems I d \<noteq> {})"
    using icl_intersects_iff tagged_gnos_find gtid_set_find assms by metis
  also have "\<dots> \<longleftrightarrow> (\<exists>u t g. (u, t, g) \<in> gtid_set_abs I first \<and> (u, t, g) \<in> gtid_set_abs I second)"
    by (fastforce simp: mem_gtid_set_abs)
  finally show ?thesis by fast
qed

end

section \<open>Equality\<close>

text \<open>Two GTID sets are equal when they have the same keys and the same intervals.\<close>

definition tagged_gnos_repr :: "'c icl \<Rightarrow> 'c gnos_by_tag \<Rightarrow> (tag, (gno_t \<times> gno_t) list) smap" where
  "tagged_gnos_repr I m = map (map_prod id (icl_intervals I)) m"

definition gtid_set_repr :: "'c icl \<Rightarrow> 'c gtid_set \<Rightarrow> (uuid, (tag, (gno_t \<times> gno_t) list) smap) smap" where
  "gtid_set_repr I data = map (map_prod id (tagged_gnos_repr I)) data"

lemma smap_find_map_values: "smap_find (map (map_prod id f) m) k = map_option f (smap_find m k)"
  by (induction m) (auto simp: smap_find_Cons)

lemma smap_ok_map_values: "smap_ok (map (map_prod id f) m) = smap_ok m"
  by (simp add: smap_ok_def)

lemma list_all2_map_eq:
  "(\<And>x y. x \<in> set xs \<Longrightarrow> y \<in> set ys \<Longrightarrow> P x y \<longleftrightarrow> f x = f y) \<Longrightarrow> list_all2 P xs ys \<longleftrightarrow> map f xs = map f ys"
proof (induction xs arbitrary: ys)
  case (Cons x xs)
  then show ?case by (cases ys) auto
qed auto

context icl_interval_set begin

lemma tagged_gnos_mem: "tagged_gnos_inv I invar m \<Longrightarrow> (t, c) \<in> set m \<Longrightarrow> invar c \<and> icl_elems I c \<noteq> {}"
  using tagged_gnos_find smap_find_iff tagged_gnos_ok by metis

lemma gtid_set_mem: "gtid_set_inv I invar data \<Longrightarrow> (u, m) \<in> set data \<Longrightarrow> tagged_gnos_inv I invar m"
  using gtid_set_find smap_find_iff gtid_set_inv_ok by metis

lemma tagged_gnos_equal_repr:
  assumes "tagged_gnos_inv I invar m" and "tagged_gnos_inv I invar n"
  shows "list_all2 (\<lambda>(s, c) (t, d). s = t \<and> icl_equal I c d) m n \<longleftrightarrow>
         tagged_gnos_repr I m = tagged_gnos_repr I n"
  unfolding tagged_gnos_repr_def
  using tagged_gnos_mem [OF assms(1)] tagged_gnos_mem [OF assms(2)]
  by (intro list_all2_map_eq) (auto simp: icl_equal_iff)

lemma gtid_set_equal_repr:
  assumes "gtid_set_inv I invar a" and "gtid_set_inv I invar b"
  shows "gtid_set_equal I a b \<longleftrightarrow> gtid_set_repr I a = gtid_set_repr I b"
  unfolding gtid_set_repr_def gtid_set_equal_def
  using gtid_set_mem [OF assms(1)] gtid_set_mem [OF assms(2)]
  by (intro list_all2_map_eq) (auto simp: tagged_gnos_equal_repr)

lemma tagged_gnos_has_element:
  assumes "tagged_gnos_inv I invar m"
  shows "\<exists>t c. smap_find m t = Some c \<and> icl_elems I c \<noteq> {}"
proof -
  obtain t c where "(t, c) \<in> set m"
    using assms by (cases m) (auto simp: tagged_gnos_inv_def)
  then have "smap_find m t = Some c"
    using assms by (simp add: smap_find_iff tagged_gnos_ok)
  then show ?thesis using tagged_gnos_find [OF assms] by blast
qed

lemma tagged_gnos_repr_eqI:
  assumes m: "tagged_gnos_inv I invar m" and n: "tagged_gnos_inv I invar n"
    and eq: "\<And>t g. (\<exists>c. smap_find m t = Some c \<and> g \<in> icl_elems I c) \<longleftrightarrow>
                   (\<exists>c. smap_find n t = Some c \<and> g \<in> icl_elems I c)"
  shows "tagged_gnos_repr I m = tagged_gnos_repr I n"
proof (rule smap_ext)
  show "smap_ok (tagged_gnos_repr I m)" "smap_ok (tagged_gnos_repr I n)"
    using m n by (simp_all add: tagged_gnos_repr_def smap_ok_map_values tagged_gnos_ok)
  fix t
  have nonempty: "smap_find m t = Some c \<Longrightarrow> icl_elems I c \<noteq> {}"
    "smap_find n t = Some c \<Longrightarrow> icl_elems I c \<noteq> {}" for c
    using tagged_gnos_find m n by auto
  show "smap_find (tagged_gnos_repr I m) t = smap_find (tagged_gnos_repr I n) t"
  proof (cases "smap_find m t")
    case None
    then show ?thesis
      using eq [of t] nonempty(2) by (cases "smap_find n t") (auto simp: tagged_gnos_repr_def smap_find_map_values)
  next
    case (Some c)
    then obtain d where d: "smap_find n t = Some d"
      using eq [of t] nonempty(1) by auto
    have "icl_elems I c = icl_elems I d"
      using eq [of t] Some d by auto
    moreover have "invar c" "invar d" using tagged_gnos_find m n Some d by auto
    ultimately have "icl_intervals I c = icl_intervals I d"
      by (simp add: ivl_canonical_unique icl_canonical)
    with Some d show ?thesis by (simp add: tagged_gnos_repr_def smap_find_map_values)
  qed
qed

lemma gtid_set_repr_eqI:
  assumes a: "gtid_set_inv I invar a" and b: "gtid_set_inv I invar b"
    and eq: "gtid_set_abs I a = gtid_set_abs I b"
  shows "gtid_set_repr I a = gtid_set_repr I b"
proof (rule smap_ext)
  show "smap_ok (gtid_set_repr I a)" "smap_ok (gtid_set_repr I b)"
    using a b by (simp_all add: gtid_set_repr_def smap_ok_map_values gtid_set_inv_ok)
  fix u
  have eq': "(\<exists>m c. smap_find a u = Some m \<and> smap_find m t = Some c \<and> g \<in> icl_elems I c) \<longleftrightarrow>
      (\<exists>m c. smap_find b u = Some m \<and> smap_find m t = Some c \<and> g \<in> icl_elems I c)" for t g
    unfolding mem_gtid_set_abs [symmetric] eq ..
  have present: "\<exists>t g m c. smap_find d u = Some m \<and> smap_find m t = Some c \<and> g \<in> icl_elems I c"
    if "gtid_set_inv I invar d" "smap_find d u = Some m" for d m
    using tagged_gnos_has_element [OF gtid_set_find [OF that]] that(2) by blast
  show "smap_find (gtid_set_repr I a) u = smap_find (gtid_set_repr I b) u"
  proof (cases "smap_find a u")
    case None
    then show ?thesis
      using present [OF b] eq' by (cases "smap_find b u") (auto simp: gtid_set_repr_def smap_find_map_values)
  next
    case (Some m)
    then obtain n where n: "smap_find b u = Some n"
      using present [OF a Some] eq' by auto
    have "tagged_gnos_repr I m = tagged_gnos_repr I n"
      using eq' Some n gtid_set_find [OF a Some] gtid_set_find [OF b n]
      by (intro tagged_gnos_repr_eqI) auto
    with Some n show ?thesis by (simp add: gtid_set_repr_def smap_find_map_values)
  qed
qed

lemma gtid_set_repr_abs:
  assumes "gtid_set_repr I a = gtid_set_repr I b"
  shows "gtid_set_abs I a = gtid_set_abs I b"
proof -
  have "(u, t, g) \<in> gtid_set_abs I d \<longleftrightarrow>
      (\<exists>m c. smap_find (gtid_set_repr I d) u = Some m \<and> smap_find m t = Some c \<and> g \<in> ivl_elems c)" for u t g d
    by (auto simp: mem_gtid_set_abs gtid_set_repr_def tagged_gnos_repr_def smap_find_map_values)
  then show ?thesis using assms by auto
qed

lemma gtid_set_equal_refines:
  assumes "gtid_set_inv I invar a" and "gtid_set_inv I invar b"
  shows "gtid_set_equal I a b \<longleftrightarrow> gtid_set_abs I a = gtid_set_abs I b"
  using gtid_set_equal_repr [OF assms] gtid_set_repr_eqI [OF assms] gtid_set_repr_abs by blast

text \<open>Single transactions and intervals.\<close>

lemma add_components_refines:
  assumes "gtid_set_inv I invar data" and "add_components I u t g data = Inr data'"
  shows "gtid_set_inv I invar data' \<and> gtid_set_abs I data' = insert (u, t, g) (gtid_set_abs I data)"
proof -
  have g: "gno_ok g" and data': "data' = gtid_set_at I u t (icl_insert I g (g + 1)) data"
    using assms(2) by (auto simp: add_components_def result_simps simp del: gtid_constants)
  have "gtid_set_inv I invar data' \<and> gtid_set_abs I data' = gtid_set_abs I data \<union> {u} \<times> {t} \<times> {g..<g + 1}"
    unfolding data' using singleton_interval [OF g]
    by (intro conjI gtid_set_at_grow [OF assms(1)])
      (auto simp: icl_invar_insert icl_elems_insert simp del: gtid_constants)
  then show ?thesis by (simp add: singleton_interval [OF g])
qed

lemma interval_plus_one: "lo \<le> up \<Longrightarrow> gno_ok up \<Longrightarrow> {lo..<up + 1} = {lo..up}"
  by (rule set_eqI) (auto simp: word_less_nat_alt word_le_nat_alt unat_word_ariths)

lemma add_interval_refines:
  assumes "gtid_set_inv I invar data" and "up \<le> max_gno" and "add_interval I u t lo up data = Inr data'"
  shows "gtid_set_inv I invar data' \<and> gtid_set_abs I data' = gtid_set_abs I data \<union> {u} \<times> {t} \<times> {lo..up}"
proof (cases "up = lo")
  case True
  then show ?thesis
    using add_components_refines [OF assms(1), of u t lo data'] assms(3) by (simp add: add_interval_def)
next
  case False
  then have lo: "lo < up" "gno_ok lo" and data': "data' = gtid_set_at I u t (icl_insert I lo (up + 1)) data"
    using assms(3) by (auto simp: add_interval_def result_simps simp del: gtid_constants)
  have up: "{lo..<up + 1} = {lo..up}" "{lo..up} \<noteq> {}"
    using lo assms(2) by (auto intro!: interval_plus_one simp del: gtid_constants)
  show ?thesis
    unfolding data' using gtid_set_at_grow [OF assms(1), of "icl_insert I lo (up + 1)" "{lo..up}"] up
    by (simp add: icl_invar_insert icl_elems_insert)
qed

lemma subtract_interval_refines:
  assumes "gtid_set_inv I invar data" and "up \<le> max_gno" and "subtract_interval I u t lo up data = Inr data'"
  shows "gtid_set_inv I invar data' \<and> gtid_set_abs I data' = gtid_set_abs I data - {u} \<times> {t} \<times> {lo..up}"
proof -
  have lo: "lo \<le> up" "gno_ok lo" and data': "data' = subtract_with I u t (icl_erase I lo (up + 1)) data"
    using assms(3)
    by (auto simp: subtract_interval_def subtract_components_def result_simps simp del: gtid_constants
        split: if_splits)
  have "{lo..<up + 1} = {lo..up}"
    using lo assms(2) by (intro interval_plus_one) auto
  then show ?thesis
    unfolding data'
    by (intro subtract_with_shrink [OF assms(1)]) (simp add: icl_invar_erase icl_elems_erase)
qed

end

section \<open>Properties\<close>

text \<open>A server identifier and sets used by the concrete instances below.\<close>

abbreviation sample_uuid :: uuid where
  "sample_uuid \<equiv> Uuid (replicate 16 1)"

abbreviation sample_set :: "gno_t \<Rightarrow> gno_t \<Rightarrow> (gno_t \<times> gno_t) list gtid_set" where
  "sample_set lo up \<equiv> [(sample_uuid, [(Tag [], [(lo, up)])])]"

lemma sample_uuid_not_empty: "\<not> uuid_is_empty sample_uuid"
  by (simp add: uuid_is_empty_def numeral_eq_Suc)

lemma sample_set_inv: "lo < up \<Longrightarrow> gtid_set_inv list_icl ivl_canonical (sample_set lo up)"
  by (simp add: gtid_set_inv_def tagged_gnos_inv_def smap_ok_def list_icl_def)

lemma sample_set_abs: "gtid_set_abs list_icl (sample_set lo up) = {sample_uuid} \<times> {Tag []} \<times> {lo..<up}"
  by (auto simp: mem_gtid_set_abs smap_find_def list_icl_def split: if_splits)

lemma sample_set_valid: "gtid_set_valid list_icl (sample_set 1 4)"
  using sample_uuid_not_empty
  by (auto simp: gtid_set_valid_def sample_set_abs gtid_triple_ok_def uuid_ok_def tag_ok_iff
      tag_get_size_def tag_get_name_def as_string_view_def word_le_nat_alt word_less_nat_alt)

text \<open>
  C22: The union of two GTID sets (\<open>operator+\<close>, \<open>add\<close>) keeps the representation invariant (ordered
  maps, no empty containers) and contains exactly the transactions of both.
\<close>

theorem gtid_set_plus_refines_union:
  assumes "icl_interval_set I invar" and "gtid_set_inv I invar a" and "gtid_set_inv I invar b"
  shows "gtid_set_inv I invar (gtid_set_plus I a b) \<and>
         gtid_set_abs I (gtid_set_plus I a b) = gtid_set_abs I a \<union> gtid_set_abs I b"
  using icl_interval_set.add_set_refines [OF assms] by (simp add: gtid_set_plus_def)

theorem gtid_set_plus_refines_union_witness:
  "gtid_set_abs list_icl (gtid_set_plus list_icl (sample_set 1 4) (sample_set 4 9)) =
   {sample_uuid} \<times> {Tag []} \<times> ({1..<4} \<union> {4..<9})"
  using gtid_set_plus_refines_union
    [OF list_icl_interval_set sample_set_inv [of 1 4] sample_set_inv [of 4 9]]
  by (auto simp: sample_set_abs)

text \<open>
  C23: The difference of two GTID sets (\<open>operator-\<close>, \<open>subtract\<close>) keeps the invariant (every emptied
  container and inner map is cleaned up) and contains exactly the transactions of the first
  that are not in the second.
\<close>

theorem gtid_set_minus_refines_difference:
  assumes "icl_interval_set I invar" and "gtid_set_inv I invar a" and "gtid_set_inv I invar b"
  shows "gtid_set_inv I invar (gtid_set_minus I a b) \<and>
         gtid_set_abs I (gtid_set_minus I a b) = gtid_set_abs I a - gtid_set_abs I b"
  using icl_interval_set.subtract_set_refines [OF assms] by (simp add: gtid_set_minus_def)

theorem gtid_set_minus_refines_difference_witness:
  "gtid_set_abs list_icl (gtid_set_minus list_icl (sample_set 1 9) (sample_set 4 9)) =
   {sample_uuid} \<times> {Tag []} \<times> ({1..<9} - {4..<9})"
  using gtid_set_minus_refines_difference
    [OF list_icl_interval_set sample_set_inv [of 1 9] sample_set_inv [of 4 9]]
  by (auto simp: sample_set_abs)

text \<open>
  The queries decide the questions about the denoted sets: \<open>is_empty\<close>, \<open>contains\<close>,
  \<open>intersects\<close> and \<open>operator==\<close>.
\<close>

lemma gtid_set_queries_correct:
  assumes "icl_interval_set I invar" and "gtid_set_inv I invar a" and "gtid_set_inv I invar b"
  shows "(gtid_set_is_empty a \<longleftrightarrow> gtid_set_abs I a = {}) \<and>
         (contains I a g \<longleftrightarrow> gtid_triple_of g \<in> gtid_set_abs I a) \<and>
         (intersects I a b \<longleftrightarrow> gtid_set_abs I a \<inter> gtid_set_abs I b \<noteq> {}) \<and>
         (gtid_set_equal I a b \<longleftrightarrow> gtid_set_abs I a = gtid_set_abs I b)"
  using icl_interval_set.is_empty_refines [OF assms(1,2)]
    icl_interval_set.contains_refines [OF assms(1,2)]
    icl_interval_set.intersects_refines [OF assms] icl_interval_set.gtid_set_equal_refines [OF assms]
  by simp

text \<open>
  Adding an interval whose upper bound is a valid transaction number either fails, exactly
  when the UUID is nil, the lower bound is out of range or the bounds are reversed, or adds
  precisely the transactions from the lower to the upper bound, both included.
\<close>

lemma add_interval_correct:
  assumes "icl_interval_set I invar" and "gtid_set_inv I invar data" and "up \<le> max_gno"
  shows "case add_interval I u t lo up data of
           Inl e \<Rightarrow> uuid_is_empty u \<or> \<not> gno_ok lo \<or> up < lo
         | Inr data' \<Rightarrow> gtid_set_inv I invar data' \<and>
             gtid_set_abs I data' = gtid_set_abs I data \<union> {u} \<times> {t} \<times> {lo..up}"
proof (cases "add_interval I u t lo up data")
  case (Inl e)
  then show ?thesis
    by (auto simp: add_interval_def add_components_def validate_components_def ensure_def rbind_eq_Inl
        not_le simp del: gtid_constants split: if_splits)
next
  case (Inr data')
  then show ?thesis
    using icl_interval_set.add_interval_refines [OF assms Inr] by simp
qed

text \<open>
  Subtracting an interval whose upper bound is a valid transaction number removes precisely
  the transactions from the lower to the upper bound, cleaning up what becomes empty.
\<close>

lemma subtract_interval_correct:
  assumes "icl_interval_set I invar" and "gtid_set_inv I invar data" and "up \<le> max_gno"
    and "\<not> uuid_is_empty u" and "gno_ok lo" and "lo \<le> up"
  shows "\<exists>data'. subtract_interval I u t lo up data = Inr data' \<and> gtid_set_inv I invar data' \<and>
           gtid_set_abs I data' = gtid_set_abs I data - {u} \<times> {t} \<times> {lo..up}"
proof -
  have "validate_components u t lo = Inr ()"
    using assms(4,5) by (simp only: validate_components_Inr) simp
  with assms(6) have "is_ok (subtract_interval I u t lo up data)"
    by (simp add: subtract_interval_def subtract_components_def not_less)
  then obtain data' where "subtract_interval I u t lo up data = Inr data'"
    by (auto simp: is_ok_iff)
  then show ?thesis
    using icl_interval_set.subtract_interval_refines [OF assms(1-3)] by blast
qed

text \<open>
  C37: The upper bound of an added interval is not checked: with the largest 64-bit number the
  exclusive bound wraps to zero, nothing is added, and yet the set stops being empty.
\<close>

theorem add_interval_upper_bound_wraps:
  assumes "icl_interval_set I invar" and "\<not> uuid_is_empty u" and "gno_ok lo"
  shows "\<exists>data. add_interval I u t lo (- 1) [] = Inr data \<and>
           gtid_set_abs I data = {} \<and> \<not> gtid_set_is_empty data"
proof -
  have "validate_components u t lo = Inr ()"
    using assms(2,3) by (simp only: validate_components_Inr) simp
  moreover have "\<not> (- 1 :: gno_t) \<le> max_gno" by code_simp
  with assms(3) have "lo \<noteq> - 1" "\<not> - 1 < lo" by (auto simp del: gtid_constants)
  ultimately have "add_interval I u t lo (- 1) [] = Inr [(u, [(t, icl_insert I lo 0 (icl_empty I))])]"
    by (auto simp: add_interval_def gtid_set_at_def)
  moreover have "icl_elems I (icl_insert I lo 0 (icl_empty I)) = {}"
    using icl_interval_set.icl_elems_insert [OF assms(1)] icl_interval_set.icl_invar_empty [OF assms(1)]
      icl_interval_set.icl_elems_empty [OF assms(1)] by simp
  ultimately show ?thesis
    by (auto simp: gtid_set_is_empty_def mem_gtid_set_abs smap_find_def split: if_splits)
qed

theorem add_interval_upper_bound_wraps_witness:
  "\<exists>data. add_interval list_icl sample_uuid (Tag []) 1 (- 1) [] = Inr data \<and>
     gtid_set_abs list_icl data = {} \<and> \<not> gtid_set_is_empty data"
  by (rule add_interval_upper_bound_wraps [OF list_icl_interval_set])
    (simp_all add: word_le_nat_alt sample_uuid_not_empty)

end
