(* ===== verification/Gtid_Set_Codec.thy ===== *)
theory Gtid_Set_Codec
  imports Gtid_Set
begin

text \<open>
  The binary form of a GTID set (\<open>gtid_set.cpp\<close>: \<open>calculate_encoded_size\<close>, \<open>encode_to\<close>, the
  decoding constructor and \<open>process_intervals\<close>), in its untagged (MySQL 8.0) and tagged (8.4)
  variants, which share an eight-byte header. The main result is that what the encoder writes
  fills exactly the calculated size and is decoded to an equal set.
\<close>

section \<open>Encoding\<close>

definition calculate_encoded_size :: "'c icl \<Rightarrow> 'c gtid_set \<Rightarrow> nat" where
  "calculate_encoded_size I data =
     (let tagged_flag = contains_tags data in
      fold (\<lambda>(current_uuid, current_tagged_gnos).
        fold (\<lambda>(current_tag, current_gnos) result.
          result + uuid_calculate_encoded_size
            + (if tagged_flag then tag_calculate_encoded_size current_tag else 0)
            + 8 + length (icl_intervals I current_gnos) * 2 * 8) current_tagged_gnos)
      data 8)"

definition encode_header :: "bool \<Rightarrow> nat \<Rightarrow> uint64 result" where
  "encode_header tagged number_of_tsids =
     (let format_bit_width = 8 in
      if \<not> tagged then
        rbind (ensure (number_of_tsids < 2 ^ (64 - format_bit_width))
          (Invalid_argument ''the number of TSIDs in the untagged GTID set being encoded is too large''))
          (\<lambda>_. Inr (of_nat number_of_tsids))
      else
        rbind (ensure (number_of_tsids < 2 ^ (64 - 2 * format_bit_width))
          (Invalid_argument ''the number of TSIDs in the tagged GTID set being encoded is too large''))
          (\<lambda>_. let result = push_bit (64 - 2 * format_bit_width) 1;
                   result = result OR of_nat number_of_tsids;
                   result = push_bit format_bit_width result
               in Inr (result OR 1)))"

text \<open>Evaluation compares with the bounds as integers, which stay in binary.\<close>

lemma encode_header_code [code]:
  "encode_header tagged number_of_tsids =
     (if \<not> tagged then
        rbind (ensure (int number_of_tsids < 2 ^ 56)
          (Invalid_argument ''the number of TSIDs in the untagged GTID set being encoded is too large''))
          (\<lambda>_. Inr (of_nat number_of_tsids))
      else
        rbind (ensure (int number_of_tsids < 2 ^ 48)
          (Invalid_argument ''the number of TSIDs in the tagged GTID set being encoded is too large''))
          (\<lambda>_. Inr (push_bit 8 (push_bit 48 1 OR of_nat number_of_tsids) OR 1)))"
  by (simp add: encode_header_def Let_def)

definition encode_tsid :: "'c icl \<Rightarrow> bool \<Rightarrow> uuid \<times> tag \<times> 'c \<Rightarrow> byte_span \<Rightarrow> byte_span result" where
  "encode_tsid I tagged_flag = (\<lambda>(current_uuid, current_tag, current_gnos) remainder.
     rbind (uuid_encode_to current_uuid remainder) (\<lambda>remainder.
     rbind (if tagged_flag then tag_encode_to current_tag remainder else Inr remainder) (\<lambda>remainder.
     rbind (insert_fixed_int_to_byte_span 8
              (of_nat (length (icl_intervals I current_gnos)) :: uint64) remainder) (\<lambda>remainder.
     rfold (\<lambda>(lower, upper) remainder.
       rbind (insert_fixed_int_to_byte_span 8 lower remainder)
         (insert_fixed_int_to_byte_span 8 upper))
       (icl_intervals I current_gnos) remainder))))"

text \<open>
  The body is written behind eight skipped bytes; the header goes into them at the end. The
  nested loop visits the entries in the order of \<open>gtid_entries\<close> and counts them.
\<close>

definition encode_to :: "'c icl \<Rightarrow> 'c gtid_set \<Rightarrow> byte_span \<Rightarrow> byte_span result" where
  "encode_to I data destination =
     (let tagged_flag = contains_tags data in
      rbind (ensure (8 \<le> span_size destination) (Undefined_behaviour ''subspan'')) (\<lambda>_.
      let (done, room) = destination in
      rbind (rfold (encode_tsid I tagged_flag) (gtid_entries data) ([], drop 8 room)) (\<lambda>(body, rest).
      rbind (encode_header tagged_flag (length (gtid_entries data))) (\<lambda>encoded_header.
      rbind (insert_fixed_int_to_byte_span 8 encoded_header (done, take 8 room)) (\<lambda>header.
      Inr (fst header @ body, rest))))))"

section \<open>Decoding\<close>

definition parse_header :: "uint64 \<Rightarrow> (bool \<times> nat) result" where
  "parse_header value =
     (let format_bit_width = 8;
          gtid_format_field = ucast (drop_bit (64 - format_bit_width) value) :: uint8
      in rbind (ensure (drop_bit 1 gtid_format_field = 0)
           (Invalid_argument ''invalid header in the encoded GTID set'')) (\<lambda>_.
         let tagged_flag = (gtid_format_field = 1);
             value = (if tagged_flag
                      then drop_bit (2 * format_bit_width) (push_bit format_bit_width value) else value)
         in Inr (tagged_flag, unat value)))"

definition parse_raw_tag :: "const_byte_span \<Rightarrow> (byte list \<times> const_byte_span) result" where
  "parse_raw_tag source =
     rbind (or_raise (extract_varlen_int_from_byte_span_checked source)
              (Invalid_argument ''encoded GTID set is too short to extract tag length''))
       (\<lambda>(extracted_tag_length :: uint64, source).
     rbind (ensure (unat extracted_tag_length \<le> tag_max_length)
              (Bad_alloc ''static_vector: the new size exceeds the capacity'')) (\<lambda>_.
     or_raise (extract_byte_span_from_byte_span_checked (unat extracted_tag_length) source)
       (Invalid_argument ''encoded GTID set is too short to extract tag data'')))"

definition parse_interval :: "const_byte_span \<Rightarrow> ((gno_t \<times> gno_t) \<times> const_byte_span) result" where
  "parse_interval source =
     rbind (or_raise (extract_fixed_int_from_byte_span_checked 8 source)
       (Invalid_argument ''encoded GTID set is too short to extract the lower component of the interval''))
       (\<lambda>(lower, source).
     rbind (or_raise (extract_fixed_int_from_byte_span_checked 8 source)
       (Invalid_argument ''encoded GTID set is too short to extract the upper component of the interval''))
       (\<lambda>(upper, source).
     rbind (ensure (\<not> upper \<le> lower)
       (Invalid_argument ''lower and upper components of the interval in the encoded GTID set do not represent a valid range ''))
       (\<lambda>_. Inr ((lower, upper), source))))"

primrec process_intervals_loop :: "'c icl \<Rightarrow> nat \<Rightarrow> const_byte_span \<Rightarrow> 'c \<Rightarrow> ('c \<times> const_byte_span) result" where
  "process_intervals_loop I 0 remainder gnos = Inr (gnos, remainder)"
| "process_intervals_loop I (Suc n) remainder gnos =
     rbind (parse_interval remainder) (\<lambda>((lower, upper), remainder).
     process_intervals_loop I n remainder (icl_insert I lower upper gnos))"

definition process_intervals ::
    "'c icl \<Rightarrow> uuid \<Rightarrow> tag \<Rightarrow> const_byte_span \<Rightarrow> 'c gtid_set \<Rightarrow> ('c gtid_set \<times> const_byte_span) result" where
  "process_intervals I current_uuid current_tag remainder data =
     rbind (or_raise (extract_fixed_int_from_byte_span_checked 8 remainder)
       (Invalid_argument ''encoded GTID set is too short to number of intervals''))
       (\<lambda>(current_number_of_intervals :: uint64, remainder).
     let gnos = (case find_gnos data current_uuid current_tag of
                   None \<Rightarrow> icl_empty I | Some (_, gnos) \<Rightarrow> gnos) in
     rbind (process_intervals_loop I (unat current_number_of_intervals) remainder gnos)
       (\<lambda>(gnos, remainder).
     Inr (gtid_set_at I current_uuid current_tag (\<lambda>_. gnos) data, remainder)))"

primrec decode_tsids ::
    "'c icl \<Rightarrow> bool \<Rightarrow> nat \<Rightarrow> byte list \<Rightarrow> const_byte_span \<Rightarrow> 'c gtid_set \<Rightarrow>
     ('c gtid_set \<times> const_byte_span) result" where
  "decode_tsids I tagged 0 current_tag_raw remainder data = Inr (data, remainder)"
| "decode_tsids I tagged (Suc n) current_tag_raw remainder data =
     rbind (or_raise (extract_byte_array_from_byte_span_checked uuid_length remainder)
       (Invalid_argument ''encoded GTID set is too short to extract UUID''))
       (\<lambda>(current_uuid_raw, remainder).
     rbind (if tagged then parse_raw_tag remainder else Inr (current_tag_raw, remainder))
       (\<lambda>(current_tag_raw, remainder).
     rbind (tag_of_raw current_tag_raw) (\<lambda>current_tag.
     rbind (process_intervals I (Uuid current_uuid_raw) current_tag remainder data)
       (\<lambda>(data, remainder).
     decode_tsids I tagged n current_tag_raw remainder data))))"

definition gtid_set_decode :: "'c icl \<Rightarrow> const_byte_span \<Rightarrow> 'c gtid_set result" where
  "gtid_set_decode I portion =
     rbind (or_raise (extract_fixed_int_from_byte_span_checked 8 portion)
       (Invalid_argument ''encoded GTID set is too short to extract header''))
       (\<lambda>(header, remainder).
     rbind (parse_header header) (\<lambda>(tagged, number_of_tsids).
     rbind (decode_tsids I tagged number_of_tsids [] remainder []) (\<lambda>(data, remainder).
     rbind (ensure (remainder = []) (Invalid_argument ''extra bytes in the encoded gtid_set'')) (\<lambda>_.
     Inr data))))"

section \<open>The header\<close>

lemma parse_encoded_header:
  assumes "n < 2 ^ 48" and "encode_header tagged n = Inr h"
  shows "parse_header h = Inr (tagged, n)"
proof (cases tagged)
  case False
  have n: "unat (of_nat n :: uint64) = n"
    using assms(1) by (simp add: unat_of_nat)
  have h: "h = of_nat n"
    using assms False by (auto simp: encode_header_def result_simps)
  have "unat (drop_bit 56 (of_nat n :: uint64)) = 0"
    using assms(1) n by (subst unat_drop_bit_eq) (simp add: drop_bit_eq_div)
  then have "drop_bit 56 (of_nat n :: uint64) = 0"
    by (simp only: unat_eq_0)
  then show ?thesis
    using False n by (simp add: parse_header_def h Let_def del: drop_bit_eq_div)
next
  case True
  define w where "w = (of_nat n :: uint64)"
  have n: "unat w = n"
    using assms(1) by (simp add: unat_of_nat w_def)
  have h: "h = push_bit 8 (push_bit 48 1 OR w) OR 1"
    using assms True by (auto simp: encode_header_def result_simps w_def Let_def)
  have "unat (take_bit 48 w) = unat w"
    using n assms(1) by (subst unsigned_take_bit_eq) (simp add: take_bit_eq_mod)
  then have "take_bit 48 w = w"
    by (simp only: word_unat_eq_iff)
  then have hi: "\<not> bit w i" if "48 \<le> i" for i
    using that by (metis bit_take_bit_iff not_le)
  have format: "ucast (drop_bit 56 h) = (1 :: uint8)"
    unfolding h by (intro bit_word_eqI) (auto simp: bit_simps hi)
  have payload: "drop_bit 16 (push_bit 8 h) = w"
    unfolding h by (intro bit_word_eqI) (use hi not_less in \<open>auto simp: bit_simps\<close>)
  have "drop_bit (Suc 0) (1 :: uint8) = 0" by (simp add: drop_bit_Suc)
  then show ?thesis
    using True n by (simp add: parse_header_def Let_def format payload del: drop_bit_eq_div push_bit_eq_mult)
qed

section \<open>Encoded entries\<close>

definition tsid_bytes :: "'c icl \<Rightarrow> bool \<Rightarrow> uuid \<times> tag \<times> 'c \<Rightarrow> byte list" where
  "tsid_bytes I tagged = (\<lambda>(u, t, c).
     uuid_get_raw u @
     (if tagged then varlen_int_bytes (of_nat (tag_get_size t) :: uint64) @ tag_get_raw t else []) @
     le_of_nat 8 (unat (of_nat (length (icl_intervals I c)) :: uint64)) @
     concat (map (\<lambda>(lo, up). le_of_nat 8 (unat lo) @ le_of_nat 8 (unat up)) (icl_intervals I c)))"

definition tsid_ok :: "'c icl \<Rightarrow> bool \<Rightarrow> uuid \<times> tag \<times> 'c \<Rightarrow> bool" where
  "tsid_ok I tagged = (\<lambda>(u, t, c).
     uuid_ok u \<and> tag_ok t \<and> (\<not> tagged \<longrightarrow> t = Tag []) \<and> ivl_canonical (icl_intervals I c))"

lemma insert_uint64_eq:
  "8 \<le> span_size s \<Longrightarrow>
   insert_fixed_int_to_byte_span 8 (v :: uint64) s = Inr (write_bytes (le_of_nat 8 (unat v)) s)"
  by (simp add: insert_fixed_int_to_byte_span_def)

lemma encode_intervals:
  "length xs * 16 \<le> span_size s \<Longrightarrow>
   rfold (\<lambda>(lower, upper) remainder.
       rbind (insert_fixed_int_to_byte_span 8 (lower :: uint64) remainder)
         (insert_fixed_int_to_byte_span 8 (upper :: uint64))) xs s =
   Inr (write_bytes (concat (map (\<lambda>(lo, up). le_of_nat 8 (unat lo) @ le_of_nat 8 (unat up)) xs)) s)"
proof (induction xs arbitrary: s)
  case (Cons x xs)
  obtain lo up where x: "x = (lo, up)" by fastforce
  show ?case
    using Cons.prems Cons.IH [of "write_bytes (le_of_nat 8 (unat lo) @ le_of_nat 8 (unat up)) s"]
    by (simp add: x insert_uint64_eq)
qed simp

lemma length_interval_bytes [simp]:
  "length (concat (map (\<lambda>(lo, up). le_of_nat 8 (unat lo) @ le_of_nat 8 (unat up)) xs)) = length xs * 16"
  by (induction xs) auto

lemma length_tag_size_bytes [simp]:
  "length (varlen_int_bytes (of_nat (tag_get_size t) :: uint64)) + length (tag_get_raw t) =
   tag_calculate_encoded_size t"
  by (simp add: length_varlen_int_bytes tag_calculate_encoded_size_def tag_get_size_def)

lemma tag_encode_to_eq:
  "tag_calculate_encoded_size t \<le> span_size s \<Longrightarrow>
   tag_encode_to t s = Inr (write_bytes (varlen_int_bytes (of_nat (tag_get_size t) :: uint64) @ tag_get_raw t) s)"
  using length_tag_size_bytes [of t]
  by (simp add: tag_encode_to_def insert_varlen_eq insert_byte_span_to_byte_span_checked_def
      length_varlen_int_bytes)

lemma length_tsid_bytes:
  "uuid_ok u \<Longrightarrow> length (tsid_bytes I tagged (u, t, c)) =
     uuid_calculate_encoded_size + (if tagged then tag_calculate_encoded_size t else 0)
     + 8 + length (icl_intervals I c) * 2 * 8"
  using length_tag_size_bytes [of t]
  by (simp add: tsid_bytes_def uuid_ok_def uuid_calculate_encoded_size_def)

lemma encode_tsid_eq:
  assumes "uuid_ok u" and "length (tsid_bytes I tagged (u, t, c)) \<le> span_size s"
  shows "encode_tsid I tagged (u, t, c) s = Inr (write_bytes (tsid_bytes I tagged (u, t, c)) s)"
proof -
  have room: "16 + (if tagged then tag_calculate_encoded_size t else 0) + 8 + length (icl_intervals I c) * 16 \<le> span_size s"
    and len: "length (uuid_get_raw u) = 16"
    using assms by (simp_all add: length_tsid_bytes uuid_calculate_encoded_size_def uuid_ok_def)
  show ?thesis
    using room len length_tag_size_bytes [of t]
    by (cases tagged) (simp_all add: encode_tsid_def uuid_encode_to_def insert_byte_span_to_byte_span_checked_def
        tag_encode_to_eq insert_uint64_eq encode_intervals tsid_bytes_def)
qed

lemma encode_tsids_eq:
  assumes "\<forall>(u, t, c) \<in> set es. uuid_ok u"
    and "length (concat (map (tsid_bytes I tagged) es)) \<le> span_size s"
  shows "rfold (encode_tsid I tagged) es s = Inr (write_bytes (concat (map (tsid_bytes I tagged) es)) s)"
  using assms
proof (induction es arbitrary: s)
  case (Cons e es)
  obtain u t c where e: "e = (u, t, c)" by (cases e)
  show ?case
    using Cons.prems Cons.IH [of "write_bytes (tsid_bytes I tagged e) s"]
    by (simp add: e encode_tsid_eq)
qed simp

lemma calculate_encoded_size_eq:
  assumes "\<forall>(u, t, c) \<in> set (gtid_entries data). uuid_ok u"
  shows "calculate_encoded_size I data =
         8 + length (concat (map (tsid_bytes I (contains_tags data)) (gtid_entries data)))"
proof -
  let ?tagged = "contains_tags data"
  let ?step = "\<lambda>(u :: uuid, t, c) result. result + uuid_calculate_encoded_size
            + (if ?tagged then tag_calculate_encoded_size t else 0) + 8 + length (icl_intervals I c) * 2 * 8"
  have "fold ?step es n = n + length (concat (map (tsid_bytes I ?tagged) es))"
    if "\<forall>(u, t, c) \<in> set es. uuid_ok u" for es n
    using that
  proof (induction es arbitrary: n)
    case (Cons e es)
    then show ?case by (cases e) (simp add: length_tsid_bytes)
  qed simp
  then show ?thesis
    using assms fold_gtid_entries [of "\<lambda>u t c result. result + uuid_calculate_encoded_size
            + (if ?tagged then tag_calculate_encoded_size t else 0) + 8 + length (icl_intervals I c) * 2 * 8"]
    by (simp add: calculate_encoded_size_def)
qed

lemma encode_to_eq:
  assumes "\<forall>(u, t, c) \<in> set (gtid_entries data). uuid_ok u"
    and "calculate_encoded_size I data \<le> length room"
    and "encode_header (contains_tags data) (length (gtid_entries data)) = Inr h"
  shows "encode_to I data (done, room) =
    Inr (write_bytes (le_of_nat 8 (unat h) @
           concat (map (tsid_bytes I (contains_tags data)) (gtid_entries data))) (done, room))"
  using assms(2,3)
  by (simp add: encode_to_def Let_def encode_tsids_eq [OF assms(1)] calculate_encoded_size_eq [OF assms(1)]
      insert_uint64_eq write_bytes_def add.commute)

section \<open>Decoded entries\<close>

lemma parse_interval_bytes:
  "lo < up \<Longrightarrow> parse_interval (le_of_nat 8 (unat lo) @ le_of_nat 8 (unat up) @ r) = Inr ((lo, up), r)"
  by (simp add: parse_interval_def not_le)

lemma process_intervals_loop_bytes:
  "\<forall>(lo, up) \<in> set xs. lo < up \<Longrightarrow>
   process_intervals_loop I (length xs)
     (concat (map (\<lambda>(lo, up). le_of_nat 8 (unat lo) @ le_of_nat 8 (unat up)) xs) @ r) gnos =
   Inr (fold (\<lambda>(lo, up). icl_insert I lo up) xs gnos, r)"
proof (induction xs arbitrary: gnos)
  case (Cons x xs)
  then show ?case by (cases x) (simp add: parse_interval_bytes)
qed simp

text \<open>A canonical list of intervals has fewer than $2^{64}$ of them, so its length is encodable.\<close>

lemma ivl_canonical_distinct: "ivl_canonical xs \<Longrightarrow> distinct (map fst xs)"
proof (induction xs)
  case (Cons x xs)
  obtain a b where x: "x = (a, b)" by fastforce
  have "a < b" "\<forall>(c, d) \<in> set xs. b < c" "ivl_canonical xs"
    using Cons.prems by (simp_all add: x ivl_canonical_Cons)
  then show ?case using Cons.IH by (fastforce simp: x)
qed simp

lemma ivl_canonical_length:
  assumes "ivl_canonical xs"
  shows "length xs < 2 ^ 64"
proof -
  have "fst ` set xs \<subseteq> UNIV - {- 1 :: gno_t}"
    using ivl_canonical_nonempty [OF assms] word_order.extremum leD by fastforce
  then have "card (fst ` set xs) \<le> card (UNIV - {- 1 :: gno_t})"
    by (intro card_mono) auto
  also have "\<dots> < 2 ^ 64"
    by (simp add: card_Diff_singleton card_word)
  also have "card (fst ` set xs) = length xs"
    using ivl_canonical_distinct [OF assms] by (metis distinct_card length_map set_map)
  finally show ?thesis .
qed

lemma length_intervals_roundtrip:
  "ivl_canonical xs \<Longrightarrow> unat (of_nat (length xs) :: uint64) = length xs"
  using ivl_canonical_length [of xs] by (simp add: unat_of_nat)

definition decode_entry :: "'c icl \<Rightarrow> uuid \<times> tag \<times> 'c \<Rightarrow> 'c gtid_set \<Rightarrow> 'c gtid_set" where
  "decode_entry I = (\<lambda>(u, t, c) data.
     gtid_set_at I u t (fold (\<lambda>(lo, up). icl_insert I lo up) (icl_intervals I c)) data)"

lemma gtid_set_at_const:
  assumes "smap_ok data" and "\<And>m. smap_find data u = Some m \<Longrightarrow> smap_ok m"
  shows "gtid_set_at I u t (\<lambda>_. f (case find_gnos data u t of None \<Rightarrow> icl_empty I | Some (_, c) \<Rightarrow> c)) data =
         gtid_set_at I u t f data"
proof (rule smap_ext)
  fix u'
  have "smap_at (icl_empty I) (\<lambda>_. f (case find_gnos data u t of None \<Rightarrow> icl_empty I | Some (_, c) \<Rightarrow> c)) t m =
        smap_at (icl_empty I) f t m" if "m = (case smap_find data u of None \<Rightarrow> [] | Some m \<Rightarrow> m)" for m
    using assms(2) that
    by (intro smap_ext) (auto simp: smap_find_at find_gnos_def split: option.splits)
  then show "smap_find (gtid_set_at I u t (\<lambda>_. f (case find_gnos data u t of None \<Rightarrow> icl_empty I | Some (_, c) \<Rightarrow> c)) data) u' =
      smap_find (gtid_set_at I u t f data) u'"
    using assms by (simp add: gtid_set_at_def smap_find_at)
qed (use assms in \<open>simp_all add: gtid_set_at_def\<close>)

context icl_interval_set begin

lemma process_intervals_bytes:
  assumes "gtid_set_inv I invar data" and "ivl_canonical (icl_intervals I c)"
  shows "process_intervals I u t
     (le_of_nat 8 (unat (of_nat (length (icl_intervals I c)) :: uint64)) @
      concat (map (\<lambda>(lo, up). le_of_nat 8 (unat lo) @ le_of_nat 8 (unat up)) (icl_intervals I c)) @ r) data =
    Inr (decode_entry I (u, t, c) data, r)"
proof -
  have "\<forall>(lo, up) \<in> set (icl_intervals I c). lo < up"
    using ivl_canonical_nonempty [OF assms(2)] by auto
  moreover have "smap_ok data" "\<And>m. smap_find data u = Some m \<Longrightarrow> smap_ok m"
    using assms(1) by (auto intro: gtid_set_inv_ok tagged_gnos_ok gtid_set_find)
  moreover define n where "n = (of_nat (length (icl_intervals I c)) :: uint64)"
  moreover have "length (icl_intervals I c) = unat n"
    by (simp only: n_def length_intervals_roundtrip [OF assms(2)])
  ultimately show ?thesis
    using process_intervals_loop_bytes [of "icl_intervals I c" I r]
    by (simp add: process_intervals_def gtid_set_at_const decode_entry_def flip: n_def)
qed

lemma decode_entry_refines:
  assumes "gtid_set_inv I invar data" and "invar c" and "icl_elems I c \<noteq> {}"
  shows "gtid_set_inv I invar (decode_entry I (u, t, c) data)"
    and "gtid_set_abs I (decode_entry I (u, t, c) data) = gtid_set_abs I data \<union> {u} \<times> {t} \<times> icl_elems I c"
proof -
  let ?f = "fold (\<lambda>(lo, up). icl_insert I lo up) (icl_intervals I c)"
  have "invar d \<Longrightarrow> invar (?f d) \<and> icl_elems I (?f d) = icl_elems I d \<union> icl_elems I c" for d
    by (rule icl_fold_insert)
  note grow = gtid_set_at_grow [OF assms(1) this assms(3), of u t]
  show "gtid_set_inv I invar (decode_entry I (u, t, c) data)"
    and "gtid_set_abs I (decode_entry I (u, t, c) data) = gtid_set_abs I data \<union> {u} \<times> {t} \<times> icl_elems I c"
    using grow by (simp_all add: decode_entry_def)
qed

lemma fold_decode_entries:
  assumes "gtid_set_inv I invar data" and "\<forall>(u, t, c) \<in> set es. invar c \<and> icl_elems I c \<noteq> {}"
  shows "gtid_set_inv I invar (fold (decode_entry I) es data) \<and>
    gtid_set_abs I (fold (decode_entry I) es data) =
    gtid_set_abs I data \<union> {(u, t, g). \<exists>c. (u, t, c) \<in> set es \<and> g \<in> icl_elems I c}"
  using assms
proof (induction es arbitrary: data)
  case (Cons e es)
  obtain u t c where e: "e = (u, t, c)" by (cases e)
  have c: "invar c" "icl_elems I c \<noteq> {}" using Cons.prems(2) by (auto simp: e)
  note entry = decode_entry_refines [OF Cons.prems(1) c, of u t]
  show ?case
    using Cons.IH [OF entry(1)] Cons.prems(2) by (auto simp: e entry(2))
qed auto

end

lemma parse_raw_tag_bytes:
  assumes "tag_ok t"
  shows "parse_raw_tag (varlen_int_bytes (of_nat (tag_get_size t) :: uint64) @ tag_get_raw t @ r) =
         Inr (tag_get_raw t, r)"
proof -
  have size: "tag_get_size t \<le> 32" by (rule tag_ok_size [OF assms])
  then have "unat (of_nat (tag_get_size t) :: uint64) = tag_get_size t"
    by (simp add: unat_of_nat)
  then show ?thesis
    using size
    by (simp add: parse_raw_tag_def extract_varlen_bytes extract_byte_span_from_byte_span_checked_def
        tag_get_size_def)
qed

lemma extract_uuid_bytes:
  "uuid_ok u \<Longrightarrow> extract_byte_array_from_byte_span_checked 16 (uuid_get_raw u @ r) = Some (uuid_get_raw u, r)"
  by (simp add: extract_byte_array_from_byte_span_checked_def uuid_ok_def)

context icl_interval_set begin

lemma decode_tsids_bytes:
  assumes "\<forall>e \<in> set es. tsid_ok I tagged e" and "gtid_set_inv I invar data"
    and "\<forall>(u, t, c) \<in> set es. invar c \<and> icl_elems I c \<noteq> {}" and "\<not> tagged \<Longrightarrow> raw = []"
  shows "decode_tsids I tagged (length es) raw (concat (map (tsid_bytes I tagged) es) @ r) data =
         Inr (fold (decode_entry I) es data, r)"
  using assms
proof (induction es arbitrary: data raw)
  case (Cons e es)
  obtain u t c where e: "e = (u, t, c)" by (cases e)
  have ok: "uuid_ok u" "tag_ok t" "\<not> tagged \<Longrightarrow> t = Tag []" "ivl_canonical (icl_intervals I c)"
    and c: "invar c" "icl_elems I c \<noteq> {}"
    using Cons.prems(1,3) by (auto simp: e tsid_ok_def)
  have tag: "tag_of_raw (tag_get_raw t) = Inr t"
    using ok(2) by (simp add: tag_ok_def)
  note inv' = decode_entry_refines(1) [OF Cons.prems(2) c, of u t]
  have "decode_tsids I tagged (length es) raw' (concat (map (tsid_bytes I tagged) es) @ r)
      (decode_entry I (u, t, c) data) = Inr (fold (decode_entry I) es (decode_entry I (u, t, c) data), r)"
    if "\<not> tagged \<Longrightarrow> raw' = []" for raw'
    using Cons.prems(1,3) inv' that by (intro Cons.IH) auto
  then show ?case
    using Cons.prems(4) ok(3) tag
    by (cases tagged)
      (simp_all add: e tsid_bytes_def extract_uuid_bytes ok(1) parse_raw_tag_bytes ok(2)
        process_intervals_bytes [OF Cons.prems(2) ok(4)])
qed simp

lemma entries_tsid_ok:
  assumes inv: "gtid_set_inv I invar data" and valid: "gtid_set_valid I data"
    and e: "e \<in> set (gtid_entries data)"
  shows "tsid_ok I (contains_tags data) e"
proof -
  obtain u t c where eq: "e = (u, t, c)" by (cases e)
  have c: "invar c" "icl_elems I c \<noteq> {}" using gtid_entries_inv [OF inv] e eq by auto
  then obtain g where "(u, t, g) \<in> gtid_set_abs I data"
    using e eq by (auto simp: gtid_set_abs_entries [OF inv])
  then have "uuid_ok u" "tag_ok t" using valid by (auto simp: gtid_set_valid_def gtid_triple_ok_def)
  moreover have "t = Tag []" if "\<not> contains_tags data"
    using that e eq by (cases t) (fastforce simp: contains_tags_def list_ex_iff set_gtid_entries tag_is_empty_def)
  ultimately show ?thesis using c icl_canonical by (simp add: tsid_ok_def eq)
qed

lemma encode_decode:
  assumes inv: "gtid_set_inv I invar data" and valid: "gtid_set_valid I data"
    and n: "length (gtid_entries data) < 2 ^ 48"
    and room: "calculate_encoded_size I data \<le> length room"
  shows "\<exists>bytes data'. encode_to I data (done, room) = Inr (write_bytes bytes (done, room)) \<and>
    length bytes = calculate_encoded_size I data \<and>
    gtid_set_decode I bytes = Inr data' \<and> gtid_set_inv I invar data' \<and> gtid_set_equal I data' data"
proof -
  let ?es = "gtid_entries data" and ?tagged = "contains_tags data"
  note ok = entries_tsid_ok [OF inv valid]
  have uuids: "\<forall>(u, t, c) \<in> set ?es. uuid_ok u"
    using ok by (fastforce simp: tsid_ok_def)
  obtain h where h: "encode_header ?tagged (length ?es) = Inr h"
    using n by (cases ?tagged) (simp_all add: encode_header_def Let_def)
  define bytes where "bytes = le_of_nat 8 (unat h) @ concat (map (tsid_bytes I ?tagged) ?es)"
  have enc: "encode_to I data (done, room) = Inr (write_bytes bytes (done, room))"
    unfolding bytes_def by (rule encode_to_eq [OF uuids room h])
  have len: "length bytes = calculate_encoded_size I data"
    by (simp add: bytes_def calculate_encoded_size_eq [OF uuids])
  have entries: "\<forall>(u, t, c) \<in> set ?es. invar c \<and> icl_elems I c \<noteq> {}"
    using gtid_entries_inv [OF inv] by auto
  define data' where "data' = fold (decode_entry I) ?es []"
  have "decode_tsids I ?tagged (length ?es) [] (concat (map (tsid_bytes I ?tagged) ?es) @ []) [] = Inr (data', [])"
    unfolding data'_def using ok entries by (intro decode_tsids_bytes) auto
  then have dec: "gtid_set_decode I bytes = Inr data'"
    by (simp add: gtid_set_decode_def bytes_def parse_encoded_header [OF n h])
  have new: "gtid_set_inv I invar data'" "gtid_set_abs I data' = gtid_set_abs I data"
    using fold_decode_entries [OF gtid_set_inv_Nil entries]
    by (simp_all add: data'_def gtid_set_abs_entries [OF inv])
  then have "gtid_set_equal I data' data"
    by (simp add: gtid_set_equal_refines inv)
  with enc len dec new show ?thesis by blast
qed

end

section \<open>Properties\<close>

text \<open>
  C24: Encoding a valid GTID set (with fewer than $2^{48}$ UUID/tag pairs, the limit of the tagged
  header) into a range of at least the calculated size succeeds, writes exactly the
  calculated number of bytes, and decoding these bytes yields an equal set.
\<close>

theorem gtid_set_encode_decode:
  assumes "icl_interval_set I invar" and "gtid_set_inv I invar data" and "gtid_set_valid I data"
    and "length (gtid_entries data) < 2 ^ 48"
    and "calculate_encoded_size I data \<le> length room"
  shows "\<exists>bytes data'. encode_to I data (done, room) = Inr (write_bytes bytes (done, room)) \<and>
    length bytes = calculate_encoded_size I data \<and>
    gtid_set_decode I bytes = Inr data' \<and> gtid_set_inv I invar data' \<and> gtid_set_equal I data' data"
  by (rule icl_interval_set.encode_decode [OF assms])

theorem gtid_set_encode_decode_witness:
  "\<exists>bytes data'. encode_to list_icl (sample_set 1 4) ([], replicate 48 0) =
      Inr (write_bytes bytes ([], replicate 48 0)) \<and>
    length bytes = calculate_encoded_size list_icl (sample_set 1 4) \<and>
    gtid_set_decode list_icl bytes = Inr data' \<and> gtid_set_inv list_icl ivl_canonical data' \<and>
    gtid_set_equal list_icl data' (sample_set 1 4)"
proof (rule gtid_set_encode_decode [OF list_icl_interval_set sample_set_inv])
  show "gtid_set_valid list_icl (sample_set 1 4)" by (rule sample_set_valid)
  show "calculate_encoded_size list_icl (sample_set 1 4) \<le> length (replicate 48 0)"
    by (simp add: calculate_encoded_size_def contains_tags_def tag_is_empty_def list_icl_def
        uuid_calculate_encoded_size_def)
qed (simp_all add: gtid_entries_def)

text \<open>
  C38: The decoder accepts a UUID with no interval at all: the result denotes no transaction but
  \<open>is_empty\<close> answers that it is not empty.
\<close>

theorem decode_accepts_empty_interval_list:
  assumes "icl_interval_set I invar" and "uuid_ok u"
  shows "\<exists>data. gtid_set_decode I (le_of_nat 8 1 @ uuid_get_raw u @ le_of_nat 8 0) = Inr data \<and>
           gtid_set_abs I data = {} \<and> \<not> gtid_set_is_empty data"
proof -
  have one: "extract_fixed_int_from_byte_span_checked 8 (le_of_nat 8 (Suc 0) @ r) = Some (1 :: uint64, r)"
    and zero: "extract_fixed_int_from_byte_span_checked 8 (le_of_nat 8 0) = Some (0 :: uint64, [])" for r
    using extract_fixed_uint64 [of 1 r] extract_fixed_uint64 [of 0 "[]"] by simp_all
  have header: "parse_header 1 = Inr (False, 1)" by code_simp
  have "tag_of_raw [] = Inr (Tag [])" by code_simp
  then have "gtid_set_decode I (le_of_nat 8 1 @ uuid_get_raw u @ le_of_nat 8 0) =
      Inr [(u, [(Tag [], icl_empty I)])]"
    using header assms(2)
    by (simp add: gtid_set_decode_def one zero extract_uuid_bytes process_intervals_def gtid_set_at_def
        find_gnos_def)
  then show ?thesis
    using icl_interval_set.icl_elems_empty [OF assms(1)]
    by (auto simp: gtid_set_is_empty_def mem_gtid_set_abs smap_find_def split: if_splits)
qed

theorem decode_accepts_empty_interval_list_witness:
  "\<exists>data. gtid_set_decode list_icl (le_of_nat 8 1 @ replicate 16 1 @ le_of_nat 8 0) = Inr data \<and>
     gtid_set_abs list_icl data = {} \<and> \<not> gtid_set_is_empty data"
  using decode_accepts_empty_interval_list [OF list_icl_interval_set, of sample_uuid]
  by (simp add: uuid_ok_def)

end
