(* ===== verification/Gtid_Set_Text.thy ===== *)
theory Gtid_Set_Text
  imports Gtid_Set
begin

text \<open>
  The textual form of a GTID set (\<open>gtid_set.cpp\<close>: the class \<open>gtid_set_parser\<close>, the string
  constructor and \<open>str\<close>). The parser's two loops are recursive functions whose termination rests on
  the input getting shorter. The main result is that printing a valid set and parsing the text
  yields an equal set: in particular the current tag, which the parser keeps from one interval to
  the next, is always the tag the printer meant.
\<close>

section \<open>The parser\<close>

definition uuid_separator :: char where "uuid_separator = CHR '',''"
definition uuid_separator_whitespace :: char where "uuid_separator_whitespace = CHR '' ''"
definition interval_separator :: char where "interval_separator = CHR ''-''"
definition group_separator :: char where "group_separator = CHR ''-''"

record 'c gtid_set_parser =
  result_gtids :: "'c gtid_set"
  current_uuid :: uuid
  current_tag :: tag

definition char_to_value :: "char \<Rightarrow> char \<Rightarrow> 'a::len word \<Rightarrow> 'a word" where
  "char_to_value character base shift = of_char character - of_char base + shift"

definition parse_hexadecimal :: "string \<Rightarrow> (uint8 \<times> string) result" where
  "parse_hexadecimal remainder =
     rbind (parse_character_predicate remainder isxdigit) (\<lambda>(character, remainder).
     if char_code character \<ge> char_code (CHR ''a'') then
       Inr (char_to_value character (CHR ''a'') 10, remainder)
     else if char_code character \<ge> char_code (CHR ''A'') then
       Inr (char_to_value character (CHR ''A'') 10, remainder)
     else Inr (char_to_value character (CHR ''0'') 0, remainder))"

definition parse_hexadecimal_pair :: "string \<Rightarrow> (byte \<times> string) result" where
  "parse_hexadecimal_pair remainder =
     rbind (parse_hexadecimal remainder) (\<lambda>(high, remainder).
     rbind (parse_hexadecimal remainder) (\<lambda>(low, remainder).
     Inr (push_bit 4 high OR low, remainder)))"

primrec parse_group :: "nat \<Rightarrow> string \<Rightarrow> (byte list \<times> string) result" where
  "parse_group 0 input = Inr ([], input)"
| "parse_group (Suc count) input =
     rbind (parse_hexadecimal_pair input) (\<lambda>(b, input).
     rbind (parse_group count input) (\<lambda>(bs, input). Inr (b # bs, input)))"

definition parse_separated_group :: "nat \<Rightarrow> byte list \<times> string \<Rightarrow> (byte list \<times> string) result" where
  "parse_separated_group count = (\<lambda>(buffer, remainder).
     rbind (parse_character remainder group_separator) (\<lambda>(_, remainder).
     rbind (parse_group count remainder) (\<lambda>(bs, remainder). Inr (buffer @ bs, remainder))))"

definition parse_uuid :: "string \<Rightarrow> (uuid \<times> string) result" where
  "parse_uuid remainder =
     rbind (parse_group 4 remainder) (\<lambda>first.
     rbind (rfold parse_separated_group [2, 2, 2, 6] first) (\<lambda>(buffer, remainder).
     Inr (Uuid buffer, remainder)))"

fun parse_tag_loop :: "string \<Rightarrow> string \<Rightarrow> string \<times> string" where
  "parse_tag_loop buffer [] = (buffer, [])"
| "parse_tag_loop buffer (c # remainder) =
     (if length buffer < tag_max_length \<and> tag_other_character c
      then parse_tag_loop (buffer @ [c]) remainder else (buffer, c # remainder))"

definition parse_tag :: "string \<Rightarrow> (tag \<times> string) result" where
  "parse_tag remainder =
     rbind (parse_character_predicate remainder tag_first_character) (\<lambda>(tag_character, remainder).
     let (buffer, remainder) = parse_tag_loop [tag_character] remainder
     in rbind (tag_of_raw (as_const_byte_span buffer)) (\<lambda>t. Inr (t, remainder)))"

fun parse_gno_loop :: "gno_t \<Rightarrow> string \<Rightarrow> gno_t \<times> string" where
  "parse_gno_loop result [] = (result, [])"
| "parse_gno_loop result (digit # remainder) =
     (if isdigit digit then parse_gno_loop (result * 10 + char_to_value digit (CHR ''0'') 0) remainder
      else (result, digit # remainder))"

definition parse_gno :: "string \<Rightarrow> (gno_t \<times> string) result" where
  "parse_gno remainder =
     rbind (parse_character_predicate remainder isdigit) (\<lambda>(digit, remainder).
     Inr (parse_gno_loop (0 + char_to_value digit (CHR ''0'') 0) remainder))"

definition parse_optionally_tagged_interval ::
    "'c icl \<Rightarrow> 'c gtid_set_parser \<Rightarrow> string \<Rightarrow> ('c gtid_set_parser \<times> string) result" where
  "parse_optionally_tagged_interval I p remainder =
     rbind (if \<not> check_character_predicate remainder isdigit
            then rbind (parse_tag remainder) (\<lambda>(t, remainder).
                 rbind (parse_character remainder component_separator) (\<lambda>(_, remainder).
                 Inr (p\<lparr> current_tag := t \<rparr>, remainder)))
            else Inr (p, remainder)) (\<lambda>(p, remainder).
     rbind (parse_gno remainder) (\<lambda>(gno_lower, remainder).
     case parse_character_ex remainder interval_separator of
       Some (_, remainder) \<Rightarrow>
         rbind (parse_gno remainder) (\<lambda>(gno_upper, remainder).
         rbind (add_interval I (current_uuid p) (current_tag p) gno_lower gno_upper (result_gtids p)) (\<lambda>data.
         Inr (p\<lparr> result_gtids := data \<rparr>, remainder)))
     | None \<Rightarrow>
         rbind (add_components I (current_uuid p) (current_tag p) gno_lower (result_gtids p)) (\<lambda>data.
         Inr (p\<lparr> result_gtids := data \<rparr>, remainder))))"

text \<open>Every parser consumes input from the front, so the loops below end.\<close>

lemma parse_hexadecimal_length: "parse_hexadecimal r = Inr (b, r') \<Longrightarrow> length r' < length r"
  by (auto simp: parse_hexadecimal_def result_simps parse_character_predicate_Inr split: if_splits)

lemma parse_group_length: "parse_group n r = Inr (bs, r') \<Longrightarrow> length r' \<le> length r"
proof (induction n arbitrary: r bs)
  case (Suc n)
  obtain b r1 bs' where "parse_hexadecimal_pair r = Inr (b, r1)" and r1: "parse_group n r1 = Inr (bs', r')"
    using Suc.prems by (auto simp: result_simps)
  then have "length r1 \<le> length r"
    by (auto simp: parse_hexadecimal_pair_def result_simps dest!: parse_hexadecimal_length)
  with Suc.IH [OF r1] show ?case by simp
qed simp

lemma parse_separated_group_length:
  "parse_separated_group n (bs, r) = Inr (bs', r') \<Longrightarrow> length r' \<le> length r"
  by (auto simp: parse_separated_group_def result_simps parse_character_Inr dest!: parse_group_length)

lemma parse_uuid_length: "parse_uuid r = Inr (u, r') \<Longrightarrow> length r' \<le> length r"
  by (auto simp: parse_uuid_def result_simps dest!: parse_group_length parse_separated_group_length)

lemma parse_tag_loop_length: "length (snd (parse_tag_loop b r)) \<le> length r"
  by (induction b r rule: parse_tag_loop.induct) (auto split: if_splits)

lemma parse_gno_loop_length: "parse_gno_loop n r = (n', r') \<Longrightarrow> length r' \<le> length r"
  by (induction n r rule: parse_gno_loop.induct) (auto split: if_splits)

lemma parse_tag_length: "parse_tag r = Inr (t, r') \<Longrightarrow> length r' < length r"
  by (auto simp: parse_tag_def result_simps parse_character_predicate_Inr Let_def case_prod_beta
      le_imp_less_Suc parse_tag_loop_length)

lemma parse_gno_length: "parse_gno r = Inr (g, r') \<Longrightarrow> length r' < length r"
  by (auto simp: parse_gno_def result_simps parse_character_predicate_Inr dest!: parse_gno_loop_length)

lemma parse_interval_text_length:
  "parse_optionally_tagged_interval I p r = Inr (p', r') \<Longrightarrow> length r' < length r"
  by (auto simp: parse_optionally_tagged_interval_def result_simps parse_character_Inr parse_character_ex_Some
      split: if_splits option.splits dest!: parse_tag_length parse_gno_length)

text \<open>The loop behind the first interval of a UUID.\<close>

function parse_more_intervals ::
    "'c icl \<Rightarrow> 'c gtid_set_parser \<Rightarrow> string \<Rightarrow> ('c gtid_set_parser \<times> string) result" where
  "parse_more_intervals I p remainder =
     (case parse_character_ex remainder component_separator of
        None \<Rightarrow> Inr (p, remainder)
      | Some (_, remainder') \<Rightarrow>
          rbind (parse_optionally_tagged_interval I p remainder') (\<lambda>(p, remainder).
          parse_more_intervals I p remainder))"
  by pat_completeness auto
termination
  by (relation "measure (\<lambda>(I, p, r). length r)")
    (auto simp: parse_character_ex_Some dest!: parse_interval_text_length)

declare parse_more_intervals.simps [simp del]

definition parse_optionally_tagged_intervals ::
    "'c icl \<Rightarrow> 'c gtid_set_parser \<Rightarrow> string \<Rightarrow> ('c gtid_set_parser \<times> string) result" where
  "parse_optionally_tagged_intervals I p remainder =
     rbind (parse_optionally_tagged_interval I p remainder) (\<lambda>(p, remainder).
     parse_more_intervals I p remainder)"

definition parse_uuid_set ::
    "'c icl \<Rightarrow> 'c gtid_set_parser \<Rightarrow> string \<Rightarrow> ('c gtid_set_parser \<times> string) result" where
  "parse_uuid_set I p remainder =
     rbind (parse_uuid remainder) (\<lambda>(u, remainder).
     let p = p\<lparr> current_uuid := u, current_tag := Tag [] \<rparr> in
     rbind (parse_character remainder component_separator) (\<lambda>(_, remainder).
     parse_optionally_tagged_intervals I p remainder))"

definition parse_space :: "string \<Rightarrow> string" where
  "parse_space remainder = dropWhile isspace remainder"

lemma parse_more_intervals_length:
  "parse_more_intervals I p r = Inr (p', r') \<Longrightarrow> length r' \<le> length r"
proof (induction I p r arbitrary: p' r' rule: parse_more_intervals.induct)
  case (1 I p r)
  show ?case
  proof (cases "parse_character_ex r component_separator")
    case None
    with 1 show ?thesis by (simp add: parse_more_intervals.simps [of I p r])
  next
    case (Some x)
    obtain c r1 where x: "x = (c, r1)" by fastforce
    obtain p2 r2 where 2: "parse_optionally_tagged_interval I p r1 = Inr (p2, r2)"
      and 3: "parse_more_intervals I p2 r2 = Inr (p', r')"
      using "1.prems" Some x by (auto simp: parse_more_intervals.simps [of I p r] result_simps)
    have "length r' \<le> length r2"
      using "1.IH" [OF Some x [symmetric] 2 refl 3] .
    then show ?thesis
      using parse_interval_text_length [OF 2] Some x by (simp add: parse_character_ex_Some)
  qed
qed

lemma parse_uuid_set_length: "parse_uuid_set I p r = Inr (p', r') \<Longrightarrow> length r' \<le> length r"
  by (auto simp: parse_uuid_set_def parse_optionally_tagged_intervals_def result_simps parse_character_Inr Let_def
      dest!: parse_uuid_length parse_interval_text_length parse_more_intervals_length)

function parse_more_uuid_sets ::
    "'c icl \<Rightarrow> 'c gtid_set_parser \<Rightarrow> string \<Rightarrow> ('c gtid_set_parser \<times> string) result" where
  "parse_more_uuid_sets I p remainder =
     (case parse_character_ex remainder uuid_separator of
        None \<Rightarrow> Inr (p, remainder)
      | Some (_, remainder') \<Rightarrow>
          rbind (parse_uuid_set I p (parse_space remainder')) (\<lambda>(p, remainder).
          parse_more_uuid_sets I p remainder))"
  by pat_completeness auto
termination
proof (relation "measure (\<lambda>(I, p, r). length r)", goal_cases)
  case (2 I p r x c r1 y p2 r2)
  then have "length r2 \<le> length (parse_space r1)" and "r = c # r1"
    by (auto simp: parse_character_ex_Some dest!: parse_uuid_set_length)
  moreover have "length (parse_space r1) \<le> length r1"
    by (simp add: parse_space_def length_dropWhile_le)
  ultimately show ?case by simp
qed simp

declare parse_more_uuid_sets.simps [simp del]

definition parse_gtid_set ::
    "'c icl \<Rightarrow> 'c gtid_set_parser \<Rightarrow> string \<Rightarrow> ('c gtid_set_parser \<times> string) result" where
  "parse_gtid_set I p remainder =
     rbind (parse_uuid_set I p remainder) (\<lambda>(p, remainder). parse_more_uuid_sets I p remainder)"

definition parse :: "'c icl \<Rightarrow> string \<Rightarrow> 'c gtid_set \<Rightarrow> 'c gtid_set result" where
  "parse I readable_value gtids =
     rbind (parse_gtid_set I \<lparr> result_gtids = gtids, current_uuid = uuid_nil, current_tag = Tag [] \<rparr>
              readable_value) (\<lambda>(p, _). Inr (result_gtids p))"

text \<open>The string constructor turns every parse error into \<open>invalid_argument\<close>.\<close>

definition gtid_set_of_string :: "'c icl \<Rightarrow> string \<Rightarrow> 'c gtid_set result" where
  "gtid_set_of_string I value =
     (if value = [] then Inr []
      else case parse I value [] of
             Inl _ \<Rightarrow> Inl (Invalid_argument ''cannot parse GTID set'')
           | Inr data \<Rightarrow> Inr data)"

section \<open>The printer\<close>

definition gno_container_str :: "'c icl \<Rightarrow> 'c \<Rightarrow> string" where
  "gno_container_str I gnos =
     concat (map (\<lambda>(lower, icl_upper).
       let upper = icl_upper - 1
       in component_separator # to_string (unat lower) @
          (if upper \<noteq> lower then interval_separator # to_string (unat upper) else []))
       (icl_intervals I gnos))"

definition gtid_set_str :: "uuid_printer \<Rightarrow> 'c icl \<Rightarrow> 'c gtid_set \<Rightarrow> string" where
  "gtid_set_str to_text I data =
     snd (fold (\<lambda>(current_uuid, current_tagged_gnos) (first_uuid, result).
       (False,
        result @ (if \<not> first_uuid then [uuid_separator, uuid_separator_whitespace] else []) @
        uuid_str to_text current_uuid @
        concat (map (\<lambda>(current_tag, current_gnos).
          (if \<not> tag_is_empty current_tag then component_separator # tag_get_name current_tag else []) @
          gno_container_str I current_gnos) current_tagged_gnos)))
       data (True, []))"

section \<open>Reading back the printed tokens\<close>

lemma of_char_word: "(of_char c :: 'a::len word) = of_nat (char_code c)"
  by (rule of_char_eq_of_nat)

lemma char_code_hex_char: "d < 16 \<Longrightarrow> char_code (hex_char d) = (if d < 10 then 48 + d else 87 + d)"
  by (simp add: hex_char_def)

lemma parse_hex_char:
  assumes "d < 16"
  shows "parse_hexadecimal (hex_char d # r) = Inr (of_nat d, r)"
proof -
  have "isxdigit (hex_char d)"
    using assms by (auto simp: isxdigit_def isdigit_def char_code_hex_char)
  moreover have "char_code CHR ''a'' = 97" "char_code CHR ''A'' = 65" "char_code CHR ''0'' = 48"
    by (simp_all add: of_char_def)
  ultimately show ?thesis
    using assms
    by (auto simp: parse_hexadecimal_def char_to_value_def of_char_word char_code_hex_char)
qed

lemma parse_hex_pair: "parse_hexadecimal_pair (hex_pair b @ r) = Inr (b, r)"
proof -
  have "unat b div 16 < 16" by (rule less_mult_imp_div_less) simp
  moreover have "unat (drop_bit 4 b) = unat b div 16"
    by (subst unat_drop_bit_eq) (simp add: drop_bit_eq_div)
  then have "(of_nat (unat b div 16) :: byte) = drop_bit 4 b"
    by (metis of_nat_unat ucast_id)
  moreover have "unat (take_bit 4 b) = unat b mod 16"
    by (subst unsigned_take_bit_eq) (simp add: take_bit_eq_mod)
  then have "(of_nat (unat b mod 16) :: byte) = take_bit 4 b"
    by (metis of_nat_unat ucast_id)
  moreover have "push_bit 4 (drop_bit 4 b) OR take_bit 4 b = b"
    by (rule bit_word_eqI) (auto simp: bit_simps)
  ultimately show ?thesis
    using parse_hex_char [of "unat b div 16"] parse_hex_char [of "unat b mod 16"]
    by (simp add: hex_pair_def parse_hexadecimal_pair_def del: drop_bit_eq_div push_bit_eq_mult)
qed

lemma parse_group_text:
  "length bs = n \<Longrightarrow> parse_group n (concat (map hex_pair bs) @ r) = Inr (bs, r)"
proof (induction bs arbitrary: n)
  case (Cons b bs)
  then show ?case by (cases n) (simp_all add: parse_hex_pair)
qed simp

lemma parse_separated_group_text:
  "length bs = n \<Longrightarrow>
   parse_separated_group n (buffer, group_separator # concat (map hex_pair bs) @ r) = Inr (buffer @ bs, r)"
  by (simp add: parse_separated_group_def parse_group_text)

lemma parse_uuid_text:
  assumes "uuid_ok u"
  shows "parse_uuid (uuid_text (uuid_get_raw u) @ r) = Inr (u, r)"
proof -
  define bs where "bs = uuid_get_raw u"
  have len: "length bs = 16" using assms by (simp add: bs_def uuid_ok_def)
  have "bs = take 4 bs @ take 2 (drop 4 bs) @ take 2 (drop 6 bs) @ take 2 (drop 8 bs) @ take 6 (drop 10 bs)"
  proof -
    have split: "drop k bs = take n (drop k bs) @ drop (n + k) bs" for k n
      by (metis append_take_drop_id drop_drop)
    have "take 6 (drop 10 bs) = drop 10 bs" using len by simp
    then show ?thesis
      using split [of 0 4] split [of 4 2] split [of 6 2] split [of 8 2] by simp
  qed
  moreover have "''-'' = [group_separator]" by (simp add: group_separator_def)
  moreover have "Uuid bs = u" by (simp add: bs_def)
  ultimately show ?thesis
    using len
    by (simp add: parse_uuid_def uuid_text_def parse_group_text parse_separated_group_text flip: bs_def)
qed

text \<open>Text that cannot continue a number, an interval or an interval list.\<close>

definition ends_number :: "string \<Rightarrow> bool" where
  "ends_number r \<longleftrightarrow> \<not> check_character_predicate r isdigit"

lemma digit_value:
  assumes "isdigit c"
  shows "(of_nat a * 10 + char_to_value c (CHR ''0'') 0 :: gno_t) = of_nat (10 * a + (char_code c - 48))"
proof -
  have "char_code CHR ''0'' = 48" by (simp add: of_char_def)
  then have "(char_to_value c (CHR ''0'') 0 :: gno_t) = of_nat (char_code c - 48)"
    using assms by (simp add: char_to_value_def of_char_word isdigit_def of_nat_diff)
  then show ?thesis by (simp add: algebra_simps)
qed

lemma parse_gno_loop_text:
  "\<forall>c \<in> set ds. isdigit c \<Longrightarrow> ends_number r \<Longrightarrow>
   parse_gno_loop (of_nat a) (ds @ r) = (of_nat (decimal_value a ds), r)"
proof (induction ds arbitrary: a)
  case Nil
  then show ?case by (cases r) (simp_all add: ends_number_def)
next
  case (Cons d ds)
  then have "isdigit d" by simp
  then have "parse_gno_loop (of_nat a) ((d # ds) @ r) =
      parse_gno_loop (of_nat (10 * a + (char_code d - 48))) (ds @ r)"
    unfolding digit_value [OF \<open>isdigit d\<close>, symmetric] by simp
  also have "\<dots> = (of_nat (decimal_value a (d # ds)), r)"
    unfolding decimal_value.simps by (rule Cons.IH) (use Cons.prems in auto)
  finally show ?case .
qed

lemma parse_gno_text:
  assumes "ends_number r"
  shows "parse_gno (to_string (unat g) @ r) = Inr (g, r)"
proof -
  obtain d ds where digits_eq: "to_string (unat g) = d # ds"
    by (cases "to_string (unat g)") auto
  have digits: "isdigit d" "\<forall>c \<in> set ds. isdigit c"
    using to_string_digits [of _ "unat g"] digits_eq by auto
  have "decimal_value (char_code d - 48) ds = unat g"
    using decimal_value_to_string [of "unat g"] digits_eq by simp
  then show ?thesis
    using digit_value [OF digits(1), of 0] parse_gno_loop_text [OF digits(2) assms, of "char_code d - 48"] digits(1)
    by (simp add: parse_gno_def digits_eq)
qed

lemma parse_tag_loop_text:
  "list_all tag_other_character cs \<Longrightarrow> length buffer + length cs \<le> tag_max_length \<Longrightarrow>
   \<not> check_character_predicate r tag_other_character \<Longrightarrow>
   parse_tag_loop buffer (cs @ r) = (buffer @ cs, r)"
proof (induction cs arbitrary: buffer)
  case Nil
  then show ?case by (cases r) simp_all
qed simp

lemma parse_tag_text:
  assumes "tag_ok t" and "\<not> tag_is_empty t" and "\<not> check_character_predicate r tag_other_character"
  shows "parse_tag (tag_get_name t @ r) = Inr (t, r)"
proof -
  obtain c cs where name: "tag_get_name t = c # cs"
    using assms(2) by (cases "tag_get_name t") (auto simp: tag_is_empty_def tag_get_name_def as_string_view_def)
  have "Suc (length cs) = tag_get_size t"
    using name by (metis length_Cons length_as_string_view tag_get_name_def tag_get_size_def)
  then have "Suc (length cs) \<le> tag_max_length" "tag_first_character c" "list_all tag_other_character cs"
    using assms(1) name by (auto simp: tag_ok_iff)
  moreover have "as_const_byte_span (c # cs) = tag_get_raw t"
    unfolding name [symmetric] by (simp add: tag_get_name_def)
  ultimately show ?thesis
    using assms by (simp add: parse_tag_def name parse_tag_loop_text tag_ok_def)
qed

section \<open>Reading back the printed set\<close>

text \<open>
  The printed intervals of one UUID, in order: each is preceded by its tag when it is the first of
  a tagged group and stands alone otherwise.
\<close>

type_synonym item = "tag option \<times> gno_t \<times> gno_t"

definition item_text :: "item \<Rightarrow> string" where
  "item_text = (\<lambda>(ot, lo, up).
     (case ot of None \<Rightarrow> [] | Some t \<Rightarrow> tag_get_name t @ [component_separator]) @
     to_string (unat lo) @
     (if up - 1 \<noteq> lo then interval_separator # to_string (unat (up - 1)) else []))"

definition item_ok :: "item \<Rightarrow> bool" where
  "item_ok = (\<lambda>(ot, lo, up). gno_ok lo \<and> lo \<le> up - 1 \<and> up - 1 \<le> max_gno \<and>
     (case ot of None \<Rightarrow> True | Some t \<Rightarrow> tag_ok t \<and> \<not> tag_is_empty t))"

definition item_tag :: "tag \<Rightarrow> item \<Rightarrow> tag" where
  "item_tag t = (\<lambda>(ot, _). case ot of None \<Rightarrow> t | Some t' \<Rightarrow> t')"

primrec items_gtids :: "tag \<Rightarrow> item list \<Rightarrow> (tag \<times> gno_t) set" where
  "items_gtids t [] = {}"
| "items_gtids t (x # xs) =
     {item_tag t x} \<times> {fst (snd x)..<snd (snd x)} \<union> items_gtids (item_tag t x) xs"

definition entry_items :: "'c icl \<Rightarrow> tag \<times> 'c \<Rightarrow> item list" where
  "entry_items I = (\<lambda>(t, c). case icl_intervals I c of
     [] \<Rightarrow> []
   | x # xs \<Rightarrow> (if tag_is_empty t then None else Some t, x) # map (Pair None) xs)"

text \<open>Text that cannot continue a printed interval, the intervals of a UUID, or a GTID set.\<close>

definition ends_interval :: "string \<Rightarrow> bool" where
  "ends_interval r \<longleftrightarrow> r = [] \<or> \<not> isdigit (hd r) \<and> hd r \<noteq> interval_separator"

definition ends_uuid_set :: "string \<Rightarrow> bool" where
  "ends_uuid_set r \<longleftrightarrow> ends_interval r \<and> (r = [] \<or> hd r \<noteq> component_separator)"

definition ends_gtid_set :: "string \<Rightarrow> bool" where
  "ends_gtid_set r \<longleftrightarrow> ends_uuid_set r \<and> (r = [] \<or> hd r \<noteq> uuid_separator)"

lemma ends_interval_facts:
  assumes "ends_interval r"
  shows "ends_number r" and "parse_character_ex r interval_separator = None"
  using assms by (cases r; simp add: ends_interval_def ends_number_def)+

lemma separators_end_number [simp]:
  "ends_number (interval_separator # r)" "ends_number (component_separator # r)"
  "ends_interval (component_separator # r)" "ends_uuid_set (uuid_separator # r)" "ends_gtid_set []"
  by (simp_all add: ends_number_def interval_separator_def component_separator_def uuid_separator_def isdigit_def of_char_def
      ends_interval_def ends_uuid_set_def ends_gtid_set_def)

lemma colon_ends_tag: "\<not> check_character_predicate (component_separator # r) tag_other_character"
  by (simp add: component_separator_def tag_other_character_def ctype_defs of_char_def)

lemma to_string_starts_number: "check_character_predicate (to_string n @ r) isdigit"
  using to_string_digits [of _ n] by (cases "to_string n") auto

lemma tag_starts_no_number:
  assumes "tag_ok t" and "\<not> tag_is_empty t"
  shows "\<not> check_character_predicate (tag_get_name t @ r) isdigit"
proof -
  obtain c cs where name: "tag_get_name t = c # cs"
    using assms(2) by (cases "tag_get_name t") (auto simp: tag_is_empty_def tag_get_name_def as_string_view_def)
  then have "tag_first_character c" using assms(1) by (simp add: tag_ok_iff)
  moreover have "char_code CHR ''_'' = 95" by (simp add: of_char_def)
  ultimately show ?thesis by (auto simp: name tag_first_character_def ctype_defs)
qed

lemma gno_plus_one_interval: "lo \<le> up - 1 \<Longrightarrow> gno_ok lo \<Longrightarrow> up - 1 \<le> max_gno \<Longrightarrow> {lo..up - 1} = {lo..<up}"
  using icl_interval_set.interval_plus_one [OF list_icl_interval_set, of lo "up - 1"] by fastforce

lemma add_interval_ok:
  assumes "\<not> uuid_is_empty u" and "gno_ok lo" and "lo \<le> up"
  shows "is_ok (add_interval I u t lo up data)"
proof -
  have "validate_components u t lo = Inr ()"
    using assms by (simp only: validate_components_Inr) simp
  with assms(3) show ?thesis by (simp add: add_interval_def add_components_def not_less)
qed

lemma parse_item_eq:
  assumes "item_ok x" and "ends_interval r"
  shows "parse_optionally_tagged_interval I p (item_text x @ r) =
    rbind (add_interval I (current_uuid p) (item_tag (current_tag p) x) (fst (snd x)) (snd (snd x) - 1)
             (result_gtids p))
      (\<lambda>data. Inr (p\<lparr> current_tag := item_tag (current_tag p) x, result_gtids := data \<rparr>, r))"
proof -
  obtain ot lo up where x: "x = (ot, lo, up)" by (cases x)
  note ends = ends_interval_facts [OF assms(2)]
  show ?thesis
  proof (cases ot)
    case None
    then show ?thesis
      using ends by (auto simp: parse_optionally_tagged_interval_def x item_text_def item_tag_def
          to_string_starts_number parse_gno_text add_interval_def [of _ _ _ lo lo])
  next
    case (Some t)
    then have t: "tag_ok t" "\<not> tag_is_empty t"
      using assms(1) by (simp_all add: x item_ok_def)
    show ?thesis
      using Some ends by (auto simp: parse_optionally_tagged_interval_def x item_text_def item_tag_def
          tag_starts_no_number [OF t] parse_tag_text [OF t colon_ends_tag] parse_gno_text
          add_interval_def [of _ _ _ lo lo])
  qed
qed

context icl_interval_set begin

lemma parse_item:
  assumes "gtid_set_inv I invar (result_gtids p)" and "\<not> uuid_is_empty (current_uuid p)"
    and "item_ok x" and "ends_interval r"
  obtains data where "parse_optionally_tagged_interval I p (item_text x @ r) =
      Inr (p\<lparr> current_tag := item_tag (current_tag p) x, result_gtids := data \<rparr>, r)"
    and "gtid_set_inv I invar data"
    and "gtid_set_abs I data = gtid_set_abs I (result_gtids p) \<union>
           {current_uuid p} \<times> {item_tag (current_tag p) x} \<times> {fst (snd x)..<snd (snd x)}"
proof -
  obtain ot lo up where x: "x = (ot, lo, up)" by (cases x)
  have ok: "gno_ok lo" "lo \<le> up - 1" "up - 1 \<le> max_gno"
    using assms(3) by (simp_all add: x item_ok_def)
  obtain data where data: "add_interval I (current_uuid p) (item_tag (current_tag p) x) lo (up - 1) (result_gtids p) = Inr data"
    using add_interval_ok [OF assms(2) ok(1,2)] by (metis is_ok_iff)
  note refines = add_interval_refines [OF assms(1) ok(3) data] gno_plus_one_interval [OF ok(2,1,3)]
  show ?thesis
    using refines parse_item_eq [OF assms(3,4), of I p] data
    by (intro that [of data]) (simp_all add: x)
qed

lemma parse_items:
  assumes "gtid_set_inv I invar (result_gtids p)" and "\<not> uuid_is_empty (current_uuid p)"
    and "list_all item_ok xs" and "ends_uuid_set r"
  shows "\<exists>data t. parse_more_intervals I p (concat (map (\<lambda>x. component_separator # item_text x) xs) @ r) =
      Inr (p\<lparr> current_tag := t, result_gtids := data \<rparr>, r) \<and> gtid_set_inv I invar data \<and>
      gtid_set_abs I data = gtid_set_abs I (result_gtids p) \<union> {current_uuid p} \<times> items_gtids (current_tag p) xs"
  using assms(1-3)
proof (induction xs arbitrary: p)
  case Nil
  have "parse_character_ex r component_separator = None"
    using assms(4) by (cases r) (simp_all add: ends_uuid_set_def)
  then have "parse_more_intervals I p r = Inr (p\<lparr> current_tag := current_tag p, result_gtids := result_gtids p \<rparr>, r)"
    by (simp add: parse_more_intervals.simps)
  with Nil.prems show ?case
    by (intro exI [of _ "result_gtids p"] exI [of _ "current_tag p"]) simp
next
  case (Cons x xs)
  let ?rest = "concat (map (\<lambda>x. component_separator # item_text x) xs) @ r"
  have rest: "ends_interval ?rest"
    using assms(4) by (cases xs) (simp_all add: ends_uuid_set_def)
  obtain data where data: "parse_optionally_tagged_interval I p (item_text x @ ?rest) =
      Inr (p\<lparr> current_tag := item_tag (current_tag p) x, result_gtids := data \<rparr>, ?rest)"
    and inv: "gtid_set_inv I invar data"
    and abs: "gtid_set_abs I data = gtid_set_abs I (result_gtids p) \<union>
           {current_uuid p} \<times> {item_tag (current_tag p) x} \<times> {fst (snd x)..<snd (snd x)}"
  proof (rule parse_item [OF Cons.prems(1,2) _ rest])
    show "item_ok x" using Cons.prems(3) by simp
  qed (rule that)
  let ?p = "p\<lparr> current_tag := item_tag (current_tag p) x, result_gtids := data \<rparr>"
  have step: "parse_more_intervals I p (component_separator # item_text x @ ?rest) = parse_more_intervals I ?p ?rest"
    by (subst parse_more_intervals.simps) (simp add: data)
  obtain data' t where "parse_more_intervals I ?p ?rest = Inr (?p\<lparr> current_tag := t, result_gtids := data' \<rparr>, r)"
    and "gtid_set_inv I invar data'"
    and "gtid_set_abs I data' = gtid_set_abs I data \<union> {current_uuid p} \<times> items_gtids (item_tag (current_tag p) x) xs"
    using Cons.IH [of ?p] Cons.prems(2,3) inv by auto
  then show ?case
    using step abs by (intro exI [of _ data'] exI [of _ t]) auto
qed

end

lemma interval_texts:
  "concat (map (\<lambda>(lower, icl_upper).
       let upper = icl_upper - 1
       in component_separator # to_string (unat lower) @
          (if upper \<noteq> lower then interval_separator # to_string (unat upper) else [])) xs) =
   concat (map (\<lambda>x. component_separator # item_text x) (map (Pair None) xs))"
  by (induction xs) (auto simp: item_text_def Let_def)

lemma entry_text:
  assumes "icl_intervals I c \<noteq> []"
  shows "(if \<not> tag_is_empty t then component_separator # tag_get_name t else []) @ gno_container_str I c =
   concat (map (\<lambda>x. component_separator # item_text x) (entry_items I (t, c)))"
proof -
  obtain x xs where xs: "icl_intervals I c = x # xs"
    using assms by (cases "icl_intervals I c") auto
  have "gno_container_str I c =
      component_separator # item_text (None, x) @ concat (map (\<lambda>x. component_separator # item_text x) (map (Pair None) xs))"
    unfolding gno_container_str_def interval_texts by (simp add: xs)
  moreover have "item_text (Some t, x) = tag_get_name t @ component_separator # item_text (None, x)"
    by (cases x) (simp add: item_text_def)
  ultimately show ?thesis by (simp add: entry_items_def xs)
qed

lemma items_gtids_same_tag:
  "items_gtids t (map (Pair None) xs @ rest) = {t} \<times> ivl_elems xs \<union> items_gtids t rest"
proof (induction xs)
  case (Cons x xs)
  then show ?case by (cases x) (auto simp: item_tag_def)
qed auto

lemma items_gtids_entry:
  assumes "icl_intervals I c \<noteq> []" and "t = Tag [] \<Longrightarrow> t0 = Tag []"
  shows "items_gtids t0 (entry_items I (t, c) @ rest) = {t} \<times> icl_elems I c \<union> items_gtids t rest"
proof -
  obtain lo up xs where xs: "icl_intervals I c = (lo, up) # xs"
    using assms(1) by (metis list.exhaust surj_pair)
  have "item_tag t0 (if tag_is_empty t then None else Some t, lo, up) = t"
    using assms(2) by (cases t) (auto simp: item_tag_def tag_is_empty_def)
  then show ?thesis
    by (auto simp: entry_items_def xs items_gtids_same_tag)
qed

lemma tag_above: "t < t' \<Longrightarrow> t' \<noteq> Tag []"
  by (auto simp: less_tag_def)

lemma items_gtids_entries:
  assumes "smap_ok m" and "\<forall>(t, c) \<in> set m. icl_intervals I c \<noteq> []"
    and "\<forall>(t, c) \<in> set m. t = Tag [] \<longrightarrow> t0 = Tag []"
  shows "items_gtids t0 (concat (map (entry_items I) m)) = {(t, g). \<exists>c. (t, c) \<in> set m \<and> g \<in> icl_elems I c}"
  using assms
proof (induction m arbitrary: t0)
  case (Cons e m)
  obtain t c where e: "e = (t, c)" by fastforce
  have "\<forall>(t', c') \<in> set m. t' = Tag [] \<longrightarrow> t = Tag []"
    using Cons.prems(1) tag_above by (fastforce simp: e smap_ok_Cons)
  then have IH: "items_gtids t (concat (map (entry_items I) m)) = {(t, g). \<exists>c. (t, c) \<in> set m \<and> g \<in> icl_elems I c}"
    using Cons.prems by (intro Cons.IH) (auto simp: e smap_ok_Cons)
  have "items_gtids t0 (entry_items I (t, c) @ concat (map (entry_items I) m)) =
      {t} \<times> icl_elems I c \<union> items_gtids t (concat (map (entry_items I) m))"
    using Cons.prems(2,3) by (intro items_gtids_entry) (auto simp: e)
  then show ?case by (auto simp: e IH)
qed auto

definition uuid_set_text :: "'c icl \<Rightarrow> uuid \<times> 'c gnos_by_tag \<Rightarrow> string" where
  "uuid_set_text I = (\<lambda>(u, m). uuid_text (uuid_get_raw u) @
     concat (map (\<lambda>x. component_separator # item_text x) (concat (map (entry_items I) m))))"

lemma gtid_set_str_fold:
  "snd (fold (\<lambda>x (first, result). (False, result @ (if \<not> first then sep else []) @ f x)) xs (False, acc)) =
   acc @ concat (map (\<lambda>x. sep @ f x) xs)"
  by (induction xs arbitrary: acc) auto

lemma concat_map_concat: "concat (map f (concat (map g xs))) = concat (map (\<lambda>x. concat (map f (g x))) xs)"
  by (induction xs) auto

lemma gtid_set_str_Cons:
  assumes "\<And>bs. length bs = uuid_length \<Longrightarrow> to_text bs = uuid_text bs"
    and "\<forall>(u, m) \<in> set (x # xs). uuid_ok u \<and> (\<forall>(t, c) \<in> set m. icl_intervals I c \<noteq> [])"
  shows "gtid_set_str to_text I (x # xs) =
    uuid_set_text I x @ concat (map (\<lambda>y. [uuid_separator, uuid_separator_whitespace] @ uuid_set_text I y) xs)"
proof -
  let ?f = "\<lambda>(u, m). uuid_str to_text u @ concat (map (\<lambda>(t, c).
      (if \<not> tag_is_empty t then component_separator # tag_get_name t else []) @ gno_container_str I c) m)"
  have printed: "?f y = uuid_set_text I y" if "y \<in> set (x # xs)" for y
  proof -
    obtain u m where y: "y = (u, m)" by fastforce
    have ok: "uuid_ok u" "\<And>t c. (t, c) \<in> set m \<Longrightarrow> icl_intervals I c \<noteq> []"
      using assms(2) that unfolding y by blast+
    have m: "map (\<lambda>(t, c). (if \<not> tag_is_empty t then component_separator # tag_get_name t else []) @ gno_container_str I c) m =
        map (\<lambda>e. concat (map (\<lambda>x. component_separator # item_text x) (entry_items I e))) m"
    proof (intro map_cong refl)
      fix e assume e: "e \<in> set m"
      obtain t c where "e = (t, c)" by fastforce
      then show "(case e of (t, c) \<Rightarrow>
          (if \<not> tag_is_empty t then component_separator # tag_get_name t else []) @ gno_container_str I c) =
          concat (map (\<lambda>x. component_separator # item_text x) (entry_items I e))"
        using entry_text [OF ok(2), of t c t] e by simp
    qed
    show ?thesis
      unfolding y case_prod_conv m uuid_set_text_def concat_map_concat
      using assms(1) ok(1) by (simp add: uuid_str_def uuid_ok_def)
  qed
  have "gtid_set_str to_text I (x # xs) =
      ?f x @ concat (map (\<lambda>y. [uuid_separator, uuid_separator_whitespace] @ ?f y) xs)"
    using gtid_set_str_fold [of "[uuid_separator, uuid_separator_whitespace]" ?f xs "?f x"]
    by (simp add: gtid_set_str_def case_prod_unfold)
  also have "map (\<lambda>y. [uuid_separator, uuid_separator_whitespace] @ ?f y) xs =
      map (\<lambda>y. [uuid_separator, uuid_separator_whitespace] @ uuid_set_text I y) xs"
    using printed by (intro map_cong refl) simp
  also have "?f x = uuid_set_text I x" using printed by simp
  finally show ?thesis .
qed

lemma parse_space_uuid:
  assumes "uuid_ok u"
  shows "parse_space (uuid_separator_whitespace # uuid_text (uuid_get_raw u) @ r) = uuid_text (uuid_get_raw u) @ r"
proof -
  obtain b bs where raw: "uuid_get_raw u = b # bs"
    using assms by (cases "uuid_get_raw u") (auto simp: uuid_ok_def)
  have "unat b div 16 < 16" by (rule less_mult_imp_div_less) simp
  then have "\<not> isspace (hex_char (unat b div 16))"
    by (simp add: isspace_def char_code_hex_char)
  moreover have "isspace uuid_separator_whitespace"
    by (simp add: isspace_def uuid_separator_whitespace_def of_char_def)
  ultimately show ?thesis
    by (simp add: parse_space_def raw uuid_text_def hex_pair_def)
qed

context icl_interval_set begin

lemma interval_items_ok:
  assumes "(u, t, c) \<in> set (gtid_entries data)" and "gtid_set_inv I invar data" and "gtid_set_valid I data"
    and "(lo, up) \<in> set (icl_intervals I c)"
  shows "item_ok (None, lo, up)"
proof -
  have "invar c" using gtid_entries_inv [OF assms(2,1)] by simp
  then have less: "lo < up"
    using ivl_canonical_nonempty icl_canonical assms(4) by blast
  then have last: "lo \<le> up - 1" "up - 1 < up"
    by (simp_all add: word_le_nat_alt word_less_nat_alt unat_sub_if_size word_size)
  have member: "gno_ok g" if "lo \<le> g" "g < up" for g
  proof -
    have "g \<in> icl_elems I c" using assms(4) that by (auto simp: ivl_elems_iff)
    then have "(u, t, g) \<in> gtid_set_abs I data"
      using assms(1) by (auto simp: gtid_set_abs_entries [OF assms(2)])
    then show ?thesis using assms(3) by (auto simp: gtid_set_valid_def gtid_triple_ok_def simp del: gtid_constants)
  qed
  show ?thesis
    using member [of lo] member [of "up - 1"] last less by (simp add: item_ok_def del: gtid_constants)
qed

lemma entry_items_ok:
  assumes "(u, t, c) \<in> set (gtid_entries data)" and "gtid_set_inv I invar data" and "gtid_set_valid I data"
  shows "list_all item_ok (entry_items I (t, c))"
proof -
  have "tsid": "tag_ok t"
    using gtid_entries_inv [OF assms(2,1)] assms(1,3)
    by (fastforce simp: gtid_set_valid_def gtid_triple_ok_def gtid_set_abs_entries [OF assms(2)])
  have "item_ok (None, x)" if "x \<in> set (icl_intervals I c)" for x
    using interval_items_ok [OF assms, of "fst x" "snd x"] that by simp
  moreover have "item_ok (None, x) \<Longrightarrow> \<not> tag_is_empty t \<Longrightarrow> item_ok (Some t, x)" for x
    using tsid by (cases x) (simp add: item_ok_def)
  ultimately show ?thesis
    by (cases "icl_intervals I c") (auto simp: entry_items_def list_all_iff)
qed

lemma parse_uuid_set_text:
  assumes "gtid_set_inv I invar (result_gtids p)" and "uuid_ok u" and "\<not> uuid_is_empty u"
    and m: "tagged_gnos_inv I invar m" and "list_all item_ok (concat (map (entry_items I) m))"
    and r: "ends_uuid_set r"
  shows "\<exists>data t. parse_uuid_set I p (uuid_set_text I (u, m) @ r) =
      Inr (\<lparr> result_gtids = data, current_uuid = u, current_tag = t \<rparr>, r) \<and> gtid_set_inv I invar data \<and>
      gtid_set_abs I data = gtid_set_abs I (result_gtids p) \<union>
        {u} \<times> {(t, g). \<exists>c. (t, c) \<in> set m \<and> g \<in> icl_elems I c}"
proof -
  let ?items = "concat (map (entry_items I) m)"
  let ?p = "\<lparr> result_gtids = result_gtids p, current_uuid = u, current_tag = Tag [] \<rparr>"
  have nonempty: "\<forall>(t, c) \<in> set m. icl_intervals I c \<noteq> []"
    using tagged_gnos_mem [OF m] by fastforce
  have items: "items_gtids (Tag []) ?items = {(t, g). \<exists>c. (t, c) \<in> set m \<and> g \<in> icl_elems I c}"
    using nonempty tagged_gnos_ok [OF m] by (intro items_gtids_entries) auto
  have "?items \<noteq> []"
    using m nonempty by (cases m) (auto simp: tagged_gnos_inv_def entry_items_def split: list.splits)
  then obtain x xs where xs: "?items = x # xs" by (cases ?items) auto
  have "parse_uuid_set I p (uuid_set_text I (u, m) @ r) =
      parse_more_intervals I ?p (concat (map (\<lambda>x. component_separator # item_text x) ?items) @ r)"
    by (subst parse_more_intervals.simps, cases p)
      (simp add: parse_uuid_set_def uuid_set_text_def parse_uuid_text [OF assms(2)] xs
        parse_optionally_tagged_intervals_def Let_def)
  moreover obtain data t where
    "parse_more_intervals I ?p (concat (map (\<lambda>x. component_separator # item_text x) ?items) @ r) =
      Inr (?p\<lparr> current_tag := t, result_gtids := data \<rparr>, r)"
    and "gtid_set_inv I invar data"
    and "gtid_set_abs I data = gtid_set_abs I (result_gtids p) \<union> {u} \<times> items_gtids (Tag []) ?items"
    using parse_items [of ?p ?items r] assms by auto
  ultimately show ?thesis
    unfolding items by (intro exI [of _ data] exI [of _ t]) simp
qed

lemma uuid_entry_facts:
  assumes inv: "gtid_set_inv I invar data" and valid: "gtid_set_valid I data" and um: "(u, m) \<in> set data"
  shows "uuid_ok u" and "\<not> uuid_is_empty u" and "tagged_gnos_inv I invar m"
    and "list_all item_ok (concat (map (entry_items I) m))"
    and "\<forall>(t, c) \<in> set m. icl_intervals I c \<noteq> []"
proof -
  show m: "tagged_gnos_inv I invar m" by (rule gtid_set_mem [OF inv um])
  then obtain t c g where "(t, c) \<in> set m" "g \<in> icl_elems I c"
    using tagged_gnos_has_element smap_find_SomeD by fastforce
  then have "(u, t, g) \<in> gtid_set_abs I data"
    using um by (auto simp: gtid_set_abs_entries [OF inv] set_gtid_entries)
  then show "uuid_ok u" "\<not> uuid_is_empty u"
    using valid by (auto simp: gtid_set_valid_def gtid_triple_ok_def)
  have "list_all item_ok (entry_items I (t, c))" if "(t, c) \<in> set m" for t c
    using um that by (intro entry_items_ok [OF _ inv valid]) (auto simp: set_gtid_entries)
  then show "list_all item_ok (concat (map (entry_items I) m))"
    by (fastforce simp: list_all_iff)
  show "\<forall>(t, c) \<in> set m. icl_intervals I c \<noteq> []"
    using tagged_gnos_mem [OF m] by fastforce
qed

lemma parse_uuid_sets_text:
  assumes "gtid_set_inv I invar data" and "gtid_set_valid I data"
    and "set xs \<subseteq> set data" and "gtid_set_inv I invar (result_gtids p)" and junk: "ends_gtid_set junk"
  shows "\<exists>p'. parse_more_uuid_sets I p
      (concat (map (\<lambda>y. [uuid_separator, uuid_separator_whitespace] @ uuid_set_text I y) xs) @ junk) = Inr (p', junk) \<and>
      gtid_set_inv I invar (result_gtids p') \<and>
      gtid_set_abs I (result_gtids p') = gtid_set_abs I (result_gtids p) \<union>
        {(u, t, g). \<exists>c. (u, t, c) \<in> set (gtid_entries xs) \<and> g \<in> icl_elems I c}"
  using assms(3,4)
proof (induction xs arbitrary: p)
  case Nil
  then show ?case
    using junk by (cases junk) (simp_all add: parse_more_uuid_sets.simps ends_gtid_set_def)
next
  case (Cons x xs)
  obtain u m where x: "x = (u, m)" by fastforce
  let ?rest = "concat (map (\<lambda>y. [uuid_separator, uuid_separator_whitespace] @ uuid_set_text I y) xs) @ junk"
  have rest: "ends_uuid_set ?rest" using junk by (cases xs) (simp_all add: ends_gtid_set_def)
  note facts = uuid_entry_facts [OF assms(1,2), of u m]
  have um: "(u, m) \<in> set data" using Cons.prems(1) x by auto
  obtain data1 t where 1: "parse_uuid_set I p (uuid_set_text I (u, m) @ ?rest) =
      Inr (\<lparr> result_gtids = data1, current_uuid = u, current_tag = t \<rparr>, ?rest)"
    and inv1: "gtid_set_inv I invar data1"
    and abs1: "gtid_set_abs I data1 = gtid_set_abs I (result_gtids p) \<union>
        {u} \<times> {(t, g). \<exists>c. (t, c) \<in> set m \<and> g \<in> icl_elems I c}"
    using parse_uuid_set_text [OF Cons.prems(2) facts(1-4) rest] um by blast
  let ?p = "\<lparr> result_gtids = data1, current_uuid = u, current_tag = t \<rparr>"
  obtain p' where 2: "parse_more_uuid_sets I ?p ?rest = Inr (p', junk)"
    and inv2: "gtid_set_inv I invar (result_gtids p')"
    and abs2: "gtid_set_abs I (result_gtids p') = gtid_set_abs I data1 \<union>
        {(u, t, g). \<exists>c. (u, t, c) \<in> set (gtid_entries xs) \<and> g \<in> icl_elems I c}"
    using Cons.IH [of ?p] Cons.prems(1) inv1 by auto
  have "parse_more_uuid_sets I p (uuid_separator # uuid_separator_whitespace # uuid_set_text I x @ ?rest) = Inr (p', junk)"
    using parse_space_uuid [OF facts(1) [OF um]] 1 2
    by (subst parse_more_uuid_sets.simps) (simp add: x uuid_set_text_def)
  moreover have "gtid_set_abs I (result_gtids p') = gtid_set_abs I (result_gtids p) \<union>
        {(u, t, g). \<exists>c. (u, t, c) \<in> set (gtid_entries (x # xs)) \<and> g \<in> icl_elems I c}"
    unfolding abs2 abs1 by (auto simp: x)
  ultimately show ?case using inv2 by auto
qed

lemma print_parse_tail:
  assumes inv: "gtid_set_inv I invar data" and valid: "gtid_set_valid I data"
    and printer: "\<And>bs. length bs = uuid_length \<Longrightarrow> to_text bs = uuid_text bs"
    and junk: "ends_gtid_set junk" and ne: "data \<noteq> []"
  shows "\<exists>data'. gtid_set_of_string I (gtid_set_str to_text I data @ junk) = Inr data' \<and>
           gtid_set_inv I invar data' \<and> gtid_set_equal I data' data"
proof -
  obtain x xs where Cons: "data = x # xs" using ne by (cases data) auto
  obtain u m where x: "x = (u, m)" by fastforce
  note facts = uuid_entry_facts [OF inv valid]
  let ?p = "\<lparr> result_gtids = [], current_uuid = uuid_nil, current_tag = Tag [] \<rparr>"
  let ?more = "concat (map (\<lambda>y. [uuid_separator, uuid_separator_whitespace] @ uuid_set_text I y) xs)"
  let ?rest = "?more @ junk"
  have str: "gtid_set_str to_text I data = uuid_set_text I x @ ?more"
    unfolding Cons
  proof (rule gtid_set_str_Cons [OF printer])
    show "\<forall>(u, m) \<in> set (x # xs). uuid_ok u \<and> (\<forall>(t, c) \<in> set m. icl_intervals I c \<noteq> [])"
      using facts(1,5) unfolding Cons by blast
  qed
  have um: "(u, m) \<in> set data" by (simp add: Cons x)
  have rest: "ends_uuid_set ?rest" using junk by (cases xs) (simp_all add: ends_gtid_set_def)
  obtain data1 t where 1: "parse_uuid_set I ?p (uuid_set_text I (u, m) @ ?rest) =
      Inr (\<lparr> result_gtids = data1, current_uuid = u, current_tag = t \<rparr>, ?rest)"
    and inv1: "gtid_set_inv I invar data1"
    and abs1: "gtid_set_abs I data1 = {u} \<times> {(t, g). \<exists>c. (t, c) \<in> set m \<and> g \<in> icl_elems I c}"
    using parse_uuid_set_text [of ?p, OF _ facts(1-4) [OF um] rest] by auto
  obtain p' where 2: "parse_more_uuid_sets I \<lparr> result_gtids = data1, current_uuid = u, current_tag = t \<rparr> ?rest = Inr (p', junk)"
    and inv2: "gtid_set_inv I invar (result_gtids p')"
    and abs2: "gtid_set_abs I (result_gtids p') = gtid_set_abs I data1 \<union>
        {(u, t, g). \<exists>c. (u, t, c) \<in> set (gtid_entries xs) \<and> g \<in> icl_elems I c}"
    using parse_uuid_sets_text [OF inv valid, of xs "\<lparr> result_gtids = data1, current_uuid = u, current_tag = t \<rparr>" junk]
      inv1 junk by (auto simp: Cons)
  have "gtid_set_abs I (result_gtids p') = gtid_set_abs I data"
    unfolding abs2 abs1 gtid_set_abs_entries [OF inv] by (auto simp: Cons x)
  moreover have "uuid_set_text I x \<noteq> []"
    using facts(1) [OF um] by (simp add: x uuid_set_text_def uuid_text_def)
  ultimately show ?thesis
    using 1 2 inv2 inv
    by (simp add: gtid_set_of_string_def parse_def parse_gtid_set_def str x gtid_set_equal_refines)
qed

lemma print_parse:
  assumes "gtid_set_inv I invar data" and "gtid_set_valid I data"
    and "\<And>bs. length bs = uuid_length \<Longrightarrow> to_text bs = uuid_text bs"
  shows "\<exists>data'. gtid_set_of_string I (gtid_set_str to_text I data) = Inr data' \<and>
           gtid_set_inv I invar data' \<and> gtid_set_equal I data' data"
proof (cases "data = []")
  case True
  then show ?thesis by (simp add: gtid_set_of_string_def gtid_set_str_def gtid_set_equal_def)
next
  case False
  from print_parse_tail [OF assms _ this, of "[]"] show ?thesis by simp
qed

end

section \<open>Properties\<close>

text \<open>
  C25: Printing a valid GTID set and parsing the text yields an equal set, whatever servers, tags
  and intervals it has, when Boost prints a UUID in its documented form (lower-case hexadecimal
  in groups of 8, 4, 4, 4 and 12 digits).
\<close>

theorem gtid_set_print_parse:
  assumes "icl_interval_set I invar" and "gtid_set_inv I invar data" and "gtid_set_valid I data"
    and "\<And>bs. length bs = uuid_length \<Longrightarrow> to_text bs = uuid_text bs"
  shows "\<exists>data'. gtid_set_of_string I (gtid_set_str to_text I data) = Inr data' \<and>
           gtid_set_inv I invar data' \<and> gtid_set_equal I data' data"
  by (rule icl_interval_set.print_parse [OF assms])

theorem gtid_set_print_parse_witness:
  "\<exists>data'. gtid_set_of_string list_icl (gtid_set_str uuid_text list_icl (sample_set 1 4)) = Inr data' \<and>
     gtid_set_inv list_icl ivl_canonical data' \<and> gtid_set_equal list_icl data' (sample_set 1 4)"
  by (rule gtid_set_print_parse [OF list_icl_interval_set sample_set_inv sample_set_valid]) simp_all

text \<open>
  C39: The string constructor ignores text that cannot continue a complete GTID set. The printed form of any
  valid set with at least one GTID, followed by any text that does not begin with a digit or with one of
  the three separators, is accepted and gives the same set: nothing checks that the text was consumed
  to its end, although the grammar in the comment of the source describes the complete text. (Text that
  begins like a continuation, such as a comma, is parsed as one and refused if it is none.)
\<close>

theorem parser_ignores_trailing_text:
  assumes "icl_interval_set I invar" and "gtid_set_inv I invar data" and "gtid_set_valid I data" and "data \<noteq> []"
    and "\<And>bs. length bs = uuid_length \<Longrightarrow> to_text bs = uuid_text bs"
    and "\<not> isdigit c" and "c \<notin> {component_separator, uuid_separator, interval_separator}"
  shows "\<exists>data'. gtid_set_of_string I (gtid_set_str to_text I data @ c # junk) = Inr data' \<and>
           gtid_set_inv I invar data' \<and> gtid_set_equal I data' data"
proof -
  have "ends_gtid_set (c # junk)"
    using assms(6,7) by (simp add: ends_gtid_set_def ends_uuid_set_def ends_interval_def)
  from icl_interval_set.print_parse_tail [OF assms(1-3,5) this assms(4)] show ?thesis .
qed

theorem parser_ignores_trailing_text_witness:
  "\<exists>data'. gtid_set_of_string list_icl (gtid_set_str uuid_text list_icl (sample_set 1 4) @ '' junk'') = Inr data' \<and>
     gtid_set_inv list_icl ivl_canonical data' \<and> gtid_set_equal list_icl data' (sample_set 1 4)"
proof (rule parser_ignores_trailing_text [OF list_icl_interval_set sample_set_inv sample_set_valid])
  show "\<not> isdigit (CHR '' '')" "CHR '' '' \<notin> {component_separator, uuid_separator, interval_separator}" by code_simp+
qed simp_all

end
