(* ===== verification/Protocol.thy ===== *)
theory Protocol
  imports Byte_Span
begin

text \<open>
  The binlog protocol constants and tables: event type codes (\<open>code_type.hpp\<close>), header flags,
  the per-version number of events and the tables of post header lengths
  (\<open>protocol_traits.cpp\<close>, \<open>protocol_traits_fwd.hpp\<close>, the static tables of
  \<open>reader_context.cpp\<close>).
\<close>

section \<open>Event type codes\<close>

datatype code_type =
    Unknown | Start_v3 | Query | Stop | Rotate
  | Intvar | Obsolete_6 | Slave | Obsolete_8 | Append_block
  | Obsolete_10 | Delete_file | Obsolete_12 | Rand | User_var
  | Format_description | Xid | Begin_load_query | Execute_load_query | Table_map
  | Obsolete_20 | Obsolete_21 | Obsolete_22 | Write_rows_v1 | Update_rows_v1
  | Delete_rows_v1 | Incident | Heartbeat_log | Ignorable_log | Rows_query_log
  | Write_rows | Update_rows | Delete_rows | Gtid_log | Anonymous_gtid_log
  | Previous_gtids_log | Transaction_context | View_change | Xa_prepare_log | Partial_update_rows
  | Transaction_payload | Heartbeat_log_v2 | Gtid_tagged_log

definition code_types :: "code_type list" where
  "code_types = [Unknown, Start_v3, Query, Stop, Rotate,
     Intvar, Obsolete_6, Slave, Obsolete_8, Append_block,
     Obsolete_10, Delete_file, Obsolete_12, Rand, User_var,
     Format_description, Xid, Begin_load_query, Execute_load_query, Table_map,
     Obsolete_20, Obsolete_21, Obsolete_22, Write_rows_v1, Update_rows_v1,
     Delete_rows_v1, Incident, Heartbeat_log, Ignorable_log, Rows_query_log,
     Write_rows, Update_rows, Delete_rows, Gtid_log, Anonymous_gtid_log,
     Previous_gtids_log, Transaction_context, View_change, Xa_prepare_log, Partial_update_rows,
     Transaction_payload, Heartbeat_log_v2, Gtid_tagged_log]"

primrec enum_to_index :: "code_type \<Rightarrow> nat" where
  "enum_to_index Unknown = 0"
| "enum_to_index Start_v3 = 1"
| "enum_to_index Query = 2"
| "enum_to_index Stop = 3"
| "enum_to_index Rotate = 4"
| "enum_to_index Intvar = 5"
| "enum_to_index Obsolete_6 = 6"
| "enum_to_index Slave = 7"
| "enum_to_index Obsolete_8 = 8"
| "enum_to_index Append_block = 9"
| "enum_to_index Obsolete_10 = 10"
| "enum_to_index Delete_file = 11"
| "enum_to_index Obsolete_12 = 12"
| "enum_to_index Rand = 13"
| "enum_to_index User_var = 14"
| "enum_to_index Format_description = 15"
| "enum_to_index Xid = 16"
| "enum_to_index Begin_load_query = 17"
| "enum_to_index Execute_load_query = 18"
| "enum_to_index Table_map = 19"
| "enum_to_index Obsolete_20 = 20"
| "enum_to_index Obsolete_21 = 21"
| "enum_to_index Obsolete_22 = 22"
| "enum_to_index Write_rows_v1 = 23"
| "enum_to_index Update_rows_v1 = 24"
| "enum_to_index Delete_rows_v1 = 25"
| "enum_to_index Incident = 26"
| "enum_to_index Heartbeat_log = 27"
| "enum_to_index Ignorable_log = 28"
| "enum_to_index Rows_query_log = 29"
| "enum_to_index Write_rows = 30"
| "enum_to_index Update_rows = 31"
| "enum_to_index Delete_rows = 32"
| "enum_to_index Gtid_log = 33"
| "enum_to_index Anonymous_gtid_log = 34"
| "enum_to_index Previous_gtids_log = 35"
| "enum_to_index Transaction_context = 36"
| "enum_to_index View_change = 37"
| "enum_to_index Xa_prepare_log = 38"
| "enum_to_index Partial_update_rows = 39"
| "enum_to_index Transaction_payload = 40"
| "enum_to_index Heartbeat_log_v2 = 41"
| "enum_to_index Gtid_tagged_log = 42"

definition delimiter_index :: nat where "delimiter_index = 43"

text \<open>\<open>static_cast<code_type>(raw)\<close>: a value outside the enumeration has no name.\<close>

definition get_type_code_from_raw :: "uint8 \<Rightarrow> code_type option" where
  "get_type_code_from_raw type_code =
     (if unat type_code < delimiter_index then Some (code_types ! unat type_code) else None)"

section \<open>Constants\<close>

definition default_binlog_version :: uint16 where "default_binlog_version = 4"
definition earliest_supported_protocol_server_version :: uint32 where
  "earliest_supported_protocol_server_version = 80000"
definition latest_known_protocol_server_version :: uint32 where
  "latest_known_protocol_server_version = 80300"
definition default_common_header_length :: nat where "default_common_header_length = 19"
definition default_footer_length :: nat where "default_footer_length = 4"
definition magic_binlog_payload :: "byte list" where "magic_binlog_payload = [0xFE, 0x62, 0x69, 0x6E]"
definition magic_binlog_offset :: uint64 where "magic_binlog_offset = 4"
definition max_number_of_events :: nat where "max_number_of_events = 43"

lemmas protocol_constants [simp] =
  delimiter_index_def default_binlog_version_def earliest_supported_protocol_server_version_def
  latest_known_protocol_server_version_def default_common_header_length_def default_footer_length_def
  magic_binlog_offset_def max_number_of_events_def

text \<open>\<open>std::numeric_limits<std::size_t>::max()\<close> marks a length that is not known; it is \<open>None\<close> here.\<close>

definition get_number_of_events :: "uint32 \<Rightarrow> nat" where
  "get_number_of_events encoded_server_version =
     (if encoded_server_version < latest_known_protocol_server_version then 42 else 43)"

definition artificial_flag :: uint16 where "artificial_flag = 0x20"

definition flag_set_has_element :: "'a::len word \<Rightarrow> 'a word \<Rightarrow> bool" where
  "flag_set_has_element bits element \<longleftrightarrow> bits AND element \<noteq> 0"

section \<open>Post header lengths\<close>

type_synonym post_header_lengths = "uint8 list"

text \<open>The narrowing of the unspecified length to one byte.\<close>

definition unspecified_encoded_length :: uint8 where "unspecified_encoded_length = 255"

definition get_post_header_length_for_code ::
    "uint32 \<Rightarrow> post_header_lengths \<Rightarrow> code_type \<Rightarrow> nat option" where
  "get_post_header_length_for_code encoded_server_version storage code =
     (let index = enum_to_index code in
      if index = 0 \<or> index \<ge> get_number_of_events encoded_server_version then None
      else
        let encoded_length = storage ! (index - 1)
        in if encoded_length = unspecified_encoded_length then None else Some (unat encoded_length))"

text \<open>The first position at which the predicate of \<open>std::ranges::mismatch\<close> fails.\<close>

fun mismatch_index :: "('a \<Rightarrow> 'b \<Rightarrow> bool) \<Rightarrow> 'a list \<Rightarrow> 'b list \<Rightarrow> nat option" where
  "mismatch_index P (x # xs) (y # ys) =
     (if P x y then map_option Suc (mismatch_index P xs ys) else Some 0)"
| "mismatch_index P _ _ = None"

definition validate_post_header_lengths ::
    "uint32 \<Rightarrow> post_header_lengths \<Rightarrow> post_header_lengths \<Rightarrow> unit result" where
  "validate_post_header_lengths encoded_server_version runtime known =
     (let number_of_events = get_number_of_events encoded_server_version
      in case mismatch_index (\<lambda>real expected. expected = unspecified_encoded_length \<or> real = expected)
                (take number_of_events runtime) (take number_of_events known) of
           None \<Rightarrow> Inr ()
         | Some offset \<Rightarrow> Inl (Logic_error ''mismatch in expected post header length''))"

text \<open>
  \<open>generic_post_header<code>\<close>: the post header classes the sources define, with their sizes; every
  other code is redirected to \<open>unknown_post_header\<close>.
\<close>

definition fde_post_header_size :: "uint32 \<Rightarrow> nat" where
  "fde_post_header_size encoded_server_version = 57 + get_number_of_events encoded_server_version - 1"

definition generic_post_header_size :: "uint32 \<Rightarrow> code_type \<Rightarrow> nat option" where
  "generic_post_header_size version code =
     (if code = Rotate then Some 8
      else if code = Format_description then Some (fde_post_header_size version)
      else if code = Gtid_log \<or> code = Anonymous_gtid_log then Some 42
      else if code = Stop \<or> code = Previous_gtids_log \<or> code = Gtid_tagged_log then Some 0
      else None)"

definition encoded_known_length :: "uint32 \<Rightarrow> code_type \<Rightarrow> uint8" where
  "encoded_known_length version code =
     (case generic_post_header_size version code of
        None \<Rightarrow> unspecified_encoded_length | Some n \<Rightarrow> of_nat n)"

text \<open>The generated table: one entry per code, the elements past the version's codes are zero.\<close>

definition known_post_header_lengths_generator :: "uint32 \<Rightarrow> post_header_lengths" where
  "known_post_header_lengths_generator version =
     map (encoded_known_length version) (take (get_number_of_events version - 1) (tl code_types)) @
     replicate (max_number_of_events - get_number_of_events version) 0"

definition get_known_post_header_lengths :: "uint32 \<Rightarrow> post_header_lengths" where
  "get_known_post_header_lengths encoded_server_version =
     (if encoded_server_version < latest_known_protocol_server_version
      then known_post_header_lengths_generator earliest_supported_protocol_server_version
      else known_post_header_lengths_generator latest_known_protocol_server_version)"

definition get_hardcoded_post_header_lengths :: "uint32 \<Rightarrow> post_header_lengths" where
  "get_hardcoded_post_header_lengths encoded_server_version =
     (if encoded_server_version < latest_known_protocol_server_version
      then [0, 13, 0, 8, 0, 0, 0, 0, 4, 0, 4, 0, 0, 0, 98, 0, 4, 26, 8, 0, 0,
        0, 8, 8, 8, 2, 0, 0, 0, 10, 10, 10, 42, 42, 0, 18, 52, 0, 10, 40, 0, 0]
      else [0, 13, 0, 8, 0, 0, 0, 0, 4, 0, 4, 0, 0, 0, 99, 0, 4, 26, 8, 0, 0,
        0, 0, 0, 0, 2, 0, 0, 0, 10, 10, 10, 42, 42, 0, 18, 52, 0, 10, 40, 0, 0])"

section \<open>Properties\<close>

lemma enum_to_index_less: "enum_to_index c < delimiter_index"
  by (cases c) simp_all

lemma code_types_nth: "code_types ! enum_to_index c = c"
  by (cases c) (simp_all add: code_types_def)

lemma get_type_code_of_nat: "get_type_code_from_raw (of_nat (enum_to_index c)) = Some c"
  using enum_to_index_less [of c] by (simp add: get_type_code_from_raw_def unat_of_nat code_types_nth)

lemma known_lengths_earliest:
  "known_post_header_lengths_generator 80000 =
   [255, 255, 0, 8, 255, 255, 255, 255, 255, 255, 255, 255, 255, 255, 98, 255, 255, 255, 255, 255, 255,
    255, 255, 255, 255, 255, 255, 255, 255, 255, 255, 255, 42, 42, 0, 255, 255, 255, 255, 255, 255, 0]"
  by code_simp

lemma known_lengths_latest:
  "known_post_header_lengths_generator 80300 =
   [255, 255, 0, 8, 255, 255, 255, 255, 255, 255, 255, 255, 255, 255, 99, 255, 255, 255, 255, 255, 255,
    255, 255, 255, 255, 255, 255, 255, 255, 255, 255, 255, 42, 42, 0, 255, 255, 255, 255, 255, 255, 0]"
  by code_simp

lemma hardcoded_lengths_validated:
  "validate_post_header_lengths v (get_hardcoded_post_header_lengths v) (get_known_post_header_lengths v) = Inr ()"
  by (simp add: validate_post_header_lengths_def get_hardcoded_post_header_lengths_def
      get_known_post_header_lengths_def known_lengths_earliest known_lengths_latest
      get_number_of_events_def unspecified_encoded_length_def)

lemma hardcoded_length:
  "generic_post_header_size v code = Some n \<Longrightarrow> enum_to_index code < get_number_of_events v \<Longrightarrow>
   get_post_header_length_for_code v (get_hardcoded_post_header_lengths v) code = Some n"
  by (auto simp: generic_post_header_size_def get_post_header_length_for_code_def
      get_hardcoded_post_header_lengths_def fde_post_header_size_def get_number_of_events_def
      unspecified_encoded_length_def Let_def split: if_splits)

lemma known_length:
  "generic_post_header_size v code = Some n \<Longrightarrow> enum_to_index code < get_number_of_events v \<Longrightarrow>
   get_post_header_length_for_code v (get_known_post_header_lengths v) code = Some n"
  by (auto simp: generic_post_header_size_def get_post_header_length_for_code_def
      get_known_post_header_lengths_def known_lengths_earliest known_lengths_latest fde_post_header_size_def get_number_of_events_def
      unspecified_encoded_length_def Let_def split: if_splits)

text \<open>
  C32: For every server version, the table of post header lengths the program writes into format
  description events passes the validation it applies to received ones, and gives every
  event class the length its own class declares.
\<close>

theorem hardcoded_post_header_lengths_valid:
  "validate_post_header_lengths v (get_hardcoded_post_header_lengths v) (get_known_post_header_lengths v) = Inr () \<and>
   (case generic_post_header_size v code of
      None \<Rightarrow> True
    | Some n \<Rightarrow> enum_to_index code < get_number_of_events v \<longrightarrow>
        get_post_header_length_for_code v (get_hardcoded_post_header_lengths v) code = Some n)"
  using hardcoded_lengths_validated hardcoded_length by (auto split: option.split)

theorem hardcoded_post_header_lengths_valid_witness:
  "get_post_header_length_for_code 80403 (get_hardcoded_post_header_lengths 80403) Gtid_log = Some 42"
  using hardcoded_post_header_lengths_valid [of 80403 Gtid_log]
  by (simp add: generic_post_header_size_def get_number_of_events_def)

end
