(* ===== verification/Common_Header.thy ===== *)
theory Common_Header
  imports Protocol
begin

text \<open>
  The 19-byte common header and the 4-byte footer of a binlog event: the views over raw bytes
  (\<open>common_header_view.cpp\<close>, \<open>footer_view.cpp\<close>) with their getters and setters, and the classes
  that own the decoded fields (\<open>common_header.cpp\<close>, \<open>footer.cpp\<close>) with their encoders. A view is the
  list of the bytes it looks at; a setter returns the bytes with the field overwritten.
\<close>

section \<open>Fields of a byte range\<close>

definition subspan :: "nat \<Rightarrow> nat \<Rightarrow> byte list \<Rightarrow> byte list" where
  "subspan offset count bs = take count (drop offset bs)"

definition get_field :: "nat \<Rightarrow> nat \<Rightarrow> byte list \<Rightarrow> 'a::len word" where
  "get_field offset count bs = fst (read_fixed_int count (subspan offset count bs))"

definition set_field :: "nat \<Rightarrow> byte list \<Rightarrow> byte list \<Rightarrow> byte list" where
  "set_field offset field bs = take offset bs @ field @ drop (offset + length field) bs"

section \<open>The common header view\<close>

definition timestamp_offset :: nat where "timestamp_offset = 0"
definition type_code_offset :: nat where "type_code_offset = timestamp_offset + 4"
definition server_id_offset :: nat where "server_id_offset = type_code_offset + 1"
definition event_size_offset :: nat where "event_size_offset = server_id_offset + 4"
definition next_event_position_offset :: nat where "next_event_position_offset = event_size_offset + 4"
definition flags_offset :: nat where "flags_offset = next_event_position_offset + 4"
definition common_header_size_in_bytes :: nat where "common_header_size_in_bytes = flags_offset + 2"

lemmas header_offsets =
  timestamp_offset_def type_code_offset_def server_id_offset_def event_size_offset_def
  next_event_position_offset_def flags_offset_def common_header_size_in_bytes_def

definition get_timestamp_raw :: "byte list \<Rightarrow> uint32" where
  "get_timestamp_raw portion = get_field timestamp_offset 4 portion"

definition get_type_code_raw :: "byte list \<Rightarrow> uint8" where
  "get_type_code_raw portion = get_field type_code_offset 1 portion"

definition get_server_id_raw :: "byte list \<Rightarrow> uint32" where
  "get_server_id_raw portion = get_field server_id_offset 4 portion"

definition get_event_size_raw :: "byte list \<Rightarrow> uint32" where
  "get_event_size_raw portion = get_field event_size_offset 4 portion"

definition get_next_event_position_raw :: "byte list \<Rightarrow> uint32" where
  "get_next_event_position_raw portion = get_field next_event_position_offset 4 portion"

definition get_flags_raw :: "byte list \<Rightarrow> uint16" where
  "get_flags_raw portion = get_field flags_offset 2 portion"

text \<open>The constructor of a view; it is the only way to a view, so the code is in range afterwards.\<close>

definition common_header_view :: "byte list \<Rightarrow> byte list result" where
  "common_header_view portion =
     rbind (ensure (length portion = common_header_size_in_bytes)
       (Invalid_argument ''invalid event common header length'')) (\<lambda>_.
     rbind (ensure (\<not> unat (get_type_code_raw portion) \<ge> delimiter_index)
       (Logic_error ''invalid event code in event header'')) (\<lambda>_.
     Inr portion))"

definition get_type_code :: "byte list \<Rightarrow> code_type" where
  "get_type_code portion = code_types ! unat (get_type_code_raw portion)"

definition is_artificial :: "byte list \<Rightarrow> bool" where
  "is_artificial portion \<longleftrightarrow> flag_set_has_element (get_flags_raw portion) artificial_flag"

definition set_timestamp_raw :: "uint32 \<Rightarrow> byte list \<Rightarrow> byte list" where
  "set_timestamp_raw v = set_field timestamp_offset (le_of_nat 4 (unat v))"

definition set_type_code_raw :: "uint8 \<Rightarrow> byte list \<Rightarrow> byte list" where
  "set_type_code_raw v = set_field type_code_offset (le_of_nat 1 (unat v))"

definition set_server_id_raw :: "uint32 \<Rightarrow> byte list \<Rightarrow> byte list" where
  "set_server_id_raw v = set_field server_id_offset (le_of_nat 4 (unat v))"

definition set_event_size_raw :: "uint32 \<Rightarrow> byte list \<Rightarrow> byte list" where
  "set_event_size_raw v = set_field event_size_offset (le_of_nat 4 (unat v))"

definition set_next_event_position_raw :: "uint32 \<Rightarrow> byte list \<Rightarrow> byte list" where
  "set_next_event_position_raw v = set_field next_event_position_offset (le_of_nat 4 (unat v))"

definition set_flags_raw :: "uint16 \<Rightarrow> byte list \<Rightarrow> byte list" where
  "set_flags_raw v = set_field flags_offset (le_of_nat 2 (unat v))"

section \<open>The decoded common header\<close>

record common_header =
  ch_timestamp :: uint32
  ch_server_id :: uint32
  ch_event_size :: uint32
  ch_next_event_position :: uint32
  ch_flags :: uint16
  ch_type_code :: uint8

definition make_common_header ::
    "uint64 \<Rightarrow> code_type \<Rightarrow> uint32 \<Rightarrow> uint32 \<Rightarrow> uint32 \<Rightarrow> uint16 \<Rightarrow> common_header" where
  "make_common_header timestamp type_code server_id event_size next_event_position flags =
     \<lparr> ch_timestamp = ucast timestamp, ch_server_id = server_id, ch_event_size = event_size,
       ch_next_event_position = next_event_position, ch_flags = flags,
       ch_type_code = of_nat (enum_to_index type_code) \<rparr>"

definition common_header_of_view :: "byte list \<Rightarrow> common_header" where
  "common_header_of_view view =
     \<lparr> ch_timestamp = get_timestamp_raw view, ch_server_id = get_server_id_raw view,
       ch_event_size = get_event_size_raw view, ch_next_event_position = get_next_event_position_raw view,
       ch_flags = get_flags_raw view, ch_type_code = get_type_code_raw view \<rparr>"

definition common_header_of_portion :: "byte list \<Rightarrow> common_header result" where
  "common_header_of_portion portion =
     rbind (common_header_view portion) (\<lambda>view. Inr (common_header_of_view view))"

definition create_with_offset ::
    "uint32 \<Rightarrow> uint32 \<Rightarrow> uint64 \<Rightarrow> code_type \<Rightarrow> uint32 \<Rightarrow> uint16 \<Rightarrow> common_header" where
  "create_with_offset offset event_size timestamp type_code server_id flags =
     (let next_event_position =
            (if type_code = Rotate \<and> flag_set_has_element flags artificial_flag then 0
             else offset + event_size)
      in make_common_header timestamp type_code server_id event_size next_event_position flags)"

definition common_header_encode_to :: "common_header \<Rightarrow> byte_span \<Rightarrow> byte_span result" where
  "common_header_encode_to h destination =
     rbind (ensure (\<not> span_size destination < common_header_size_in_bytes)
       (Invalid_argument ''cannot encode common header'')) (\<lambda>_.
     let (done, room) = destination in
     rbind (common_header_view (subspan 0 common_header_size_in_bytes room)) (\<lambda>uv.
     let uv = set_timestamp_raw (ch_timestamp h) uv;
         uv = set_type_code_raw (ch_type_code h) uv;
         uv = set_server_id_raw (ch_server_id h) uv;
         uv = set_event_size_raw (ch_event_size h) uv;
         uv = set_next_event_position_raw (ch_next_event_position h) uv;
         uv = set_flags_raw (ch_flags h) uv
     in Inr (done @ uv, drop common_header_size_in_bytes room)))"

section \<open>The footer\<close>

definition footer_size_in_bytes :: nat where "footer_size_in_bytes = 4"

definition footer_view :: "byte list \<Rightarrow> byte list result" where
  "footer_view portion =
     rbind (ensure (length portion = footer_size_in_bytes)
       (Invalid_argument ''invalid event footer length'')) (\<lambda>_. Inr portion)"

definition get_crc_raw :: "byte list \<Rightarrow> uint32" where
  "get_crc_raw portion = get_field 0 4 portion"

definition set_crc_raw :: "uint32 \<Rightarrow> byte list \<Rightarrow> byte list" where
  "set_crc_raw crc = set_field 0 (le_of_nat 4 (unat crc))"

definition footer_encode_to :: "uint32 \<Rightarrow> byte_span \<Rightarrow> byte_span result" where
  "footer_encode_to crc destination =
     rbind (ensure (\<not> span_size destination < footer_size_in_bytes)
       (Invalid_argument ''cannot encode footer'')) (\<lambda>_.
     let (done, room) = destination in
     rbind (footer_view (subspan 0 footer_size_in_bytes room)) (\<lambda>uv.
     Inr (done @ set_crc_raw crc uv, drop footer_size_in_bytes room)))"

section \<open>Lemmas\<close>

lemma length_set_field [simp]:
  "offset + length field \<le> length bs \<Longrightarrow> length (set_field offset field bs) = length bs"
  by (simp add: set_field_def)

definition common_header_bytes :: "common_header \<Rightarrow> byte list" where
  "common_header_bytes h =
     le_of_nat 4 (unat (ch_timestamp h)) @ le_of_nat 1 (unat (ch_type_code h)) @
     le_of_nat 4 (unat (ch_server_id h)) @ le_of_nat 4 (unat (ch_event_size h)) @
     le_of_nat 4 (unat (ch_next_event_position h)) @ le_of_nat 2 (unat (ch_flags h))"

lemma length_common_header_bytes [simp]: "length (common_header_bytes h) = 19"
  by (simp add: common_header_bytes_def)

lemma header_fields_assemble:
  assumes "length bs = 19"
  shows "set_flags_raw e (set_next_event_position_raw d (set_event_size_raw c (set_server_id_raw b
           (set_type_code_raw t (set_timestamp_raw a bs))))) =
         le_of_nat 4 (unat a) @ le_of_nat 1 (unat t) @ le_of_nat 4 (unat b) @ le_of_nat 4 (unat c) @
         le_of_nat 4 (unat d) @ le_of_nat 2 (unat e)"
  using assms
  by (simp add: set_flags_raw_def set_next_event_position_raw_def set_event_size_raw_def
      set_server_id_raw_def set_type_code_raw_def set_timestamp_raw_def set_field_def header_offsets
      drop_append)

lemma get_field_at:
  assumes "length pre = offset" and "fits_in_bytes n v"
  shows "get_field offset n (pre @ le_of_nat n (unat v) @ post) = v"
proof -
  have "subspan offset n (pre @ le_of_nat n (unat v) @ post) = le_of_nat n (unat v)"
    using assms(1) by (simp add: subspan_def)
  then show ?thesis
    using read_fixed_int_le [OF assms(2), of "[]"] by (simp add: get_field_def)
qed

lemma uint8_fits: "fits_in_bytes 1 (v :: uint8)"
  by simp

lemma header_getters:
  "get_timestamp_raw (common_header_bytes h) = ch_timestamp h"
  "get_type_code_raw (common_header_bytes h) = ch_type_code h"
  "get_server_id_raw (common_header_bytes h) = ch_server_id h"
  "get_event_size_raw (common_header_bytes h) = ch_event_size h"
  "get_next_event_position_raw (common_header_bytes h) = ch_next_event_position h"
  "get_flags_raw (common_header_bytes h) = ch_flags h"
proof -
  let ?a = "le_of_nat 4 (unat (ch_timestamp h))" and ?t = "le_of_nat 1 (unat (ch_type_code h))"
  let ?b = "le_of_nat 4 (unat (ch_server_id h))" and ?c = "le_of_nat 4 (unat (ch_event_size h))"
  let ?d = "le_of_nat 4 (unat (ch_next_event_position h))" and ?e = "le_of_nat 2 (unat (ch_flags h))"
  show "get_timestamp_raw (common_header_bytes h) = ch_timestamp h"
    using get_field_at [OF _ uint32_fits, of "[]" 0 "ch_timestamp h" "?t @ ?b @ ?c @ ?d @ ?e"]
    by (simp add: get_timestamp_raw_def common_header_bytes_def header_offsets)
  show "get_type_code_raw (common_header_bytes h) = ch_type_code h"
    using get_field_at [OF _ uint8_fits, of ?a 4 "ch_type_code h" "?b @ ?c @ ?d @ ?e"]
    by (simp add: get_type_code_raw_def common_header_bytes_def header_offsets del: le_of_nat.simps One_nat_def)
  show "get_server_id_raw (common_header_bytes h) = ch_server_id h"
    using get_field_at [OF _ uint32_fits, of "?a @ ?t" 5 "ch_server_id h" "?c @ ?d @ ?e"]
    by (simp add: get_server_id_raw_def common_header_bytes_def header_offsets)
  show "get_event_size_raw (common_header_bytes h) = ch_event_size h"
    using get_field_at [OF _ uint32_fits, of "?a @ ?t @ ?b" 9 "ch_event_size h" "?d @ ?e"]
    by (simp add: get_event_size_raw_def common_header_bytes_def header_offsets)
  show "get_next_event_position_raw (common_header_bytes h) = ch_next_event_position h"
    using get_field_at [OF _ uint32_fits, of "?a @ ?t @ ?b @ ?c" 13 "ch_next_event_position h" ?e]
    by (simp add: get_next_event_position_raw_def common_header_bytes_def header_offsets)
  show "get_flags_raw (common_header_bytes h) = ch_flags h"
    using get_field_at [OF _ uint16_fits, of "?a @ ?t @ ?b @ ?c @ ?d" 17 "ch_flags h" "[]"]
    by (simp add: get_flags_raw_def common_header_bytes_def header_offsets)
qed

lemma common_header_of_bytes:
  "unat (ch_type_code h) < 43 \<Longrightarrow> common_header_of_portion (common_header_bytes h) = Inr h"
  by (simp add: common_header_of_portion_def common_header_view_def common_header_of_view_def header_getters
      header_offsets)

lemma common_header_encode_to_eq:
  "common_header_encode_to h (done, room) =
    (if length room < 19 then Inl (Invalid_argument ''cannot encode common header'')
     else if unat (get_type_code_raw (take 19 room)) \<ge> 43 then Inl (Logic_error ''invalid event code in event header'')
     else Inr (done @ common_header_bytes h, drop 19 room))"
  by (simp add: common_header_encode_to_def common_header_view_def header_offsets subspan_def Let_def
      header_fields_assemble ensure_def common_header_bytes_def min_def)

section \<open>Properties\<close>

text \<open>
  Encoding a common header over a range whose old bytes pass for a header (for example a
  zero-filled one) writes 19 bytes from which every field is read back.
\<close>

lemma common_header_roundtrip:
  assumes "19 \<le> length room" and "unat (get_type_code_raw (take 19 room)) < 43"
    and "unat (ch_type_code h) < 43"
  shows "\<exists>bytes. common_header_encode_to h (done, room) = Inr (done @ bytes, drop 19 room) \<and>
           length bytes = 19 \<and> common_header_of_portion bytes = Inr h"
  using assms common_header_of_bytes [OF assms(3)]
  by (intro exI [of _ "common_header_bytes h"]) (simp add: common_header_encode_to_eq)

text \<open>
  The encoder validates the destination's old contents instead of the header it writes: a
  range whose fifth byte is not an event code is refused, whatever the header.
\<close>

lemma common_header_encode_checks_old_bytes:
  assumes "19 \<le> length room" and "43 \<le> unat (get_type_code_raw (take 19 room))"
  shows "common_header_encode_to h (done, room) = Inl (Logic_error ''invalid event code in event header'')"
  using assms by (simp add: common_header_encode_to_eq)

end
