(* ===== verification/Semantic_Version.thy ===== *)
theory Semantic_Version
  imports Text
begin

text \<open>
  Server versions (\<open>util/semantic_version.hpp\<close>, \<open>util/semantic_version.cpp\<close>): parsing of
  dotted version strings with an optional suffix after a dash, and the five- or six-digit encoded
  form of the MySQL client library.
\<close>

datatype semantic_version = Semantic_version (get_major: uint8) (get_minor: uint8) (get_patch: uint8)

definition component_delimiter :: char where "component_delimiter = CHR ''.''"
definition extra_delimiter :: char where "extra_delimiter = CHR ''-''"
definition minor_multiplier :: uint32 where "minor_multiplier = 100"
definition major_multiplier :: uint32 where "major_multiplier = minor_multiplier * minor_multiplier"

definition semantic_version_of_encoded :: "uint32 \<Rightarrow> semantic_version" where
  "semantic_version_of_encoded encoded_server_version =
     Semantic_version
       (ucast (encoded_server_version div major_multiplier mod minor_multiplier))
       (ucast (encoded_server_version div minor_multiplier mod minor_multiplier))
       (ucast (encoded_server_version mod minor_multiplier))"

definition get_encoded :: "semantic_version \<Rightarrow> uint32" where
  "get_encoded v =
     ucast (get_major v) * major_multiplier + ucast (get_minor v) * minor_multiplier + ucast (get_patch v)"

definition get_string :: "semantic_version \<Rightarrow> string" where
  "get_string v =
     to_string (unat (get_major v)) @ [component_delimiter] @ to_string (unat (get_minor v)) @
     [component_delimiter] @ to_string (unat (get_patch v))"

text \<open>\<open>std::ranges::views::split\<close>: no piece for an empty text, one more than delimiters otherwise.\<close>

fun split_pieces :: "char \<Rightarrow> string \<Rightarrow> string list" where
  "split_pieces d [] = [[]]"
| "split_pieces d (c # cs) =
     (if c = d then [] # split_pieces d cs
      else case split_pieces d cs of [] \<Rightarrow> [[c]] | p # ps \<Rightarrow> (c # p) # ps)"

definition views_split :: "string \<Rightarrow> char \<Rightarrow> string list" where
  "views_split s d = (if s = [] then [] else split_pieces d s)"

text \<open>
  \<open>std::from_chars\<close> into an unsigned byte, together with the check that it consumed the whole
  piece: at least one digit, digits only, and a value that fits.
\<close>

definition from_chars_uint8 :: "string \<Rightarrow> uint8 option" where
  "from_chars_uint8 s =
     (if s \<noteq> [] \<and> list_all isdigit s \<and> decimal_value 0 s < 256 then Some (of_nat (decimal_value 0 s))
      else None)"

definition component_extractor :: "string list \<Rightarrow> (uint8 \<times> string list) result" where
  "component_extractor current =
     (case current of
        [] \<Rightarrow> Inl (Invalid_argument ''server_version does not have the component'')
      | piece # rest \<Rightarrow>
          rbind (or_raise (from_chars_uint8 piece)
            (Invalid_argument ''server_version component is not a numeric value'')) (\<lambda>result.
          Inr (result, rest)))"

definition semantic_version_of_string :: "string \<Rightarrow> semantic_version result" where
  "semantic_version_of_string version_string =
     (let version_string = takeWhile (\<lambda>c. c \<noteq> extra_delimiter) version_string in
      rbind (component_extractor (views_split version_string component_delimiter)) (\<lambda>(major, rest).
      rbind (component_extractor rest) (\<lambda>(minor, rest).
      rbind (component_extractor rest) (\<lambda>(patch, rest).
      rbind (ensure (rest = []) (Invalid_argument ''server_version has more than 3 components'')) (\<lambda>_.
      Inr (Semantic_version major minor patch))))))"

section \<open>Lemmas\<close>

lemma split_pieces_nonempty: "split_pieces d s \<noteq> []"
  by (cases "(d, s)" rule: split_pieces.cases) (auto split: list.splits)

lemma split_pieces_append:
  "\<forall>c \<in> set xs. c \<noteq> d \<Longrightarrow> split_pieces d (xs @ d # ys) = xs # split_pieces d ys"
  by (induction xs) auto

lemma split_pieces_last: "\<forall>c \<in> set xs. c \<noteq> d \<Longrightarrow> split_pieces d xs = [xs]"
  by (induction xs) auto

lemma to_string_no_delimiter:
  "\<forall>c \<in> set (to_string n). c \<noteq> component_delimiter \<and> c \<noteq> extra_delimiter"
  using to_string_digits [of _ n]
  by (force simp: isdigit_def component_delimiter_def extra_delimiter_def of_char_def)

lemma from_chars_to_string: "from_chars_uint8 (to_string (unat b)) = Some b"
  using to_string_digits [of _ "unat b"]
  by (auto simp: from_chars_uint8_def decimal_value_to_string list_all_iff)

text \<open>
  A version printed by \<open>get_string\<close> is parsed back, also when a vendor suffix follows after a
  dash (as in \<open>8.0.43-34\<close>).
\<close>

theorem semantic_version_roundtrip:
  "semantic_version_of_string (get_string v) = Inr v \<and>
   semantic_version_of_string (get_string v @ extra_delimiter # suffix) = Inr v"
proof -
  note digits = to_string_no_delimiter
  have no_dash: "\<forall>c \<in> set (get_string v). c \<noteq> extra_delimiter"
    using digits by (auto simp: get_string_def component_delimiter_def extra_delimiter_def)
  then have plain: "takeWhile (\<lambda>c. c \<noteq> extra_delimiter) (get_string v) = get_string v"
    by (simp add: takeWhile_eq_all_conv)
  have suffixed: "takeWhile (\<lambda>c. c \<noteq> extra_delimiter) (get_string v @ extra_delimiter # suffix) = get_string v"
    using no_dash by (subst takeWhile_append2) auto
  have "views_split (get_string v) component_delimiter =
      [to_string (unat (get_major v)), to_string (unat (get_minor v)), to_string (unat (get_patch v))]"
    using digits by (simp add: get_string_def views_split_def split_pieces_append split_pieces_last)
  then show ?thesis
    by (simp add: semantic_version_of_string_def plain suffixed component_extractor_def from_chars_to_string)
qed

text \<open>
  The encoded form (major * 10000 + minor * 100 + patch) determines the version when the
  components are below 100: decoding the encoded version gives it back.
\<close>

theorem encoded_version_roundtrip:
  assumes "get_major v < 100" and "get_minor v < 100" and "get_patch v < 100"
  shows "semantic_version_of_encoded (get_encoded v) = v \<and>
         unat (get_encoded v) = unat (get_major v) * 10000 + unat (get_minor v) * 100 + unat (get_patch v)"
proof -
  obtain a b c where v: "v = Semantic_version a b c" by (cases v)
  have less: "unat a < 100" "unat b < 100" "unat c < 100"
    using assms by (simp_all add: v word_less_nat_alt)
  have enc: "unat (get_encoded v) = unat a * 10000 + unat b * 100 + unat c"
    using less by (simp add: get_encoded_def v major_multiplier_def minor_multiplier_def unat_word_ariths unat_ucast_mod)
  have "(unat a * 10000 + unat b * 100 + unat c) div 10000 = unat a"
    using less by (intro div_nat_eqI) auto
  moreover have "(unat a * 10000 + unat b * 100 + unat c) div 100 = unat a * 100 + unat b"
    using less by (intro div_nat_eqI) auto
  then have "(unat a * 10000 + unat b * 100 + unat c) div 100 mod 100 = unat b"
    using less by simp
  moreover have "(unat a * 10000 + unat b * 100 + unat c) mod 100 = unat c"
  proof -
    have "unat a * 10000 + unat b * 100 + unat c = unat c + (unat a * 100 + unat b) * 100" by simp
    then show ?thesis using less by (simp only: mod_mult_self1) simp
  qed
  ultimately have "semantic_version_of_encoded (get_encoded v) = v"
    using less enc
    by (simp add: semantic_version_of_encoded_def v major_multiplier_def minor_multiplier_def word_unat_eq_iff
        unat_ucast_mod unat_div unat_mod)
  with enc v show ?thesis by simp
qed

theorem encoded_version_roundtrip_witness:
  "semantic_version_of_encoded (get_encoded (Semantic_version 8 0 43)) = Semantic_version 8 0 43"
  using encoded_version_roundtrip [of "Semantic_version 8 0 43"] by (simp add: word_less_nat_alt)

end
