(* ===== verification/Event_Parts.thy ===== *)
theory Event_Parts
  imports Common_Header Semantic_Version Gtid
begin

text \<open>
  Post headers and bodies of the events the program decodes itself, except the tagged GTID event:
  \<open>rotate_post_header_impl.cpp\<close>, \<open>rotate_body_impl.cpp\<close>,
  \<open>format_description_post_header_impl.cpp\<close>, \<open>format_description_body_impl.cpp\<close>,
  \<open>gtid_log_post_header.cpp\<close> and \<open>gtid_log_body.cpp\<close> (shared by the plain and the anonymous GTID
  events). The main results are the round trips of the encoders and decoders.
\<close>

section \<open>ROTATE\<close>

definition rotate_post_header_decode :: "const_byte_span \<Rightarrow> uint64 result" where
  "rotate_post_header_decode portion =
     rbind (ensure (length portion = 8) (Invalid_argument ''invalid rotate event post header length'')) (\<lambda>_.
     rbind (extract_fixed_int_from_byte_span 8 portion) (\<lambda>(position, _). Inr position))"

definition rotate_post_header_encode_to :: "uint64 \<Rightarrow> byte_span \<Rightarrow> byte_span result" where
  "rotate_post_header_encode_to position destination =
     rbind (ensure (\<not> span_size destination < 8)
       (Invalid_argument ''cannot encode rotate event post header'')) (\<lambda>_.
     insert_fixed_int_to_byte_span 8 position destination)"

text \<open>The body is the name of the next binlog file.\<close>

definition rotate_body_readable_binlog :: "const_byte_span \<Rightarrow> string" where
  "rotate_body_readable_binlog body = as_string_view body"

definition rotate_body_encode_to :: "byte list \<Rightarrow> byte_span \<Rightarrow> byte_span result" where
  "rotate_body_encode_to binlog destination =
     rbind (ensure (\<not> span_size destination < length binlog)
       (Invalid_argument ''cannot encode rotate event body'')) (\<lambda>_.
     Inr (write_bytes binlog destination))"

section \<open>FORMAT\_DESCRIPTION\<close>

definition server_version_length :: nat where "server_version_length = 50"

record fde_post_header =
  fde_create_timestamp :: uint32
  fde_server_version :: "byte list"
  fde_binlog_version :: uint16
  fde_post_header_lengths :: post_header_lengths
  fde_common_header_length :: uint8

text \<open>\<open>normalize_for_c_str\<close>: the stored text ends at its first zero byte.\<close>

definition normalize_for_c_str :: "byte list \<Rightarrow> byte list" where
  "normalize_for_c_str storage = takeWhile (\<lambda>b. b \<noteq> 0) storage"

text \<open>
  \<open>get_encoded_server_version\<close> is declared \<open>noexcept\<close> but parses the version text: a text that is
  not a version ends the process.
\<close>

definition encoded_server_version_of :: "byte list \<Rightarrow> uint32 result" where
  "encoded_server_version_of server_version =
     (case semantic_version_of_string (as_string_view server_version) of
        Inl _ \<Rightarrow> Inl (Terminate ''get_encoded_server_version'')
      | Inr v \<Rightarrow> Inr (get_encoded v))"

definition make_fde_post_header ::
    "uint16 \<Rightarrow> semantic_version \<Rightarrow> uint64 \<Rightarrow> nat \<Rightarrow> post_header_lengths \<Rightarrow> fde_post_header" where
  "make_fde_post_header binlog_version server_version create_timestamp common_header_length post_header_lengths =
     \<lparr> fde_create_timestamp = ucast create_timestamp,
       fde_server_version = take server_version_length (as_const_byte_span (get_string server_version)),
       fde_binlog_version = binlog_version,
       fde_post_header_lengths = post_header_lengths,
       fde_common_header_length = of_nat common_header_length \<rparr>"

definition fde_post_header_decode :: "const_byte_span \<Rightarrow> fde_post_header result" where
  "fde_post_header_decode portion =
     rbind (ensure (\<not> (length portion < fde_post_header_size earliest_supported_protocol_server_version
                     \<or> length portion > fde_post_header_size latest_known_protocol_server_version))
       (Invalid_argument ''format_description event post header length is not in allowed range'')) (\<lambda>_.
     rbind (extract_fixed_int_from_byte_span 2 portion) (\<lambda>(binlog_version, remainder).
     rbind (extract_byte_span_from_byte_span server_version_length remainder) (\<lambda>(raw_version, remainder).
     let server_version = normalize_for_c_str raw_version in
     rbind (encoded_server_version_of server_version) (\<lambda>encoded_server_version.
     rbind (ensure (length portion = fde_post_header_size encoded_server_version)
       (Invalid_argument ''format_description event post header length does not match the value expected for the server version specified in its own fields'')) (\<lambda>_.
     rbind (extract_fixed_int_from_byte_span 4 remainder) (\<lambda>(create_timestamp, remainder).
     rbind (extract_fixed_int_from_byte_span 1 remainder) (\<lambda>(common_header_length, remainder).
     rbind (extract_byte_span_from_byte_span (get_number_of_events encoded_server_version - 1) remainder)
       (\<lambda>(lengths, remainder).
     let post_header_lengths = lengths @ replicate (max_number_of_events - 1 - length lengths) 0 in
     rbind (ensure (get_post_header_length_for_code encoded_server_version post_header_lengths Format_description
                      = Some (length portion))
       (Invalid_argument ''format_description event post header length does not match the value specified in the post header length array in its own fields'')) (\<lambda>_.
     Inr \<lparr> fde_create_timestamp = create_timestamp, fde_server_version = server_version,
           fde_binlog_version = binlog_version, fde_post_header_lengths = post_header_lengths,
           fde_common_header_length = common_header_length \<rparr>)))))))))"

definition fde_post_header_encode_to :: "fde_post_header \<Rightarrow> byte_span \<Rightarrow> byte_span result" where
  "fde_post_header_encode_to h destination =
     rbind (encoded_server_version_of (fde_server_version h)) (\<lambda>encoded_server_version.
     rbind (ensure (\<not> span_size destination < fde_post_header_size encoded_server_version)
       (Invalid_argument ''cannot encode format description event post header'')) (\<lambda>_.
     rbind (insert_fixed_int_to_byte_span 2 (fde_binlog_version h) destination) (\<lambda>destination.
     rbind (insert_byte_span_to_byte_span (fde_server_version h) destination) (\<lambda>destination.
     rbind (insert_byte_span_to_byte_span
              (replicate (server_version_length - length (fde_server_version h)) 0) destination) (\<lambda>destination.
     rbind (insert_fixed_int_to_byte_span 4 (fde_create_timestamp h) destination) (\<lambda>destination.
     rbind (insert_fixed_int_to_byte_span 1 (fde_common_header_length h) destination) (\<lambda>destination.
     insert_byte_span_to_byte_span
       (take (get_number_of_events encoded_server_version - 1) (fde_post_header_lengths h)) destination)))))))"

text \<open>The body is the checksum algorithm: 0 is off, 1 is CRC-32.\<close>

definition fde_body_size :: nat where "fde_body_size = 1"

definition fde_body_decode :: "const_byte_span \<Rightarrow> uint8 result" where
  "fde_body_decode portion =
     rbind (ensure (length portion = fde_body_size)
       (Invalid_argument ''invalid format_description event body length'')) (\<lambda>_.
     rbind (extract_fixed_int_from_byte_span 1 portion) (\<lambda>(checksum_algorithm, _).
     rbind (ensure (\<not> checksum_algorithm \<ge> 2)
       (Logic_error ''invalid checksum algorithm in format_description event body'')) (\<lambda>_.
     Inr checksum_algorithm)))"

definition has_checksum_algorithm :: "uint8 \<Rightarrow> bool" where
  "has_checksum_algorithm checksum_algorithm \<longleftrightarrow> checksum_algorithm \<noteq> 0"

definition fde_body_encode_to :: "uint8 \<Rightarrow> byte_span \<Rightarrow> byte_span result" where
  "fde_body_encode_to checksum_algorithm destination =
     rbind (ensure (\<not> span_size destination < fde_body_size)
       (Invalid_argument ''cannot encode format description body'')) (\<lambda>_.
     insert_fixed_int_to_byte_span 1 checksum_algorithm destination)"

section \<open>GTID\_LOG and ANONYMOUS\_GTID\_LOG: post header\<close>

record gtid_log_post_header =
  glp_flags :: uint8
  glp_logical_ts_code :: uint8
  glp_uuid :: "byte list"
  glp_gno :: uint64
  glp_last_committed :: uint64
  glp_sequence_number :: uint64

definition gtid_log_post_header_size :: nat where "gtid_log_post_header_size = 42"
definition known_logical_ts_code :: uint8 where "known_logical_ts_code = 2"

definition extract_byte_array_from_byte_span ::
    "nat \<Rightarrow> const_byte_span \<Rightarrow> (byte list \<times> const_byte_span) result" where
  "extract_byte_array_from_byte_span n remainder =
     rbind (ensure (n \<le> length remainder) (Undefined_behaviour ''extract_byte_array_from_byte_span''))
       (\<lambda>_. Inr (take n remainder, drop n remainder))"

definition gtid_log_post_header_decode :: "const_byte_span \<Rightarrow> gtid_log_post_header result" where
  "gtid_log_post_header_decode portion =
     rbind (ensure (length portion = gtid_log_post_header_size)
       (Invalid_argument ''invalid gtid_log event post header length'')) (\<lambda>_.
     rbind (extract_fixed_int_from_byte_span 1 portion) (\<lambda>(flags, remainder).
     rbind (extract_byte_array_from_byte_span uuid_length remainder) (\<lambda>(uuid, remainder).
     rbind (extract_fixed_int_from_byte_span 8 remainder) (\<lambda>(gno, remainder).
     rbind (extract_fixed_int_from_byte_span 1 remainder) (\<lambda>(logical_ts_code, remainder).
     rbind (ensure (logical_ts_code = known_logical_ts_code)
       (Invalid_argument ''unsupported logical timestamp code in gtid_log post header'')) (\<lambda>_.
     rbind (extract_fixed_int_from_byte_span 8 remainder) (\<lambda>(last_committed, remainder).
     rbind (extract_fixed_int_from_byte_span 8 remainder) (\<lambda>(sequence_number, remainder).
     Inr \<lparr> glp_flags = flags, glp_logical_ts_code = logical_ts_code, glp_uuid = uuid, glp_gno = gno,
           glp_last_committed = last_committed, glp_sequence_number = sequence_number \<rparr>))))))))"

definition gtid_log_post_header_encode_to :: "gtid_log_post_header \<Rightarrow> byte_span \<Rightarrow> byte_span result" where
  "gtid_log_post_header_encode_to h destination =
     rbind (ensure (\<not> span_size destination < gtid_log_post_header_size)
       (Invalid_argument ''cannot encode rotate event post header'')) (\<lambda>_.
     rbind (insert_fixed_int_to_byte_span 1 (glp_flags h) destination) (\<lambda>destination.
     rbind (insert_byte_span_to_byte_span (glp_uuid h) destination) (\<lambda>destination.
     rbind (insert_fixed_int_to_byte_span 8 (glp_gno h) destination) (\<lambda>destination.
     rbind (insert_fixed_int_to_byte_span 1 (glp_logical_ts_code h) destination) (\<lambda>destination.
     rbind (insert_fixed_int_to_byte_span 8 (glp_last_committed h) destination) (\<lambda>destination.
     insert_fixed_int_to_byte_span 8 (glp_sequence_number h) destination))))))"

definition gtid_log_get_gtid :: "gtid_log_post_header \<Rightarrow> gtid result" where
  "gtid_log_get_gtid h =
     (if glp_gno h < min_gno then Inr gtid_empty
      else make_gtid (Uuid (glp_uuid h)) (Tag []) (glp_gno h))"

section \<open>GTID\_LOG and ANONYMOUS\_GTID\_LOG: body\<close>

text \<open>An unset field holds the largest number of its width.\<close>

record gtid_log_body =
  glb_immediate_commit_timestamp :: uint64
  glb_original_commit_timestamp :: uint64
  glb_transaction_length :: uint64
  glb_immediate_server_version :: uint32
  glb_original_server_version :: uint32
  glb_commit_group_ticket :: uint64

definition unset_commit_timestamp :: uint64 where "unset_commit_timestamp = - 1"
definition unset_server_version :: uint32 where "unset_server_version = - 1"
definition unset_commit_group_ticket :: uint64 where "unset_commit_group_ticket = - 1"
definition commit_timestamp_field_length :: nat where "commit_timestamp_field_length = 7"
definition server_version_field_length :: nat where "server_version_field_length = 4"
definition commit_group_ticket_field_length :: nat where "commit_group_ticket_field_length = 8"
definition commit_timestamp_mask :: uint64 where "commit_timestamp_mask = push_bit 55 1"
definition server_version_mask :: uint32 where "server_version_mask = push_bit 31 1"

lemmas gtid_log_body_constants =
  unset_commit_timestamp_def unset_server_version_def unset_commit_group_ticket_def
  commit_timestamp_field_length_def server_version_field_length_def commit_group_ticket_field_length_def
  commit_timestamp_mask_def server_version_mask_def

definition has_original_commit_timestamp :: "gtid_log_body \<Rightarrow> bool" where
  "has_original_commit_timestamp b \<longleftrightarrow> glb_original_commit_timestamp b \<noteq> unset_commit_timestamp"

definition has_immediate_server_version :: "gtid_log_body \<Rightarrow> bool" where
  "has_immediate_server_version b \<longleftrightarrow> glb_immediate_server_version b \<noteq> unset_server_version"

definition has_original_server_version :: "gtid_log_body \<Rightarrow> bool" where
  "has_original_server_version b \<longleftrightarrow> glb_original_server_version b \<noteq> unset_server_version"

definition has_commit_group_ticket :: "gtid_log_body \<Rightarrow> bool" where
  "has_commit_group_ticket b \<longleftrightarrow> glb_commit_group_ticket b \<noteq> unset_commit_group_ticket"

definition decode_commit_timestamps :: "const_byte_span \<Rightarrow> ((uint64 \<times> uint64) \<times> const_byte_span) result" where
  "decode_commit_timestamps remainder =
     rbind (or_raise (extract_fixed_int_from_byte_span_checked commit_timestamp_field_length remainder)
       (Invalid_argument ''gtid_log event body is too short to extract immediate commit timestamp''))
       (\<lambda>(immediate, remainder).
     if immediate AND commit_timestamp_mask \<noteq> 0 then
       rbind (or_raise (extract_fixed_int_from_byte_span_checked commit_timestamp_field_length remainder)
         (Invalid_argument ''gtid_log event body is too short to extract original commit timestamp''))
         (\<lambda>(original, remainder).
       Inr ((immediate AND NOT commit_timestamp_mask, original), remainder))
     else Inr ((immediate, unset_commit_timestamp), remainder))"

definition decode_server_versions :: "const_byte_span \<Rightarrow> ((uint32 \<times> uint32) \<times> const_byte_span) result" where
  "decode_server_versions remainder =
     rbind (extract_fixed_int_from_byte_span server_version_field_length remainder)
       (\<lambda>(immediate, remainder).
     if immediate AND server_version_mask \<noteq> 0 then
       rbind (or_raise (extract_fixed_int_from_byte_span_checked server_version_field_length remainder)
         (Invalid_argument ''gtid_log event body is too short to extract original server version''))
         (\<lambda>(original, remainder).
       Inr ((immediate AND NOT server_version_mask, original), remainder))
     else Inr ((immediate, unset_server_version), remainder))"

definition gtid_log_body_decode :: "const_byte_span \<Rightarrow> gtid_log_body result" where
  "gtid_log_body_decode portion =
     rbind (decode_commit_timestamps portion) (\<lambda>((immediate_ts, original_ts), remainder).
     rbind (or_raise (extract_packed_int_from_byte_span_checked remainder)
       (Invalid_argument ''unable to extract transaction length from the gtid_log event body''))
       (\<lambda>(transaction_length, remainder).
     rbind (if length remainder \<ge> server_version_field_length then
              rbind (decode_server_versions remainder) (\<lambda>(versions, remainder).
              if length remainder \<ge> commit_group_ticket_field_length then
                rbind (extract_fixed_int_from_byte_span 8 remainder) (\<lambda>(ticket, remainder).
                Inr (versions, ticket, remainder))
              else Inr (versions, unset_commit_group_ticket, remainder))
            else Inr ((unset_server_version, unset_server_version), unset_commit_group_ticket, remainder))
       (\<lambda>((immediate_version, original_version), ticket, remainder).
     rbind (ensure (remainder = []) (Invalid_argument ''extra bytes in the gtid_log event body'')) (\<lambda>_.
     Inr \<lparr> glb_immediate_commit_timestamp = immediate_ts, glb_original_commit_timestamp = original_ts,
           glb_transaction_length = transaction_length, glb_immediate_server_version = immediate_version,
           glb_original_server_version = original_version, glb_commit_group_ticket = ticket \<rparr>))))"

definition gtid_log_body_calculate_encoded_size :: "gtid_log_body \<Rightarrow> nat" where
  "gtid_log_body_calculate_encoded_size b =
     commit_timestamp_field_length +
     (if has_original_commit_timestamp b then commit_timestamp_field_length else 0) +
     calculate_packed_int_size (glb_transaction_length b) +
     (if has_immediate_server_version b then
        server_version_field_length +
        (if has_original_server_version b then server_version_field_length else 0) +
        (if has_commit_group_ticket b then commit_group_ticket_field_length else 0)
      else 0)"

text \<open>The result of the packed insertion is ignored by the source: on failure nothing is written.\<close>

definition gtid_log_body_encode_to :: "gtid_log_body \<Rightarrow> byte_span \<Rightarrow> byte_span result" where
  "gtid_log_body_encode_to b destination =
     rbind (ensure (\<not> span_size destination < gtid_log_body_calculate_encoded_size b)
       (Invalid_argument ''cannot encode rotate event body'')) (\<lambda>_.
     let patched_immediate_commit_timestamp =
           glb_immediate_commit_timestamp b OR (if has_original_commit_timestamp b then commit_timestamp_mask else 0)
     in
     rbind (insert_fixed_int_to_byte_span commit_timestamp_field_length patched_immediate_commit_timestamp
              destination) (\<lambda>destination.
     rbind (if has_original_commit_timestamp b
            then insert_fixed_int_to_byte_span commit_timestamp_field_length (glb_original_commit_timestamp b) destination
            else Inr destination) (\<lambda>destination.
     let destination = (case insert_packed_int_to_byte_span_checked (glb_transaction_length b) destination of
                          None \<Rightarrow> destination | Some destination' \<Rightarrow> destination') in
     if has_immediate_server_version b then
       let patched_immediate_server_version =
             glb_immediate_server_version b OR (if has_original_server_version b then server_version_mask else 0)
       in
       rbind (insert_fixed_int_to_byte_span 4 patched_immediate_server_version destination) (\<lambda>destination.
       rbind (if has_original_server_version b
              then insert_fixed_int_to_byte_span 4 (glb_original_server_version b) destination
              else Inr destination) (\<lambda>destination.
       if has_commit_group_ticket b
       then insert_fixed_int_to_byte_span 8 (glb_commit_group_ticket b) destination
       else Inr destination))
     else Inr destination)))"

section \<open>Reading back what was written\<close>

lemma extract_fixed_Inr:
  assumes "n \<noteq> 0" and "8 * n \<le> LENGTH('a::len)" and "fits_in_bytes n v"
  shows "extract_fixed_int_from_byte_span n (le_of_nat n (unat (v :: 'a word)) @ r) = Inr (v, r)"
  using assms by (simp add: extract_fixed_int_from_byte_span_def read_fixed_int_le)

lemma extract_fixed_Inr_simps [simp]:
  "extract_fixed_int_from_byte_span 8 (le_of_nat 8 (unat (v :: uint64)) @ r) = Inr (v, r)"
  "extract_fixed_int_from_byte_span 4 (le_of_nat 4 (unat (w :: uint32)) @ r) = Inr (w, r)"
  "extract_fixed_int_from_byte_span 2 (le_of_nat 2 (unat (x :: uint16)) @ r) = Inr (x, r)"
  "extract_fixed_int_from_byte_span (Suc 0) (y # r) = Inr (y :: uint8, r)"
  using extract_fixed_Inr [OF _ _ uint64_fits, of v r] extract_fixed_Inr [OF _ _ uint32_fits, of w r]
    extract_fixed_Inr [OF _ _ uint16_fits, of x r] extract_fixed_Inr [OF _ _ uint8_fits, of y r]
  by simp_all

lemma insert_fixed_Inr:
  "n \<noteq> 0 \<Longrightarrow> 8 * n \<le> LENGTH('a::len) \<Longrightarrow> n \<le> span_size s \<Longrightarrow>
   insert_fixed_int_to_byte_span n (v :: 'a word) s = Inr (write_bytes (le_of_nat n (unat v)) s)"
  by (simp add: insert_fixed_int_to_byte_span_def)

lemma insert_byte_span_Inr:
  "length bs \<le> span_size s \<Longrightarrow> insert_byte_span_to_byte_span bs s = Inr (write_bytes bs s)"
  by (simp add: insert_byte_span_to_byte_span_def)

lemma extract_byte_span_append [simp]:
  "length bs = n \<Longrightarrow> extract_byte_span_from_byte_span n (bs @ r) = Inr (bs, r)"
  by (simp add: extract_byte_span_from_byte_span_def)

lemma extract_byte_array_append [simp]:
  "length bs = n \<Longrightarrow> extract_byte_array_from_byte_span n (bs @ r) = Inr (bs, r)"
  by (simp add: extract_byte_array_from_byte_span_def)

lemma insert_packed_Some:
  "calculate_packed_int_size v \<le> span_size s \<Longrightarrow>
   insert_packed_int_to_byte_span_checked v s = Some (write_bytes (packed_int_bytes v) s)"
  by (simp add: insert_packed_eq)

lemmas part_codec_simps = insert_fixed_Inr insert_byte_span_Inr insert_packed_Some
  length_packed_int_bytes extract_packed_bytes

subsection \<open>GTID log post header\<close>

definition gtid_log_post_header_bytes :: "gtid_log_post_header \<Rightarrow> byte list" where
  "gtid_log_post_header_bytes h =
     le_of_nat 1 (unat (glp_flags h)) @ glp_uuid h @ le_of_nat 8 (unat (glp_gno h)) @
     le_of_nat 1 (unat (glp_logical_ts_code h)) @ le_of_nat 8 (unat (glp_last_committed h)) @
     le_of_nat 8 (unat (glp_sequence_number h))"

lemma gtid_log_post_header_encode_eq:
  "length (glp_uuid h) = 16 \<Longrightarrow> 42 \<le> span_size s \<Longrightarrow>
   gtid_log_post_header_encode_to h s = Inr (write_bytes (gtid_log_post_header_bytes h) s)"
  by (simp add: gtid_log_post_header_encode_to_def gtid_log_post_header_size_def part_codec_simps
      gtid_log_post_header_bytes_def)

lemma extract_uint64_last [simp]:
  "extract_fixed_int_from_byte_span 8 (le_of_nat 8 (unat (v :: uint64))) = Inr (v, [])"
  using extract_fixed_Inr_simps(1) [of v "[]"] by simp

lemma gtid_log_post_header_decode_bytes:
  "length (glp_uuid h) = 16 \<Longrightarrow> glp_logical_ts_code h = known_logical_ts_code \<Longrightarrow>
   gtid_log_post_header_decode (gtid_log_post_header_bytes h) = Inr h"
  by (simp add: gtid_log_post_header_decode_def gtid_log_post_header_size_def gtid_log_post_header_bytes_def
      known_logical_ts_code_def)

subsection \<open>GTID log body\<close>

definition gtid_log_body_ok :: "gtid_log_body \<Rightarrow> bool" where
  "gtid_log_body_ok b \<longleftrightarrow>
     unat (glb_immediate_commit_timestamp b) < 2 ^ 55 \<and>
     (has_original_commit_timestamp b \<longrightarrow> unat (glb_original_commit_timestamp b) < 2 ^ 56) \<and>
     (if has_immediate_server_version b then unat (glb_immediate_server_version b) < 2 ^ 31
      else \<not> has_original_server_version b \<and> \<not> has_commit_group_ticket b)"

definition timestamp_bytes :: "gtid_log_body \<Rightarrow> byte list" where
  "timestamp_bytes b =
     le_of_nat 7 (unat (glb_immediate_commit_timestamp b OR
       (if has_original_commit_timestamp b then commit_timestamp_mask else 0))) @
     (if has_original_commit_timestamp b then le_of_nat 7 (unat (glb_original_commit_timestamp b)) else [])"

definition version_bytes :: "gtid_log_body \<Rightarrow> byte list" where
  "version_bytes b =
     le_of_nat 4 (unat (glb_immediate_server_version b OR
       (if has_original_server_version b then server_version_mask else 0))) @
     (if has_original_server_version b then le_of_nat 4 (unat (glb_original_server_version b)) else [])"

definition gtid_log_body_bytes :: "gtid_log_body \<Rightarrow> byte list" where
  "gtid_log_body_bytes b =
     timestamp_bytes b @ packed_int_bytes (glb_transaction_length b) @
     (if has_immediate_server_version b then
        version_bytes b @
        (if has_commit_group_ticket b then le_of_nat 8 (unat (glb_commit_group_ticket b)) else [])
      else [])"

lemma length_gtid_log_body_bytes:
  "length (gtid_log_body_bytes b) = gtid_log_body_calculate_encoded_size b"
  by (simp add: gtid_log_body_bytes_def timestamp_bytes_def version_bytes_def
      gtid_log_body_calculate_encoded_size_def gtid_log_body_constants
      length_packed_int_bytes)

lemma gtid_log_body_encode_eq:
  assumes "gtid_log_body_calculate_encoded_size b \<le> span_size s"
  shows "gtid_log_body_encode_to b s = Inr (write_bytes (gtid_log_body_bytes b) s)"
  using assms
  by (cases "has_original_commit_timestamp b"; cases "has_immediate_server_version b";
      cases "has_original_server_version b"; cases "has_commit_group_ticket b")
    (simp_all add: gtid_log_body_encode_to_def gtid_log_body_calculate_encoded_size_def gtid_log_body_bytes_def
      timestamp_bytes_def version_bytes_def part_codec_simps Let_def commit_timestamp_field_length_def server_version_field_length_def
      commit_group_ticket_field_length_def)

lemma mask_bit:
  fixes v :: "'a::len word"
  assumes "unat v < 2 ^ k" and "k < LENGTH('a)"
  shows "v AND push_bit k 1 = 0" and "(v OR push_bit k 1) AND push_bit k 1 \<noteq> 0"
    and "(v OR push_bit k 1) AND NOT (push_bit k 1) = v" and "unat (v OR push_bit k 1) < 2 ^ Suc k"
proof -
  have high: "\<not> bit v i" if "k \<le> i" for i
  proof -
    have "unat v < 2 ^ i" using assms(1) that by (meson less_le_trans one_le_numeral power_increasing)
    then have "\<not> bit (unat v) i" by (simp add: bit_iff_odd)
    then show ?thesis using bit_imp_le_length [of v i] by (auto simp: bit_unsigned_iff)
  qed
  show "v AND push_bit k 1 = 0"
    using high by (intro bit_word_eqI) (auto simp: bit_simps)
  have "bit ((v OR push_bit k 1) AND push_bit k 1) k"
    using assms(2) by (simp only: bit_and_iff bit_or_iff bit_push_bit_iff bit_1_iff) simp
  then show "(v OR push_bit k 1) AND push_bit k 1 \<noteq> 0"
    by (metis bit_0_eq bot_apply bot_bool_def)
  show "(v OR push_bit k 1) AND NOT (push_bit k 1) = v"
    using high by (intro bit_word_eqI) (auto simp: bit_simps)
  have "take_bit (Suc k) (v OR push_bit k 1) = v OR push_bit k 1"
  proof (rule bit_word_eqI)
    fix i assume "i < LENGTH('a)"
    then show "bit (take_bit (Suc k) (v OR push_bit k 1)) i = bit (v OR push_bit k 1) i"
      by (cases "k \<le> i") (auto simp: bit_simps high)
  qed
  then have "unat (v OR push_bit k 1) = take_bit (Suc k) (unat (v OR push_bit k 1))"
    by (metis unsigned_take_bit_eq)
  then show "unat (v OR push_bit k 1) < 2 ^ Suc k"
    by (metis take_bit_nat_less_exp)
qed

lemma decode_commit_timestamps_bytes:
  assumes "gtid_log_body_ok b"
  shows "decode_commit_timestamps (timestamp_bytes b @ r) =
     Inr ((glb_immediate_commit_timestamp b, glb_original_commit_timestamp b), r)"
proof -
  let ?v = "glb_immediate_commit_timestamp b"
  have v: "unat ?v < 2 ^ 55" using assms by (simp add: gtid_log_body_ok_def)
  have mask: "?v AND commit_timestamp_mask = 0" "commit_timestamp_mask \<noteq> 0"
    "(?v OR commit_timestamp_mask) AND NOT commit_timestamp_mask = ?v" "unat (?v OR commit_timestamp_mask) < 2 ^ 56"
    using mask_bit [OF v] by (simp_all add: commit_timestamp_mask_def)
  show ?thesis
  proof (cases "has_original_commit_timestamp b")
    case True
    have "fits_in_bytes 7 (?v OR commit_timestamp_mask)"
      using mask(4) by simp
    moreover have "fits_in_bytes 7 (glb_original_commit_timestamp b)"
      using assms True by (simp add: gtid_log_body_ok_def)
    ultimately show ?thesis
      using True mask(2,3)
      by (simp add: decode_commit_timestamps_def timestamp_bytes_def commit_timestamp_field_length_def extract_fixed_append)
  next
    case False
    have "fits_in_bytes 7 ?v" using v by simp
    then show ?thesis
      using False mask(1)
      by (simp add: decode_commit_timestamps_def timestamp_bytes_def commit_timestamp_field_length_def extract_fixed_append
          has_original_commit_timestamp_def)
  qed
qed

lemma decode_server_versions_bytes:
  assumes "gtid_log_body_ok b" and "has_immediate_server_version b"
  shows "decode_server_versions (version_bytes b @ r) =
     Inr ((glb_immediate_server_version b, glb_original_server_version b), r)"
proof -
  let ?v = "glb_immediate_server_version b"
  have v: "unat ?v < 2 ^ 31" using assms by (simp add: gtid_log_body_ok_def)
  have mask: "?v AND server_version_mask = 0" "server_version_mask \<noteq> 0"
    "(?v OR server_version_mask) AND NOT server_version_mask = ?v" "unat (?v OR server_version_mask) < 2 ^ 32"
    using mask_bit [OF v] by (simp_all add: server_version_mask_def)
  show ?thesis
    using mask
    by (cases "has_original_server_version b")
      (simp_all add: decode_server_versions_def version_bytes_def server_version_field_length_def has_original_server_version_def)
qed

lemma gtid_log_body_decode_bytes:
  assumes "gtid_log_body_ok b"
  shows "gtid_log_body_decode (gtid_log_body_bytes b) = Inr b"
proof (cases "has_immediate_server_version b")
  case True
  have "4 \<le> length (version_bytes b)" by (simp add: version_bytes_def)
  then show ?thesis
    using decode_server_versions_bytes [OF assms True, of "[]"] True
    by (cases "has_commit_group_ticket b")
      (simp_all add: gtid_log_body_decode_def gtid_log_body_bytes_def extract_packed_bytes
        decode_commit_timestamps_bytes [OF assms] decode_server_versions_bytes [OF assms True] server_version_field_length_def commit_group_ticket_field_length_def has_commit_group_ticket_def)
next
  case False
  then have "\<not> has_original_server_version b" "\<not> has_commit_group_ticket b"
    using assms by (simp_all add: gtid_log_body_ok_def)
  then show ?thesis
    using False decode_commit_timestamps_bytes [OF assms, of "packed_int_bytes (glb_transaction_length b)"]
      extract_packed_bytes [of "glb_transaction_length b" "[]"]
    by (simp add: gtid_log_body_decode_def gtid_log_body_bytes_def server_version_field_length_def
        has_immediate_server_version_def has_original_server_version_def has_commit_group_ticket_def)
qed

subsection \<open>Format description post header\<close>

definition fde_post_header_ok :: "fde_post_header \<Rightarrow> uint32 \<Rightarrow> bool" where
  "fde_post_header_ok h version \<longleftrightarrow>
     encoded_server_version_of (fde_server_version h) = Inr version \<and>
     length (fde_server_version h) \<le> server_version_length \<and> list_all (\<lambda>b. b \<noteq> 0) (fde_server_version h) \<and>
     length (fde_post_header_lengths h) = max_number_of_events - 1 \<and>
     drop (get_number_of_events version - 1) (fde_post_header_lengths h) =
       replicate (max_number_of_events - get_number_of_events version) 0 \<and>
     get_post_header_length_for_code version (fde_post_header_lengths h) Format_description =
       Some (fde_post_header_size version)"

definition fde_post_header_bytes :: "fde_post_header \<Rightarrow> uint32 \<Rightarrow> byte list" where
  "fde_post_header_bytes h version =
     le_of_nat 2 (unat (fde_binlog_version h)) @
     (fde_server_version h @ replicate (server_version_length - length (fde_server_version h)) 0) @
     le_of_nat 4 (unat (fde_create_timestamp h)) @ le_of_nat 1 (unat (fde_common_header_length h)) @
     take (get_number_of_events version - 1) (fde_post_header_lengths h)"

lemma number_of_events_cases: "get_number_of_events v = 42 \<or> get_number_of_events v = 43"
  by (simp add: get_number_of_events_def)

lemma normalize_padded:
  "list_all (\<lambda>b. b \<noteq> 0) xs \<Longrightarrow> normalize_for_c_str (xs @ replicate n 0) = xs"
  by (induction xs) (auto simp: normalize_for_c_str_def)

lemma length_fde_post_header_bytes:
  "fde_post_header_ok h version \<Longrightarrow> length (fde_post_header_bytes h version) = fde_post_header_size version"
  using number_of_events_cases [of version]
  by (auto simp: fde_post_header_ok_def fde_post_header_bytes_def fde_post_header_size_def server_version_length_def)

lemma fde_post_header_encode_eq:
  assumes "fde_post_header_ok h version" and "fde_post_header_size version \<le> span_size s"
  shows "fde_post_header_encode_to h s = Inr (write_bytes (fde_post_header_bytes h version) s)"
proof -
  have v: "encoded_server_version_of (fde_server_version h) = Inr version"
    and len: "length (fde_server_version h) \<le> 50" "length (fde_post_header_lengths h) = 42"
    using assms(1) by (simp_all add: fde_post_header_ok_def server_version_length_def)
  from number_of_events_cases [of version] show ?thesis
    using assms(2) len
    by (elim disjE) (simp_all add: fde_post_header_encode_to_def v part_codec_simps fde_post_header_bytes_def
        server_version_length_def fde_post_header_size_def)
qed

lemma fde_post_header_decode_bytes:
  assumes ok: "fde_post_header_ok h version"
  shows "fde_post_header_decode (fde_post_header_bytes h version) = Inr h"
proof -
  let ?n = "get_number_of_events version" and ?sv = "fde_server_version h"
  let ?raw = "?sv @ replicate (server_version_length - length ?sv) 0"
  let ?lengths = "take (?n - 1) (fde_post_header_lengths h)"
  have facts: "encoded_server_version_of ?sv = Inr version" "length ?sv \<le> 50" "list_all (\<lambda>b. b \<noteq> 0) ?sv"
    "length (fde_post_header_lengths h) = 42"
    "get_post_header_length_for_code version (fde_post_header_lengths h) Format_description = Some (fde_post_header_size version)"
    using ok by (simp_all add: fde_post_header_ok_def server_version_length_def)
  have "length ?lengths = ?n - 1"
    using facts(4) number_of_events_cases [of version] by auto
  moreover have "take (?n - Suc 0) (fde_post_header_lengths h) @
      replicate (max_number_of_events - Suc (?n - Suc 0)) 0 = fde_post_header_lengths h"
  proof -
    have "max_number_of_events - Suc (?n - Suc 0) = max_number_of_events - ?n"
      using number_of_events_cases [of version] by auto
    then show ?thesis
      using ok append_take_drop_id [of "?n - 1" "fde_post_header_lengths h"] by (simp add: fde_post_header_ok_def)
  qed
  moreover have "length (fde_post_header_bytes h version) = fde_post_header_size version"
    by (rule length_fde_post_header_bytes [OF ok])
  moreover have "fde_post_header_size earliest_supported_protocol_server_version \<le> fde_post_header_size version"
    "fde_post_header_size version \<le> fde_post_header_size latest_known_protocol_server_version"
    by (simp_all add: fde_post_header_size_def get_number_of_events_def)
  moreover have "length ?raw = server_version_length"
    using facts(2) by (simp add: server_version_length_def)
  moreover have "fde_post_header_bytes h version = le_of_nat 2 (unat (fde_binlog_version h)) @ ?raw @
      le_of_nat 4 (unat (fde_create_timestamp h)) @ fde_common_header_length h # ?lengths"
    by (simp add: fde_post_header_bytes_def)
  ultimately show ?thesis
    using facts normalize_padded [OF facts(3)] extract_byte_span_append [of ?lengths _ "[]"]
    by (simp add: fde_post_header_decode_def Let_def del: append_assoc protocol_constants)
qed

section \<open>Properties\<close>

text \<open>
  The post header of a GTID event with the known clock type is encoded in 42 bytes and decoded
  to the same header.
\<close>

lemma gtid_log_post_header_roundtrip:
  assumes "length (glp_uuid h) = uuid_length" and "glp_logical_ts_code h = known_logical_ts_code"
    and "42 \<le> span_size s"
  shows "\<exists>bytes. gtid_log_post_header_encode_to h s = Inr (write_bytes bytes s) \<and> length bytes = 42 \<and>
           gtid_log_post_header_decode bytes = Inr h"
  using assms gtid_log_post_header_encode_eq [of h s] gtid_log_post_header_decode_bytes [of h]
  by (intro exI [of _ "gtid_log_post_header_bytes h"]) (simp add: gtid_log_post_header_bytes_def)

text \<open>
  The body of a GTID event, with its flag bits that announce optional fields, is encoded in the
  calculated size and decoded to the same body, whichever optional fields are present, as long
  as the time stamps and versions leave the flag bits free.
\<close>

lemma gtid_log_body_roundtrip:
  assumes "gtid_log_body_ok b" and "gtid_log_body_calculate_encoded_size b \<le> span_size s"
  shows "\<exists>bytes. gtid_log_body_encode_to b s = Inr (write_bytes bytes s) \<and>
           length bytes = gtid_log_body_calculate_encoded_size b \<and> gtid_log_body_decode bytes = Inr b"
  using gtid_log_body_encode_eq [OF assms(2)] length_gtid_log_body_bytes gtid_log_body_decode_bytes [OF assms(1)]
  by blast

text \<open>
  The post header of a format description event, for a server of either protocol version, is
  encoded in the size of that version and decoded to the same header.
\<close>

theorem fde_post_header_roundtrip:
  assumes "fde_post_header_ok h version" and "fde_post_header_size version \<le> span_size s"
  shows "\<exists>bytes. fde_post_header_encode_to h s = Inr (write_bytes bytes s) \<and>
           length bytes = fde_post_header_size version \<and> fde_post_header_decode bytes = Inr h"
  using fde_post_header_encode_eq [OF assms] length_fde_post_header_bytes [OF assms(1)]
    fde_post_header_decode_bytes [OF assms(1)] by blast

definition sample_fde_post_header :: fde_post_header where
  "sample_fde_post_header =
     make_fde_post_header default_binlog_version (Semantic_version 8 0 43) 0 default_common_header_length
       (get_hardcoded_post_header_lengths 80043)"

theorem fde_post_header_roundtrip_witness:
  "\<exists>bytes. fde_post_header_encode_to sample_fde_post_header ([], replicate 98 0) =
       Inr (write_bytes bytes ([], replicate 98 0)) \<and>
     length bytes = fde_post_header_size 80043 \<and> fde_post_header_decode bytes = Inr sample_fde_post_header"
proof (rule fde_post_header_roundtrip)
  show "fde_post_header_ok sample_fde_post_header 80043" by code_simp
  show "fde_post_header_size 80043 \<le> span_size ([], replicate 98 0)"
    by (simp add: fde_post_header_size_def get_number_of_events_def)
qed

text \<open>
  C40: A received format description event whose version text is not a version ends the process
  instead of raising an exception, since the parsing happens in a \<open>noexcept\<close> function.
\<close>

theorem fde_bad_version_terminates:
  assumes "98 \<le> length portion" and "length portion \<le> 99"
    and "semantic_version_of_string
           (as_string_view (normalize_for_c_str (take 50 (drop 2 portion)))) = Inl e"
  shows "fde_post_header_decode portion = Inl (Terminate ''get_encoded_server_version'')"
proof -
  have "extract_fixed_int_from_byte_span 2 portion = Inr (fst (read_fixed_int 2 portion) :: uint16, drop 2 portion)"
    using assms(1) by (simp add: extract_fixed_int_from_byte_span_def read_fixed_int_def)
  moreover have "50 \<le> length portion - 2" using assms(1) by linarith
  then have "extract_byte_span_from_byte_span 50 (drop 2 portion) =
      Inr (take 50 (drop 2 portion), drop 50 (drop 2 portion))"
    by (simp add: extract_byte_span_from_byte_span_def)
  ultimately show ?thesis
    using assms
    by (simp add: fde_post_header_decode_def fde_post_header_size_def get_number_of_events_def
        server_version_length_def encoded_server_version_of_def Let_def)
qed

theorem fde_bad_version_terminates_witness:
  "fde_post_header_decode (replicate 98 0x41) = Inl (Terminate ''get_encoded_server_version'')"
proof (rule fde_bad_version_terminates)
  show "semantic_version_of_string
      (as_string_view (normalize_for_c_str (take 50 (drop 2 (replicate 98 0x41))))) =
    Inl (Invalid_argument ''server_version component is not a numeric value'')"
    by code_simp
qed simp_all

end
