(* ===== verification/Gtid_Tagged_Log.thy ===== *)
theory Gtid_Tagged_Log
  imports Event_Parts
begin

text \<open>
  The body of GTID\_TAGGED\_LOG events (\<open>gtid_tagged_log_body_impl.cpp\<close>): a message of numbered
  fields in MySQL's serialization format, three of them optional, with a header that states the
  size of the whole message including itself. The decoder's field loop is a recursive function
  that ends because every field consumes input; the encoder finds the self-referential size by
  iteration. The main results are that the iteration's bound is never hit and the round trip.
\<close>

section \<open>State\<close>

record tagged_body =
  tb_gno :: uint64
  tb_last_committed :: uint64
  tb_sequence_number :: uint64
  tb_immediate_commit_timestamp :: uint64
  tb_original_commit_timestamp :: uint64
  tb_transaction_length :: uint64
  tb_immediate_server_version :: uint32
  tb_original_server_version :: uint32
  tb_commit_group_ticket :: uint64
  tb_uuid :: "byte list"
  tb_tag :: "byte list"
  tb_flags :: uint8

definition tagged_body_init :: tagged_body where
  "tagged_body_init = \<lparr> tb_gno = 0, tb_last_committed = 0, tb_sequence_number = 0,
     tb_immediate_commit_timestamp = unset_commit_timestamp, tb_original_commit_timestamp = unset_commit_timestamp,
     tb_transaction_length = - 1, tb_immediate_server_version = unset_server_version,
     tb_original_server_version = unset_server_version, tb_commit_group_ticket = unset_commit_group_ticket,
     tb_uuid = replicate uuid_length 0, tb_tag = [], tb_flags = 0 \<rparr>"

definition tb_has_original_commit_timestamp :: "tagged_body \<Rightarrow> bool" where
  "tb_has_original_commit_timestamp b \<longleftrightarrow> tb_original_commit_timestamp b \<noteq> unset_commit_timestamp"

definition tb_has_original_server_version :: "tagged_body \<Rightarrow> bool" where
  "tb_has_original_server_version b \<longleftrightarrow> tb_original_server_version b \<noteq> unset_server_version"

definition tb_has_commit_group_ticket :: "tagged_body \<Rightarrow> bool" where
  "tb_has_commit_group_ticket b \<longleftrightarrow> tb_commit_group_ticket b \<noteq> unset_commit_group_ticket"

definition tagged_body_get_gtid :: "tagged_body \<Rightarrow> gtid result" where
  "tagged_body_get_gtid b =
     rbind (tag_of_raw (tb_tag b)) (\<lambda>t. make_gtid (Uuid (tb_uuid b)) t (tb_gno b))"

section \<open>Decoding\<close>

definition known_serialization_version_number :: uint8 where "known_serialization_version_number = 1"
definition known_last_non_ignorable_field_id :: uint8 where "known_last_non_ignorable_field_id = 0"

definition varlen_int_extractor :: "const_byte_span \<Rightarrow> ('a::len word \<times> const_byte_span) result" where
  "varlen_int_extractor source =
     or_raise (extract_varlen_int_from_byte_span_checked source)
       (Invalid_argument ''gtid_tagged_log event body is too short to extract a field'')"

definition varlen_sint_extractor :: "const_byte_span \<Rightarrow> ('a::len word \<times> const_byte_span) result" where
  "varlen_sint_extractor source =
     or_raise (extract_varlen_sint_from_byte_span_checked source)
       (Invalid_argument ''gtid_tagged_log event body is too short to extract a field'')"

primrec extract_uuid_field :: "nat \<Rightarrow> const_byte_span \<Rightarrow> (byte list \<times> const_byte_span) result" where
  "extract_uuid_field 0 remainder = Inr ([], remainder)"
| "extract_uuid_field (Suc n) remainder =
     rbind (varlen_int_extractor remainder) (\<lambda>(b :: uint8, remainder).
     rbind (extract_uuid_field n remainder) (\<lambda>(bs, remainder). Inr (b # bs, remainder)))"

definition extract_tag_field :: "const_byte_span \<Rightarrow> (byte list \<times> const_byte_span) result" where
  "extract_tag_field remainder =
     rbind (varlen_int_extractor remainder) (\<lambda>(extracted_tag_length :: uint64, remainder).
     rbind (ensure (unat extracted_tag_length \<le> tag_max_length)
       (Bad_alloc ''static_vector: the new size exceeds the capacity'')) (\<lambda>_.
     or_raise (extract_byte_span_from_byte_span_checked (unat extracted_tag_length) remainder)
       (Invalid_argument ''gtid_tagged_log event body is too short to extract tag data'')))"

definition process_field_data ::
    "uint8 \<Rightarrow> const_byte_span \<Rightarrow> tagged_body \<Rightarrow> (tagged_body \<times> const_byte_span) result" where
  "process_field_data field_id remainder b =
     (if field_id = 0 then
        rbind (varlen_int_extractor remainder) (\<lambda>(v, r). Inr (b\<lparr> tb_flags := v \<rparr>, r))
      else if field_id = 1 then
        rbind (extract_uuid_field uuid_length remainder) (\<lambda>(v, r). Inr (b\<lparr> tb_uuid := v \<rparr>, r))
      else if field_id = 2 then
        rbind (varlen_sint_extractor remainder) (\<lambda>(v, r). Inr (b\<lparr> tb_gno := v \<rparr>, r))
      else if field_id = 3 then
        rbind (extract_tag_field remainder) (\<lambda>(v, r). Inr (b\<lparr> tb_tag := v \<rparr>, r))
      else if field_id = 4 then
        rbind (varlen_sint_extractor remainder) (\<lambda>(v, r). Inr (b\<lparr> tb_last_committed := v \<rparr>, r))
      else if field_id = 5 then
        rbind (varlen_sint_extractor remainder) (\<lambda>(v, r). Inr (b\<lparr> tb_sequence_number := v \<rparr>, r))
      else if field_id = 6 then
        rbind (varlen_int_extractor remainder) (\<lambda>(v, r). Inr (b\<lparr> tb_immediate_commit_timestamp := v \<rparr>, r))
      else if field_id = 7 then
        rbind (varlen_int_extractor remainder) (\<lambda>(v, r). Inr (b\<lparr> tb_original_commit_timestamp := v \<rparr>, r))
      else if field_id = 8 then
        rbind (varlen_int_extractor remainder) (\<lambda>(v, r). Inr (b\<lparr> tb_transaction_length := v \<rparr>, r))
      else if field_id = 9 then
        rbind (varlen_int_extractor remainder) (\<lambda>(v, r). Inr (b\<lparr> tb_immediate_server_version := v \<rparr>, r))
      else if field_id = 10 then
        rbind (varlen_int_extractor remainder) (\<lambda>(v, r). Inr (b\<lparr> tb_original_server_version := v \<rparr>, r))
      else if field_id = 11 then
        rbind (varlen_int_extractor remainder) (\<lambda>(v, r). Inr (b\<lparr> tb_commit_group_ticket := v \<rparr>, r))
      else Inl (Invalid_argument ''unknown field_id in the gtid_tagged_log event body''))"

lemma extract_varlen_Nil [simp]: "extract_varlen_int_from_byte_span_checked [] = None"
  by (simp add: extract_varlen_int_from_byte_span_checked_def extract_fixed_int_from_byte_span_checked_def)

lemma extract_varlen_length:
  "extract_varlen_int_from_byte_span_checked r = Some (v, r') \<Longrightarrow> length r' < length r"
  by (cases r) (auto simp: extract_varlen_Cons Let_def split: if_splits)

lemma varlen_extractor_length:
  "varlen_int_extractor r = Inr (v, r') \<Longrightarrow> length r' \<le> length r"
  "varlen_sint_extractor r = Inr (w, r') \<Longrightarrow> length r' \<le> length r"
  by (auto simp: varlen_int_extractor_def varlen_sint_extractor_def or_raise_eq_Inr
      extract_varlen_sint_from_byte_span_checked_def Let_def split: option.splits
      dest!: extract_varlen_length)

lemma extract_uuid_field_length: "extract_uuid_field n r = Inr (bs, r') \<Longrightarrow> length r' \<le> length r"
proof (induction n arbitrary: r bs)
  case (Suc n)
  then show ?case by (fastforce simp: result_simps dest: varlen_extractor_length(1))
qed simp

lemma extract_tag_field_length: "extract_tag_field r = Inr (bs, r') \<Longrightarrow> length r' \<le> length r"
  by (auto simp: extract_tag_field_def result_simps extract_byte_span_from_byte_span_checked_def
      split: if_splits dest!: varlen_extractor_length(1))

lemma process_field_data_length: "process_field_data f r b = Inr (b', r') \<Longrightarrow> length r' \<le> length r"
  unfolding process_field_data_def
  by (auto simp: result_simps split: if_splits
      dest: varlen_extractor_length extract_uuid_field_length extract_tag_field_length)

text \<open>
  The field loop, with the last field seen (255 before the first one) and the required fields still
  missing.
\<close>

function tagged_fields_loop ::
    "uint8 \<Rightarrow> bool list \<Rightarrow> const_byte_span \<Rightarrow> tagged_body \<Rightarrow>
     (tagged_body \<times> bool list \<times> const_byte_span) result" where
  "tagged_fields_loop last_seen_field_id remaining_field_ids remainder b =
     (case extract_varlen_int_from_byte_span_checked remainder of
        None \<Rightarrow> Inr (b, remaining_field_ids, remainder)
      | Some (field_id, remainder') \<Rightarrow>
          rbind (ensure (\<not> (last_seen_field_id \<noteq> 255 \<and> field_id \<le> last_seen_field_id))
            (Invalid_argument ''broken field_id sequence in the gtid_tagged_log event body'')) (\<lambda>_.
          rbind (ensure (\<not> (field_id \<le> known_last_non_ignorable_field_id \<and> field_id \<noteq> 0 \<and>
                             unat field_id \<noteq> unat last_seen_field_id + 1))
            (Invalid_argument ''violated last_non_ignorable_field_id rule in the gtid_tagged_log event body'')) (\<lambda>_.
          rbind (process_field_data field_id remainder' b) (\<lambda>(b', remainder'').
          tagged_fields_loop field_id (remaining_field_ids[unat field_id := False]) remainder'' b'))))"
  by pat_completeness auto
termination
  by (relation "measure (\<lambda>(l, m, r, b). length r)")
    (auto dest!: extract_varlen_length process_field_data_length)

declare tagged_fields_loop.simps [simp del]

definition required_field_ids :: "bool list" where
  "required_field_ids = ((replicate 12 True)[7 := False])[10 := False, 11 := False]"

definition tagged_body_decode :: "const_byte_span \<Rightarrow> tagged_body result" where
  "tagged_body_decode portion =
     rbind (or_raise (extract_varlen_int_from_byte_span_checked portion)
       (Invalid_argument ''gtid_tagged_log event body is too short to extract serialization_version_number''))
       (\<lambda>(serialization_version_number, remainder).
     rbind (ensure (serialization_version_number = known_serialization_version_number)
       (Invalid_argument ''unexpected serialization_version_number in the gtid_tagged_log event body'')) (\<lambda>_.
     rbind (or_raise (extract_varlen_int_from_byte_span_checked remainder)
       (Invalid_argument ''gtid_tagged_log event body is too short to extract serializable_field_size''))
       (\<lambda>(serializable_field_size :: uint64, remainder).
     rbind (ensure (unat serializable_field_size = length portion)
       (Invalid_argument ''invalid serializable_field_size in the gtid_tagged_log event body'')) (\<lambda>_.
     rbind (or_raise (extract_varlen_int_from_byte_span_checked remainder)
       (Invalid_argument ''gtid_tagged_log event body is too short to extract last_non_ignorable_field_id''))
       (\<lambda>(last_non_ignorable_field_id, remainder).
     rbind (ensure (last_non_ignorable_field_id = known_last_non_ignorable_field_id)
       (Invalid_argument ''unexpected last_non_ignorable_field_id in the gtid_tagged_log event body'')) (\<lambda>_.
     rbind (tagged_fields_loop 255 required_field_ids remainder tagged_body_init)
       (\<lambda>(b, remaining_field_ids, remainder).
     rbind (ensure (\<not> list_ex (\<lambda>x. x) remaining_field_ids)
       (Invalid_argument ''missing required non-optional fields in the gtid_tagged_log event body'')) (\<lambda>_.
     rbind (ensure (remainder = []) (Invalid_argument ''extra bytes in the gtid_log event body'')) (\<lambda>_.
     Inr b)))))))))"

section \<open>Encoding\<close>

abbreviation field_id_size :: "uint8 \<Rightarrow> nat" where
  "field_id_size \<equiv> calculate_varlen_int_size"

definition calculate_tlv_section_size :: "tagged_body \<Rightarrow> nat" where
  "calculate_tlv_section_size b =
     field_id_size 0 + calculate_varlen_int_size (tb_flags b) +
     field_id_size 1 + sum_list (map calculate_varlen_int_size (tb_uuid b)) +
     field_id_size 2 + calculate_varlen_sint_size (tb_gno b) +
     field_id_size 3 + calculate_varlen_int_size (of_nat (length (tb_tag b)) :: uint64) + length (tb_tag b) +
     field_id_size 4 + calculate_varlen_sint_size (tb_last_committed b) +
     field_id_size 5 + calculate_varlen_sint_size (tb_sequence_number b) +
     field_id_size 6 + calculate_varlen_int_size (tb_immediate_commit_timestamp b) +
     (if tb_has_original_commit_timestamp b
      then field_id_size 7 + calculate_varlen_int_size (tb_original_commit_timestamp b) else 0) +
     field_id_size 8 + calculate_varlen_int_size (tb_transaction_length b) +
     field_id_size 9 + calculate_varlen_int_size (tb_immediate_server_version b) +
     (if tb_has_original_server_version b
      then field_id_size 10 + calculate_varlen_int_size (tb_original_server_version b) else 0) +
     (if tb_has_commit_group_ticket b
      then field_id_size 11 + calculate_varlen_int_size (tb_commit_group_ticket b) else 0)"

definition max_number_of_iterations :: nat where "max_number_of_iterations = 9"

function size_width_loop :: "nat \<Rightarrow> nat \<Rightarrow> nat \<Rightarrow> nat \<times> nat" where
  "size_width_loop tail iteration width =
     (let new_width = calculate_varlen_int_size (of_nat (tail + width) :: uint64)
      in if new_width \<noteq> width \<and> iteration < max_number_of_iterations
         then size_width_loop tail (Suc iteration) new_width
         else (iteration, width))"
  by pat_completeness auto
termination
  by (relation "measure (\<lambda>(tail, iteration, width). max_number_of_iterations - iteration)") auto

declare size_width_loop.simps [simp del]

definition tagged_body_calculate_encoded_size :: "tagged_body \<Rightarrow> nat result" where
  "tagged_body_calculate_encoded_size b =
     (let framing_misc_size = calculate_varlen_int_size known_serialization_version_number +
                              calculate_varlen_int_size known_last_non_ignorable_field_id;
          tail = framing_misc_size + calculate_tlv_section_size b;
          (iteration, width) = size_width_loop tail 0 1
      in rbind (ensure (iteration < max_number_of_iterations) (Undefined_behaviour ''assert''))
           (\<lambda>_. Inr (tail + width)))"

text \<open>The results of the checked insertions are ignored by the source.\<close>

definition put_varlen :: "'a::len word \<Rightarrow> byte_span \<Rightarrow> byte_span" where
  "put_varlen v destination =
     (case insert_varlen_int_to_byte_span_checked v destination of
        None \<Rightarrow> destination | Some destination' \<Rightarrow> destination')"

definition put_varlen_signed :: "'a::len word \<Rightarrow> byte_span \<Rightarrow> byte_span" where
  "put_varlen_signed v destination =
     (case insert_varlen_sint_to_byte_span_checked v destination of
        None \<Rightarrow> destination | Some destination' \<Rightarrow> destination')"

definition emit_field_id :: "uint8 \<Rightarrow> byte_span \<Rightarrow> byte_span" where
  "emit_field_id field_id destination = put_varlen field_id destination"

definition encode_tlv_section_to :: "tagged_body \<Rightarrow> byte_span \<Rightarrow> byte_span result" where
  "encode_tlv_section_to b destination =
     (let destination = put_varlen (tb_flags b) (emit_field_id 0 destination);
          destination = fold put_varlen (tb_uuid b) (emit_field_id 1 destination);
          destination = put_varlen_signed (tb_gno b) (emit_field_id 2 destination);
          destination = put_varlen (of_nat (length (tb_tag b)) :: uint64) (emit_field_id 3 destination)
      in rbind (insert_byte_span_to_byte_span (tb_tag b) destination) (\<lambda>destination.
         let destination = put_varlen_signed (tb_last_committed b) (emit_field_id 4 destination);
             destination = put_varlen_signed (tb_sequence_number b) (emit_field_id 5 destination);
             destination = put_varlen (tb_immediate_commit_timestamp b) (emit_field_id 6 destination);
             destination = (if tb_has_original_commit_timestamp b
                then put_varlen (tb_original_commit_timestamp b) (emit_field_id 7 destination) else destination);
             destination = put_varlen (tb_transaction_length b) (emit_field_id 8 destination);
             destination = put_varlen (tb_immediate_server_version b) (emit_field_id 9 destination);
             destination = (if tb_has_original_server_version b
                then put_varlen (tb_original_server_version b) (emit_field_id 10 destination) else destination);
             destination = (if tb_has_commit_group_ticket b
                then put_varlen (tb_commit_group_ticket b) (emit_field_id 11 destination) else destination)
         in Inr destination))"

definition tagged_body_encode_to :: "tagged_body \<Rightarrow> byte_span \<Rightarrow> byte_span result" where
  "tagged_body_encode_to b destination =
     rbind (tagged_body_calculate_encoded_size b) (\<lambda>encoded_size.
     rbind (ensure (\<not> span_size destination < encoded_size)
       (Invalid_argument ''cannot encode gtid_tagged_log event body'')) (\<lambda>_.
     let destination = put_varlen known_serialization_version_number destination;
         destination = put_varlen (of_nat encoded_size :: uint64) destination;
         destination = put_varlen known_last_non_ignorable_field_id destination
     in encode_tlv_section_to b destination))"

section \<open>The encoded fields\<close>

text \<open>A field is its number, its encoded data and its effect on the decoded body.\<close>

type_synonym tagged_field = "uint8 \<times> byte list \<times> (tagged_body \<Rightarrow> tagged_body)"

abbreviation varlen_sint_bytes :: "'a::len word \<Rightarrow> byte list" where
  "varlen_sint_bytes v \<equiv> varlen_int_bytes (get_signed_representation_as_unsigned v)"

definition required_fields_1 :: "tagged_body \<Rightarrow> tagged_field list" where
  "required_fields_1 b =
     [(0, varlen_int_bytes (tb_flags b), tb_flags_update (\<lambda>_. tb_flags b)),
      (1, concat (map varlen_int_bytes (tb_uuid b)), tb_uuid_update (\<lambda>_. tb_uuid b)),
      (2, varlen_sint_bytes (tb_gno b), tb_gno_update (\<lambda>_. tb_gno b)),
      (3, varlen_int_bytes (of_nat (length (tb_tag b)) :: uint64) @ tb_tag b, tb_tag_update (\<lambda>_. tb_tag b)),
      (4, varlen_sint_bytes (tb_last_committed b), tb_last_committed_update (\<lambda>_. tb_last_committed b)),
      (5, varlen_sint_bytes (tb_sequence_number b), tb_sequence_number_update (\<lambda>_. tb_sequence_number b)),
      (6, varlen_int_bytes (tb_immediate_commit_timestamp b),
         tb_immediate_commit_timestamp_update (\<lambda>_. tb_immediate_commit_timestamp b))]"

definition required_fields_2 :: "tagged_body \<Rightarrow> tagged_field list" where
  "required_fields_2 b =
     [(8, varlen_int_bytes (tb_transaction_length b), tb_transaction_length_update (\<lambda>_. tb_transaction_length b)),
      (9, varlen_int_bytes (tb_immediate_server_version b),
         tb_immediate_server_version_update (\<lambda>_. tb_immediate_server_version b))]"

definition optional_field_7 :: "tagged_body \<Rightarrow> tagged_field list" where
  "optional_field_7 b =
     (if tb_has_original_commit_timestamp b
      then [(7, varlen_int_bytes (tb_original_commit_timestamp b),
               tb_original_commit_timestamp_update (\<lambda>_. tb_original_commit_timestamp b))] else [])"

definition optional_field_10 :: "tagged_body \<Rightarrow> tagged_field list" where
  "optional_field_10 b =
     (if tb_has_original_server_version b
      then [(10, varlen_int_bytes (tb_original_server_version b),
               tb_original_server_version_update (\<lambda>_. tb_original_server_version b))] else [])"

definition optional_field_11 :: "tagged_body \<Rightarrow> tagged_field list" where
  "optional_field_11 b =
     (if tb_has_commit_group_ticket b
      then [(11, varlen_int_bytes (tb_commit_group_ticket b),
               tb_commit_group_ticket_update (\<lambda>_. tb_commit_group_ticket b))] else [])"

definition tagged_fields :: "tagged_body \<Rightarrow> tagged_field list" where
  "tagged_fields b = required_fields_1 b @ optional_field_7 b @ required_fields_2 b @
     optional_field_10 b @ optional_field_11 b"

lemmas tagged_fields_defs = tagged_fields_def required_fields_1_def required_fields_2_def
  optional_field_7_def optional_field_10_def optional_field_11_def

definition field_bytes :: "tagged_field \<Rightarrow> byte list" where
  "field_bytes = (\<lambda>(i, bs, _). varlen_int_bytes i @ bs)"

definition fields_bytes :: "tagged_field list \<Rightarrow> byte list" where
  "fields_bytes fs = concat (map field_bytes fs)"

definition tagged_body_ok :: "tagged_body \<Rightarrow> bool" where
  "tagged_body_ok b \<longleftrightarrow> length (tb_uuid b) = uuid_length \<and> length (tb_tag b) \<le> tag_max_length"

lemma fields_bytes_simps [simp]:
  "fields_bytes [] = []" "fields_bytes (f # fs) = field_bytes f @ fields_bytes fs"
  "fields_bytes (fs @ gs) = fields_bytes fs @ fields_bytes gs"
  by (simp_all add: fields_bytes_def)

lemma length_varlen_simps [simp]:
  "length (varlen_int_bytes (v8 :: uint8)) = calculate_varlen_int_size v8"
  "length (varlen_int_bytes (v32 :: uint32)) = calculate_varlen_int_size v32"
  "length (varlen_int_bytes (v64 :: uint64)) = calculate_varlen_int_size v64"
  by (simp_all add: length_varlen_int_bytes)

lemma length_uuid_field: "length (concat (map varlen_int_bytes (us :: uint8 list))) =
    sum_list (map calculate_varlen_int_size us)"
  by (induction us) auto

lemma length_tagged_fields: "length (fields_bytes (tagged_fields b)) = calculate_tlv_section_size b"
  by (simp add: tagged_fields_defs calculate_tlv_section_size_def field_bytes_def length_uuid_field
      calculate_varlen_sint_size_def)

subsection \<open>Encoding\<close>

lemma put_varlen_eq:
  "calculate_varlen_int_size v \<le> span_size s \<Longrightarrow> put_varlen v s = write_bytes (varlen_int_bytes v) s"
  by (simp add: put_varlen_def insert_varlen_eq)

lemma put_varlen_signed_eq:
  "calculate_varlen_sint_size v \<le> span_size s \<Longrightarrow> put_varlen_signed v s = write_bytes (varlen_sint_bytes v) s"
  by (simp add: put_varlen_signed_def insert_varlen_sint_to_byte_span_checked_def insert_varlen_eq
      calculate_varlen_sint_size_def)

lemma put_field_eq:
  assumes "length (field_bytes (i, varlen_int_bytes v, u)) \<le> span_size s" and "LENGTH('a::len) \<le> 64"
  shows "put_varlen (v :: 'a word) (emit_field_id i s) = write_bytes (field_bytes (i, varlen_int_bytes v, u)) s"
proof -
  have len: "length (varlen_int_bytes v) = calculate_varlen_int_size v"
    by (rule length_varlen_int_bytes [OF assms(2)])
  then have "calculate_varlen_int_size i + calculate_varlen_int_size v \<le> span_size s"
    using assms(1) by (simp add: field_bytes_def)
  then show ?thesis
    by (simp add: emit_field_id_def put_varlen_eq field_bytes_def)
qed

lemma put_signed_field_eq:
  assumes "length (field_bytes (i, varlen_sint_bytes v, u)) \<le> span_size s"
  shows "put_varlen_signed (v :: uint64) (emit_field_id i s) = write_bytes (field_bytes (i, varlen_sint_bytes v, u)) s"
  using assms by (simp add: emit_field_id_def put_varlen_eq put_varlen_signed_eq field_bytes_def
      calculate_varlen_sint_size_def)

lemma fold_put_varlen:
  "length (concat (map varlen_int_bytes us)) \<le> span_size s \<Longrightarrow>
   fold put_varlen (us :: uint8 list) s = write_bytes (concat (map varlen_int_bytes us)) s"
proof (induction us arbitrary: s)
  case (Cons u us)
  then show ?case by (simp add: put_varlen_eq)
qed simp

lemma put_uuid_field_eq:
  "length (field_bytes (i, concat (map varlen_int_bytes us), id)) \<le> span_size s \<Longrightarrow>
   fold put_varlen (us :: uint8 list) (emit_field_id i s) =
   write_bytes (field_bytes (i, concat (map varlen_int_bytes us), id)) s"
  by (simp add: emit_field_id_def put_varlen_eq fold_put_varlen field_bytes_def)

lemma put_tag_field_eq:
  "length (field_bytes (i, varlen_int_bytes n @ t, id)) \<le> span_size s \<Longrightarrow>
   insert_byte_span_to_byte_span t (put_varlen (n :: uint64) (emit_field_id i s)) =
   Inr (write_bytes (field_bytes (i, varlen_int_bytes n @ t, id)) s)"
  by (simp add: emit_field_id_def put_varlen_eq field_bytes_def insert_byte_span_Inr)

lemma field_bytes_id: "NO_MATCH id u \<Longrightarrow> field_bytes (i, bs, u) = field_bytes (i, bs, id)"
  by (simp add: field_bytes_def)

lemmas put_field_simps = put_field_eq [where u = id] put_signed_field_eq [where u = id]
  put_uuid_field_eq put_tag_field_eq

lemma encode_tlv_section_eq:
  assumes "length (fields_bytes (tagged_fields b)) \<le> span_size s"
  shows "encode_tlv_section_to b s = Inr (write_bytes (fields_bytes (tagged_fields b)) s)"
  using assms
  by (cases "tb_has_original_commit_timestamp b"; cases "tb_has_original_server_version b";
      cases "tb_has_commit_group_ticket b")
    (simp_all add: encode_tlv_section_to_def tagged_fields_defs Let_def field_bytes_id put_field_simps)

subsection \<open>Decoding\<close>

lemma varlen_int_extractor_bytes:
  "LENGTH('a::len) \<le> 64 \<Longrightarrow> varlen_int_extractor (varlen_int_bytes (v :: 'a word) @ r) = Inr (v, r)"
  by (simp add: varlen_int_extractor_def extract_varlen_bytes)

lemma varlen_sint_extractor_bytes:
  "LENGTH('a::len) \<le> 64 \<Longrightarrow> varlen_sint_extractor (varlen_sint_bytes (v :: 'a word) @ r) = Inr (v, r)"
  using varlen_signed.get_bytes [of v r] by (simp add: varlen_sint_extractor_def)

lemma extract_uuid_field_bytes:
  "length us = n \<Longrightarrow> extract_uuid_field n (concat (map varlen_int_bytes us) @ r) = Inr (us, r)"
proof (induction us arbitrary: n)
  case (Cons u us)
  then show ?case by (cases n) (simp_all add: varlen_int_extractor_bytes)
qed simp

lemma extract_tag_field_bytes:
  assumes "length t \<le> tag_max_length"
  shows "extract_tag_field (varlen_int_bytes (of_nat (length t) :: uint64) @ t @ r) = Inr (t, r)"
proof -
  have "unat (of_nat (length t) :: uint64) = length t" using assms by (simp add: unat_of_nat)
  then show ?thesis
    using assms by (simp add: extract_tag_field_def varlen_int_extractor_bytes
        extract_byte_span_from_byte_span_checked_def)
qed

text \<open>What the loop needs of an encoded field.\<close>

definition field_decodes :: "tagged_field \<Rightarrow> bool" where
  "field_decodes = (\<lambda>(i, bs, u). unat i < 12 \<and> (\<forall>r b. process_field_data i (bs @ r) b = Inr (u b, r)))"

lemma tagged_fields_decode:
  assumes "tagged_body_ok b" and "f \<in> set (tagged_fields b)"
  shows "field_decodes f"
  using assms
  by (auto simp: tagged_fields_defs field_decodes_def process_field_data_def varlen_int_extractor_bytes
      varlen_sint_extractor_bytes extract_uuid_field_bytes extract_tag_field_bytes tagged_body_ok_def
      split: if_splits)

lemma tagged_fields_loop_bytes:
  assumes "\<forall>f \<in> set fs. field_decodes f" and "sorted_wrt (<) (map (unat \<circ> fst) fs)"
    and "l = 255 \<or> (\<forall>f \<in> set fs. unat l < unat (fst f))"
  shows "tagged_fields_loop l m (fields_bytes fs) b =
    Inr (fold (\<lambda>(i, bs, u). u) fs b, fold (\<lambda>f m. m[unat (fst f) := False]) fs m, [])"
  using assms
proof (induction fs arbitrary: l m b)
  case Nil
  then show ?case by (simp add: tagged_fields_loop.simps)
next
  case (Cons f fs)
  obtain i bs u where f: "f = (i, bs, u)" by (cases f)
  have dec: "process_field_data i (bs @ r) b = Inr (u b, r)" for r
    using Cons.prems(1) by (simp add: f field_decodes_def)
  have order: "\<not> (l \<noteq> 255 \<and> i \<le> l)"
    using Cons.prems(3) by (auto simp: f word_le_nat_alt)
  have ids: "\<not> (i \<le> known_last_non_ignorable_field_id \<and> i \<noteq> 0 \<and> unat i \<noteq> unat l + 1)"
    by (simp add: known_last_non_ignorable_field_id_def)
  have "extract_varlen_int_from_byte_span_checked (field_bytes f @ fields_bytes fs) = Some (i, bs @ fields_bytes fs)"
    by (simp add: f field_bytes_def extract_varlen_bytes)
  then have "tagged_fields_loop l m (fields_bytes (f # fs)) b =
      tagged_fields_loop i (m[unat i := False]) (fields_bytes fs) (u b)"
    using order ids by (subst tagged_fields_loop.simps) (simp add: dec)
  also have "\<dots> = Inr (fold (\<lambda>(i, bs, u). u) fs (u b), fold (\<lambda>f m. m[unat (fst f) := False]) fs (m[unat i := False]), [])"
    using Cons.prems by (intro Cons.IH) (auto simp: f)
  finally show ?case by (simp add: f)
qed

lemma tagged_fields_sorted: "sorted_wrt (<) (map (unat \<circ> fst) (tagged_fields b))"
  by (simp add: tagged_fields_defs)

lemma tagged_fields_effect: "fold (\<lambda>(i, bs, u). u) (tagged_fields b) tagged_body_init = b"
  by (simp add: tagged_fields_defs tagged_body_init_def tb_has_original_commit_timestamp_def
      tb_has_original_server_version_def tb_has_commit_group_ticket_def)

lemma list_update_numeral: "(x # xs)[numeral k := v] = x # xs[pred_numeral k := v]"
  by (simp add: numeral_eq_Suc)

lemma required_field_ids_eq:
  "required_field_ids = [True, True, True, True, True, True, True, False, True, True, False, False]"
  by code_simp

lemma tagged_fields_complete:
  "\<not> list_ex (\<lambda>x. x) (fold (\<lambda>f m. m[unat (fst f) := False]) (tagged_fields b) required_field_ids)"
  by (simp add: tagged_fields_defs required_field_ids_eq list_update_numeral)

subsection \<open>The size of the message\<close>

lemma varlen_size_1: "unat v < 2 ^ 7 \<Longrightarrow> calculate_varlen_int_size (v :: uint64) = 1"
  and varlen_size_2: "2 ^ 7 \<le> unat v \<Longrightarrow> unat v < 2 ^ 14 \<Longrightarrow> calculate_varlen_int_size (v :: uint64) = 2"
proof -
  have eq: "calculate_varlen_int_size v = (if v = 0 then 1 else min 9 ((bit_width_nat (unat v) + 6) div 7))"
    by (rule calculate_varlen_int_size_eq) simp
  show "calculate_varlen_int_size v = 1" if "unat v < 2 ^ 7"
  proof -
    have "bit_width_nat (unat v) \<le> 7" using that by (simp only: bit_width_nat_le_iff)
    moreover have "v \<noteq> 0 \<Longrightarrow> \<not> bit_width_nat (unat v) \<le> 0"
      by (simp only: bit_width_nat_le_iff) (simp add: unat_eq_0)
    ultimately show ?thesis using eq by (auto intro!: div_nat_eqI simp: min_def)
  qed
  show "calculate_varlen_int_size v = 2" if "2 ^ 7 \<le> unat v" "unat v < 2 ^ 14"
  proof -
    have "bit_width_nat (unat v) \<le> 14" "\<not> bit_width_nat (unat v) \<le> 7"
      using that by (simp_all only: bit_width_nat_le_iff not_less)
    moreover from this have "(bit_width_nat (unat v) + 6) div 7 = 2" by (intro div_nat_eqI) auto
    moreover have "v \<noteq> 0" using that(1) by auto
    ultimately show ?thesis using eq by simp
  qed
qed

lemma tlv_section_bounded:
  assumes "tagged_body_ok b"
  shows "calculate_tlv_section_size b < 1000"
proof -
  have le9: "calculate_varlen_int_size (a :: uint8) \<le> 9" "calculate_varlen_int_size (c :: uint32) \<le> 9"
    "calculate_varlen_int_size (d :: uint64) \<le> 9" for a c d
    using varlen_size_bounds(2) by (auto intro: varlen_size_bounds(2))
  have "sum_list (map calculate_varlen_int_size us) \<le> 9 * length us" for us :: "uint8 list"
    using le9(1) by (induction us) (auto intro: add_mono)
  from this [of "tb_uuid b"] have uuid: "sum_list (map calculate_varlen_int_size (tb_uuid b)) \<le> 144"
    using assms by (simp add: tagged_body_ok_def)
  have "length (tb_tag b) \<le> 32" using assms by (simp add: tagged_body_ok_def)
  then show ?thesis
    unfolding calculate_tlv_section_size_def calculate_varlen_sint_size_def
    using uuid le9(1) [of 0] le9(1) [of 1] le9(1) [of 2] le9(1) [of 3] le9(1) [of 4] le9(1) [of 5]
      le9(1) [of 6] le9(1) [of 7] le9(1) [of 8] le9(1) [of 9] le9(1) [of 10] le9(1) [of 11]
      le9(1) [of "tb_flags b"] le9(2) [of "tb_immediate_server_version b"]
      le9(2) [of "tb_original_server_version b"] le9(3) [of "tb_commit_group_ticket b"]
      le9(3) [of "tb_transaction_length b"] le9(3) [of "tb_original_commit_timestamp b"]
      le9(3) [of "tb_immediate_commit_timestamp b"] le9(3) [of "of_nat (length (tb_tag b))"]
      le9(3) [of "get_signed_representation_as_unsigned (tb_gno b)"]
      le9(3) [of "get_signed_representation_as_unsigned (tb_last_committed b)"]
      le9(3) [of "get_signed_representation_as_unsigned (tb_sequence_number b)"]
    by (auto simp only: split: if_split)
qed

lemma size_width_loop_small:
  assumes "tail < 2000"
  shows "size_width_loop tail 0 1 = (if tail + 1 < 128 then (0, 1) else (1, 2))"
    "tail + 1 < 128 \<Longrightarrow> calculate_varlen_int_size (of_nat (tail + 1) :: uint64) = 1"
    "\<not> tail + 1 < 128 \<Longrightarrow> calculate_varlen_int_size (of_nat (tail + 2) :: uint64) = 2"
proof -
  have u: "unat (of_nat (tail + k) :: uint64) = tail + k" if "k \<le> 2" for k
    using assms that by (simp only: unat_of_nat) simp
  show one: "calculate_varlen_int_size (of_nat (tail + 1) :: uint64) = 1" if "tail + 1 < 128"
    using that u [of 1] by (intro varlen_size_1) simp
  have two: "calculate_varlen_int_size (of_nat (tail + 1) :: uint64) = 2"
      "calculate_varlen_int_size (of_nat (tail + 2) :: uint64) = 2" if "\<not> tail + 1 < 128"
    using that u [of 1] u [of 2] assms by (auto intro!: varlen_size_2)
  then show "\<not> tail + 1 < 128 \<Longrightarrow> calculate_varlen_int_size (of_nat (tail + 2) :: uint64) = 2" by blast
  show "size_width_loop tail 0 1 = (if tail + 1 < 128 then (0, 1) else (1, 2))"
  proof (cases "tail + 1 < 128")
    case True
    then show ?thesis using one by (subst size_width_loop.simps) (simp add: max_number_of_iterations_def add.commute)
  next
    case False
    have "size_width_loop tail (Suc 0) 2 = (Suc 0, 2)"
      using two(2) [OF False] by (subst size_width_loop.simps) simp
    then show ?thesis
      using two [OF False] False by (subst size_width_loop.simps) (simp add: max_number_of_iterations_def)
  qed
qed

lemma tagged_calculate_encoded_size_eq:
  assumes "tagged_body_ok b"
  shows "tagged_body_calculate_encoded_size b =
    Inr (if calculate_tlv_section_size b < 125 then 3 + calculate_tlv_section_size b else 4 + calculate_tlv_section_size b)"
proof -
  have "calculate_varlen_int_size known_serialization_version_number = 1"
    "calculate_varlen_int_size known_last_non_ignorable_field_id = 1"
    by code_simp+
  then show ?thesis
    using size_width_loop_small(1) [of "2 + calculate_tlv_section_size b"] tlv_section_bounded [OF assms]
    by (simp add: tagged_body_calculate_encoded_size_def max_number_of_iterations_def Let_def)
qed

lemma calculate_encoded_size_ok:
  assumes "tagged_body_ok b"
  obtains n w where "tagged_body_calculate_encoded_size b = Inr n"
    and "n = 2 + w + calculate_tlv_section_size b" and "calculate_varlen_int_size (of_nat n :: uint64) = w"
    and "n < 2000"
proof -
  let ?tlv = "calculate_tlv_section_size b"
  have "2 + ?tlv < 2000" using tlv_section_bounded [OF assms] by simp
  note small = size_width_loop_small [OF this]
  show ?thesis
    using that [OF tagged_calculate_encoded_size_eq [OF assms], of "if ?tlv < 125 then 1 else 2"] small(2,3) tlv_section_bounded [OF assms]
    by (auto simp: add.commute add.left_commute split: if_splits)
qed

section \<open>The encoded body\<close>

definition tagged_body_bytes :: "tagged_body \<Rightarrow> byte list" where
  "tagged_body_bytes b =
     varlen_int_bytes known_serialization_version_number @
     varlen_int_bytes (of_nat (projr (tagged_body_calculate_encoded_size b)) :: uint64) @
     varlen_int_bytes known_last_non_ignorable_field_id @ fields_bytes (tagged_fields b)"

lemma framing_widths:
  "calculate_varlen_int_size known_serialization_version_number = 1"
  "calculate_varlen_int_size known_last_non_ignorable_field_id = 1"
  by code_simp+

lemma tagged_body_size_bytes:
  assumes "tagged_body_ok b"
  shows "tagged_body_calculate_encoded_size b = Inr (length (tagged_body_bytes b))" "length (tagged_body_bytes b) < 2000"
  by (rule calculate_encoded_size_ok [OF assms],
      simp add: tagged_body_bytes_def length_tagged_fields framing_widths)+

lemma tagged_body_encode_bytes:
  assumes "tagged_body_ok b" and "length (tagged_body_bytes b) \<le> span_size s"
  shows "tagged_body_encode_to b s = Inr (write_bytes (tagged_body_bytes b) s)"
proof (rule calculate_encoded_size_ok [OF assms(1)])
  fix n w
  assume n: "tagged_body_calculate_encoded_size b = Inr n" "n = 2 + w + calculate_tlv_section_size b"
    "calculate_varlen_int_size (of_nat n :: uint64) = w"
  have "n \<le> span_size s" using assms(2) tagged_body_size_bytes [OF assms(1)] n(1) by simp
  then show ?thesis
    using n framing_widths length_tagged_fields [of b]
    by (simp add: tagged_body_encode_to_def put_varlen_eq encode_tlv_section_eq tagged_body_bytes_def Let_def)
qed

lemma tagged_body_decode_bytes:
  assumes ok: "tagged_body_ok b"
  shows "tagged_body_decode (tagged_body_bytes b) = Inr b"
proof -
  note size = tagged_body_size_bytes [OF ok]
  have loop: "tagged_fields_loop 255 required_field_ids (fields_bytes (tagged_fields b)) tagged_body_init =
      Inr (b, fold (\<lambda>f m. m[unat (fst f) := False]) (tagged_fields b) required_field_ids, [])"
    using tagged_fields_loop_bytes [OF ballI [OF tagged_fields_decode [OF ok]] tagged_fields_sorted, of b 255]
    by (simp add: tagged_fields_effect)
  obtain n where n: "length (tagged_body_bytes b) = n" "unat (of_nat n :: uint64) = n"
    using size(2) by (simp add: unat_of_nat)
  have "projr (tagged_body_calculate_encoded_size b) = n" using size(1) n(1) by simp
  then have "tagged_body_bytes b = varlen_int_bytes known_serialization_version_number @ varlen_int_bytes (of_nat n :: uint64) @
     varlen_int_bytes known_last_non_ignorable_field_id @ fields_bytes (tagged_fields b)"
    by (simp only: tagged_body_bytes_def)
  then show ?thesis
    using tagged_fields_complete [of b] loop n by (simp add: tagged_body_decode_def extract_varlen_bytes)
qed

section \<open>Properties\<close>

text \<open>
  C26: Encoding a tagged GTID body with a 16-byte UUID and a tag of at most 32 bytes fails exactly
  when the range is smaller than the calculated size; otherwise it writes that many bytes, and they
  are decoded to the same body, whichever optional fields are set.
\<close>

theorem tagged_body_roundtrip:
  assumes ok: "tagged_body_ok b"
  shows "\<exists>n. tagged_body_calculate_encoded_size b = Inr n \<and>
    (if span_size s < n
     then tagged_body_encode_to b s = Inl (Invalid_argument ''cannot encode gtid_tagged_log event body'')
     else \<exists>bytes. tagged_body_encode_to b s = Inr (write_bytes bytes s) \<and> length bytes = n \<and>
            tagged_body_decode bytes = Inr b)"
proof -
  note size = tagged_body_size_bytes [OF ok] and enc = tagged_body_encode_bytes [OF ok] and dec = tagged_body_decode_bytes [OF ok]
  show ?thesis
    using enc [of s] dec by (auto simp: tagged_body_encode_to_def size)
qed

theorem tagged_body_roundtrip_witness:
  "\<exists>n. tagged_body_calculate_encoded_size tagged_body_init = Inr n \<and>
    (if span_size ([], replicate 200 0) < n
     then tagged_body_encode_to tagged_body_init ([], replicate 200 0) =
       Inl (Invalid_argument ''cannot encode gtid_tagged_log event body'')
     else \<exists>bytes. tagged_body_encode_to tagged_body_init ([], replicate 200 0) =
         Inr (write_bytes bytes ([], replicate 200 0)) \<and> length bytes = n \<and>
       tagged_body_decode bytes = Inr tagged_body_init)"
  by (rule tagged_body_roundtrip) (simp add: tagged_body_ok_def tagged_body_init_def)

end
