(* ===== verification/Event_View.thy ===== *)
theory Event_View
  imports Gtid_Tagged_Log
begin

text \<open>
  The state of a \<open>reader_context\<close> (\<open>reader_context.hpp\<close>) and the views over received events that
  depend on it (\<open>event_view.cpp\<close>, \<open>event_view.hpp\<close>): the constructor splits the bytes of an event
  into common header, post header, body and footer and verifies the checksum. CRC-32 is zlib's,
  a parameter of the model.
\<close>

section \<open>The reader context\<close>

datatype state_type =
    Rotate_artificial_expected
  | Format_description_expected
  | Previous_gtids_expected
  | Gtid_log_expected
  | Any_other_expected
  | Rotate_or_stop_expected

datatype replication_mode_type = Position_mode | Gtid_mode

record reader_context =
  rc_state :: state_type
  rc_connection_encoded_server_version :: uint32
  rc_current_encoded_server_version :: uint32
  rc_checksum_verification_enabled :: bool
  rc_footer_expected :: bool
  rc_replication_mode :: replication_mode_type
  rc_binlog_name :: string
  rc_position :: uint32
  rc_post_header_lengths :: post_header_lengths
  rc_transaction_gtid :: gtid
  rc_transaction_sequence_number :: uint64
  rc_expected_transaction_length :: uint32
  rc_current_transaction_length :: uint32
  rc_expect_info_only_preamble_events :: bool
  rc_cycle_number :: nat

definition make_reader_context ::
    "uint32 \<Rightarrow> bool \<Rightarrow> replication_mode_type \<Rightarrow> string \<Rightarrow> uint32 \<Rightarrow> reader_context" where
  "make_reader_context connection_encoded_server_version checksum_verification_enabled replication_mode
     binlog_name position =
     \<lparr> rc_state = Rotate_artificial_expected,
       rc_connection_encoded_server_version = connection_encoded_server_version,
       rc_current_encoded_server_version = connection_encoded_server_version,
       rc_checksum_verification_enabled = checksum_verification_enabled,
       rc_footer_expected = checksum_verification_enabled,
       rc_replication_mode = replication_mode,
       rc_binlog_name = binlog_name,
       rc_position = (if position = 0 then ucast magic_binlog_offset else position),
       rc_post_header_lengths = get_known_post_header_lengths connection_encoded_server_version,
       rc_transaction_gtid = gtid_empty,
       rc_transaction_sequence_number = 0,
       rc_expected_transaction_length = 0,
       rc_current_transaction_length = 0,
       rc_expect_info_only_preamble_events = False,
       rc_cycle_number = 0 \<rparr>"

definition is_fresh :: "reader_context \<Rightarrow> bool" where
  "is_fresh c \<longleftrightarrow> rc_cycle_number c = 0"

definition get_current_post_header_length :: "reader_context \<Rightarrow> code_type \<Rightarrow> nat option" where
  "get_current_post_header_length c code =
     get_post_header_length_for_code (rc_current_encoded_server_version c) (rc_post_header_lengths c) code"

definition has_transaction_gtid :: "reader_context \<Rightarrow> bool" where
  "has_transaction_gtid c \<longleftrightarrow> \<not> gtid_is_empty (rc_transaction_gtid c)"

definition has_transaction_sequence_number :: "reader_context \<Rightarrow> bool" where
  "has_transaction_sequence_number c \<longleftrightarrow> rc_transaction_sequence_number c \<noteq> 0"

definition is_at_transaction_boundary :: "reader_context \<Rightarrow> bool" where
  "is_at_transaction_boundary c \<longleftrightarrow>
     (rc_state c = Any_other_expected \<and> rc_current_transaction_length c = rc_expected_transaction_length c) \<or>
     rc_state c = Rotate_artificial_expected"

section \<open>Event views\<close>

type_synonym crc32 = "byte list \<Rightarrow> uint32"

record event_view =
  ev_portion :: "byte list"
  ev_post_header_size :: nat
  ev_footer_size :: nat

definition get_total_size :: "event_view \<Rightarrow> nat" where
  "get_total_size v = length (ev_portion v)"

definition get_common_header_raw :: "event_view \<Rightarrow> byte list" where
  "get_common_header_raw v = subspan 0 default_common_header_length (ev_portion v)"

definition get_post_header_raw :: "event_view \<Rightarrow> byte list" where
  "get_post_header_raw v = subspan default_common_header_length (ev_post_header_size v) (ev_portion v)"

definition get_body_size :: "event_view \<Rightarrow> nat" where
  "get_body_size v =
     get_total_size v - default_common_header_length - ev_post_header_size v - ev_footer_size v"

definition get_body_raw :: "event_view \<Rightarrow> byte list" where
  "get_body_raw v =
     subspan (default_common_header_length + ev_post_header_size v) (get_body_size v) (ev_portion v)"

definition has_footer :: "event_view \<Rightarrow> bool" where
  "has_footer v \<longleftrightarrow> ev_footer_size v \<noteq> 0"

definition get_footer_raw :: "event_view \<Rightarrow> byte list" where
  "get_footer_raw v = subspan (get_total_size v - ev_footer_size v) (ev_footer_size v) (ev_portion v)"

definition calculate_crc :: "crc32 \<Rightarrow> event_view \<Rightarrow> uint32" where
  "calculate_crc crc v = crc (subspan 0 (get_total_size v - ev_footer_size v) (ev_portion v))"

definition calculate_post_header_size :: "reader_context \<Rightarrow> code_type \<Rightarrow> nat \<Rightarrow> nat \<Rightarrow> nat result" where
  "calculate_post_header_size c code total_size footer_size =
     (if code = Format_description then
        let group_size = default_common_header_length + fde_body_size + footer_size in
        rbind (ensure (\<not> total_size < group_size)
          (Logic_error ''not enough data for format description event common header + body + footer'')) (\<lambda>_.
        Inr (total_size - group_size))
      else
        rbind (or_raise (get_current_post_header_length c code)
          (Invalid_argument ''received event is not known in server version'')) (\<lambda>post_header_size.
        rbind (ensure (\<not> total_size < default_common_header_length + post_header_size + footer_size)
          (Logic_error ''not enough data for event common header + post header + footer'')) (\<lambda>_.
        Inr post_header_size)))"

definition verify_checksum :: "crc32 \<Rightarrow> reader_context \<Rightarrow> code_type \<Rightarrow> event_view \<Rightarrow> unit result" where
  "verify_checksum crc c code v =
     (if \<not> rc_checksum_verification_enabled c then Inr ()
      else if \<not> has_footer v then Inr ()
      else
        rbind (if code = Format_description
               then rbind (fde_body_decode (get_body_raw v)) (\<lambda>body. Inr (has_checksum_algorithm body))
               else Inr True) (\<lambda>has_checksum.
        if \<not> has_checksum then Inr ()
        else
          rbind (footer_view (get_footer_raw v)) (\<lambda>footer_v.
          ensure (\<not> calculate_crc crc v \<noteq> get_crc_raw footer_v) (Invalid_argument ''event checksum mismatch''))))"

definition make_event_view :: "crc32 \<Rightarrow> reader_context \<Rightarrow> byte list \<Rightarrow> event_view result" where
  "make_event_view crc c portion =
     rbind (ensure (\<not> length portion < common_header_size_in_bytes)
       (Invalid_argument ''not enough data for event common header'')) (\<lambda>_.
     rbind (common_header_view (subspan 0 default_common_header_length portion)) (\<lambda>common_header_v.
     let code = get_type_code common_header_v;
         footer_size = (if code = Format_description then footer_size_in_bytes
                        else if rc_footer_expected c then footer_size_in_bytes else 0) in
     rbind (ensure (\<not> length portion \<noteq> unat (get_event_size_raw common_header_v))
       (Invalid_argument ''actual event size does not match the one specified in event common header'')) (\<lambda>_.
     rbind (calculate_post_header_size c code (length portion) footer_size) (\<lambda>post_header_size.
     let v = \<lparr> ev_portion = portion, ev_post_header_size = post_header_size, ev_footer_size = footer_size \<rparr> in
     rbind (verify_checksum crc c code v) (\<lambda>_.
     Inr v)))))"

section \<open>Lemmas\<close>

lemma subspan_append3:
  "offset + n \<le> length bs \<Longrightarrow> bs = take offset bs @ subspan offset n bs @ drop (offset + n) bs"
  by (metis append_take_drop_id subspan_def drop_drop add.commute)

lemma length_subspan: "offset + n \<le> length bs \<Longrightarrow> length (subspan offset n bs) = n"
  by (simp add: subspan_def)

definition event_view_ok :: "event_view \<Rightarrow> bool" where
  "event_view_ok v \<longleftrightarrow>
     default_common_header_length + ev_post_header_size v + ev_footer_size v \<le> get_total_size v \<and>
     common_header_view (get_common_header_raw v) = Inr (get_common_header_raw v) \<and>
     get_total_size v = unat (get_event_size_raw (get_common_header_raw v))"

lemma make_event_view_Inr:
  assumes "make_event_view crc c portion = Inr v"
  defines "h \<equiv> subspan 0 default_common_header_length portion"
  shows "ev_portion v = portion" and "event_view_ok v"
    and "ev_footer_size v = (if get_type_code h = Format_description \<or> rc_footer_expected c then 4 else 0)"
    and "verify_checksum crc c (get_type_code h) v = Inr ()"
    and "calculate_post_header_size c (get_type_code h) (length portion) (ev_footer_size v) = Inr (ev_post_header_size v)"
proof -
  obtain u p where h: "common_header_view h = Inr u" and size: "length portion = unat (get_event_size_raw u)"
    and fs: "calculate_post_header_size c (get_type_code u) (length portion)
        (if get_type_code u = Format_description then footer_size_in_bytes
         else if rc_footer_expected c then footer_size_in_bytes else 0) = Inr p"
    and v: "v = \<lparr> ev_portion = portion, ev_post_header_size = p, ev_footer_size =
        (if get_type_code u = Format_description then footer_size_in_bytes
         else if rc_footer_expected c then footer_size_in_bytes else 0) \<rparr>"
    and crc: "verify_checksum crc c (get_type_code u) v = Inr ()"
    using assms(1) unfolding make_event_view_def h_def by (auto simp: result_simps Let_def)
  have u: "u = h" using h by (auto simp: common_header_view_def result_simps)
  show "ev_portion v = portion" by (simp add: v)
  show "ev_footer_size v = (if get_type_code h = Format_description \<or> rc_footer_expected c then 4 else 0)"
    by (simp add: v u footer_size_in_bytes_def)
  show "verify_checksum crc c (get_type_code h) v = Inr ()" using crc by (simp add: u)
  show "calculate_post_header_size c (get_type_code h) (length portion) (ev_footer_size v) = Inr (ev_post_header_size v)"
    using fs by (simp add: v u)
  have "default_common_header_length + p + ev_footer_size v \<le> length portion"
    using fs by (auto simp: v calculate_post_header_size_def result_simps Let_def split: if_splits)
  moreover have "get_common_header_raw v = h" by (simp add: get_common_header_raw_def v h_def)
  ultimately show "event_view_ok v"
    using h size by (simp add: event_view_ok_def get_total_size_def v u)
qed

section \<open>A concrete event\<close>

definition stop_portion :: "byte list" where
  "stop_portion = [7, 0, 0, 0, 3, 1, 0, 0, 0, 23, 0, 0, 0, 27, 0, 0, 0, 0, 0, 0, 0, 0, 0]"

definition stop_context :: reader_context where
  "stop_context = make_reader_context 80030 True Gtid_mode [] 0"

definition stop_view :: event_view where
  "stop_view = \<lparr> ev_portion = stop_portion, ev_post_header_size = 0, ev_footer_size = 4 \<rparr>"

lemma stop_view_made: "make_event_view (\<lambda>_. 0) stop_context stop_portion = Inr stop_view"
  by code_simp

section \<open>Properties\<close>

text \<open>
  An event that the constructor accepts is split without gaps or overlaps: its bytes are the
  common header, the post header, the body and the footer in this order, each of the stated
  size, and the declared event size is the number of bytes.
\<close>

lemma event_view_partition:
  assumes "make_event_view crc c portion = Inr v"
  shows "portion = get_common_header_raw v @ get_post_header_raw v @ get_body_raw v @ get_footer_raw v \<and>
    length (get_common_header_raw v) = 19 \<and> length (get_post_header_raw v) = ev_post_header_size v \<and>
    length (get_footer_raw v) = ev_footer_size v \<and>
    length portion = unat (get_event_size_raw (get_common_header_raw v))"
proof -
  note v = make_event_view_Inr [OF assms]
  let ?p = "ev_post_header_size v" and ?f = "ev_footer_size v" and ?n = "length portion"
  have room: "19 + ?p + ?f \<le> ?n" and size: "?n = unat (get_event_size_raw (get_common_header_raw v))"
    using v(1,2) by (simp_all add: event_view_ok_def get_total_size_def)
  have split: "drop k portion = subspan k m portion @ drop (k + m) portion" for k m
    by (metis subspan_def append_take_drop_id drop_drop add.commute)
  have "subspan (?n - ?f) ?f portion = drop (?n - ?f) portion"
    by (simp add: subspan_def)
  moreover have "19 + ?p + (?n - 19 - ?p - ?f) = ?n - ?f" using room by simp
  ultimately have "portion = subspan 0 19 portion @ subspan 19 ?p portion @
      subspan (19 + ?p) (?n - 19 - ?p - ?f) portion @ subspan (?n - ?f) ?f portion"
    using split [of 0 19] split [of 19 ?p] split [of "19 + ?p" "?n - 19 - ?p - ?f"] by simp
  then show ?thesis
    using v(1) room size
    by (simp add: get_common_header_raw_def get_post_header_raw_def get_body_raw_def get_body_size_def
        get_footer_raw_def get_total_size_def length_subspan)
qed

text \<open>The bytes that the checksum covers and the four bytes in which it is stated.\<close>

definition crc_matches :: "crc32 \<Rightarrow> byte list \<Rightarrow> bool" where
  "crc_matches crc portion \<longleftrightarrow>
     get_crc_raw (drop (length portion - 4) portion) = crc (take (length portion - 4) portion)"

lemma make_event_view_unverified:
  "make_event_view crc c portion = Inr v \<longleftrightarrow>
   make_event_view crc (c\<lparr> rc_checksum_verification_enabled := False \<rparr>) portion = Inr v \<and>
   verify_checksum crc c (get_type_code (take 19 portion)) v = Inr ()"
proof -
  have lengths: "calculate_post_header_size (c\<lparr> rc_checksum_verification_enabled := False \<rparr>) = calculate_post_header_size c"
    by (intro ext) (simp add: calculate_post_header_size_def get_current_post_header_length_def)
  have off: "verify_checksum crc (c\<lparr> rc_checksum_verification_enabled := False \<rparr>) code u = Inr ()" for code u
    by (simp add: verify_checksum_def)
  have checked: "rbind (verify_checksum crc c code u) (\<lambda>_. Inr u) = Inr v \<longleftrightarrow> u = v \<and> verify_checksum crc c code v = Inr ()" for code u
    by (cases "verify_checksum crc c code u") auto
  show ?thesis
  proof (cases "common_header_view (take 19 portion)")
    case (Inr u)
    then have "u = take 19 portion" by (auto simp: common_header_view_def result_simps)
    then show ?thesis
      using Inr unfolding make_event_view_def Let_def lengths off
      by (cases "calculate_post_header_size c (get_type_code u) (length portion)
          (if get_type_code u = Format_description then footer_size_in_bytes
           else if rc_footer_expected c then footer_size_in_bytes else 0)")
        (auto simp: subspan_def ensure_def checked)
  qed (simp add: make_event_view_def subspan_def ensure_def)
qed

lemma verify_checksum_footer:
  assumes "rc_checksum_verification_enabled c" and "ev_footer_size v = 4" and "4 \<le> length (ev_portion v)"
  shows "verify_checksum crc c code v = Inr () \<longleftrightarrow>
    (if code = Format_description
     then \<exists>body. fde_body_decode (get_body_raw v) = Inr body \<and> (has_checksum_algorithm body \<longrightarrow> crc_matches crc (ev_portion v))
     else crc_matches crc (ev_portion v))"
proof -
  have "footer_view (get_footer_raw v) = Inr (drop (length (ev_portion v) - 4) (ev_portion v))"
    using assms(2,3) by (simp add: footer_view_def get_footer_raw_def get_total_size_def subspan_def footer_size_in_bytes_def)
  moreover have "calculate_crc crc v = crc (take (length (ev_portion v) - 4) (ev_portion v))"
    using assms(2) by (simp add: calculate_crc_def get_total_size_def subspan_def)
  ultimately show ?thesis
    using assms(1,2)
    by (cases "fde_body_decode (get_body_raw v)") (auto simp: verify_checksum_def has_footer_def crc_matches_def ensure_def)
qed

text \<open>
  C27: Which checks the checksum verification adds to the construction of a view. With verification enabled,
  an event is accepted exactly if it is accepted with verification disabled and, for a format
  description event, its body is decodable and its last four bytes are the CRC-32 of all the others
  unless it states that the server computes no checksums; for any other event, its last four bytes are
  the CRC-32 of all the others if a footer is expected, and nothing more if none is.
\<close>

theorem event_view_checksum:
  assumes "rc_checksum_verification_enabled c"
  shows "make_event_view crc c portion = Inr v \<longleftrightarrow>
    make_event_view crc (c\<lparr> rc_checksum_verification_enabled := False \<rparr>) portion = Inr v \<and>
    (if get_type_code (take 19 portion) = Format_description
     then \<exists>body. fde_body_decode (get_body_raw v) = Inr body \<and> (has_checksum_algorithm body \<longrightarrow> crc_matches crc portion)
     else rc_footer_expected c \<longrightarrow> crc_matches crc portion)"
proof (cases "make_event_view crc (c\<lparr> rc_checksum_verification_enabled := False \<rparr>) portion = Inr v")
  case True
  note v = make_event_view_Inr [OF True]
  have code: "subspan 0 19 portion = take 19 portion" by (simp add: subspan_def)
  have size: "19 + ev_footer_size v \<le> length (ev_portion v)"
    using v(2) by (simp add: event_view_ok_def get_total_size_def)
  show ?thesis
  proof (cases "get_type_code (take 19 portion) = Format_description \<or> rc_footer_expected c")
    case expected: True
    then have "ev_footer_size v = 4" using v(3) by (auto simp: code)
    then show ?thesis
      using verify_checksum_footer [OF assms, of v crc "get_type_code (take 19 portion)"] make_event_view_unverified [of crc c portion v]
        True expected size v(1) by auto
  next
    case False
    then have "ev_footer_size v = 0" using v(3) by (simp add: code)
    then have "verify_checksum crc c (get_type_code (take 19 portion)) v = Inr ()"
      by (simp add: verify_checksum_def has_footer_def)
    then show ?thesis using make_event_view_unverified [of crc c portion v] True False by simp
  qed
next
  case False
  then show ?thesis using make_event_view_unverified [of crc c portion v] by blast
qed

theorem event_view_checksum_witness:
  "crc_matches (\<lambda>_. 0) stop_portion \<and> make_event_view (\<lambda>_. 1) stop_context stop_portion \<noteq> Inr stop_view"
proof -
  have verified: "rc_checksum_verification_enabled stop_context" by code_simp
  have "get_type_code (take 19 stop_portion) \<noteq> Format_description" "rc_footer_expected stop_context"
    "\<not> crc_matches (\<lambda>_. 1) stop_portion" by code_simp+
  then show ?thesis
    using event_view_checksum [OF verified, of "\<lambda>_. 0" stop_portion stop_view]
      event_view_checksum [OF verified, of "\<lambda>_. 1" stop_portion stop_view] stop_view_made by simp
qed

end
