(* ===== verification/Binlog_Name.thy ===== *)
theory Binlog_Name
  imports Text
begin

text \<open>
  Names of binlog files (\<open>composite_binlog_name.cpp\<close>): a base name and a sequence number that is
  printed with six decimal digits. The main result is that printing and parsing are inverse to
  each other in both directions, so a name identifies its file.
\<close>

section \<open>Model\<close>

datatype composite_binlog_name =
  Composite_binlog_name (get_base_name: string) (get_sequence_number: uint32)

definition components_separator :: char where "components_separator = CHR ''.''"
definition preferred_separator :: char where "preferred_separator = CHR ''/''"
definition number_of_sequence_number_characters :: nat where "number_of_sequence_number_characters = 6"

definition empty_binlog_name :: composite_binlog_name where
  "empty_binlog_name = Composite_binlog_name [] 0"

definition binlog_name_is_empty :: "composite_binlog_name \<Rightarrow> bool" where
  "binlog_name_is_empty n \<longleftrightarrow> get_sequence_number n = 0"

definition make_binlog_name :: "string \<Rightarrow> uint32 \<Rightarrow> composite_binlog_name result" where
  "make_binlog_name base_name sequence_number =
     rbind (ensure (\<not> base_name = []) (Invalid_argument ''binlog base name cannot be empty'')) (\<lambda>_.
     rbind (ensure (preferred_separator \<notin> set base_name)
       (Invalid_argument ''binlog base name contains filesystem separator'')) (\<lambda>_.
     rbind (ensure (\<not> sequence_number = 0) (Invalid_argument ''binlog sequence number cannot be zero'')) (\<lambda>_.
     rbind (ensure (\<not> sequence_number \<ge> 10 ^ number_of_sequence_number_characters)
       (Invalid_argument ''binlog sequence number is too large'')) (\<lambda>_.
     Inr (Composite_binlog_name base_name sequence_number)))))"

text \<open>\<open>std::from_chars\<close> into 32 bits with the check that the whole text was consumed.\<close>

definition from_chars_uint32 :: "string \<Rightarrow> uint32 option" where
  "from_chars_uint32 s =
     (if s \<noteq> [] \<and> list_all isdigit s \<and> int (decimal_value 0 s) < 2 ^ 32 then Some (of_nat (decimal_value 0 s))
      else None)"

definition parse_binlog_name :: "string \<Rightarrow> composite_binlog_name result" where
  "parse_binlog_name composite_name =
     rbind (ensure (\<not> length composite_name \<le> number_of_sequence_number_characters + 1)
       (Invalid_argument ''binlog composite name is too short'')) (\<lambda>_.
     let separator_position = length composite_name - number_of_sequence_number_characters - 1 in
     rbind (ensure (composite_name ! separator_position = components_separator)
       (Invalid_argument ''binlog composite name does not contain a base name / sequence number separator at expected position'')) (\<lambda>_.
     let sequence_number_sv = drop (separator_position + 1) composite_name in
     rbind (or_raise (from_chars_uint32 sequence_number_sv)
       (Invalid_argument ''binlog composite name contains invalid characters in its sequence number part''))
       (\<lambda>sequence_number.
     make_binlog_name (take separator_position composite_name) sequence_number)))"

text \<open>\<open>operator<<\<close> with \<open>setfill('0')\<close> and \<open>setw(6)\<close>.\<close>

definition zero_pad :: "nat \<Rightarrow> nat \<Rightarrow> string" where
  "zero_pad w n = replicate (w - length (to_string n)) (CHR ''0'') @ to_string n"

definition binlog_name_str :: "composite_binlog_name \<Rightarrow> string" where
  "binlog_name_str n =
     get_base_name n @ [components_separator] @
     zero_pad number_of_sequence_number_characters (unat (get_sequence_number n))"

definition next_binlog_name :: "composite_binlog_name \<Rightarrow> composite_binlog_name result" where
  "next_binlog_name n = make_binlog_name (get_base_name n) (get_sequence_number n + 1)"

definition binlog_name_ok :: "composite_binlog_name \<Rightarrow> bool" where
  "binlog_name_ok n \<longleftrightarrow> make_binlog_name (get_base_name n) (get_sequence_number n) = Inr n"

section \<open>Lemmas\<close>

lemma zero_char: "digit_char 0 = CHR ''0''"
  by code_simp

lemma zero_pad_snoc:
  assumes "0 < w"
  shows "zero_pad (Suc w) n = zero_pad w (n div 10) @ [digit_char (n mod 10)]"
proof (cases "n < 10")
  case True
  have "replicate w (CHR ''0'') = replicate (w - 1) (CHR ''0'') @ [digit_char 0]"
    using assms replicate_append_same [of "w - 1" "CHR ''0''"]
    by (cases w) (simp_all add: zero_char)
  with True show ?thesis by (simp add: zero_pad_def to_string.simps [of n] to_string.simps [of 0])
next
  case False
  then show ?thesis by (simp add: zero_pad_def to_string.simps [of n])
qed

lemma digit_char_code: "isdigit c \<Longrightarrow> digit_char (char_code c - 48) = c"
  by (auto simp: digit_char_def isdigit_def)

lemma decimal_value_snoc: "decimal_value acc (ds @ [c]) = 10 * decimal_value acc ds + (char_code c - 48)"
  by (simp add: decimal_value_append)

lemma digit_value_less: "isdigit c \<Longrightarrow> char_code c - 48 < 10"
  by (auto simp: isdigit_def)

lemma zero_pad_decimal_value:
  "ds \<noteq> [] \<Longrightarrow> list_all isdigit ds \<Longrightarrow> zero_pad (length ds) (decimal_value 0 ds) = ds"
proof (induction ds rule: rev_induct)
  case (snoc c ds)
  have c: "isdigit c" "list_all isdigit ds" using snoc.prems by simp_all
  show ?case
  proof (cases "ds = []")
    case True
    then show ?thesis
      using digit_value_less [OF c(1)] by (simp add: zero_pad_def to_string.simps digit_char_code [OF c(1)])
  next
    case False
    have "zero_pad (Suc (length ds)) (decimal_value 0 (ds @ [c])) =
        zero_pad (length ds) (decimal_value 0 ds) @ [digit_char (char_code c - 48)]"
      using zero_pad_snoc [of "length ds" "decimal_value 0 (ds @ [c])"] False digit_value_less [OF c(1)]
      by (simp add: decimal_value_snoc)
    then show ?thesis using snoc.IH [OF False c(2)] by (simp add: digit_char_code [OF c(1)])
  qed
qed simp

lemma decimal_value_bound: "list_all isdigit ds \<Longrightarrow> decimal_value 0 ds < 10 ^ length ds"
proof (induction ds rule: rev_induct)
  case (snoc c ds)
  then have "decimal_value 0 ds < 10 ^ length ds" and "char_code c - 48 < 10"
    using digit_value_less by auto
  then show ?case by (simp add: decimal_value_snoc)
qed simp

lemma decimal_value_zeros: "decimal_value 0 (replicate k (CHR ''0'')) = 0"
  by (induction k) simp_all

lemma decimal_value_zero_pad: "decimal_value 0 (zero_pad w n) = n"
  by (simp add: zero_pad_def decimal_value_append decimal_value_zeros decimal_value_to_string)

lemma isdigit_zero_pad: "list_all isdigit (zero_pad w n)"
  using isdigit_digit_char [of 0] by (auto simp: zero_pad_def list_all_iff to_string_digits zero_char)

lemma length_zero_pad:
  assumes "n < 10 ^ w" and "0 < w"
  shows "length (zero_pad w n) = w"
  using assms
proof (induction w arbitrary: n)
  case (Suc w)
  show ?case
  proof (cases "w = 0")
    case True
    then show ?thesis using Suc.prems by (simp add: zero_pad_def to_string.simps)
  next
    case False
    have "n div 10 < 10 ^ w" using Suc.prems(1) by (simp add: less_mult_imp_div_less)
    then show ?thesis using Suc.IH False by (simp add: zero_pad_snoc)
  qed
qed simp

lemma make_binlog_name_Inr:
  "make_binlog_name b s = Inr n \<longleftrightarrow>
   n = Composite_binlog_name b s \<and> b \<noteq> [] \<and> preferred_separator \<notin> set b \<and> 0 < unat s \<and> unat s < 1000000"
  by (auto simp: make_binlog_name_def result_simps number_of_sequence_number_characters_def not_le
      word_less_nat_alt unat_gt_0)

lemma binlog_name_ok_iff:
  "binlog_name_ok n \<longleftrightarrow> get_base_name n \<noteq> [] \<and> preferred_separator \<notin> set (get_base_name n) \<and>
     0 < unat (get_sequence_number n) \<and> unat (get_sequence_number n) < 1000000"
  by (cases n) (simp add: binlog_name_ok_def make_binlog_name_Inr)

lemma parse_binlog_name_str:
  assumes "binlog_name_ok n"
  shows "parse_binlog_name (binlog_name_str n) = Inr n"
proof -
  let ?d = "zero_pad 6 (unat (get_sequence_number n))"
  have len: "length ?d = 6" using assms by (intro length_zero_pad) (simp_all add: binlog_name_ok_iff)
  have base: "0 < length (get_base_name n)" using assms by (simp add: binlog_name_ok_iff)
  have s: "binlog_name_str n = get_base_name n @ components_separator # ?d"
    by (simp add: binlog_name_str_def number_of_sequence_number_characters_def)
  have "from_chars_uint32 ?d = Some (get_sequence_number n)"
  proof -
    have "?d \<noteq> []" using len by auto
    moreover have "uint (get_sequence_number n) < 2 ^ LENGTH(32)" by (rule unsigned_less)
    ultimately show ?thesis by (simp add: from_chars_uint32_def isdigit_zero_pad decimal_value_zero_pad)
  qed
  moreover have "length (binlog_name_str n) - 6 - 1 = length (get_base_name n)" by (simp add: s len)
  ultimately show ?thesis
    using assms base len
    by (simp add: parse_binlog_name_def number_of_sequence_number_characters_def s nth_append binlog_name_ok_def)
qed

lemma binlog_name_str_parse:
  assumes "parse_binlog_name s = Inr n"
  shows "binlog_name_str n = s \<and> binlog_name_ok n"
proof -
  let ?p = "length s - 6 - 1"
  obtain q where len: "7 < length s" and sep: "s ! ?p = components_separator"
    and q: "from_chars_uint32 (drop (?p + 1) s) = Some q" and n: "make_binlog_name (take ?p s) q = Inr n"
    using assms
    by (auto simp: parse_binlog_name_def number_of_sequence_number_characters_def result_simps Let_def not_le)
  have ds: "length (drop (?p + 1) s) = 6" using len by simp
  have "list_all isdigit (drop (?p + 1) s)" and q': "q = of_nat (decimal_value 0 (drop (?p + 1) s))"
    using q by (auto simp: from_chars_uint32_def split: if_splits)
  moreover from this have "unat q = decimal_value 0 (drop (?p + 1) s)"
    using decimal_value_bound [of "drop (?p + 1) s"] ds
    by (simp add: unat_of_nat)
  ultimately have "zero_pad 6 (unat q) = drop (?p + 1) s"
    using zero_pad_decimal_value [of "drop (?p + 1) s"] ds by fastforce
  moreover have "s = take ?p s @ [s ! ?p] @ drop (?p + 1) s"
    using len by (simp add: id_take_nth_drop)
  ultimately show ?thesis
    using n sep
    by (auto simp: make_binlog_name_Inr binlog_name_str_def number_of_sequence_number_characters_def binlog_name_ok_iff)
qed

section \<open>Properties\<close>

text \<open>
  C33: The text of a binlog name and the name determine each other: parsing the printed form of a valid
  name gives it back, and every text that parses is the printed form of the resulting name.
\<close>

theorem binlog_name_text_bijection:
  "(binlog_name_ok n \<longrightarrow> parse_binlog_name (binlog_name_str n) = Inr n) \<and>
   (parse_binlog_name s = Inr n \<longrightarrow> binlog_name_str n = s \<and> binlog_name_ok n)"
  using parse_binlog_name_str binlog_name_str_parse by blast

theorem binlog_name_text_bijection_witness:
  "parse_binlog_name (binlog_name_str (Composite_binlog_name ''binlog'' 42)) = Inr (Composite_binlog_name ''binlog'' 42)"
proof -
  have "binlog_name_ok (Composite_binlog_name ''binlog'' 42)" by (simp add: binlog_name_ok_iff preferred_separator_def)
  then show ?thesis using binlog_name_text_bijection by blast
qed

end
