(* ===== verification/Timestamp_Range.thy ===== *)
theory Timestamp_Range
  imports Prelude
begin

text \<open>
  The interval of event timestamps of a binlog file (\<open>ctime_timestamp_range.cpp\<close>). A
  \<open>ctime_timestamp\<close> is a \<open>time_t\<close>, here an integer (the sources only compare them); the epoch
  marks an unset timestamp. The lemmas characterise a range as the least and greatest of the
  timestamps that were added.
\<close>

section \<open>Model\<close>

type_synonym ctime_timestamp = int

definition is_epoch :: "ctime_timestamp \<Rightarrow> bool" where
  "is_epoch t \<longleftrightarrow> t = 0"

record ctime_timestamp_range =
  min_timestamp :: ctime_timestamp
  max_timestamp :: ctime_timestamp

definition empty_range :: ctime_timestamp_range where
  "empty_range = \<lparr> min_timestamp = 0, max_timestamp = 0 \<rparr>"

definition make_timestamp_range :: "ctime_timestamp \<Rightarrow> ctime_timestamp \<Rightarrow> ctime_timestamp_range" where
  "make_timestamp_range min_ts max_ts =
     (let min_ts' = (if is_epoch min_ts \<and> \<not> is_epoch max_ts then max_ts else min_ts);
          max_ts' = (if \<not> is_epoch min_ts' \<and> is_epoch max_ts then min_ts' else max_ts)
      in \<lparr> min_timestamp = min_ts', max_timestamp = max_ts' \<rparr>)"

definition range_is_empty :: "ctime_timestamp_range \<Rightarrow> bool" where
  "range_is_empty r \<longleftrightarrow> is_epoch (min_timestamp r)"

definition range_clear :: "ctime_timestamp_range \<Rightarrow> ctime_timestamp_range" where
  "range_clear r = r\<lparr> min_timestamp := 0, max_timestamp := 0 \<rparr>"

definition add_timestamp :: "ctime_timestamp \<Rightarrow> ctime_timestamp_range \<Rightarrow> ctime_timestamp_range" where
  "add_timestamp timestamp r =
     (if is_epoch timestamp then r
      else if range_is_empty r then \<lparr> min_timestamp = timestamp, max_timestamp = timestamp \<rparr>
      else \<lparr> min_timestamp = min (min_timestamp r) timestamp, max_timestamp = max (max_timestamp r) timestamp \<rparr>)"

definition add_range :: "ctime_timestamp_range \<Rightarrow> ctime_timestamp_range \<Rightarrow> ctime_timestamp_range" where
  "add_range added r =
     (if range_is_empty added then r
      else if range_is_empty r then added
      else \<lparr> min_timestamp = min (min_timestamp r) (min_timestamp added),
             max_timestamp = max (max_timestamp r) (max_timestamp added) \<rparr>)"

section \<open>Ranges as sets of timestamps\<close>

text \<open>The range of the timestamps \<open>ts\<close>, all later than the epoch.\<close>

definition range_of :: "ctime_timestamp list \<Rightarrow> ctime_timestamp_range" where
  "range_of ts = (let S = set (filter (\<lambda>t. \<not> is_epoch t) ts) in
     if S = {} then empty_range else \<lparr> min_timestamp = Min S, max_timestamp = Max S \<rparr>)"

lemma range_clear_eq [simp]: "range_clear r = empty_range"
  by (simp add: range_clear_def empty_range_def)

lemma empty_range_is_empty [simp]: "range_is_empty empty_range"
  by (simp add: range_is_empty_def empty_range_def is_epoch_def)

lemma range_of_Nil [simp]: "range_of [] = empty_range"
  by (simp add: range_of_def)

lemma range_is_empty_range_of: "range_is_empty (range_of ts) \<longleftrightarrow> filter (\<lambda>t. \<not> is_epoch t) ts = []"
proof (cases "filter (\<lambda>t. \<not> is_epoch t) ts = []")
  case False
  let ?S = "set (filter (\<lambda>t. \<not> is_epoch t) ts)"
  have "Min ?S \<in> ?S" using False by (intro Min_in) (simp_all del: set_filter)
  then have "\<not> is_epoch (Min ?S)" by simp
  then show ?thesis using False by (simp add: range_of_def range_is_empty_def Let_def del: set_filter)
qed (simp add: range_of_def del: set_filter)

lemma add_range_range_of: "add_range (range_of ts) (range_of us) = range_of (us @ ts)"
proof -
  let ?S = "set (filter (\<lambda>t. \<not> is_epoch t) ts)" and ?T = "set (filter (\<lambda>t. \<not> is_epoch t) us)"
  have app: "set (filter (\<lambda>t. \<not> is_epoch t) (us @ ts)) = ?T \<union> ?S" by (simp add: Un_commute)
  show ?thesis
  proof (cases "?S = {} \<or> ?T = {}")
    case True
    have "range_of (us @ ts) = range_of ts" if "?T = {}" using that app by (simp add: range_of_def Let_def)
    moreover have "range_of (us @ ts) = range_of us" if "?S = {}" using that app by (simp add: range_of_def Let_def)
    moreover have "range_of vs = empty_range" if "filter (\<lambda>t. \<not> is_epoch t) vs = []" for vs
      by (simp only: range_of_def that Let_def set_simps if_True simp_thms)
    ultimately show ?thesis using True
      by (auto simp: add_range_def range_is_empty_range_of simp del: set_filter)
  next
    case False
    then have "Min (?T \<union> ?S) = min (Min ?T) (Min ?S)" "Max (?T \<union> ?S) = max (Max ?T) (Max ?S)"
      by (simp_all only: Min_Un Max_Un List.finite_set de_Morgan_disj not_False_eq_True)
    moreover have "\<not> range_is_empty (range_of us)" "\<not> range_is_empty (range_of ts)"
      using False by (simp_all add: range_is_empty_range_of del: set_filter)
    then have "add_range (range_of ts) (range_of us) =
        \<lparr> min_timestamp = min (min_timestamp (range_of us)) (min_timestamp (range_of ts)),
          max_timestamp = max (max_timestamp (range_of us)) (max_timestamp (range_of ts)) \<rparr>"
      by (simp add: add_range_def)
    ultimately show ?thesis using False by (simp add: range_of_def app Let_def del: set_filter)
  qed
qed

lemma add_timestamp_eq: "add_timestamp t r = add_range (range_of [t]) r"
  by (simp add: add_timestamp_def add_range_def range_of_def empty_range_def range_is_empty_def is_epoch_def)

lemma add_timestamp_range_of: "add_timestamp t (range_of ts) = range_of (ts @ [t])"
  by (simp add: add_timestamp_eq add_range_range_of)

text \<open>
  The range that results from adding timestamps one by one, or from joining the ranges of two
  groups of events, holds the least and the greatest of the timestamps other than the epoch.
\<close>

lemma timestamp_range_correct:
  "fold add_timestamp ts empty_range = range_of ts \<and>
   add_range (fold add_timestamp us empty_range) (fold add_timestamp ts empty_range) = range_of (ts @ us)"
proof -
  have fold: "fold add_timestamp vs (range_of ws) = range_of (ws @ vs)" for vs ws
    by (induction vs arbitrary: ws) (simp_all add: add_timestamp_range_of)
  show ?thesis using fold [of _ "[]"] by (simp add: add_range_range_of)
qed

end
