(* ===== verification/Backend.thy ===== *)
theory Backend
  imports Text "HOL-Library.AList"
begin

text \<open>
  The storage backend: the stream protocol of \<open>basic_storage_backend.cpp\<close> over the operations of
  \<open>filesystem_storage_backend.cpp\<close>. The storage directory is an association list from file names to
  contents; the operating system is assumed to carry out reads, writes, renames and fsyncs, so the
  remaining errors are those the sources detect themselves. The locale \<open>object_store\<close> states what
  the storage relies on.
\<close>

section \<open>Paths\<close>

text \<open>\<open>std::filesystem::path::extension\<close> of a plain file name.\<close>

definition path_extension :: "string \<Rightarrow> string" where
  "path_extension s =
     (let suffix = takeWhile (\<lambda>c. c \<noteq> CHR ''.'') (rev s);
          stem = dropWhile (\<lambda>c. c \<noteq> CHR ''.'') (rev s)
      in if s = ''..'' \<or> stem = [] \<or> tl stem = [] then [] else CHR ''.'' # rev suffix)"

text \<open>\<open>parent_path\<close> and \<open>filename\<close>: what precedes and what follows the last separator.\<close>

definition path_filename :: "string \<Rightarrow> string" where
  "path_filename s = rev (takeWhile (\<lambda>c. c \<noteq> CHR ''/'') (rev s))"

definition path_parent :: "string \<Rightarrow> string" where
  "path_parent s =
     (let directory = dropWhile (\<lambda>c. c \<noteq> CHR ''/'') (rev s);
          stripped = dropWhile (\<lambda>c. c = CHR ''/'') directory
      in if directory \<noteq> [] \<and> stripped = [] then ''/'' else rev stripped)"

section \<open>The filesystem backend\<close>

datatype open_stream_mode = Stream_create | Stream_append

type_synonym objects = "(string \<times> byte list) list"
type_synonym storage_object_names = "(string \<times> uint64) list"

record fs_backend =
  fs_objects :: objects
  fs_ofs :: "string option"
  fs_stream_open :: bool

definition tmp_object_suffix :: string where "tmp_object_suffix = ''.tmp''"
definition max_memory_object_size :: int where "max_memory_object_size = 1048576"

definition list_objects :: "fs_backend \<Rightarrow> storage_object_names" where
  "list_objects b =
     map (\<lambda>(name, content). (name, of_nat (length content)))
       (filter (\<lambda>(name, content). path_extension name \<noteq> tmp_object_suffix) (fs_objects b))"

definition get_object :: "string \<Rightarrow> fs_backend \<Rightarrow> byte list result" where
  "get_object name b =
     rbind (or_raise (map_of (fs_objects b) name) (Runtime_error ''cannot open underlying object file'')) (\<lambda>content.
     rbind (ensure (\<not> int (length content) > max_memory_object_size)
       (Out_of_range ''underlying object file is too large to be loaded in memory'')) (\<lambda>_.
     Inr content))"

text \<open>The write to a temporary file followed by the atomic rename over the object.\<close>

definition put_object :: "string \<Rightarrow> byte list \<Rightarrow> fs_backend \<Rightarrow> fs_backend" where
  "put_object name content b = b\<lparr> fs_objects := AList.update name content (fs_objects b) \<rparr>"

definition do_remove_object :: "string \<Rightarrow> fs_backend \<Rightarrow> fs_backend result" where
  "do_remove_object name b =
     rbind (or_raise (map_of (fs_objects b) name)
       (Runtime_error ''cannot remove underlying object file: file does not exist'')) (\<lambda>_.
     Inr (b\<lparr> fs_objects := AList.delete name (fs_objects b) \<rparr>))"

definition remove_object :: "string \<Rightarrow> fs_backend \<Rightarrow> fs_backend result" where
  "remove_object name b = do_remove_object name b"

text \<open>The batch removal: every removal is tried, the first failure is reported at the end.\<close>

primrec remove_loop :: "string list \<Rightarrow> fs_backend \<Rightarrow> cpp_error option \<Rightarrow> fs_backend \<times> cpp_error option" where
  "remove_loop [] b first_error = (b, first_error)"
| "remove_loop (name # names) b first_error =
     (case do_remove_object name b of
        Inl e \<Rightarrow> remove_loop names b (if first_error = None then Some e else first_error)
      | Inr b' \<Rightarrow> remove_loop names b' first_error)"

definition remove_objects :: "string list \<Rightarrow> fs_backend \<Rightarrow> fs_backend \<times> cpp_error option" where
  "remove_objects names b = remove_loop names b None"

definition do_open_stream :: "string \<Rightarrow> open_stream_mode \<Rightarrow> fs_backend \<Rightarrow> (uint64 \<times> fs_backend) result" where
  "do_open_stream name mode b =
     rbind (ensure (fs_ofs b = None) (Undefined_behaviour ''do_open_stream'')) (\<lambda>_.
     let content = (case mode of
           Stream_create \<Rightarrow> []
         | Stream_append \<Rightarrow> (case map_of (fs_objects b) name of None \<Rightarrow> [] | Some content \<Rightarrow> content))
     in Inr (of_nat (length content),
             b\<lparr> fs_objects := AList.update name content (fs_objects b), fs_ofs := Some name \<rparr>))"

definition open_stream :: "string \<Rightarrow> open_stream_mode \<Rightarrow> fs_backend \<Rightarrow> (uint64 \<times> fs_backend) result" where
  "open_stream name mode b =
     rbind (ensure (\<not> fs_stream_open b)
       (Logic_error ''cannot open a new stream as the previous one has not been closed'')) (\<lambda>_.
     rbind (do_open_stream name mode b) (\<lambda>(result, b).
     Inr (result, b\<lparr> fs_stream_open := True \<rparr>)))"

definition do_write_data_to_stream :: "byte list \<Rightarrow> fs_backend \<Rightarrow> fs_backend result" where
  "do_write_data_to_stream data b =
     (case fs_ofs b of
        None \<Rightarrow> Inl (Undefined_behaviour ''do_write_data_to_stream'')
      | Some name \<Rightarrow>
          let content = (case map_of (fs_objects b) name of None \<Rightarrow> [] | Some content \<Rightarrow> content)
          in Inr (b\<lparr> fs_objects := AList.update name (content @ data) (fs_objects b) \<rparr>))"

definition write_data_to_stream :: "byte list \<Rightarrow> fs_backend \<Rightarrow> fs_backend result" where
  "write_data_to_stream data b =
     rbind (ensure (fs_stream_open b) (Logic_error ''cannot write to the stream as it has not been opened'')) (\<lambda>_.
     do_write_data_to_stream data b)"

definition do_close_stream :: "fs_backend \<Rightarrow> fs_backend result" where
  "do_close_stream b =
     rbind (ensure (fs_ofs b \<noteq> None) (Undefined_behaviour ''do_close_stream'')) (\<lambda>_.
     Inr (b\<lparr> fs_ofs := None \<rparr>))"

definition close_stream :: "fs_backend \<Rightarrow> fs_backend result" where
  "close_stream b =
     rbind (ensure (fs_stream_open b) (Logic_error ''cannot close the stream as it has not been opened'')) (\<lambda>_.
     rbind (do_close_stream b) (\<lambda>b.
     Inr (b\<lparr> fs_stream_open := False \<rparr>)))"

section \<open>What the storage relies on\<close>

definition backend_ok :: "fs_backend \<Rightarrow> bool" where
  "backend_ok b \<longleftrightarrow> distinct (map fst (fs_objects b)) \<and> (fs_stream_open b \<longleftrightarrow> fs_ofs b \<noteq> None) \<and>
     (\<forall>name. fs_ofs b = Some name \<longrightarrow> map_of (fs_objects b) name \<noteq> None)"

abbreviation contents :: "fs_backend \<Rightarrow> string \<Rightarrow> byte list option" where
  "contents b \<equiv> map_of (fs_objects b)"

locale object_store =
  fixes contents_of :: "'b \<Rightarrow> string \<Rightarrow> byte list option"
    and stream_of :: "'b \<Rightarrow> string option"
    and ok :: "'b \<Rightarrow> bool"
    and put :: "string \<Rightarrow> byte list \<Rightarrow> 'b \<Rightarrow> 'b"
    and open_s :: "string \<Rightarrow> open_stream_mode \<Rightarrow> 'b \<Rightarrow> (uint64 \<times> 'b) result"
    and write_s :: "byte list \<Rightarrow> 'b \<Rightarrow> 'b result"
    and close_s :: "'b \<Rightarrow> 'b result"
  assumes put_ok: "ok b \<Longrightarrow> ok (put name content b)"
    and put_contents: "ok b \<Longrightarrow> contents_of (put name content b) = (contents_of b)(name \<mapsto> content)"
    and put_stream: "ok b \<Longrightarrow> stream_of (put name content b) = stream_of b"
    and open_fails: "ok b \<Longrightarrow> stream_of b \<noteq> None \<Longrightarrow> \<not> is_ok (open_s name mode b)"
    and open_succeeds: "ok b \<Longrightarrow> stream_of b = None \<Longrightarrow>
      \<exists>b'. open_s name mode b = Inr (of_nat (length (case mode of Stream_create \<Rightarrow> []
          | Stream_append \<Rightarrow> (case contents_of b name of None \<Rightarrow> [] | Some c \<Rightarrow> c))), b') \<and> ok b' \<and>
        stream_of b' = Some name \<and>
        contents_of b' = (contents_of b)(name \<mapsto> (case mode of Stream_create \<Rightarrow> []
          | Stream_append \<Rightarrow> (case contents_of b name of None \<Rightarrow> [] | Some c \<Rightarrow> c)))"
    and write_fails: "ok b \<Longrightarrow> stream_of b = None \<Longrightarrow> \<not> is_ok (write_s data b)"
    and write_succeeds: "ok b \<Longrightarrow> stream_of b = Some name \<Longrightarrow>
      \<exists>b' content. write_s data b = Inr b' \<and> ok b' \<and> stream_of b' = Some name \<and>
        contents_of b name = Some content \<and> contents_of b' = (contents_of b)(name \<mapsto> content @ data)"
    and close_succeeds: "ok b \<Longrightarrow> stream_of b = Some name \<Longrightarrow>
      \<exists>b'. close_s b = Inr b' \<and> ok b' \<and> stream_of b' = None \<and> contents_of b' = contents_of b"
    and close_fails: "ok b \<Longrightarrow> stream_of b = None \<Longrightarrow> \<not> is_ok (close_s b)"

context object_store
begin

text \<open>Data written in pieces between opening a new object and closing it ends up concatenated in it.\<close>

lemma write_pieces:
  assumes "ok b" and "stream_of b = Some name" and "contents_of b name = Some content"
  shows "\<exists>b'. rfold write_s pieces b = Inr b' \<and> ok b' \<and> stream_of b' = Some name \<and>
    contents_of b' = (contents_of b)(name \<mapsto> content @ concat pieces)"
  using assms
proof (induction pieces arbitrary: b content)
  case Nil
  then show ?case by (auto simp: fun_upd_idem)
next
  case (Cons p pieces)
  obtain b1 where b1: "write_s p b = Inr b1" "ok b1" "stream_of b1 = Some name"
    "contents_of b1 = (contents_of b)(name \<mapsto> content @ p)"
    using write_succeeds [OF Cons.prems(1,2), of p] Cons.prems(3) by auto
  then have "contents_of b1 name = Some (content @ p)" by simp
  from Cons.IH [OF b1(2,3) this] b1 show ?case by (auto simp: fun_eq_iff)
qed

end

lemma backend_ok_update:
  "backend_ok b \<Longrightarrow> backend_ok (b\<lparr> fs_objects := AList.update name content (fs_objects b) \<rparr>)"
  by (auto simp: backend_ok_def distinct_update update_conv')

interpretation fs: object_store "\<lambda>b. contents b" fs_ofs backend_ok put_object open_stream write_data_to_stream close_stream
proof
  fix b :: fs_backend and name :: string and content data :: "byte list" and mode
  assume ok: "backend_ok b"
  show "backend_ok (put_object name content b)" using ok by (simp add: put_object_def backend_ok_update)
  show "contents (put_object name content b) = (contents b)(name \<mapsto> content)"
    by (simp add: put_object_def update_conv')
  show "fs_ofs (put_object name content b) = fs_ofs b" by (simp add: put_object_def)
  show "\<not> is_ok (open_stream name mode b)" if "fs_ofs b \<noteq> None"
    using ok that by (simp add: open_stream_def backend_ok_def)
  show "\<not> is_ok (write_data_to_stream data b)" if "fs_ofs b = None"
    using ok that by (simp add: write_data_to_stream_def backend_ok_def)
  show "\<not> is_ok (close_stream b)" if "fs_ofs b = None"
    using ok that by (simp add: close_stream_def backend_ok_def)
  show "\<exists>b'. open_stream name mode b = Inr (of_nat (length (case mode of Stream_create \<Rightarrow> []
          | Stream_append \<Rightarrow> (case contents b name of None \<Rightarrow> [] | Some c \<Rightarrow> c))), b') \<and> backend_ok b' \<and>
        fs_ofs b' = Some name \<and>
        contents b' = (contents b)(name \<mapsto> (case mode of Stream_create \<Rightarrow> []
          | Stream_append \<Rightarrow> (case contents b name of None \<Rightarrow> [] | Some c \<Rightarrow> c)))"
    if "fs_ofs b = None"
    using ok that
    by (simp add: open_stream_def do_open_stream_def backend_ok_def Let_def distinct_update update_conv')
  show "\<exists>b' content. write_data_to_stream data b = Inr b' \<and> backend_ok b' \<and> fs_ofs b' = Some name \<and>
        contents b name = Some content \<and> contents b' = (contents b)(name \<mapsto> content @ data)"
    if "fs_ofs b = Some name"
    using ok that
    by (auto simp: write_data_to_stream_def do_write_data_to_stream_def backend_ok_def distinct_update update_conv')
  show "\<exists>b'. close_stream b = Inr b' \<and> backend_ok b' \<and> fs_ofs b' = None \<and> contents b' = contents b"
    if "fs_ofs b = Some name"
    using ok that by (simp add: close_stream_def do_close_stream_def backend_ok_def)
qed

lemma remove_loop_removes:
  "\<forall>name \<in> set names. contents b name \<noteq> None \<Longrightarrow> distinct names \<Longrightarrow>
   \<exists>b'. remove_loop names b e = (b', e) \<and> contents b' = (contents b) |` (- set names) \<and>
     fs_ofs b' = fs_ofs b \<and> fs_stream_open b' = fs_stream_open b \<and>
     (distinct (map fst (fs_objects b)) \<longrightarrow> distinct (map fst (fs_objects b')))"
proof (induction names arbitrary: b)
  case Nil
  then show ?case by (simp add: restrict_map_def)
next
  case (Cons name names)
  let ?b = "b\<lparr> fs_objects := AList.delete name (fs_objects b) \<rparr>"
  have "do_remove_object name b = Inr ?b" using Cons.prems(1) by (auto simp: do_remove_object_def)
  moreover have "contents ?b = (contents b)(name := None)" by (simp add: delete_conv')
  moreover have "\<forall>n \<in> set names. contents ?b n \<noteq> None" using Cons.prems by (auto simp: delete_conv')
  ultimately show ?case
    using Cons.IH [of ?b] Cons.prems(2)
    by (auto simp: restrict_map_def fun_eq_iff distinct_delete)
qed

end
