(* ===== verification/Storage.thy ===== *)
theory Storage
  imports Event_View Gtid_Set Binlog_Name Timestamp_Range Backend
begin

text \<open>
  The class \<open>storage\<close> (\<open>storage.cpp\<close>, \<open>storage.hpp\<close>): binlog files with a metadata file each, an
  index of the files and the metadata of the whole storage, kept in a backend. Events are
  buffered and written up to the last transaction boundary at checkpoints, when a binlog is
  closed and on request. The texts of the metadata files are the business of two other classes
  (theory \<open>Metadata\<close>) and are given as a record of functions (\<open>metadata_codec\<close>); the interval
  container of the GTID sets and the readings of the clock are parameters too.
\<close>

section \<open>State\<close>

datatype storage_construction_mode = Querying_only | Streaming | Purging

datatype open_binlog_status =
  Created | Opened_empty | Opened_at_magic_payload_offset | Opened_with_data_present

record 'c binlog_record =
  br_name :: composite_binlog_name
  br_size :: uint64
  br_previous_gtids :: "'c gtid_set option"
  br_added_gtids :: "'c gtid_set option"
  br_timestamps :: ctime_timestamp_range
  br_last_sequence_number :: uint64

record 'c binlog_file_metadata =
  fm_size :: uint64
  fm_previous_gtids :: "'c gtid_set option"
  fm_added_gtids :: "'c gtid_set option"
  fm_min_timestamp :: ctime_timestamp
  fm_max_timestamp :: ctime_timestamp
  fm_last_sequence_number :: uint64

record 'c metadata_codec =
  storage_metadata_str :: "replication_mode_type \<Rightarrow> byte list"
  storage_metadata_parse :: "byte list \<Rightarrow> replication_mode_type result"
  file_metadata_str :: "'c binlog_file_metadata \<Rightarrow> byte list"
  file_metadata_parse :: "byte list \<Rightarrow> 'c binlog_file_metadata result"

record 'c storage =
  st_construction_mode :: storage_construction_mode
  st_backend :: fs_backend
  st_replication_mode :: replication_mode_type
  st_purged_gtids :: "'c gtid_set"
  st_binlog_records :: "'c binlog_record list"
  st_checkpoint_size_bytes :: uint64
  st_last_checkpoint_position :: uint64
  st_checkpoint_interval_seconds :: int
  st_last_checkpoint_timestamp :: int
  st_event_buffer :: "byte list"
  st_last_transaction_boundary :: nat
  st_gtids_in_event_buffer :: "'c gtid_set"
  st_ready_to_flush_timestamps :: ctime_timestamp_range
  st_incomplete_transaction_timestamps :: ctime_timestamp_range
  st_ready_to_flush_last_sequence_number :: uint64
  st_incomplete_transaction_last_sequence_number :: uint64

definition default_binlog_index_name :: string where "default_binlog_index_name = ''binlog.index''"
definition default_binlog_index_entry_path :: string where "default_binlog_index_entry_path = ''.''"
definition metadata_name :: string where "metadata_name = ''metadata.json''"
definition binlog_metadata_extension :: string where "binlog_metadata_extension = ''.json''"

section \<open>Queries\<close>

definition is_in_gtid_replication_mode :: "'c storage \<Rightarrow> bool" where
  "is_in_gtid_replication_mode s \<longleftrightarrow> st_replication_mode s = Gtid_mode"

definition storage_is_empty :: "'c storage \<Rightarrow> bool" where
  "storage_is_empty s \<longleftrightarrow> st_binlog_records s = []"

definition is_binlog_open :: "'c storage \<Rightarrow> bool" where
  "is_binlog_open s \<longleftrightarrow> fs_stream_open (st_backend s)"

definition get_current_binlog_name :: "'c storage \<Rightarrow> composite_binlog_name" where
  "get_current_binlog_name s =
     (if storage_is_empty s then empty_binlog_name else br_name (last (st_binlog_records s)))"

definition get_flushed_position :: "'c storage \<Rightarrow> uint64" where
  "get_flushed_position s = (if storage_is_empty s then 0 else br_size (last (st_binlog_records s)))"

definition get_current_position :: "'c storage \<Rightarrow> uint64" where
  "get_current_position s = get_flushed_position s + of_nat (length (st_event_buffer s))"

definition get_ready_to_flush_position :: "'c storage \<Rightarrow> uint64" where
  "get_ready_to_flush_position s = get_flushed_position s + of_nat (st_last_transaction_boundary s)"

definition has_event_data_to_flush :: "'c storage \<Rightarrow> bool" where
  "has_event_data_to_flush s \<longleftrightarrow> st_last_transaction_boundary s \<noteq> 0"

definition size_checkpointing_enabled :: "'c storage \<Rightarrow> bool" where
  "size_checkpointing_enabled s \<longleftrightarrow> st_checkpoint_size_bytes s \<noteq> 0"

definition interval_checkpointing_enabled :: "'c storage \<Rightarrow> bool" where
  "interval_checkpointing_enabled s \<longleftrightarrow> st_checkpoint_interval_seconds s \<noteq> 0"

definition get_last_transaction_sequence_number :: "'c storage \<Rightarrow> uint64" where
  "get_last_transaction_sequence_number s = st_incomplete_transaction_last_sequence_number s"

definition get_gtids :: "'c icl \<Rightarrow> 'c storage \<Rightarrow> 'c gtid_set" where
  "get_gtids I s =
     (if \<not> is_in_gtid_replication_mode s then []
      else if storage_is_empty s then st_purged_gtids s
      else
        let r = last (st_binlog_records s);
            previous = (case br_previous_gtids r of None \<Rightarrow> [] | Some g \<Rightarrow> g)
        in case br_added_gtids r of None \<Rightarrow> previous | Some added \<Rightarrow> add_set I added previous)"

definition ensure_streaming_mode :: "'c storage \<Rightarrow> unit result" where
  "ensure_streaming_mode s =
     ensure (st_construction_mode s = Streaming)
       (Logic_error ''operation requires storage to be constructed in streaming mode'')"

definition ensure_purging_mode :: "'c storage \<Rightarrow> unit result" where
  "ensure_purging_mode s =
     ensure (st_construction_mode s = Purging)
       (Logic_error ''operation requires storage to be constructed in purging mode'')"

definition set_purged_gtids :: "'c gtid_set \<Rightarrow> 'c storage \<Rightarrow> 'c storage result" where
  "set_purged_gtids purged_gtids s =
     rbind (ensure (is_in_gtid_replication_mode s)
       (Logic_error ''cannot set purged GTIDs in position-based replication mode'')) (\<lambda>_.
     rbind (ensure (storage_is_empty s) (Logic_error ''cannot set purged GTIDs in a non-empty storage'')) (\<lambda>_.
     Inr (s\<lparr> st_purged_gtids := purged_gtids \<rparr>)))"

section \<open>Metadata files and the index\<close>

definition generate_binlog_metadata_name :: "composite_binlog_name \<Rightarrow> string" where
  "generate_binlog_metadata_name binlog_name = binlog_name_str binlog_name @ binlog_metadata_extension"

definition file_metadata_of :: "'c binlog_record \<Rightarrow> 'c binlog_file_metadata" where
  "file_metadata_of r =
     \<lparr> fm_size = br_size r, fm_previous_gtids = br_previous_gtids r, fm_added_gtids = br_added_gtids r,
       fm_min_timestamp = min_timestamp (br_timestamps r), fm_max_timestamp = max_timestamp (br_timestamps r),
       fm_last_sequence_number = br_last_sequence_number r \<rparr>"

definition save_binlog_metadata :: "'c metadata_codec \<Rightarrow> 'c binlog_record \<Rightarrow> 'c storage \<Rightarrow> 'c storage" where
  "save_binlog_metadata C r s =
     s\<lparr> st_backend := put_object (generate_binlog_metadata_name (br_name r))
          (file_metadata_str C (file_metadata_of r)) (st_backend s) \<rparr>"

definition index_entry :: "composite_binlog_name \<Rightarrow> string" where
  "index_entry name = default_binlog_index_entry_path @ [preferred_separator] @ binlog_name_str name"

definition index_content :: "'c binlog_record list \<Rightarrow> string" where
  "index_content records = concat (map (\<lambda>r. index_entry (br_name r) @ [CHR 0x0A]) records)"

definition save_binlog_index :: "'c storage \<Rightarrow> 'c storage" where
  "save_binlog_index s =
     s\<lparr> st_backend := put_object default_binlog_index_name
          (as_const_byte_span (index_content (st_binlog_records s))) (st_backend s) \<rparr>"

definition save_metadata :: "'c metadata_codec \<Rightarrow> 'c storage \<Rightarrow> 'c storage" where
  "save_metadata C s =
     s\<lparr> st_backend := put_object metadata_name (storage_metadata_str C (st_replication_mode s)) (st_backend s) \<rparr>"

section \<open>Writing\<close>

definition update_last_checkpoint_info :: "int \<Rightarrow> 'c storage \<Rightarrow> 'c storage" where
  "update_last_checkpoint_info now s =
     (let s = (if size_checkpointing_enabled s
               then s\<lparr> st_last_checkpoint_position := get_current_position s \<rparr> else s)
      in if interval_checkpointing_enabled s then s\<lparr> st_last_checkpoint_timestamp := now \<rparr> else s)"

text \<open>\<open>get_current_binlog_record()\<close> updated in place.\<close>

definition update_current_record ::
    "('c binlog_record \<Rightarrow> 'c binlog_record) \<Rightarrow> 'c storage \<Rightarrow> 'c storage" where
  "update_current_record f s =
     s\<lparr> st_binlog_records := butlast (st_binlog_records s) @ [f (last (st_binlog_records s))] \<rparr>"

text \<open>The current record after its ready transactions have been written.\<close>

definition flushed_record :: "'c icl \<Rightarrow> 'c storage \<Rightarrow> 'c binlog_record \<Rightarrow> 'c binlog_record" where
  "flushed_record I s r =
     r\<lparr> br_size := br_size r + of_nat (st_last_transaction_boundary s),
        br_added_gtids :=
          (if is_in_gtid_replication_mode s
           then map_option (add_set I (st_gtids_in_event_buffer s)) (br_added_gtids r)
           else br_added_gtids r),
        br_timestamps := add_range (st_ready_to_flush_timestamps s) (br_timestamps r),
        br_last_sequence_number := st_ready_to_flush_last_sequence_number s \<rparr>"

definition flush_event_buffer_internal :: "'c icl \<Rightarrow> 'c metadata_codec \<Rightarrow> 'c storage \<Rightarrow> 'c storage result" where
  "flush_event_buffer_internal I C s =
     rbind (ensure (st_event_buffer s \<noteq> [] \<and> st_last_transaction_boundary s \<le> length (st_event_buffer s))
       (Undefined_behaviour ''flush_event_buffer_internal'')) (\<lambda>_.
     let n = st_last_transaction_boundary s;
         transactions_data = take n (st_event_buffer s) in
     rbind (write_data_to_stream transactions_data (st_backend s)) (\<lambda>b.
     rbind (ensure (st_binlog_records s \<noteq> []) (Undefined_behaviour ''get_current_binlog_record'')) (\<lambda>_.
     let s = update_current_record (flushed_record I s) (s\<lparr> st_backend := b \<rparr>);
         s = save_binlog_metadata C (last (st_binlog_records s)) s
     in Inr (s\<lparr> st_event_buffer := drop n (st_event_buffer s),
               st_last_transaction_boundary := 0,
               st_gtids_in_event_buffer :=
                 (if is_in_gtid_replication_mode s then [] else st_gtids_in_event_buffer s),
               st_ready_to_flush_timestamps := range_clear (st_ready_to_flush_timestamps s) \<rparr>))))"

definition flush_event_buffer :: "'c icl \<Rightarrow> 'c metadata_codec \<Rightarrow> 'c storage \<Rightarrow> 'c storage result" where
  "flush_event_buffer I C s =
     rbind (ensure_streaming_mode s) (\<lambda>_.
     if has_event_data_to_flush s then flush_event_buffer_internal I C s else Inr s)"

definition discard_incomplete_transaction_events :: "'c storage \<Rightarrow> 'c storage result" where
  "discard_incomplete_transaction_events s =
     rbind (ensure_streaming_mode s) (\<lambda>_.
     Inr (s\<lparr> st_event_buffer :=
               take (st_last_transaction_boundary s) (st_event_buffer s) @
               replicate (st_last_transaction_boundary s - length (st_event_buffer s)) 0,
             st_incomplete_transaction_timestamps := range_clear (st_incomplete_transaction_timestamps s),
             st_incomplete_transaction_last_sequence_number := st_ready_to_flush_last_sequence_number s \<rparr>))"

text \<open>The two halves of \<open>write_event\<close>: buffering, and the checkpoint that may follow.\<close>

definition buffer_event ::
    "'c icl \<Rightarrow> byte list \<Rightarrow> bool \<Rightarrow> gtid \<Rightarrow> ctime_timestamp \<Rightarrow> uint64 \<Rightarrow> 'c storage \<Rightarrow> 'c storage result" where
  "buffer_event I event_data at_transaction_boundary transaction_gtid event_timestamp
     transaction_sequence_number s =
     (let s = s\<lparr> st_event_buffer := st_event_buffer s @ event_data,
                 st_incomplete_transaction_timestamps :=
                   add_timestamp event_timestamp (st_incomplete_transaction_timestamps s),
                 st_incomplete_transaction_last_sequence_number :=
                   (if transaction_sequence_number \<noteq> 0 then transaction_sequence_number
                    else st_incomplete_transaction_last_sequence_number s) \<rparr> in
      if \<not> at_transaction_boundary then Inr s
      else
        rbind (if is_in_gtid_replication_mode s \<and> \<not> gtid_is_empty transaction_gtid
               then add_gtid I transaction_gtid (st_gtids_in_event_buffer s)
               else Inr (st_gtids_in_event_buffer s)) (\<lambda>g.
        Inr (s\<lparr> st_last_transaction_boundary := length (st_event_buffer s),
                st_gtids_in_event_buffer := g,
                st_ready_to_flush_timestamps :=
                  add_range (st_incomplete_transaction_timestamps s) (st_ready_to_flush_timestamps s),
                st_incomplete_transaction_timestamps := range_clear (st_incomplete_transaction_timestamps s),
                st_ready_to_flush_last_sequence_number := st_incomplete_transaction_last_sequence_number s \<rparr>)))"

definition needs_flush :: "int \<Rightarrow> 'c storage \<Rightarrow> bool" where
  "needs_flush now s \<longleftrightarrow>
     (size_checkpointing_enabled s \<and>
        get_ready_to_flush_position s \<ge> st_last_checkpoint_position s + st_checkpoint_size_bytes s) \<or>
     (interval_checkpointing_enabled s \<and>
        now \<ge> st_last_checkpoint_timestamp s + st_checkpoint_interval_seconds s)"

definition checkpoint :: "'c icl \<Rightarrow> 'c metadata_codec \<Rightarrow> int \<Rightarrow> 'c storage \<Rightarrow> 'c storage result" where
  "checkpoint I C now s =
     (if has_event_data_to_flush s \<and> needs_flush now s then
        let ready_to_flush_position = get_ready_to_flush_position s in
        rbind (flush_event_buffer_internal I C s) (\<lambda>s.
        Inr (s\<lparr> st_last_checkpoint_position := ready_to_flush_position, st_last_checkpoint_timestamp := now \<rparr>))
      else Inr s)"

definition write_event ::
    "'c icl \<Rightarrow> 'c metadata_codec \<Rightarrow> byte list \<Rightarrow> bool \<Rightarrow> gtid \<Rightarrow> ctime_timestamp \<Rightarrow> uint64 \<Rightarrow> int \<Rightarrow>
     'c storage \<Rightarrow> 'c storage result" where
  "write_event I C event_data at_transaction_boundary transaction_gtid event_timestamp
     transaction_sequence_number now s =
     rbind (ensure_streaming_mode s) (\<lambda>_.
     rbind (buffer_event I event_data at_transaction_boundary transaction_gtid event_timestamp
              transaction_sequence_number s) (\<lambda>s.
     checkpoint I C now s))"

section \<open>Opening and closing binlog files\<close>

definition open_new_binlog_file_internal ::
    "'c icl \<Rightarrow> 'c metadata_codec \<Rightarrow> composite_binlog_name \<Rightarrow> 'c storage \<Rightarrow>
     (open_binlog_status \<times> 'c storage) result" where
  "open_new_binlog_file_internal I C binlog_name s =
     rbind (write_data_to_stream magic_binlog_payload (st_backend s)) (\<lambda>b.
     let s = s\<lparr> st_backend := b \<rparr>;
         gtid_mode = is_in_gtid_replication_mode s;
         r = \<lparr> br_name = binlog_name, br_size = magic_binlog_offset,
               br_previous_gtids = (if gtid_mode then Some (get_gtids I s) else None),
               br_added_gtids = (if gtid_mode then Some [] else None),
               br_timestamps = empty_range, br_last_sequence_number = 0 \<rparr>;
         s = s\<lparr> st_binlog_records := st_binlog_records s @ [r] \<rparr>;
         s = save_binlog_index (save_binlog_metadata C r s)
     in Inr (Created, s))"

definition open_existing_binlog_file_internal ::
    "uint64 \<Rightarrow> 'c storage \<Rightarrow> (open_binlog_status \<times> 'c storage) result" where
  "open_existing_binlog_file_internal open_stream_offset s =
     rbind (ensure (get_current_position s = open_stream_offset)
       (Undefined_behaviour ''open_existing_binlog_file_internal'')) (\<lambda>_.
     if open_stream_offset \<ge> magic_binlog_offset then
       Inr (if open_stream_offset = magic_binlog_offset then Opened_at_magic_payload_offset
            else Opened_with_data_present, s)
     else
       rbind (ensure (open_stream_offset = 0) (Undefined_behaviour ''open_existing_binlog_file_internal'')) (\<lambda>_.
       rbind (write_data_to_stream magic_binlog_payload (st_backend s)) (\<lambda>b.
       Inr (Opened_empty,
            update_current_record (\<lambda>r. r\<lparr> br_size := magic_binlog_offset \<rparr>) (s\<lparr> st_backend := b \<rparr>)))))"

definition binlog_exists :: "composite_binlog_name \<Rightarrow> 'c storage \<Rightarrow> bool" where
  "binlog_exists binlog_name s \<longleftrightarrow> list_ex (\<lambda>r. br_name r = binlog_name) (st_binlog_records s)"

definition validate_open :: "composite_binlog_name \<Rightarrow> 'c storage \<Rightarrow> unit result" where
  "validate_open binlog_name s =
     (if \<not> binlog_exists binlog_name s then Inr ()
      else
        rbind (ensure (\<not> binlog_name \<noteq> get_current_binlog_name s)
          (Logic_error ''cannot open an existing binlog that is not the latest one for append'')) (\<lambda>_.
        ensure (\<not> get_current_position s = 0)
          (Logic_error ''invalid position set when opening an existing binlog'')))"

definition open_binlog ::
    "'c icl \<Rightarrow> 'c metadata_codec \<Rightarrow> composite_binlog_name \<Rightarrow> int \<Rightarrow> 'c storage \<Rightarrow>
     (open_binlog_status \<times> 'c storage) result" where
  "open_binlog I C binlog_name now s =
     rbind (ensure_streaming_mode s) (\<lambda>_.
     rbind (validate_open binlog_name s) (\<lambda>_.
     let exists = binlog_exists binlog_name s in
     rbind (open_stream (binlog_name_str binlog_name) (if exists then Stream_append else Stream_create)
              (st_backend s)) (\<lambda>(open_stream_offset, b).
     let s = s\<lparr> st_backend := b \<rparr> in
     rbind (if exists then open_existing_binlog_file_internal open_stream_offset s
            else open_new_binlog_file_internal I C binlog_name s) (\<lambda>(status, s).
     let n = (if exists then br_last_sequence_number (last (st_binlog_records s)) else 0);
         s = s\<lparr> st_ready_to_flush_last_sequence_number := n,
                st_incomplete_transaction_last_sequence_number := n \<rparr>;
         s = update_last_checkpoint_info now s in
     rbind (ensure (st_event_buffer s = [] \<and> \<not> has_event_data_to_flush s \<and>
                    gtid_set_is_empty (st_gtids_in_event_buffer s) \<and>
                    range_is_empty (st_ready_to_flush_timestamps s) \<and>
                    range_is_empty (st_incomplete_transaction_timestamps s))
       (Undefined_behaviour ''open_binlog'')) (\<lambda>_.
     Inr (status, s))))))"

definition close_binlog :: "'c icl \<Rightarrow> 'c metadata_codec \<Rightarrow> int \<Rightarrow> 'c storage \<Rightarrow> 'c storage result" where
  "close_binlog I C now s =
     rbind (ensure_streaming_mode s) (\<lambda>_.
     rbind (flush_event_buffer I C s) (\<lambda>s.
     let s = s\<lparr> st_event_buffer := [] \<rparr> in
     rbind (close_stream (st_backend s)) (\<lambda>b.
     Inr (update_last_checkpoint_info now (s\<lparr> st_backend := b \<rparr>)))))"

text \<open>The destructor: a last flush whose failure is swallowed.\<close>

definition destroy_storage :: "'c icl \<Rightarrow> 'c metadata_codec \<Rightarrow> 'c storage \<Rightarrow> fs_backend" where
  "destroy_storage I C s =
     st_backend (if st_construction_mode s = Streaming
                 then (case flush_event_buffer I C s of Inl _ \<Rightarrow> s | Inr s' \<Rightarrow> s') else s)"

end
