(* ===== verification/Metadata.thy ===== *)
theory Metadata
  imports Storage Gtid_Set_Text
begin

text \<open>
  The metadata files of a storage (\<open>storage_metadata.cpp\<close>, \<open>binlog_file_metadata.cpp\<close>) and the
  conversion of named tuples to and from JSON values (\<open>nv_tuple_to_json.hpp\<close>,
  \<open>nv_tuple_from_json.hpp\<close>) for the field types they use. The texts of JSON values (Boost.JSON), of
  points in time (Boost.Date_Time) and of UUIDs (Boost.UUID) are a parameter (\<open>boost_library\<close>). The
  result is that metadata is read back as it was written.
\<close>

section \<open>JSON values\<close>

datatype json_value =
    Json_null
  | Json_number int
  | Json_string string
  | Json_array "json_value list"
  | Json_object "(string \<times> json_value) list"

record boost_library =
  json_serialize :: "json_value \<Rightarrow> string"
  json_parse :: "string \<Rightarrow> json_value result"
  to_iso_extended_string :: "ctime_timestamp \<Rightarrow> string"
  from_iso_extended_string :: "string \<Rightarrow> ctime_timestamp option"
  uuid_to_text :: uuid_printer

text \<open>\<open>emplace_element_into_json_value\<close> for every field: a null value is left out.\<close>

definition object_of_fields :: "(string \<times> json_value) list \<Rightarrow> json_value" where
  "object_of_fields nvs = Json_object (filter (\<lambda>(_, v). v \<noteq> Json_null) nvs)"

text \<open>\<open>extract_element_from_json_value\<close>: a missing field is read as null.\<close>

definition object_field :: "string \<Rightarrow> (string \<times> json_value) list \<Rightarrow> json_value" where
  "object_field name obj = (case map_of obj name of None \<Rightarrow> Json_null | Some v \<Rightarrow> v)"

fun as_object :: "json_value \<Rightarrow> (string \<times> json_value) list option" where
  "as_object (Json_object nvs) = Some nvs"
| "as_object _ = None"

fun as_string :: "json_value \<Rightarrow> string option" where
  "as_string (Json_string s) = Some s"
| "as_string _ = None"

fun to_uint32 :: "json_value \<Rightarrow> uint32 option" where
  "to_uint32 (Json_number n) = (if 0 \<le> n \<and> n < 2 ^ 32 then Some (word_of_int n) else None)"
| "to_uint32 _ = None"

fun to_uint64 :: "json_value \<Rightarrow> uint64 option" where
  "to_uint64 (Json_number n) = (if 0 \<le> n \<and> n < 2 ^ 64 then Some (word_of_int n) else None)"
| "to_uint64 _ = None"

section \<open>Text conversions of the fields\<close>

text \<open>\<open>boost::lexical_cast\<close> of a text without leading and embedded whitespace, as \<open>input >> string\<close> reads it.\<close>

definition read_word :: "string \<Rightarrow> string option" where
  "read_word s = (if s = [] \<or> list_ex isspace s then None else Some s)"

definition replication_mode_str :: "replication_mode_type \<Rightarrow> string" where
  "replication_mode_str mode = (case mode of Position_mode \<Rightarrow> ''position'' | Gtid_mode \<Rightarrow> ''gtid'')"

definition replication_mode_of_string :: "string \<Rightarrow> replication_mode_type option" where
  "replication_mode_of_string s =
     Option.bind (read_word s) (\<lambda>w.
       if w = replication_mode_str Position_mode then Some Position_mode
       else if w = replication_mode_str Gtid_mode then Some Gtid_mode else None)"

definition timestamp_of_string :: "boost_library \<Rightarrow> string \<Rightarrow> ctime_timestamp option" where
  "timestamp_of_string B s = Option.bind (read_word s) (from_iso_extended_string B)"

text \<open>A GTID set is read with \<open>std::getline\<close>; nothing may follow the first line.\<close>

definition gtid_set_lexical_cast :: "'c icl \<Rightarrow> string \<Rightarrow> 'c gtid_set option" where
  "gtid_set_lexical_cast I s =
     (let line = takeWhile (\<lambda>c. c \<noteq> CHR 0x0A) s;
          rest = drop 1 (dropWhile (\<lambda>c. c \<noteq> CHR 0x0A) s)
      in if rest \<noteq> [] then None
         else case gtid_set_of_string I line of Inl _ \<Rightarrow> None | Inr g \<Rightarrow> Some g)"

definition optional_gtid_set_json :: "boost_library \<Rightarrow> 'c icl \<Rightarrow> 'c gtid_set option \<Rightarrow> json_value" where
  "optional_gtid_set_json B I g =
     (case g of None \<Rightarrow> Json_null | Some g \<Rightarrow> Json_string (gtid_set_str (uuid_to_text B) I g))"

definition optional_gtid_set_of_json :: "'c icl \<Rightarrow> json_value \<Rightarrow> 'c gtid_set option option" where
  "optional_gtid_set_of_json I v =
     (if v = Json_null then Some None
      else Option.bind (as_string v) (\<lambda>s. map_option Some (gtid_set_lexical_cast I s)))"

section \<open>Metadata\<close>

definition expected_storage_metadata_version :: uint32 where "expected_storage_metadata_version = 1"
definition expected_binlog_file_metadata_version :: uint32 where "expected_binlog_file_metadata_version = 1"

definition storage_metadata_json :: "replication_mode_type \<Rightarrow> json_value" where
  "storage_metadata_json mode =
     object_of_fields [(''version'', Json_number (uint expected_storage_metadata_version)),
                       (''mode'', Json_string (replication_mode_str mode))]"

definition storage_metadata_text :: "boost_library \<Rightarrow> replication_mode_type \<Rightarrow> byte list" where
  "storage_metadata_text B mode = as_const_byte_span (json_serialize B (storage_metadata_json mode))"

definition storage_metadata_fields :: "json_value \<Rightarrow> (uint32 \<times> replication_mode_type) option" where
  "storage_metadata_fields v =
     Option.bind (as_object v) (\<lambda>obj.
     Option.bind (to_uint32 (object_field ''version'' obj)) (\<lambda>version.
     Option.bind (Option.bind (as_string (object_field ''mode'' obj)) replication_mode_of_string) (\<lambda>mode.
     Some (version, mode))))"

definition storage_metadata_of_text :: "boost_library \<Rightarrow> byte list \<Rightarrow> replication_mode_type result" where
  "storage_metadata_of_text B data =
     rbind (json_parse B (as_string_view data)) (\<lambda>v.
     rbind (or_raise (storage_metadata_fields v) (Invalid_argument ''unable to extract'')) (\<lambda>(version, mode).
     rbind (ensure (\<not> version \<noteq> expected_storage_metadata_version)
       (Invalid_argument ''unsupported storage metadata version'')) (\<lambda>_.
     Inr mode)))"

definition file_metadata_json :: "boost_library \<Rightarrow> 'c icl \<Rightarrow> 'c binlog_file_metadata \<Rightarrow> json_value" where
  "file_metadata_json B I m =
     object_of_fields
       [(''version'', Json_number (uint expected_binlog_file_metadata_version)),
        (''size'', Json_number (uint (fm_size m))),
        (''previous_gtids'', optional_gtid_set_json B I (fm_previous_gtids m)),
        (''added_gtids'', optional_gtid_set_json B I (fm_added_gtids m)),
        (''min_timestamp'', Json_string (to_iso_extended_string B (fm_min_timestamp m))),
        (''max_timestamp'', Json_string (to_iso_extended_string B (fm_max_timestamp m))),
        (''last_sequence_number'', Json_number (uint (fm_last_sequence_number m)))]"

definition file_metadata_text :: "boost_library \<Rightarrow> 'c icl \<Rightarrow> 'c binlog_file_metadata \<Rightarrow> byte list" where
  "file_metadata_text B I m = as_const_byte_span (json_serialize B (file_metadata_json B I m))"

definition file_metadata_fields ::
    "boost_library \<Rightarrow> 'c icl \<Rightarrow> json_value \<Rightarrow> (uint32 \<times> 'c binlog_file_metadata) option" where
  "file_metadata_fields B I v =
     Option.bind (as_object v) (\<lambda>obj.
     Option.bind (to_uint32 (object_field ''version'' obj)) (\<lambda>version.
     Option.bind (to_uint64 (object_field ''size'' obj)) (\<lambda>size.
     Option.bind (optional_gtid_set_of_json I (object_field ''previous_gtids'' obj)) (\<lambda>previous_gtids.
     Option.bind (optional_gtid_set_of_json I (object_field ''added_gtids'' obj)) (\<lambda>added_gtids.
     Option.bind (Option.bind (as_string (object_field ''min_timestamp'' obj)) (timestamp_of_string B)) (\<lambda>min_ts.
     Option.bind (Option.bind (as_string (object_field ''max_timestamp'' obj)) (timestamp_of_string B)) (\<lambda>max_ts.
     Option.bind (to_uint64 (object_field ''last_sequence_number'' obj)) (\<lambda>last_sequence_number.
     Some (version, \<lparr> fm_size = size, fm_previous_gtids = previous_gtids, fm_added_gtids = added_gtids,
       fm_min_timestamp = min_ts, fm_max_timestamp = max_ts, fm_last_sequence_number = last_sequence_number \<rparr>)))))))))"

definition file_metadata_of_text :: "boost_library \<Rightarrow> 'c icl \<Rightarrow> byte list \<Rightarrow> 'c binlog_file_metadata result" where
  "file_metadata_of_text B I data =
     rbind (json_parse B (as_string_view data)) (\<lambda>v.
     rbind (or_raise (file_metadata_fields B I v) (Invalid_argument ''unable to extract'')) (\<lambda>(version, m).
     rbind (ensure (\<not> version \<noteq> expected_binlog_file_metadata_version)
       (Invalid_argument ''unsupported binlog file metadata version'')) (\<lambda>_.
     Inr m)))"

text \<open>The two classes as the storage uses them.\<close>

definition json_metadata :: "boost_library \<Rightarrow> 'c icl \<Rightarrow> 'c metadata_codec" where
  "json_metadata B I =
     \<lparr> storage_metadata_str = storage_metadata_text B, storage_metadata_parse = storage_metadata_of_text B,
       file_metadata_str = file_metadata_text B I, file_metadata_parse = file_metadata_of_text B I \<rparr>"

section \<open>Printed GTID sets have one line\<close>

lemma no_line_feed_digits: "isdigit c \<Longrightarrow> c \<noteq> CHR 0x0A"
  by (auto simp: isdigit_def)

lemma hex_char_no_line_feed: "d < 16 \<Longrightarrow> hex_char d \<noteq> CHR 0x0A"
proof
  assume "d < 16" and "hex_char d = CHR 0x0A"
  then have "char_code (hex_char d) = char_code (CHR 0x0A)" by simp
  then show False using char_code_hex_char [of d] \<open>d < 16\<close> by (simp add: of_char_def split: if_splits)
qed

lemma hex_pair_no_line_feed: "CHR 0x0A \<notin> set (hex_pair b)"
proof -
  have "unat b div 16 < 16" by (rule less_mult_imp_div_less) simp
  then show ?thesis
    using hex_char_no_line_feed [of "unat b div 16"] hex_char_no_line_feed [of "unat b mod 16"] by (simp add: hex_pair_def)
qed

lemma uuid_text_no_line_feed: "CHR 0x0A \<notin> set (uuid_text bs)"
  using hex_pair_no_line_feed by (simp add: uuid_text_def)

lemma line_feed_not_in_tag: "\<not> tag_first_character (CHR 0x0A)" "\<not> tag_other_character (CHR 0x0A)"
  by code_simp+

lemma tag_no_line_feed:
  assumes "tag_ok t"
  shows "CHR 0x0A \<notin> set (tag_get_name t)"
proof (cases "tag_get_name t")
  case (Cons c cs)
  then have "tag_first_character c" "\<forall>x \<in> set cs. tag_other_character x"
    using assms by (simp_all add: tag_ok_iff list_all_iff)
  then show ?thesis using line_feed_not_in_tag Cons by auto
qed simp

lemma gnos_no_line_feed: "CHR 0x0A \<notin> set (gno_container_str I c)"
proof -
  have "CHR 0x0A \<notin> set (to_string n)" for n using to_string_digits [of "CHR 0x0A" n] no_line_feed_digits by auto
  then show ?thesis
    by (auto simp: gno_container_str_def component_separator_def interval_separator_def Let_def split: if_splits)
qed

lemma gtid_set_str_chars:
  assumes "\<And>u m. (u, m) \<in> set data \<Longrightarrow> CHR 0x0A \<notin> set (uuid_str to_text u)"
    and "\<And>u m t c. (u, m) \<in> set data \<Longrightarrow> (t, c) \<in> set m \<Longrightarrow> CHR 0x0A \<notin> set (tag_get_name t)"
  shows "CHR 0x0A \<notin> set (gtid_set_str to_text I data)"
proof -
  let ?f = "\<lambda>(u, m) (first, result). (False, result @ (if \<not> first then [uuid_separator, uuid_separator_whitespace] else []) @
      uuid_str to_text u @ concat (map (\<lambda>(t, c).
        (if \<not> tag_is_empty t then component_separator # tag_get_name t else []) @ gno_container_str I c) m))"
  have "CHR 0x0A \<notin> set (snd (fold ?f data (b, r)))" if "CHR 0x0A \<notin> set r" for b r
    using assms that
  proof (induction data arbitrary: b r)
    case (Cons x data)
    obtain u m where x: "x = (u, m)" by fastforce
    have "CHR 0x0A \<notin> set (snd (?f x (b, r)))"
      using Cons.prems(1) [of u m] Cons.prems(2) [of u m] Cons.prems(3) gnos_no_line_feed [of I]
      by (auto simp: x uuid_separator_def uuid_separator_whitespace_def component_separator_def)
    moreover have "CHR 0x0A \<notin> set (uuid_str to_text u)" if "(u, m) \<in> set data" for u m
      using Cons.prems(1) [of u m] that by simp
    moreover have "CHR 0x0A \<notin> set (tag_get_name t)" if "(u, m) \<in> set data" "(t, c) \<in> set m" for u m t c
      using Cons.prems(2) [of u m t c] that by simp
    ultimately have "CHR 0x0A \<notin> set (snd (fold ?f data (False, snd (?f x (b, r)))))"
      by (intro Cons.IH)
    moreover have "fold ?f (x # data) (b, r) = fold ?f data (False, snd (?f x (b, r)))" by (simp add: x)
    ultimately show ?case by simp
  qed simp
  then show ?thesis by (simp add: gtid_set_str_def)
qed

lemma gtid_set_lexical_cast_line:
  assumes "CHR 0x0A \<notin> set s"
  shows "gtid_set_lexical_cast I s = (case gtid_set_of_string I s of Inl _ \<Rightarrow> None | Inr g \<Rightarrow> Some g)"
proof -
  have all: "\<forall>c \<in> set s. c \<noteq> CHR 0x0A" using assms by auto
  have t: "takeWhile (\<lambda>c. c \<noteq> CHR 0x0A) s = s" using all by (simp only: takeWhile_eq_all_conv)
  have d: "dropWhile (\<lambda>c. c \<noteq> CHR 0x0A) s = []" using all by (simp only: dropWhile_eq_Nil_conv)
  show ?thesis unfolding gtid_set_lexical_cast_def t d by simp
qed

context icl_interval_set begin

lemma gtid_set_str_one_line:
  assumes "gtid_set_inv I invar data" and "gtid_set_valid I data"
    and "\<And>bs. length bs = uuid_length \<Longrightarrow> to_text bs = uuid_text bs"
  shows "CHR 0x0A \<notin> set (gtid_set_str to_text I data)"
proof (rule gtid_set_str_chars)
  fix u m assume um: "(u, m) \<in> set data"
  have "uuid_ok u" using assms(1,2) um by (rule uuid_entry_facts)
  then show "CHR 0x0A \<notin> set (uuid_str to_text u)"
    using assms(3) uuid_text_no_line_feed by (simp add: uuid_str_def uuid_ok_def)
  fix t c assume tc: "(t, c) \<in> set m"
  then have e: "(u, t, c) \<in> set (gtid_entries data)" using um by (auto simp: set_gtid_entries)
  have "tag_ok t"
    using gtid_entries_inv [OF assms(1) e] e assms(2)
    by (fastforce simp: gtid_set_valid_def gtid_triple_ok_def gtid_set_abs_entries [OF assms(1)])
  then show "CHR 0x0A \<notin> set (tag_get_name t)" by (rule tag_no_line_feed)
qed

lemma gtid_set_json_roundtrip:
  assumes "gtid_set_inv I invar g" and "gtid_set_valid I g"
    and "\<And>bs. length bs = uuid_length \<Longrightarrow> uuid_to_text B bs = uuid_text bs"
  shows "\<exists>g'. optional_gtid_set_of_json I (optional_gtid_set_json B I (Some g)) = Some (Some g') \<and>
    gtid_set_inv I invar g' \<and> gtid_set_equal I g' g"
proof -
  let ?s = "gtid_set_str (uuid_to_text B) I g"
  have "CHR 0x0A \<notin> set ?s" using assms by (rule gtid_set_str_one_line)
  then have "gtid_set_lexical_cast I ?s = (case gtid_set_of_string I ?s of Inl _ \<Rightarrow> None | Inr g \<Rightarrow> Some g)"
    by (rule gtid_set_lexical_cast_line)
  moreover obtain g' where "gtid_set_of_string I ?s = Inr g'" "gtid_set_inv I invar g'" "gtid_set_equal I g' g"
    using print_parse [OF assms] by blast
  ultimately show ?thesis
    by (simp add: optional_gtid_set_of_json_def optional_gtid_set_json_def)
qed

end

section \<open>Reading back\<close>

text \<open>What the sources rely on in the Boost libraries, for the values that occur in a metadata file.\<close>

definition timestamp_text_ok :: "boost_library \<Rightarrow> ctime_timestamp \<Rightarrow> bool" where
  "timestamp_text_ok B t \<longleftrightarrow>
     (let s = to_iso_extended_string B t in s \<noteq> [] \<and> list_all (\<lambda>c. \<not> isspace c) s \<and> from_iso_extended_string B s = Some t)"

definition gtids_match :: "'c icl \<Rightarrow> 'c gtid_set option \<Rightarrow> 'c gtid_set option \<Rightarrow> bool" where
  "gtids_match I g g' \<longleftrightarrow> (case (g, g') of (None, None) \<Rightarrow> True | (Some g, Some g') \<Rightarrow> gtid_set_equal I g' g | _ \<Rightarrow> False)"

lemma timestamp_text: "timestamp_text_ok B t \<Longrightarrow> timestamp_of_string B (to_iso_extended_string B t) = Some t"
  by (auto simp: timestamp_text_ok_def timestamp_of_string_def read_word_def Let_def list_ex_iff list_all_iff)

lemma to_uint64_uint [simp]: "to_uint64 (Json_number (uint (n :: uint64))) = Some n"
  using uint_lt2p [of n] by simp

lemma object_fields:
  "as_object (object_of_fields nvs) = Some (filter (\<lambda>(_, v). v \<noteq> Json_null) nvs)"
  by (simp add: object_of_fields_def)

lemma object_field_filter:
  "distinct (map fst nvs) \<Longrightarrow> (name, v) \<in> set nvs \<Longrightarrow> object_field name (filter (\<lambda>(_, v). v \<noteq> Json_null) nvs) = v"
proof (induction nvs)
  case (Cons nv nvs)
  have none: "map_of (filter (\<lambda>(_, v). v \<noteq> Json_null) nvs) name = None" if "name \<notin> fst ` set nvs"
    using that by (auto simp: map_of_eq_None_iff image_iff)
  show ?case
  proof (cases "nv = (name, v)")
    case True
    then show ?thesis using none Cons.prems(1) by (simp add: object_field_def)
  next
    case False
    then have "(name, v) \<in> set nvs" using Cons.prems(2) by simp
    moreover from this have "fst nv \<noteq> name" using Cons.prems(1) by (metis distinct.simps(2) fst_conv image_eqI list.simps(9) list.set_map)
    ultimately show ?thesis using Cons.IH Cons.prems(1) by (auto simp: object_field_def split: prod.splits)
  qed
qed simp

lemma mode_text: "replication_mode_of_string (replication_mode_str mode) = Some mode"
proof -
  have "replication_mode_of_string (replication_mode_str Position_mode) = Some Position_mode"
    "replication_mode_of_string (replication_mode_str Gtid_mode) = Some Gtid_mode" by code_simp+
  then show ?thesis by (cases mode) simp_all
qed

lemma storage_metadata_reads_back:
  assumes "json_parse B (json_serialize B (storage_metadata_json mode)) = Inr (storage_metadata_json mode)"
  shows "storage_metadata_of_text B (storage_metadata_text B mode) = Inr mode"
proof -
  have "storage_metadata_fields (storage_metadata_json mode) = Some (1, mode)"
    using mode_text [of mode]
    by (simp add: storage_metadata_fields_def storage_metadata_json_def object_fields object_field_def
        expected_storage_metadata_version_def)
  then show ?thesis
    using assms by (simp add: storage_metadata_of_text_def storage_metadata_text_def or_raise_def expected_storage_metadata_version_def)
qed

text \<open>
  C16: Metadata is read back as it was written: the replication mode of a storage, and the size, timestamps,
  sequence number and GTID sets of a binlog file, the latter as equal sets, given that Boost.JSON
  parses what it serialised, that Boost.Date_Time reads its own ISO texts, and that Boost prints
  UUIDs in their documented form.
\<close>

theorem metadata_reads_back:
  assumes "icl_interval_set I invar"
    and "\<And>g. g \<in> set_option (fm_previous_gtids m) \<union> set_option (fm_added_gtids m) \<Longrightarrow>
      gtid_set_inv I invar g \<and> gtid_set_valid I g"
    and "\<And>bs. length bs = uuid_length \<Longrightarrow> uuid_to_text B bs = uuid_text bs"
    and "timestamp_text_ok B (fm_min_timestamp m)" and "timestamp_text_ok B (fm_max_timestamp m)"
    and "json_parse B (json_serialize B (file_metadata_json B I m)) = Inr (file_metadata_json B I m)"
    and "json_parse B (json_serialize B (storage_metadata_json mode)) = Inr (storage_metadata_json mode)"
  shows "storage_metadata_of_text B (storage_metadata_text B mode) = Inr mode \<and>
    (\<exists>m'. file_metadata_of_text B I (file_metadata_text B I m) = Inr m' \<and> fm_size m' = fm_size m \<and>
      fm_min_timestamp m' = fm_min_timestamp m \<and> fm_max_timestamp m' = fm_max_timestamp m \<and>
      fm_last_sequence_number m' = fm_last_sequence_number m \<and>
      gtids_match I (fm_previous_gtids m) (fm_previous_gtids m') \<and> gtids_match I (fm_added_gtids m) (fm_added_gtids m'))"
proof -
  have gtids: "\<exists>g'. optional_gtid_set_of_json I (optional_gtid_set_json B I g) = Some g' \<and> gtids_match I g g'"
    if "g \<in> {fm_previous_gtids m, fm_added_gtids m}" for g
  proof (cases g)
    case None
    then show ?thesis by (simp add: optional_gtid_set_json_def optional_gtid_set_of_json_def gtids_match_def)
  next
    case (Some g1)
    then have "gtid_set_inv I invar g1 \<and> gtid_set_valid I g1" using that assms(2) by auto
    then show ?thesis
      using icl_interval_set.gtid_set_json_roundtrip [OF assms(1) _ _ assms(3), of g1] Some by (auto simp: gtids_match_def)
  qed
  obtain previous added where p: "optional_gtid_set_of_json I (optional_gtid_set_json B I (fm_previous_gtids m)) = Some previous"
      "gtids_match I (fm_previous_gtids m) previous"
    and a: "optional_gtid_set_of_json I (optional_gtid_set_json B I (fm_added_gtids m)) = Some added"
      "gtids_match I (fm_added_gtids m) added"
    using gtids [of "fm_previous_gtids m"] gtids [of "fm_added_gtids m"] by auto
  have "file_metadata_fields B I (file_metadata_json B I m) = Some (1, \<lparr> fm_size = fm_size m, fm_previous_gtids = previous,
      fm_added_gtids = added, fm_min_timestamp = fm_min_timestamp m, fm_max_timestamp = fm_max_timestamp m,
      fm_last_sequence_number = fm_last_sequence_number m \<rparr>)"
    unfolding file_metadata_json_def file_metadata_fields_def object_fields Option.bind.bind_lunit
    by (simp add: object_field_filter p a timestamp_text assms(4,5) expected_binlog_file_metadata_version_def
        del: filter.simps to_uint64.simps)
  then have "file_metadata_of_text B I (file_metadata_text B I m) = Inr \<lparr> fm_size = fm_size m, fm_previous_gtids = previous,
      fm_added_gtids = added, fm_min_timestamp = fm_min_timestamp m, fm_max_timestamp = fm_max_timestamp m,
      fm_last_sequence_number = fm_last_sequence_number m \<rparr>"
    using assms(6) by (simp add: file_metadata_of_text_def file_metadata_text_def or_raise_def expected_binlog_file_metadata_version_def)
  then show ?thesis using storage_metadata_reads_back [OF assms(7)] p(2) a(2) by simp
qed

text \<open>A stand-in for Boost that knows the values of the sample below.\<close>

definition sample_metadata :: "(gno_t \<times> gno_t) list binlog_file_metadata" where
  "sample_metadata = \<lparr> fm_size = 1000, fm_previous_gtids = Some (sample_set 1 4), fm_added_gtids = Some [],
     fm_min_timestamp = 5, fm_max_timestamp = 6, fm_last_sequence_number = 3 \<rparr>"

definition sample_boost :: boost_library where
  "sample_boost =
     (let B = \<lparr> json_serialize = (\<lambda>v. if v = storage_metadata_json Gtid_mode then ''s'' else ''f''),
                json_parse = (\<lambda>s. Inr Json_null),
                to_iso_extended_string = (\<lambda>t. if t = 5 then ''5'' else ''6''),
                from_iso_extended_string = (\<lambda>s. Some (if s = ''5'' then 5 else 6)), uuid_to_text = uuid_text \<rparr>
      in B\<lparr> json_parse := (\<lambda>s. Inr (if s = ''s'' then storage_metadata_json Gtid_mode
           else file_metadata_json B list_icl sample_metadata)) \<rparr>)"

theorem metadata_reads_back_witness:
  "storage_metadata_of_text sample_boost (storage_metadata_text sample_boost Gtid_mode) = Inr Gtid_mode \<and>
   (\<exists>m'. file_metadata_of_text sample_boost list_icl (file_metadata_text sample_boost list_icl sample_metadata) = Inr m' \<and>
     fm_size m' = 1000 \<and> gtids_match list_icl (Some (sample_set 1 4)) (fm_previous_gtids m'))"
proof -
  let ?B = sample_boost and ?m = sample_metadata
  have gtids: "gtid_set_inv list_icl ivl_canonical g \<and> gtid_set_valid list_icl g"
    if "g \<in> set_option (fm_previous_gtids ?m) \<union> set_option (fm_added_gtids ?m)" for g
  proof -
    have "g = sample_set 1 4 \<or> g = []" using that by (auto simp: sample_metadata_def)
    moreover have "gtid_set_inv list_icl ivl_canonical (sample_set 1 4)" by (rule sample_set_inv) simp
    ultimately show ?thesis using sample_set_valid by (auto simp: gtid_set_inv_def gtid_set_valid_def)
  qed
  have printer: "uuid_to_text ?B bs = uuid_text bs" for bs by (simp add: sample_boost_def Let_def)
  have ts: "timestamp_text_ok ?B (fm_min_timestamp ?m)" "timestamp_text_ok ?B (fm_max_timestamp ?m)" by code_simp+
  have json: "json_parse ?B (json_serialize ?B (file_metadata_json ?B list_icl ?m)) = Inr (file_metadata_json ?B list_icl ?m)"
    "json_parse ?B (json_serialize ?B (storage_metadata_json Gtid_mode)) = Inr (storage_metadata_json Gtid_mode)" by code_simp+
  have "fm_size ?m = 1000" "fm_previous_gtids ?m = Some (sample_set 1 4)" by (simp_all add: sample_metadata_def)
  then show ?thesis
    using metadata_reads_back [OF list_icl_interval_set gtids printer ts json] by (simp only:) blast
qed

text \<open>
  The codec of the two classes gives back the same value where the GTID sets do: none is there, or equal
  containers are the same value.
\<close>

lemma json_metadata_reads_back:
  assumes "timestamp_text_ok B (fm_min_timestamp m)" and "timestamp_text_ok B (fm_max_timestamp m)"
    and "json_parse B (json_serialize B (file_metadata_json B I m)) = Inr (file_metadata_json B I m)"
    and "optional_gtid_set_of_json I (optional_gtid_set_json B I (fm_previous_gtids m)) = Some (fm_previous_gtids m)"
    and "optional_gtid_set_of_json I (optional_gtid_set_json B I (fm_added_gtids m)) = Some (fm_added_gtids m)"
  shows "file_metadata_parse (json_metadata B I) (file_metadata_str (json_metadata B I) m) = Inr m"
proof -
  have "file_metadata_fields B I (file_metadata_json B I m) = Some (1, m)"
    unfolding file_metadata_json_def file_metadata_fields_def object_fields Option.bind.bind_lunit
    by (simp add: object_field_filter timestamp_text assms
        expected_binlog_file_metadata_version_def del: filter.simps to_uint64.simps)
  then show ?thesis
    using assms(3)
    by (simp add: json_metadata_def file_metadata_of_text_def file_metadata_text_def or_raise_def
        expected_binlog_file_metadata_version_def)
qed

end
