(* ===== verification/Storage_Load.thy ===== *)
theory Storage_Load
  imports Storage Semantic_Version
begin

text \<open>
  The construction of a storage over an existing backend, which reads and validates the metadata,
  the index and the metadata file of every binlog, and the removal of a prefix of the binlog
  files (\<open>storage.cpp\<close>).
\<close>

section \<open>Loading the index\<close>

text \<open>\<open>std::getline\<close>: the pieces between line feeds; empty ones are skipped by the caller.\<close>

definition index_lines :: "string \<Rightarrow> string list" where
  "index_lines content = filter (\<lambda>line. line \<noteq> []) (split_pieces (CHR 0x0A) content)"

definition load_index_line :: "string \<Rightarrow> 'c storage \<Rightarrow> 'c storage result" where
  "load_index_line current_line s =
     rbind (ensure (path_parent current_line = default_binlog_index_entry_path)
       (Logic_error ''binlog index contains an entry that has an invalid path'')) (\<lambda>_.
     let current_binlog_name = path_filename current_line in
     rbind (ensure (current_binlog_name \<noteq> default_binlog_index_name)
       (Logic_error ''binlog index contains a reference to the binlog index name'')) (\<lambda>_.
     rbind (parse_binlog_name current_binlog_name) (\<lambda>current_binlog_name_parsed.
     rbind (ensure (\<not> binlog_exists current_binlog_name_parsed s)
       (Logic_error ''binlog index contains a duplicate entry'')) (\<lambda>_.
     let gtids = (if is_in_gtid_replication_mode s then Some [] else None);
         r = \<lparr> br_name = current_binlog_name_parsed, br_size = 0, br_previous_gtids = gtids,
               br_added_gtids = gtids, br_timestamps = empty_range, br_last_sequence_number = 0 \<rparr>
     in Inr (s\<lparr> st_binlog_records := st_binlog_records s @ [r] \<rparr>)))))"

definition load_binlog_index :: "'c storage \<Rightarrow> 'c storage result" where
  "load_binlog_index s =
     rbind (get_object default_binlog_index_name (st_backend s)) (\<lambda>index_content.
     rfold load_index_line (index_lines (as_string_view index_content)) s)"

definition validate_binlog_index :: "storage_object_names \<Rightarrow> 'c storage \<Rightarrow> unit result" where
  "validate_binlog_index object_names s =
     (if st_construction_mode s = Querying_only then Inr ()
      else
        rbind (ensure (list_all (\<lambda>r. map_of object_names (binlog_name_str (br_name r)) \<noteq> None) (st_binlog_records s))
          (Logic_error ''binlog index contains a reference to a non-existing object'')) (\<lambda>_.
        ensure (\<not> length object_names \<noteq> length (st_binlog_records s))
          (Logic_error ''storage contains an object that is not referenced in the binlog index'')))"

section \<open>Loading metadata files\<close>

definition load_metadata :: "'c metadata_codec \<Rightarrow> 'c storage \<Rightarrow> 'c storage result" where
  "load_metadata C s =
     rbind (get_object metadata_name (st_backend s)) (\<lambda>metadata_content.
     rbind (storage_metadata_parse C metadata_content) (\<lambda>mode.
     Inr (s\<lparr> st_replication_mode := mode \<rparr>)))"

definition validate_metadata :: "replication_mode_type \<Rightarrow> 'c storage \<Rightarrow> unit result" where
  "validate_metadata replication_mode s =
     ensure (\<not> replication_mode \<noteq> st_replication_mode s)
       (Logic_error ''replication mode provided to initialize storage differs from the one stored in metadata'')"

definition load_binlog_metadata ::
    "'c metadata_codec \<Rightarrow> composite_binlog_name \<Rightarrow> 'c storage \<Rightarrow> 'c binlog_record result" where
  "load_binlog_metadata C binlog_name s =
     rbind (get_object (generate_binlog_metadata_name binlog_name) (st_backend s)) (\<lambda>content.
     rbind (file_metadata_parse C content) (\<lambda>m.
     Inr \<lparr> br_name = binlog_name, br_size = fm_size m, br_previous_gtids = fm_previous_gtids m,
           br_added_gtids = fm_added_gtids m,
           br_timestamps = make_timestamp_range (fm_min_timestamp m) (fm_max_timestamp m),
           br_last_sequence_number = fm_last_sequence_number m \<rparr>))"

definition validate_binlog_metadata :: "'c binlog_record \<Rightarrow> 'c storage \<Rightarrow> unit result" where
  "validate_binlog_metadata r s =
     (if is_in_gtid_replication_mode s then
        rbind (ensure (br_previous_gtids r \<noteq> None)
          (Logic_error ''missing previous GTID set in the binlog metadata while in GTID replication mode'')) (\<lambda>_.
        ensure (br_added_gtids r \<noteq> None)
          (Logic_error ''missing added GTID set in the binlog metadata while in GTID replication mode''))
      else
        rbind (ensure (br_previous_gtids r = None)
          (Logic_error ''found previous GTID set in the binlog metadata while in position replication mode'')) (\<lambda>_.
        ensure (br_added_gtids r = None)
          (Logic_error ''found added GTID set in the binlog metadata while in position replication mode'')))"

definition is_std_exception :: "cpp_error \<Rightarrow> bool" where
  "is_std_exception e = (case e of Terminate _ \<Rightarrow> False | Undefined_behaviour _ \<Rightarrow> False | _ \<Rightarrow> True)"

text \<open>One round of the loop: the loaded record, or \<open>None\<close> for a record that is skipped.\<close>

definition load_record ::
    "'c metadata_codec \<Rightarrow> storage_object_names \<Rightarrow> storage_object_names \<Rightarrow> 'c storage \<Rightarrow> 'c binlog_record \<Rightarrow>
     'c binlog_record option result" where
  "load_record C object_names object_metadata_names s r =
     (case rbind (ensure (map_of object_metadata_names (generate_binlog_metadata_name (br_name r)) \<noteq> None)
             (Logic_error ''missing metadata for a binlog listed in the binlog index'')) (\<lambda>_.
           load_binlog_metadata C (br_name r) s) of
        Inl e \<Rightarrow> if st_construction_mode s = Querying_only \<and> is_std_exception e then Inr None else Inl e
      | Inr loaded \<Rightarrow>
          rbind (validate_binlog_metadata loaded s) (\<lambda>_.
          if st_construction_mode s = Querying_only then Inr (Some loaded)
          else
            rbind (or_raise (map_of object_names (binlog_name_str (br_name r))) (Out_of_range ''at'')) (\<lambda>actual.
            rbind (ensure (\<not> br_size loaded \<noteq> actual)
              (Logic_error ''size from the binlog metadata does not match the actual binlog size'')) (\<lambda>_.
            Inr (Some loaded)))))"

primrec load_records ::
    "('c binlog_record \<Rightarrow> 'c binlog_record option result) \<Rightarrow> 'c binlog_record list \<Rightarrow> 'c binlog_record list result" where
  "load_records f [] = Inr []"
| "load_records f (r # rs) =
     rbind (f r) (\<lambda>loaded.
     rbind (load_records f rs) (\<lambda>rest.
     Inr (case loaded of None \<Rightarrow> rest | Some r' \<Rightarrow> r' # rest)))"

definition load_and_validate_binlog_metadata_set ::
    "'c metadata_codec \<Rightarrow> storage_object_names \<Rightarrow> storage_object_names \<Rightarrow> 'c storage \<Rightarrow> 'c storage result" where
  "load_and_validate_binlog_metadata_set C object_names object_metadata_names s =
     rbind (load_records (load_record C object_names object_metadata_names s) (st_binlog_records s)) (\<lambda>records.
     rbind (ensure (st_construction_mode s = Querying_only \<or> \<not> length object_metadata_names \<noteq> length records)
       (Logic_error ''found metadata for a non-existing binlog'')) (\<lambda>_.
     rbind (ensure (records \<noteq> []) (Undefined_behaviour ''front() of an empty vector'')) (\<lambda>_.
     Inr (s\<lparr> st_binlog_records := records,
             st_purged_gtids := (case br_added_gtids (hd records) of None \<Rightarrow> st_purged_gtids s | Some g \<Rightarrow> g) \<rparr>))))"

section \<open>Construction\<close>

definition initial_storage ::
    "uint64 \<Rightarrow> int \<Rightarrow> fs_backend \<Rightarrow> storage_construction_mode \<Rightarrow> replication_mode_type \<Rightarrow> 'c storage" where
  "initial_storage checkpoint_size checkpoint_interval backend construction_mode replication_mode =
     \<lparr> st_construction_mode = construction_mode, st_backend = backend, st_replication_mode = replication_mode,
       st_purged_gtids = [], st_binlog_records = [], st_checkpoint_size_bytes = checkpoint_size,
       st_last_checkpoint_position = 0, st_checkpoint_interval_seconds = checkpoint_interval,
       st_last_checkpoint_timestamp = 0, st_event_buffer = [], st_last_transaction_boundary = 0,
       st_gtids_in_event_buffer = [], st_ready_to_flush_timestamps = empty_range,
       st_incomplete_transaction_timestamps = empty_range,
       st_ready_to_flush_last_sequence_number = 0, st_incomplete_transaction_last_sequence_number = 0 \<rparr>"

definition is_metadata_object :: "string \<Rightarrow> bool" where
  "is_metadata_object name \<longleftrightarrow> path_extension name \<noteq> [] \<and> path_extension name = binlog_metadata_extension"

definition make_storage ::
    "'c metadata_codec \<Rightarrow> uint64 \<Rightarrow> int \<Rightarrow> fs_backend \<Rightarrow> storage_construction_mode \<Rightarrow> replication_mode_type \<Rightarrow>
     'c storage result" where
  "make_storage C checkpoint_size checkpoint_interval backend construction_mode replication_mode =
     (let s = initial_storage checkpoint_size checkpoint_interval backend construction_mode replication_mode;
          storage_objects = list_objects backend in
      if storage_objects = [] then
        Inr (if construction_mode = Streaming then save_metadata C s else s)
      else
        rbind (ensure (map_of storage_objects metadata_name \<noteq> None)
          (Logic_error ''storage is not empty but does not contain metadata'')) (\<lambda>_.
        let storage_objects = AList.delete metadata_name storage_objects in
        rbind (load_metadata C s) (\<lambda>s.
        rbind (validate_metadata replication_mode s) (\<lambda>_.
        if storage_objects = [] then Inr s
        else if map_of storage_objects default_binlog_index_name = None then
          if construction_mode = Querying_only then Inr s
          else Inl (Logic_error ''storage is not empty but does not contain binlog index'')
        else
          let storage_objects = AList.delete default_binlog_index_name storage_objects;
              storage_metadata_objects = filter (\<lambda>(name, _). is_metadata_object name) storage_objects;
              storage_objects = filter (\<lambda>(name, _). \<not> is_metadata_object name) storage_objects in
          rbind (load_binlog_index s) (\<lambda>s.
          rbind (validate_binlog_index storage_objects s) (\<lambda>_.
          load_and_validate_binlog_metadata_set C storage_objects storage_metadata_objects s))))))"

section \<open>Purging\<close>

fun find_index :: "('a \<Rightarrow> bool) \<Rightarrow> 'a list \<Rightarrow> nat option" where
  "find_index P [] = None"
| "find_index P (x # xs) = (if P x then Some 0 else map_option Suc (find_index P xs))"

definition victim_object_names :: "'c binlog_record list \<Rightarrow> string list" where
  "victim_object_names removed =
     concat (map (\<lambda>r. [generate_binlog_metadata_name (br_name r), binlog_name_str (br_name r)]) removed)"

text \<open>The result is the removed records, the error of the cleanup if there was one, and the storage.\<close>

definition purge_binlogs ::
    "composite_binlog_name \<Rightarrow> 'c storage \<Rightarrow>
     ('c binlog_record list \<times> cpp_error option \<times> 'c storage) result" where
  "purge_binlogs target s =
     rbind (ensure_purging_mode s) (\<lambda>_.
     rbind (ensure (\<not> storage_is_empty s) (Runtime_error ''cannot purge: binlog storage is empty'')) (\<lambda>_.
     rbind (ensure (\<not> get_base_name target \<noteq> get_base_name (br_name (hd (st_binlog_records s))))
       (Runtime_error ''cannot purge: target binlog name has a different base name than the binlog records in the storage'')) (\<lambda>_.
     rbind (or_raise (find_index (\<lambda>r. br_name r = target) (st_binlog_records s))
       (Runtime_error ''cannot purge: target binlog name is not present in the storage'')) (\<lambda>target_index.
     rbind (ensure (\<not> target_index = length (st_binlog_records s) - 1)
       (Runtime_error ''cannot purge: target is the current tail binlog file; at least one binlog file must remain in the storage to preserve the resume position'')) (\<lambda>_.
     let victim_count = target_index + 1;
         removed_records = take victim_count (st_binlog_records s);
         s = save_binlog_index (s\<lparr> st_binlog_records := drop victim_count (st_binlog_records s) \<rparr>);
         (b, cleanup_error) = remove_objects (victim_object_names removed_records) (st_backend s)
     in Inr (removed_records, cleanup_error, s\<lparr> st_backend := b \<rparr>))))))"

end
