(* ===== verification/Storage_Layout.thy ===== *)
theory Storage_Layout
  imports Storage_Load
begin

text \<open>
  The names of the objects in a storage and the text of the index: binlog files, metadata files,
  the index and the storage metadata never share a name, are told apart by their extension, and
  the index text lists the binlog names so that loading it gives them back in order.
\<close>

section \<open>Extensions\<close>

lemma takeWhile_rev_suffix:
  assumes "c \<notin> set ys"
  shows "takeWhile (\<lambda>x. x \<noteq> c) (rev (xs @ c # ys)) = rev ys"
    and "dropWhile (\<lambda>x. x \<noteq> c) (rev (xs @ c # ys)) = c # rev xs"
proof -
  have all: "\<And>y. y \<in> set (rev ys) \<Longrightarrow> y \<noteq> c" using assms by auto
  show "takeWhile (\<lambda>x. x \<noteq> c) (rev (xs @ c # ys)) = rev ys"
    using takeWhile_append2 [of "rev ys" "\<lambda>x. x \<noteq> c" "c # rev xs"] all by simp
  show "dropWhile (\<lambda>x. x \<noteq> c) (rev (xs @ c # ys)) = c # rev xs"
    using dropWhile_append2 [of "rev ys" "\<lambda>x. x \<noteq> c" "c # rev xs"] all by simp
qed

lemma path_extension_append:
  assumes "CHR ''.'' \<notin> set ys" and "xs \<noteq> []" and "ys \<noteq> []"
  shows "path_extension (xs @ CHR ''.'' # ys) = CHR ''.'' # ys"
proof -
  have "xs @ CHR ''.'' # ys \<noteq> ''..''"
  proof
    assume eq: "xs @ CHR ''.'' # ys = ''..''"
    then have "length xs + length ys = 1" by (metis add_Suc_right length_append length_Cons list.size(3) One_nat_def add_left_cancel
          Suc_inject)
    moreover have "0 < length xs" "0 < length ys" using assms(2,3) by simp_all
    ultimately show False by linarith
  qed
  then show ?thesis
    using takeWhile_rev_suffix [OF assms(1), of xs] assms(2)
    by (simp add: path_extension_def Let_def del: rev_append rev.simps)
qed

lemma digit_not_special: "isdigit c \<Longrightarrow> c \<noteq> CHR ''.'' \<and> c \<noteq> CHR ''/'' \<and> c \<noteq> CHR 0x0A"
  by (auto simp: isdigit_def)

lemma zero_pad_no_special:
  "CHR ''.'' \<notin> set (zero_pad w n)" "CHR ''/'' \<notin> set (zero_pad w n)" "CHR 0x0A \<notin> set (zero_pad w n)"
  using isdigit_zero_pad [of w n] digit_not_special by (auto simp: list_all_iff)

lemma zero_pad_nonempty: "zero_pad w n \<noteq> []"
  by (simp add: zero_pad_def)

lemma extension_binlog_name:
  "binlog_name_ok n \<Longrightarrow> path_extension (binlog_name_str n) = CHR ''.'' # zero_pad 6 (unat (get_sequence_number n))"
  unfolding binlog_name_str_def components_separator_def number_of_sequence_number_characters_def append_Cons append_Nil
  by (rule path_extension_append) (simp_all add: zero_pad_no_special zero_pad_nonempty binlog_name_ok_iff)

lemma extension_metadata_name:
  "path_extension (generate_binlog_metadata_name n) = ''.json''"
proof -
  have "path_extension (binlog_name_str n @ CHR ''.'' # ''json'') = CHR ''.'' # ''json''"
    by (rule path_extension_append) (simp_all add: binlog_name_str_def)
  then show ?thesis by (simp add: generate_binlog_metadata_name_def binlog_metadata_extension_def)
qed

lemma extension_fixed_names:
  "path_extension metadata_name = ''.json''" "path_extension default_binlog_index_name = ''.index''"
  by code_simp+

lemma extension_binlog_name_digit:
  assumes "binlog_name_ok n" and "path_extension (binlog_name_str n) = CHR ''.'' # e" and "e \<noteq> []"
  shows "isdigit (hd e)"
  using assms extension_binlog_name [OF assms(1)] isdigit_zero_pad [of 6 "unat (get_sequence_number n)"]
  by (cases e) (auto simp: list_all_iff)

lemma not_isdigit: "\<not> isdigit (CHR ''j'')" "\<not> isdigit (CHR ''i'')" "\<not> isdigit (CHR ''t'')"
  by (simp_all add: isdigit_def)

lemma binlog_extension_differs:
  assumes "binlog_name_ok n"
  shows "path_extension (binlog_name_str n) \<noteq> ''.json''" "path_extension (binlog_name_str n) \<noteq> ''.index''"
    "path_extension (binlog_name_str n) \<noteq> ''.tmp''"
  using extension_binlog_name_digit [OF assms, of "''json''"] extension_binlog_name_digit [OF assms, of "''index''"]
    extension_binlog_name_digit [OF assms, of "''tmp''"] not_isdigit by auto

lemma binlog_name_str_inject:
  "binlog_name_ok m \<Longrightarrow> binlog_name_ok n \<Longrightarrow> binlog_name_str m = binlog_name_str n \<longleftrightarrow> m = n"
  by (metis parse_binlog_name_str sum.inject(2))

lemma metadata_name_inject:
  "binlog_name_ok m \<Longrightarrow> binlog_name_ok n \<Longrightarrow>
   generate_binlog_metadata_name m = generate_binlog_metadata_name n \<longleftrightarrow> m = n"
  by (simp add: generate_binlog_metadata_name_def binlog_name_str_inject)

lemma object_names_differ:
  assumes "binlog_name_ok m" and "binlog_name_ok n"
  shows "binlog_name_str m \<noteq> generate_binlog_metadata_name n" "binlog_name_str m \<noteq> metadata_name"
    "binlog_name_str m \<noteq> default_binlog_index_name" "generate_binlog_metadata_name n \<noteq> default_binlog_index_name"
    "metadata_name \<noteq> default_binlog_index_name"
proof -
  show "binlog_name_str m \<noteq> generate_binlog_metadata_name n" "binlog_name_str m \<noteq> metadata_name"
    "binlog_name_str m \<noteq> default_binlog_index_name"
    using binlog_extension_differs [OF assms(1)] extension_metadata_name [of n] extension_fixed_names by auto
  show "generate_binlog_metadata_name n \<noteq> default_binlog_index_name"
    using extension_metadata_name [of n] extension_fixed_names by auto
  show "metadata_name \<noteq> default_binlog_index_name" by code_simp
qed

text \<open>A metadata name is longer than the storage metadata name, or differs in its sequence number.\<close>

lemma metadata_names_differ:
  assumes "binlog_name_ok n"
  shows "generate_binlog_metadata_name n \<noteq> metadata_name"
proof
  assume eq: "generate_binlog_metadata_name n = metadata_name"
  have "generate_binlog_metadata_name n = binlog_name_str n @ ''.json''"
    by (simp add: generate_binlog_metadata_name_def binlog_metadata_extension_def)
  moreover have "metadata_name = ''metadata'' @ ''.json''" by (simp add: metadata_name_def)
  ultimately have "binlog_name_str n = ''metadata''" using eq by (metis append_same_eq)
  then have "path_extension (binlog_name_str n) = path_extension ''metadata''" by simp
  moreover have "path_extension ''metadata'' = []" by code_simp
  ultimately show False using extension_binlog_name [OF assms] by simp
qed

lemma is_metadata_object_names:
  "is_metadata_object (generate_binlog_metadata_name n)"
  "binlog_name_ok n \<Longrightarrow> \<not> is_metadata_object (binlog_name_str n)"
  using extension_metadata_name [of n] binlog_extension_differs
  by (auto simp: is_metadata_object_def binlog_metadata_extension_def)

section \<open>The index text\<close>

lemma path_index_entry:
  assumes "binlog_name_ok n"
  shows "path_filename (index_entry n) = binlog_name_str n" "path_parent (index_entry n) = ''.''"
proof -
  have no: "CHR ''/'' \<notin> set (binlog_name_str n)"
    using assms zero_pad_no_special
    by (auto simp: binlog_name_str_def binlog_name_ok_iff preferred_separator_def components_separator_def)
  have eq: "index_entry n = ''.'' @ CHR ''/'' # binlog_name_str n"
    by (simp add: index_entry_def default_binlog_index_entry_path_def preferred_separator_def)
  show "path_filename (index_entry n) = binlog_name_str n"
    unfolding path_filename_def eq takeWhile_rev_suffix(1) [OF no] by simp
  show "path_parent (index_entry n) = ''.''"
    unfolding path_parent_def eq takeWhile_rev_suffix(2) [OF no] by simp
qed

definition index_name_ok :: "composite_binlog_name \<Rightarrow> bool" where
  "index_name_ok n \<longleftrightarrow> binlog_name_ok n \<and> CHR 0x0A \<notin> set (get_base_name n)"

lemma index_name_okD: "index_name_ok n \<Longrightarrow> binlog_name_ok n"
  by (simp add: index_name_ok_def)

lemma split_pieces_line:
  "d \<notin> set l \<Longrightarrow> split_pieces d (l @ d # rest) = l # split_pieces d rest"
  by (induction l) auto

lemma index_lines_content:
  assumes "\<forall>r \<in> set records. index_name_ok (br_name r)"
  shows "index_lines (index_content records) = map (index_entry \<circ> br_name) records"
  using assms
proof (induction records)
  case Nil
  then show ?case by (simp add: index_lines_def index_content_def)
next
  case (Cons r records)
  have "CHR 0x0A \<notin> set (index_entry (br_name r))"
    using Cons.prems zero_pad_no_special
    by (auto simp: index_entry_def default_binlog_index_entry_path_def preferred_separator_def index_name_ok_def
        binlog_name_str_def components_separator_def)
  moreover have "index_entry (br_name r) \<noteq> []" by (simp add: index_entry_def)
  ultimately show ?case
    using Cons by (simp add: index_lines_def index_content_def split_pieces_line)
qed

text \<open>Loading the text of the index gives placeholder records with the names in order.\<close>

definition placeholder :: "replication_mode_type \<Rightarrow> composite_binlog_name \<Rightarrow> 'c binlog_record" where
  "placeholder mode n =
     (let gtids = (if mode = Gtid_mode then Some [] else None) in
      \<lparr> br_name = n, br_size = 0, br_previous_gtids = gtids, br_added_gtids = gtids,
        br_timestamps = empty_range, br_last_sequence_number = 0 \<rparr>)"

lemma load_index_lines:
  assumes "\<forall>n \<in> set names. index_name_ok n" and "distinct (map br_name (st_binlog_records s) @ names)"
  shows "rfold load_index_line (map index_entry names) s =
    Inr (s\<lparr> st_binlog_records := st_binlog_records s @ map (placeholder (st_replication_mode s)) names \<rparr>)"
  using assms
proof (induction names arbitrary: s)
  case (Cons n names)
  have n: "binlog_name_ok n" using Cons.prems(1) by (simp add: index_name_ok_def)
  have fresh: "\<not> binlog_exists n s" using Cons.prems(2) by (auto simp: binlog_exists_def list_ex_iff)
  let ?s = "s\<lparr> st_binlog_records := st_binlog_records s @ [placeholder (st_replication_mode s) n] \<rparr>"
  have "load_index_line (index_entry n) s = Inr ?s"
    using n fresh object_names_differ(3) [OF n n]
    by (simp add: load_index_line_def path_index_entry default_binlog_index_entry_path_def parse_binlog_name_str
        placeholder_def is_in_gtid_replication_mode_def Let_def)
  moreover have "map br_name (st_binlog_records ?s) @ names = map br_name (st_binlog_records s) @ n # names"
    by (simp add: placeholder_def Let_def)
  ultimately show ?case using Cons.IH [of ?s] Cons.prems by simp
qed simp

end
