(* ===== verification/Storage_Invariant.thy ===== *)
theory Storage_Invariant
  imports Storage_Layout
begin

text \<open>
  The representation invariant of a storage that is open for streaming: the objects in the backend
  are exactly those that the binlog records call for, every metadata file holds the record in
  memory, every binlog file has the recorded size, and the index lists the records. One lemma per
  operation shows that it is kept.
\<close>

section \<open>The invariant\<close>

definition object_names_of :: "'c binlog_record list \<Rightarrow> string set" where
  "object_names_of records =
     (if records = [] then {metadata_name}
      else {metadata_name, default_binlog_index_name} \<union> binlog_name_str ` br_name ` set records \<union>
        generate_binlog_metadata_name ` br_name ` set records)"

text \<open>A range that was stored and loaded is unchanged: both bounds are set or neither is.\<close>

definition range_ok :: "ctime_timestamp_range \<Rightarrow> bool" where
  "range_ok r \<longleftrightarrow> (is_epoch (min_timestamp r) \<longleftrightarrow> is_epoch (max_timestamp r))"

definition record_ok :: "replication_mode_type \<Rightarrow> 'c binlog_record \<Rightarrow> bool" where
  "record_ok mode r \<longleftrightarrow> index_name_ok (br_name r) \<and> range_ok (br_timestamps r) \<and>
     (br_previous_gtids r \<noteq> None \<longleftrightarrow> mode = Gtid_mode) \<and> (br_added_gtids r \<noteq> None \<longleftrightarrow> mode = Gtid_mode)"

definition record_stored :: "'c metadata_codec \<Rightarrow> (string \<Rightarrow> byte list option) \<Rightarrow> 'c binlog_record \<Rightarrow> bool" where
  "record_stored C D r \<longleftrightarrow>
     D (generate_binlog_metadata_name (br_name r)) = Some (file_metadata_str C (file_metadata_of r)) \<and>
     (\<exists>content. D (binlog_name_str (br_name r)) = Some content \<and> of_nat (length content) = br_size r)"

definition directory_ok ::
    "'c metadata_codec \<Rightarrow> replication_mode_type \<Rightarrow> (string \<Rightarrow> byte list option) \<Rightarrow> 'c binlog_record list \<Rightarrow> bool" where
  "directory_ok C mode D records \<longleftrightarrow>
     dom D = object_names_of records \<and> D metadata_name = Some (storage_metadata_str C mode) \<and>
     (records \<noteq> [] \<longrightarrow> D default_binlog_index_name = Some (as_const_byte_span (index_content records))) \<and>
     (\<forall>r \<in> set records. record_ok mode r \<and> record_stored C D r) \<and> distinct (map br_name records)"

definition buffer_ok :: "'c storage \<Rightarrow> bool" where
  "buffer_ok s \<longleftrightarrow> st_last_transaction_boundary s \<le> length (st_event_buffer s) \<and>
     range_ok (st_ready_to_flush_timestamps s) \<and> range_ok (st_incomplete_transaction_timestamps s)"

definition stream_ok :: "'c storage \<Rightarrow> bool" where
  "stream_ok s \<longleftrightarrow> (fs_ofs (st_backend s) = None \<or>
     st_binlog_records s \<noteq> [] \<and>
     fs_ofs (st_backend s) = Some (binlog_name_str (br_name (last (st_binlog_records s)))))"

definition storage_ok :: "'c metadata_codec \<Rightarrow> 'c storage \<Rightarrow> bool" where
  "storage_ok C s \<longleftrightarrow> st_construction_mode s = Streaming \<and> backend_ok (st_backend s) \<and>
     directory_ok C (st_replication_mode s) (contents (st_backend s)) (st_binlog_records s) \<and>
     buffer_ok s \<and> stream_ok s"

section \<open>Ranges\<close>

lemma range_ok_empty [simp]: "range_ok empty_range"
  by (simp add: range_ok_def empty_range_def is_epoch_def)

lemma range_ok_add_range [simp, intro]: "range_ok a \<Longrightarrow> range_ok b \<Longrightarrow> range_ok (add_range a b)"
  by (auto simp: range_ok_def add_range_def range_is_empty_def is_epoch_def min_def max_def)

lemma range_ok_add_timestamp [simp, intro]: "range_ok b \<Longrightarrow> range_ok (add_timestamp t b)"
  by (auto simp: range_ok_def add_timestamp_def range_is_empty_def is_epoch_def min_def max_def)

lemma make_timestamp_range_ok:
  "range_ok r \<Longrightarrow> make_timestamp_range (min_timestamp r) (max_timestamp r) = r"
  by (simp add: range_ok_def make_timestamp_range_def Let_def)

section \<open>Changes of the directory\<close>

lemma record_okD: "record_ok mode r \<Longrightarrow> binlog_name_ok (br_name r)"
  by (simp add: record_ok_def index_name_ok_def)

lemma directory_okD:
  assumes "directory_ok C mode D records" and "r \<in> set records"
  shows "record_ok mode r" "record_stored C D r" "binlog_name_ok (br_name r)"
  using assms by (auto simp: directory_ok_def dest: record_okD)

text \<open>The objects of one binlog do not concern the records of the others.\<close>

lemma record_stored_upd_other:
  assumes "record_stored C D r" and "binlog_name_ok (br_name r)" and "binlog_name_ok n" and "br_name r \<noteq> n"
  shows "record_stored C (D(binlog_name_str n \<mapsto> c)) r" "record_stored C (D(generate_binlog_metadata_name n \<mapsto> c)) r"
    "record_stored C (D(default_binlog_index_name \<mapsto> c)) r"
  using assms object_names_differ [OF assms(2,3)] object_names_differ [OF assms(3,2)] object_names_differ [OF assms(2,2)]
  by (auto simp: record_stored_def binlog_name_str_inject metadata_name_inject)

lemma record_stored_upd_same:
  assumes "binlog_name_ok (br_name r)" and "of_nat (length content) = br_size r"
  shows "record_stored C (D(binlog_name_str (br_name r) \<mapsto> content,
    generate_binlog_metadata_name (br_name r) \<mapsto> file_metadata_str C (file_metadata_of r))) r"
  using assms object_names_differ [OF assms(1,1)] by (simp add: record_stored_def)

lemma directory_ok_update_last:
  assumes ok: "directory_ok C mode D (rs @ [r])" and name: "br_name r' = br_name r"
    and new: "record_ok mode r'" "of_nat (length content) = br_size r'"
  shows "directory_ok C mode (D(binlog_name_str (br_name r) \<mapsto> content,
    generate_binlog_metadata_name (br_name r) \<mapsto> file_metadata_str C (file_metadata_of r'))) (rs @ [r'])"
    (is "directory_ok C mode ?D _")
proof -
  note n = directory_okD(3) [OF ok, of r, simplified]
  have others: "record_ok mode x \<and> record_stored C ?D x" if "x \<in> set rs" for x
  proof -
    have "br_name r \<notin> br_name ` set rs" using ok by (simp add: directory_ok_def)
    then have "br_name x \<noteq> br_name r" using that by (metis image_eqI)
    then show ?thesis
      using directory_okD [OF ok, of x] that n record_stored_upd_other [of C _ x "br_name r"] by simp
  qed
  have "record_stored C ?D r'" using record_stored_upd_same [of r' content C D] n new name by simp
  moreover have "index_content (rs @ [r']) = index_content (rs @ [r])" by (simp add: index_content_def name)
  moreover have "object_names_of (rs @ [r']) = object_names_of (rs @ [r])" by (simp add: object_names_of_def name)
  moreover have "dom ?D = dom D" using ok by (auto simp: directory_ok_def object_names_of_def)
  ultimately show ?thesis
    using ok others new(1) object_names_differ [OF n n] metadata_names_differ [OF n] name
    by (simp add: directory_ok_def)
qed

lemma directory_ok_add:
  assumes ok: "directory_ok C mode D rs" and fresh: "br_name r \<notin> br_name ` set rs"
    and new: "record_ok mode r" "of_nat (length content) = br_size r"
  shows "directory_ok C mode (D(binlog_name_str (br_name r) \<mapsto> content,
    generate_binlog_metadata_name (br_name r) \<mapsto> file_metadata_str C (file_metadata_of r),
    default_binlog_index_name \<mapsto> as_const_byte_span (index_content (rs @ [r])))) (rs @ [r])"
    (is "directory_ok C mode ?D _")
proof -
  note n = record_okD [OF new(1)]
  have others: "record_ok mode x \<and> record_stored C ?D x" if "x \<in> set rs" for x
  proof -
    have "br_name x \<noteq> br_name r" using fresh that by (metis image_eqI)
    then show ?thesis
      using directory_okD [OF ok that] n record_stored_upd_other [of C _ x "br_name r"] by simp
  qed
  have "record_stored C ?D r"
    using record_stored_upd_same [OF n new(2), of C D] object_names_differ [OF n n]
    by (simp add: record_stored_def)
  moreover have "dom ?D = object_names_of (rs @ [r])" using ok by (auto simp: directory_ok_def object_names_of_def)
  ultimately show ?thesis
    using ok others new(1) object_names_differ [OF n n] metadata_names_differ [OF n] fresh
    by (auto simp: directory_ok_def)
qed

section \<open>Operations\<close>

lemma storage_okD:
  assumes "storage_ok C s"
  shows "st_construction_mode s = Streaming" "backend_ok (st_backend s)"
    "directory_ok C (st_replication_mode s) (contents (st_backend s)) (st_binlog_records s)"
    "buffer_ok s" "stream_ok s"
  using assms by (simp_all add: storage_ok_def)

text \<open>Operations on the buffer alone.\<close>

lemma storage_ok_buffer:
  assumes "storage_ok C s" and "st_construction_mode s' = st_construction_mode s" "st_backend s' = st_backend s"
    "st_replication_mode s' = st_replication_mode s" "st_binlog_records s' = st_binlog_records s" and "buffer_ok s'"
  shows "storage_ok C s'"
  using assms by (simp add: storage_ok_def stream_ok_def)

lemma buffer_event_ok:
  assumes "buffer_event I data boundary g t n s = Inr s'" and "storage_ok C s"
  shows "storage_ok C s'"
proof (rule storage_ok_buffer [OF assms(2)])
  have b: "buffer_ok s" using assms(2) by (rule storage_okD)
  show "buffer_ok s'"
    using assms(1) b by (auto simp: buffer_event_def buffer_ok_def Let_def result_simps split: if_splits)
qed (use assms(1) in \<open>auto simp: buffer_event_def Let_def result_simps split: if_splits\<close>)

lemma discard_ok:
  assumes "discard_incomplete_transaction_events s = Inr s'" and "storage_ok C s"
  shows "storage_ok C s'"
proof (rule storage_ok_buffer [OF assms(2)])
  show "buffer_ok s'"
    using assms(1) storage_okD(4) [OF assms(2)]
    by (auto simp: discard_incomplete_transaction_events_def buffer_ok_def result_simps)
qed (use assms(1) in \<open>auto simp: discard_incomplete_transaction_events_def result_simps\<close>)

lemma checkpoint_info_fields [simp]:
  "st_construction_mode (update_last_checkpoint_info now s) = st_construction_mode s"
  "st_backend (update_last_checkpoint_info now s) = st_backend s"
  "st_replication_mode (update_last_checkpoint_info now s) = st_replication_mode s"
  "st_binlog_records (update_last_checkpoint_info now s) = st_binlog_records s"
  "st_event_buffer (update_last_checkpoint_info now s) = st_event_buffer s"
  "st_last_transaction_boundary (update_last_checkpoint_info now s) = st_last_transaction_boundary s"
  "st_gtids_in_event_buffer (update_last_checkpoint_info now s) = st_gtids_in_event_buffer s"
  "st_ready_to_flush_timestamps (update_last_checkpoint_info now s) = st_ready_to_flush_timestamps s"
  "st_incomplete_transaction_timestamps (update_last_checkpoint_info now s) = st_incomplete_transaction_timestamps s"
  "st_purged_gtids (update_last_checkpoint_info now s) = st_purged_gtids s"
  by (simp_all add: update_last_checkpoint_info_def Let_def)

lemma checkpoint_info_ok [simp]: "buffer_ok (update_last_checkpoint_info now s) \<longleftrightarrow> buffer_ok s"
  by (simp add: buffer_ok_def)

text \<open>The stream writes to the file of the last record.\<close>

lemma stream_okE:
  assumes "storage_ok C s" and "fs_ofs (st_backend s) \<noteq> None"
  obtains rs r content where "st_binlog_records s = rs @ [r]"
    and "fs_ofs (st_backend s) = Some (binlog_name_str (br_name r))"
    and "contents (st_backend s) (binlog_name_str (br_name r)) = Some content"
    and "of_nat (length content) = br_size r"
proof -
  have "st_binlog_records s \<noteq> []" and
    ofs: "fs_ofs (st_backend s) = Some (binlog_name_str (br_name (last (st_binlog_records s))))"
    using storage_okD(5) [OF assms(1)] assms(2) by (auto simp: stream_ok_def)
  then obtain rs r where rs: "st_binlog_records s = rs @ [r]" by (metis append_butlast_last_id)
  then have "record_stored C (contents (st_backend s)) r"
    using directory_okD(2) [OF storage_okD(3) [OF assms(1)], of r] by simp
  then show ?thesis using that rs ofs by (auto simp: record_stored_def)
qed

lemma flushed_record_fields [simp]:
  "br_name (flushed_record I s r) = br_name r"
  "br_size (flushed_record I s r) = br_size r + of_nat (st_last_transaction_boundary s)"
  "br_previous_gtids (flushed_record I s r) = br_previous_gtids r"
  by (simp_all add: flushed_record_def)

lemma flushed_record_ok:
  "record_ok mode r \<Longrightarrow> buffer_ok s \<Longrightarrow> record_ok mode (flushed_record I s r)"
  by (auto simp: record_ok_def flushed_record_def buffer_ok_def)

lemma flush_internal_effect:
  assumes "flush_event_buffer_internal I C s = Inr s'" and "storage_ok C s"
  obtains rs r content where "st_binlog_records s = rs @ [r]"
    and "st_binlog_records s' = rs @ [flushed_record I s r]"
    and "contents (st_backend s) (binlog_name_str (br_name r)) = Some content"
    and "contents (st_backend s') = (contents (st_backend s))
      (binlog_name_str (br_name r) \<mapsto> content @ take (st_last_transaction_boundary s) (st_event_buffer s),
       generate_binlog_metadata_name (br_name r) \<mapsto> file_metadata_str C (file_metadata_of (flushed_record I s r)))"
    and "fs_ofs (st_backend s) = Some (binlog_name_str (br_name r))" and "fs_ofs (st_backend s') = fs_ofs (st_backend s)"
    and "st_event_buffer s' = drop (st_last_transaction_boundary s) (st_event_buffer s)"
    and "st_last_transaction_boundary s' = 0" and "storage_ok C s'"
    and "st_replication_mode s' = st_replication_mode s"
    and "st_gtids_in_event_buffer s' = (if is_in_gtid_replication_mode s then [] else st_gtids_in_event_buffer s)"
proof -
  let ?n = "st_last_transaction_boundary s" and ?b = "st_backend s"
  note ok = storage_okD [OF assms(2)]
  obtain b where n: "?n \<le> length (st_event_buffer s)" and w: "write_data_to_stream (take ?n (st_event_buffer s)) ?b = Inr b"
    using assms(1) by (auto simp: flush_event_buffer_internal_def result_simps Let_def)
  have open_stream: "fs_ofs ?b \<noteq> None" using fs.write_fails [OF ok(2), of "take ?n (st_event_buffer s)"] w by auto
  then obtain rs r content where r: "st_binlog_records s = rs @ [r]" "fs_ofs ?b = Some (binlog_name_str (br_name r))"
    "contents ?b (binlog_name_str (br_name r)) = Some content" "of_nat (length content) = br_size r"
    using stream_okE [OF assms(2)] by blast
  have b: "backend_ok b" "fs_ofs b = fs_ofs ?b"
    "contents b = (contents ?b)(binlog_name_str (br_name r) \<mapsto> content @ take ?n (st_event_buffer s))"
    using fs.write_succeeds [OF ok(2) r(2), of "take ?n (st_event_buffer s)"] w r(2,3) by auto
  let ?r = "flushed_record I s r"
  let ?b' = "put_object (generate_binlog_metadata_name (br_name r)) (file_metadata_str C (file_metadata_of ?r)) b"
  have s': "s' = s\<lparr> st_backend := ?b', st_binlog_records := rs @ [?r],
      st_event_buffer := drop ?n (st_event_buffer s), st_last_transaction_boundary := 0,
      st_gtids_in_event_buffer := (if is_in_gtid_replication_mode s then [] else st_gtids_in_event_buffer s),
      st_ready_to_flush_timestamps := empty_range \<rparr>"
    using assms(1) w r(1)
    by (auto simp: flush_event_buffer_internal_def result_simps Let_def update_current_record_def
        save_binlog_metadata_def is_in_gtid_replication_mode_def)
  have b': "backend_ok ?b'" "fs_ofs ?b' = fs_ofs ?b"
    and D: "contents ?b' = (contents ?b)(binlog_name_str (br_name r) \<mapsto> content @ take ?n (st_event_buffer s),
       generate_binlog_metadata_name (br_name r) \<mapsto> file_metadata_str C (file_metadata_of ?r))"
    using b fs.put_ok [OF b(1)] fs.put_contents [OF b(1)] fs.put_stream [OF b(1)] by simp_all
  have "record_ok (st_replication_mode s) r" using directory_okD(1) [OF ok(3), of r] r(1) by simp
  then have "record_ok (st_replication_mode s) ?r" using ok(4) by (rule flushed_record_ok)
  moreover have "of_nat (length (content @ take ?n (st_event_buffer s))) = br_size ?r" using r(4) n by simp
  ultimately have "directory_ok C (st_replication_mode s) (contents ?b') (rs @ [?r])"
    unfolding D using ok(3) r(1) by (intro directory_ok_update_last) simp_all
  then have "storage_ok C s'"
    using ok b' r(2) by (auto simp: s' storage_ok_def buffer_ok_def stream_ok_def)
  then show ?thesis
    using that [of rs r content] r b' D by (simp add: s')
qed

lemma flush_event_buffer_ok:
  assumes "flush_event_buffer I C s = Inr s'" and "storage_ok C s"
  shows "storage_ok C s'"
proof (cases "has_event_data_to_flush s")
  case True
  then have "flush_event_buffer_internal I C s = Inr s'"
    using assms(1) by (auto simp: flush_event_buffer_def result_simps)
  then show ?thesis using assms(2) by (rule flush_internal_effect)
next
  case False
  then show ?thesis using assms by (auto simp: flush_event_buffer_def result_simps)
qed

lemma checkpoint_ok:
  assumes "checkpoint I C now s = Inr s'" and "storage_ok C s"
  shows "storage_ok C s'"
proof (cases "has_event_data_to_flush s \<and> needs_flush now s")
  case True
  then obtain s1 where s1: "flush_event_buffer_internal I C s = Inr s1"
    and s': "s' = s1\<lparr> st_last_checkpoint_position := get_ready_to_flush_position s, st_last_checkpoint_timestamp := now \<rparr>"
    using assms(1) by (auto simp: checkpoint_def result_simps Let_def)
  have ok: "storage_ok C s1" using s1 assms(2) by (rule flush_internal_effect)
  have "buffer_ok s'" using storage_okD(4) [OF ok] by (simp add: s' buffer_ok_def)
  then show ?thesis by (intro storage_ok_buffer [OF ok]) (simp_all add: s')
next
  case False
  then show ?thesis using assms by (auto simp: checkpoint_def)
qed

lemma write_event_ok:
  assumes "write_event I C data boundary g t n now s = Inr s'" and "storage_ok C s"
  shows "storage_ok C s'"
  using assms by (auto simp: write_event_def result_simps intro: checkpoint_ok buffer_event_ok)

text \<open>Closing writes the complete transactions and drops the rest of the buffer.\<close>

lemma close_stream_effect:
  assumes "backend_ok b" and "close_stream b = Inr b'"
  shows "backend_ok b'" "fs_ofs b' = None" "contents b' = contents b"
proof -
  have "fs_ofs b \<noteq> None" using fs.close_fails [OF assms(1)] assms(2) by auto
  then obtain name where "fs_ofs b = Some name" by blast
  from fs.close_succeeds [OF assms(1) this] obtain b1
    where b1: "close_stream b = Inr b1 \<and> backend_ok b1 \<and> fs_ofs b1 = None \<and> contents b1 = contents b" ..
  then have "b1 = b'" unfolding assms(2) by (simp only: sum.inject)
  then show "backend_ok b'" "fs_ofs b' = None" "contents b' = contents b" using b1 by (simp_all only:)
qed

lemma close_binlog_flush:
  assumes "close_binlog I C now s = Inr s'"
  obtains s1 b where "flush_event_buffer I C s = Inr s1" and "close_stream (st_backend s1) = Inr b"
    and "s' = update_last_checkpoint_info now (s1\<lparr> st_event_buffer := [], st_backend := b \<rparr>)"
  using assms by (auto simp: close_binlog_def result_simps Let_def)

lemma flush_event_buffer_boundary:
  assumes "flush_event_buffer I C s = Inr s'" and "storage_ok C s"
  shows "st_last_transaction_boundary s' = 0"
proof (cases "has_event_data_to_flush s")
  case True
  then have "flush_event_buffer_internal I C s = Inr s'"
    using assms(1) by (auto simp: flush_event_buffer_def result_simps)
  then show ?thesis using assms(2) by (rule flush_internal_effect)
next
  case False
  then show ?thesis using assms(1) by (auto simp: flush_event_buffer_def has_event_data_to_flush_def result_simps)
qed

lemma close_binlog_ok:
  assumes "close_binlog I C now s = Inr s'" and "storage_ok C s"
  shows "storage_ok C s'" "fs_ofs (st_backend s') = None"
    "st_event_buffer s' = []" "st_last_transaction_boundary s' = 0"
proof -
  obtain s1 b where s1: "flush_event_buffer I C s = Inr s1" and b: "close_stream (st_backend s1) = Inr b"
    and s': "s' = update_last_checkpoint_info now (s1\<lparr> st_event_buffer := [], st_backend := b \<rparr>)"
    using assms(1) by (rule close_binlog_flush)
  have ok: "storage_ok C s1" using s1 assms(2) by (rule flush_event_buffer_ok)
  note b' = close_stream_effect [OF storage_okD(2) [OF ok] b]
  have n: "st_last_transaction_boundary s1 = 0" using s1 assms(2) by (rule flush_event_buffer_boundary)
  have "buffer_ok (s1\<lparr> st_event_buffer := [], st_backend := b \<rparr>)"
    using storage_okD(4) [OF ok] n by (simp add: buffer_ok_def)
  then show "storage_ok C s'"
    using storage_okD(1,3) [OF ok] b' by (simp add: s' storage_ok_def stream_ok_def)
  show "fs_ofs (st_backend s') = None" "st_event_buffer s' = []" "st_last_transaction_boundary s' = 0"
    using b' n by (simp_all add: s')
qed

text \<open>A new binlog file holds the magic payload; an existing one is opened at its end.\<close>

lemma magic_payload_length: "of_nat (length magic_binlog_payload) = magic_binlog_offset"
  by code_simp

lemma open_stream_effect:
  assumes "backend_ok b" and "open_stream name mode b = Inr (n, b')"
    and "c = (case mode of Stream_create \<Rightarrow> [] | Stream_append \<Rightarrow> (case contents b name of None \<Rightarrow> [] | Some c \<Rightarrow> c))"
  shows "fs_ofs b = None" "backend_ok b'" "fs_ofs b' = Some name" "contents b' = (contents b)(name \<mapsto> c)"
    "n = of_nat (length c)"
proof -
  show "fs_ofs b = None" using fs.open_fails [OF assms(1), of name mode] assms(2) by fastforce
  from fs.open_succeeds [OF assms(1) this, of name mode]
  show "backend_ok b'" "fs_ofs b' = Some name" "contents b' = (contents b)(name \<mapsto> c)" "n = of_nat (length c)"
    unfolding assms(2,3) by simp_all
qed

lemma write_stream_effect:
  assumes "backend_ok b" and "fs_ofs b = Some name" and "contents b name = Some c"
  obtains b' where "write_data_to_stream data b = Inr b'" "backend_ok b'" "fs_ofs b' = Some name"
    "contents b' = (contents b)(name \<mapsto> c @ data)"
  using fs.write_succeeds [OF assms(1,2), of data] assms(3) that by (elim exE conjE) simp

lemma open_new_effect:
  assumes "open_new_binlog_file_internal I C n s = Inr (status, s')"
    and "backend_ok (st_backend s)" and "fs_ofs (st_backend s) = Some (binlog_name_str n)"
    and "contents (st_backend s) (binlog_name_str n) = Some []"
  obtains r b where "br_name r = n" "br_size r = magic_binlog_offset" "br_timestamps r = empty_range"
    "br_previous_gtids r = (if is_in_gtid_replication_mode s then Some (get_gtids I s) else None)"
    "br_added_gtids r = (if is_in_gtid_replication_mode s then Some [] else None)"
    and "s' = s\<lparr> st_backend := b, st_binlog_records := st_binlog_records s @ [r] \<rparr>" "status = Created"
    "backend_ok b" "fs_ofs b = Some (binlog_name_str n)"
    "contents b = (contents (st_backend s))(binlog_name_str n \<mapsto> magic_binlog_payload,
      generate_binlog_metadata_name n \<mapsto> file_metadata_str C (file_metadata_of r),
      default_binlog_index_name \<mapsto> as_const_byte_span (index_content (st_binlog_records s @ [r])))"
proof -
  obtain b1 where b1: "write_data_to_stream magic_binlog_payload (st_backend s) = Inr b1" "backend_ok b1"
    "fs_ofs b1 = Some (binlog_name_str n)"
    "contents b1 = (contents (st_backend s))(binlog_name_str n \<mapsto> [] @ magic_binlog_payload)"
    using assms(2-4) by (rule write_stream_effect)
  let ?r = "\<lparr> br_name = n, br_size = magic_binlog_offset,
     br_previous_gtids = (if is_in_gtid_replication_mode s then Some (get_gtids I s) else None),
     br_added_gtids = (if is_in_gtid_replication_mode s then Some [] else None),
     br_timestamps = empty_range, br_last_sequence_number = 0 \<rparr>"
  let ?b2 = "put_object (generate_binlog_metadata_name n) (file_metadata_str C (file_metadata_of ?r)) b1"
  let ?b3 = "put_object default_binlog_index_name (as_const_byte_span (index_content (st_binlog_records s @ [?r]))) ?b2"
  have "get_gtids I (s\<lparr> st_backend := b1 \<rparr>) = get_gtids I s"
    by (simp add: get_gtids_def is_in_gtid_replication_mode_def storage_is_empty_def)
  then have "status = Created" "s' = s\<lparr> st_backend := ?b3, st_binlog_records := st_binlog_records s @ [?r] \<rparr>"
    using assms(1) b1(1)
    by (auto simp: open_new_binlog_file_internal_def Let_def save_binlog_index_def save_binlog_metadata_def
        is_in_gtid_replication_mode_def)
  moreover note b2 = fs.put_ok [OF b1(2)] fs.put_contents [OF b1(2)] fs.put_stream [OF b1(2)]
  note b3 = fs.put_ok [OF b2(1)] fs.put_contents [OF b2(1)] fs.put_stream [OF b2(1)]
  ultimately show ?thesis using that [of ?r ?b3] b1(3,4) by (simp add: b2 b3)
qed

text \<open>The state in which \<open>open_binlog\<close> leaves the fields that it resets.\<close>

definition buffer_clear :: "'c storage \<Rightarrow> bool" where
  "buffer_clear s \<longleftrightarrow> st_event_buffer s = [] \<and> st_last_transaction_boundary s = 0 \<and>
     gtid_set_is_empty (st_gtids_in_event_buffer s) \<and> range_is_empty (st_ready_to_flush_timestamps s) \<and>
     range_is_empty (st_incomplete_transaction_timestamps s)"

definition same_state :: "'c storage \<Rightarrow> 'c storage \<Rightarrow> bool" where
  "same_state s s' \<longleftrightarrow> st_construction_mode s' = st_construction_mode s \<and> st_backend s' = st_backend s \<and>
     st_replication_mode s' = st_replication_mode s \<and> st_binlog_records s' = st_binlog_records s \<and>
     st_event_buffer s' = st_event_buffer s \<and> st_last_transaction_boundary s' = st_last_transaction_boundary s \<and>
     st_gtids_in_event_buffer s' = st_gtids_in_event_buffer s \<and>
     st_ready_to_flush_timestamps s' = st_ready_to_flush_timestamps s \<and>
     st_incomplete_transaction_timestamps s' = st_incomplete_transaction_timestamps s \<and>
     st_purged_gtids s' = st_purged_gtids s"

lemma open_binlog_stages:
  fixes s :: "'c storage"
  assumes "open_binlog I C n now s = Inr (status, s')"
  obtains offset b s1 where "validate_open n s = Inr ()" "st_construction_mode s = Streaming"
    "open_stream (binlog_name_str n) (if binlog_exists n s then Stream_append else Stream_create) (st_backend s) = Inr (offset, b)"
    "(if binlog_exists n s then open_existing_binlog_file_internal offset (s\<lparr> st_backend := b \<rparr>)
      else open_new_binlog_file_internal I C n (s\<lparr> st_backend := b \<rparr>)) = Inr (status, s1)"
    "same_state s1 s'" "buffer_clear s'"
proof -
  define finish :: "'c storage \<Rightarrow> 'c storage" where "finish s1 =
     (let n = (if binlog_exists n s then br_last_sequence_number (last (st_binlog_records s1)) else 0)
      in update_last_checkpoint_info now (s1\<lparr> st_ready_to_flush_last_sequence_number := n,
        st_incomplete_transaction_last_sequence_number := n \<rparr>))" for s1
  have same: "same_state s1 (finish s1)" for s1 by (simp add: finish_def same_state_def Let_def)
  have eq: "open_binlog I C n now s =
     rbind (ensure_streaming_mode s) (\<lambda>_. rbind (validate_open n s) (\<lambda>_.
     rbind (open_stream (binlog_name_str n) (if binlog_exists n s then Stream_append else Stream_create) (st_backend s)) (\<lambda>(offset, b).
     rbind (if binlog_exists n s then open_existing_binlog_file_internal offset (s\<lparr> st_backend := b \<rparr>)
            else open_new_binlog_file_internal I C n (s\<lparr> st_backend := b \<rparr>)) (\<lambda>(status, s1).
     rbind (ensure (buffer_clear (finish s1)) (Undefined_behaviour ''open_binlog'')) (\<lambda>_. Inr (status, finish s1))))))"
    by (simp only: open_binlog_def finish_def buffer_clear_def Let_def has_event_data_to_flush_def not_not conj_assoc)
  from assms obtain offset b s1 u where "validate_open n s = Inr u" "st_construction_mode s = Streaming"
    "open_stream (binlog_name_str n) (if binlog_exists n s then Stream_append else Stream_create) (st_backend s) = Inr (offset, b)"
    "(if binlog_exists n s then open_existing_binlog_file_internal offset (s\<lparr> st_backend := b \<rparr>)
      else open_new_binlog_file_internal I C n (s\<lparr> st_backend := b \<rparr>)) = Inr (status, s1)"
    "s' = finish s1" "buffer_clear (finish s1)"
    unfolding eq
    by (simp only: result_simps ensure_streaming_mode_def split_paired_Ex prod.case sum.inject prod.inject) blast
  moreover have "u = ()" by simp
  ultimately show ?thesis using that same by blast
qed

lemma same_state_ok: "same_state s s' \<Longrightarrow> storage_ok C s' \<longleftrightarrow> storage_ok C s"
  by (simp add: same_state_def storage_ok_def buffer_ok_def stream_ok_def)

lemma buffer_clear_ok: "buffer_clear s \<Longrightarrow> buffer_ok s \<longleftrightarrow> range_ok (st_ready_to_flush_timestamps s) \<and> range_ok (st_incomplete_transaction_timestamps s)"
  by (simp add: buffer_clear_def buffer_ok_def)

lemma open_binlog_new:
  assumes "open_binlog I C n now s = Inr (status, s')" and "storage_ok C s" and "index_name_ok n"
    and fresh: "\<not> binlog_exists n s"
  obtains r where "st_binlog_records s' = st_binlog_records s @ [r]" "br_name r = n" "br_size r = magic_binlog_offset"
    "br_previous_gtids r = (if is_in_gtid_replication_mode s then Some (get_gtids I s) else None)"
    "br_added_gtids r = (if is_in_gtid_replication_mode s then Some [] else None)"
    "contents (st_backend s') = (contents (st_backend s))(binlog_name_str n \<mapsto> magic_binlog_payload,
      generate_binlog_metadata_name n \<mapsto> file_metadata_str C (file_metadata_of r),
      default_binlog_index_name \<mapsto> as_const_byte_span (index_content (st_binlog_records s @ [r])))"
    "storage_ok C s'" "buffer_clear s'" "status = Created" "fs_ofs (st_backend s') = Some (binlog_name_str n)"
    "st_replication_mode s' = st_replication_mode s" "buffer_clear s"
proof -
  note ok = storage_okD [OF assms(2)]
  obtain offset b s1 where os: "open_stream (binlog_name_str n) (if binlog_exists n s then Stream_append else Stream_create) (st_backend s) = Inr (offset, b)"
    and int: "(if binlog_exists n s then open_existing_binlog_file_internal offset (s\<lparr> st_backend := b \<rparr>)
      else open_new_binlog_file_internal I C n (s\<lparr> st_backend := b \<rparr>)) = Inr (status, s1)"
    and s': "same_state s1 s'" "buffer_clear s'"
    using assms(1) by (rule open_binlog_stages)
  note b = open_stream_effect [OF ok(2) os refl]
  have new: "open_new_binlog_file_internal I C n (s\<lparr> st_backend := b \<rparr>) = Inr (status, s1)" using int fresh by simp
  have Db: "contents b = (contents (st_backend s))(binlog_name_str n \<mapsto> [])" using b(4) fresh by simp
  have pre: "backend_ok (st_backend (s\<lparr> st_backend := b \<rparr>))" "fs_ofs (st_backend (s\<lparr> st_backend := b \<rparr>)) = Some (binlog_name_str n)"
    "contents (st_backend (s\<lparr> st_backend := b \<rparr>)) (binlog_name_str n) = Some []"
    using b(2,3) Db by simp_all
  obtain r b2 where r: "br_name r = n" "br_size r = magic_binlog_offset" "br_timestamps r = empty_range"
    "br_previous_gtids r = (if is_in_gtid_replication_mode (s\<lparr> st_backend := b \<rparr>) then Some (get_gtids I (s\<lparr> st_backend := b \<rparr>)) else None)"
    "br_added_gtids r = (if is_in_gtid_replication_mode (s\<lparr> st_backend := b \<rparr>) then Some [] else None)"
    and s1: "s1 = s\<lparr> st_backend := b, st_backend := b2, st_binlog_records := st_binlog_records (s\<lparr> st_backend := b \<rparr>) @ [r] \<rparr>" "status = Created"
    and b2: "backend_ok b2" "fs_ofs b2 = Some (binlog_name_str n)"
    "contents b2 = (contents (st_backend (s\<lparr> st_backend := b \<rparr>)))(binlog_name_str n \<mapsto> magic_binlog_payload,
      generate_binlog_metadata_name n \<mapsto> file_metadata_str C (file_metadata_of r),
      default_binlog_index_name \<mapsto> as_const_byte_span (index_content (st_binlog_records (s\<lparr> st_backend := b \<rparr>) @ [r])))"
    using new pre by (rule open_new_effect)
  let ?D = "(contents (st_backend s))(binlog_name_str n \<mapsto> magic_binlog_payload,
      generate_binlog_metadata_name n \<mapsto> file_metadata_str C (file_metadata_of r),
      default_binlog_index_name \<mapsto> as_const_byte_span (index_content (st_binlog_records s @ [r])))"
  have D: "contents b2 = ?D" using b2(3) Db by simp
  have gtids: "get_gtids I (s\<lparr> st_backend := b \<rparr>) = get_gtids I s"
    by (simp add: get_gtids_def is_in_gtid_replication_mode_def storage_is_empty_def)
  have fr: "br_name r \<notin> br_name ` set (st_binlog_records s)"
    using fresh r(1) by (auto simp: binlog_exists_def list_ex_iff)
  have "record_ok (st_replication_mode s) r"
    using assms(3) r by (simp add: record_ok_def is_in_gtid_replication_mode_def)
  then have "directory_ok C (st_replication_mode s) ?D (st_binlog_records s @ [r])"
    using directory_ok_add [OF ok(3) fr, of magic_binlog_payload] magic_payload_length r(1,2) by simp
  then have "storage_ok C s1"
    using ok b2(1,2) r(1) by (simp add: s1 D storage_ok_def buffer_ok_def stream_ok_def)
  moreover have "contents (st_backend s') = ?D" "fs_ofs (st_backend s') = Some (binlog_name_str n)"
    "st_replication_mode s' = st_replication_mode s" "st_binlog_records s' = st_binlog_records s @ [r]"
    "buffer_clear s"
    using s' D b2(2) by (simp_all add: same_state_def s1(1) buffer_clear_def)
  ultimately show ?thesis
    using that [of r] r gtids s' same_state_ok [OF s'(1)] s1(2) by (simp add: is_in_gtid_replication_mode_def)
qed

lemma open_binlog_existing:
  assumes "open_binlog I C n now s = Inr (status, s')" and "storage_ok C s" and ex: "binlog_exists n s"
  shows "storage_ok C s'" "buffer_clear s'" "status \<in> {Opened_at_magic_payload_offset, Opened_with_data_present}"
    "st_binlog_records s' = st_binlog_records s" "contents (st_backend s') = contents (st_backend s)"
    "fs_ofs (st_backend s') = Some (binlog_name_str n)" "n = br_name (last (st_binlog_records s))"
    "st_replication_mode s' = st_replication_mode s" "buffer_clear s"
proof -
  note ok = storage_okD [OF assms(2)]
  obtain offset b s1 where v: "validate_open n s = Inr ()"
    and os: "open_stream (binlog_name_str n) (if binlog_exists n s then Stream_append else Stream_create) (st_backend s) = Inr (offset, b)"
    and int: "(if binlog_exists n s then open_existing_binlog_file_internal offset (s\<lparr> st_backend := b \<rparr>)
      else open_new_binlog_file_internal I C n (s\<lparr> st_backend := b \<rparr>)) = Inr (status, s1)"
    and s': "same_state s1 s'" "buffer_clear s'"
    using assms(1) by (rule open_binlog_stages)
  note b = open_stream_effect [OF ok(2) os refl]
  have ne: "st_binlog_records s \<noteq> []" using ex by (auto simp: binlog_exists_def)
  then show n: "n = br_name (last (st_binlog_records s))"
    using v ex by (simp add: validate_open_def get_current_binlog_name_def storage_is_empty_def result_simps)
  have p: "get_current_position s \<noteq> 0" using v ex by (simp add: validate_open_def result_simps)
  have "get_current_position (s\<lparr> st_backend := b \<rparr>) = get_current_position s"
    by (simp add: get_current_position_def get_flushed_position_def storage_is_empty_def)
  then have s1: "s1 = s\<lparr> st_backend := b \<rparr>"
    and "status \<in> {Opened_at_magic_payload_offset, Opened_with_data_present}"
    using int ex p by (auto simp: open_existing_binlog_file_internal_def result_simps split: if_splits)
  then show "status \<in> {Opened_at_magic_payload_offset, Opened_with_data_present}" by simp
  obtain content where c: "contents (st_backend s) (binlog_name_str n) = Some content"
    using directory_okD(2) [OF ok(3), of "last (st_binlog_records s)"] ne n by (auto simp: record_stored_def)
  then have D: "contents b = contents (st_backend s)" using b(4) ex by (simp add: fun_upd_idem)
  have "storage_ok C s1"
    using ok b(2,3) n ne by (simp add: s1 D storage_ok_def buffer_ok_def stream_ok_def)
  then show "storage_ok C s'" using same_state_ok [OF s'(1)] by simp
  show "buffer_clear s'" by (rule s')
  show "st_binlog_records s' = st_binlog_records s" "contents (st_backend s') = contents (st_backend s)"
    "fs_ofs (st_backend s') = Some (binlog_name_str n)" "st_replication_mode s' = st_replication_mode s" "buffer_clear s"
    using s' b(3) D by (simp_all add: same_state_def s1 buffer_clear_def)
qed

lemma open_binlog_ok:
  assumes "open_binlog I C n now s = Inr (status, s')" and "storage_ok C s" and "index_name_ok n"
  shows "storage_ok C s'"
proof (cases "binlog_exists n s")
  case True
  with assms(1,2) show ?thesis by (rule open_binlog_existing)
next
  case False
  with assms show ?thesis by (rule open_binlog_new)
qed

lemma set_purged_gtids_ok:
  "set_purged_gtids g s = Inr s' \<Longrightarrow> storage_ok C s \<Longrightarrow> storage_ok C s'"
  by (auto simp: set_purged_gtids_def result_simps storage_ok_def buffer_ok_def stream_ok_def)

end
