(* ===== verification/Storage_Reload.thy ===== *)
theory Storage_Reload
  imports Storage_Invariant
begin

text \<open>
  Constructing a storage over a backend that satisfies the directory part of the invariant: the
  constructor accepts it and restores the binlog records, in every construction mode.
\<close>

section \<open>Object lists\<close>

lemma map_of_filter_key:
  "map_of (filter (\<lambda>(name, x). P name) xs) n = (if P n then map_of xs n else None)"
  by (induction xs) auto

lemma map_of_list_objects:
  "map_of (list_objects b) n =
     (if path_extension n = tmp_object_suffix then None else map_option (\<lambda>c. of_nat (length c)) (contents b n))"
proof -
  have "map_of (map (\<lambda>(name, content). (name, of_nat (length content))) xs) n =
    map_option (\<lambda>c. of_nat (length c) :: uint64) (map_of xs n)" for xs :: objects
    by (induction xs) auto
  then show ?thesis
    by (simp add: list_objects_def map_of_filter_key)
qed

lemma keys_filter_subset: "distinct (map fst xs) \<Longrightarrow> distinct (map fst (filter P xs))"
  by (simp add: distinct_map_filter)

lemma distinct_list_objects: "backend_ok b \<Longrightarrow> distinct (map fst (list_objects b))"
  by (simp add: list_objects_def comp_def case_prod_beta' backend_ok_def keys_filter_subset)

lemma length_alist: "distinct (map fst xs) \<Longrightarrow> length xs = card (dom (map_of xs))"
  by (metis distinct_card dom_map_of_conv_image_fst length_map list.set_map)

section \<open>What a stored directory looks like to the constructor\<close>

lemma object_names_of_extension:
  assumes "\<forall>r \<in> set records. binlog_name_ok (br_name r)" and "n \<in> object_names_of records"
  shows "path_extension n \<noteq> tmp_object_suffix"
  using assms binlog_extension_differs(3) extension_metadata_name extension_fixed_names
  by (auto simp: object_names_of_def tmp_object_suffix_def split: if_splits)

text \<open>
  The part of the directory invariant that does not concern what is inside the metadata files and the
  index: the objects are those of the records, and the binlog files have the sizes of the records.
\<close>

definition directory_shape :: "(string \<Rightarrow> byte list option) \<Rightarrow> 'c binlog_record list \<Rightarrow> bool" where
  "directory_shape D records \<longleftrightarrow> dom D = object_names_of records \<and> distinct (map br_name records) \<and>
     (\<forall>r \<in> set records. binlog_name_ok (br_name r) \<and>
        (\<exists>content. D (binlog_name_str (br_name r)) = Some content \<and> of_nat (length content) = br_size r))"

lemma directory_ok_shape: "directory_ok C mode D records \<Longrightarrow> directory_shape D records"
  using directory_okD(2,3) [of C mode D records] by (simp add: directory_shape_def directory_ok_def record_stored_def)

lemma directory_objects:
  assumes "directory_shape (contents b) records"
  shows "map_of (list_objects b) n = map_option (\<lambda>c. of_nat (length c)) (contents b n)"
proof (cases "contents b n")
  case (Some c)
  then have "n \<in> object_names_of records" using assms by (auto simp: directory_shape_def)
  moreover have "\<forall>r \<in> set records. binlog_name_ok (br_name r)" using assms by (simp add: directory_shape_def)
  ultimately have "path_extension n \<noteq> tmp_object_suffix" using object_names_of_extension by blast
  then show ?thesis by (simp add: map_of_list_objects)
qed (simp add: map_of_list_objects)

text \<open>The objects other than the storage metadata and the index.\<close>

definition binlog_object_list :: "fs_backend \<Rightarrow> storage_object_names" where
  "binlog_object_list b = AList.delete default_binlog_index_name (AList.delete metadata_name (list_objects b))"

lemma map_of_binlog_object_list:
  assumes "directory_shape (contents b) records"
  shows "map_of (binlog_object_list b) n = (if n = default_binlog_index_name \<or> n = metadata_name then None
    else map_option (\<lambda>c. of_nat (length c)) (contents b n))"
  using directory_objects [OF assms] by (simp add: binlog_object_list_def delete_conv')

lemma object_count:
  assumes dir: "directory_shape (contents b) records" and "backend_ok b"
    and inj: "\<And>m n. binlog_name_ok m \<Longrightarrow> binlog_name_ok n \<Longrightarrow> f m = f n \<longleftrightarrow> m = n"
    and P: "\<And>n. n \<in> object_names_of records \<and> n \<noteq> default_binlog_index_name \<and> n \<noteq> metadata_name \<and> P n \<longleftrightarrow>
      n \<in> f ` br_name ` set records"
  shows "length (filter (\<lambda>(name, _). P name) (binlog_object_list b)) = length records"
proof -
  let ?L = "filter (\<lambda>(name, _). P name) (binlog_object_list b)"
  have keys: "dom (contents b) = object_names_of records" and names: "distinct (map br_name records)"
    using dir by (simp_all add: directory_shape_def)
  have "dom (map_of ?L) = f ` br_name ` set records"
    unfolding set_eq_iff P [symmetric] keys [symmetric]
    by (auto simp: map_of_filter_key map_of_binlog_object_list [OF dir] split: if_splits)
  moreover have "inj_on (f \<circ> br_name) (set records)"
    using names dir by (auto simp: inj_on_def inj distinct_map directory_shape_def)
  then have "card (f ` br_name ` set records) = card (set records)"
    using card_image [of "f \<circ> br_name" "set records"] by (simp add: image_comp comp_def)
  moreover have "card (set records) = length records" using names by (simp add: distinct_map distinct_card)
  moreover have "distinct (map fst ?L)"
    using assms(2) by (simp add: binlog_object_list_def keys_filter_subset distinct_list_objects distinct_delete)
  ultimately show ?thesis using length_alist [of ?L] by simp
qed

text \<open>The two object lists that the constructor makes: the binlog files and their metadata files.\<close>

definition binlog_files_of :: "fs_backend \<Rightarrow> storage_object_names" where
  "binlog_files_of b = filter (\<lambda>(name, _). \<not> is_metadata_object name) (binlog_object_list b)"

definition metadata_files_of :: "fs_backend \<Rightarrow> storage_object_names" where
  "metadata_files_of b = filter (\<lambda>(name, _). is_metadata_object name) (binlog_object_list b)"

lemma binlog_objects:
  assumes dir: "directory_shape (contents b) records" and "records \<noteq> []" and "backend_ok b"
  shows "\<And>r. r \<in> set records \<Longrightarrow> map_of (binlog_files_of b) (binlog_name_str (br_name r)) = Some (br_size r)"
    and "length (binlog_files_of b) = length records"
    and "\<And>r. r \<in> set records \<Longrightarrow> map_of (metadata_files_of b) (generate_binlog_metadata_name (br_name r)) \<noteq> None"
    and "length (metadata_files_of b) = length records"
proof -
  note obj = binlog_files_of_def metadata_files_of_def map_of_filter_key map_of_binlog_object_list [OF dir]
  have r: "binlog_name_ok (br_name x)" if "x \<in> set records" for x using dir that by (simp add: directory_shape_def)
  have differ: "binlog_name_str (br_name x) \<noteq> metadata_name" "binlog_name_str (br_name x) \<noteq> default_binlog_index_name"
    "generate_binlog_metadata_name (br_name x) \<noteq> default_binlog_index_name" "generate_binlog_metadata_name (br_name x) \<noteq> metadata_name"
    "is_metadata_object (generate_binlog_metadata_name (br_name x))" "\<not> is_metadata_object (binlog_name_str (br_name x))"
    if "x \<in> set records" for x
    using object_names_differ [OF r [OF that] r [OF that]] metadata_names_differ [OF r [OF that]]
      is_metadata_object_names(1) [of "br_name x"] is_metadata_object_names(2) [OF r [OF that]] by simp_all
  show "map_of (binlog_files_of b) (binlog_name_str (br_name x)) = Some (br_size x)" if "x \<in> set records" for x
    using dir that differ [OF that] by (auto simp: obj directory_shape_def)
  show "map_of (metadata_files_of b) (generate_binlog_metadata_name (br_name x)) \<noteq> None" if "x \<in> set records" for x
  proof -
    have "generate_binlog_metadata_name (br_name x) \<in> dom (contents b)"
      using dir that by (auto simp: directory_shape_def object_names_of_def)
    then show ?thesis using differ [OF that] by (auto simp: obj)
  qed
  show "length (binlog_files_of b) = length records"
    unfolding binlog_files_of_def using dir assms(3) binlog_name_str_inject
  proof (rule object_count)
    show "n \<in> object_names_of records \<and> n \<noteq> default_binlog_index_name \<and> n \<noteq> metadata_name \<and> \<not> is_metadata_object n \<longleftrightarrow>
      n \<in> binlog_name_str ` br_name ` set records" for n
      using assms(2) differ by (auto simp: object_names_of_def)
  qed
  show "length (metadata_files_of b) = length records"
    unfolding metadata_files_of_def using dir assms(3) metadata_name_inject
  proof (rule object_count)
    show "n \<in> object_names_of records \<and> n \<noteq> default_binlog_index_name \<and> n \<noteq> metadata_name \<and> is_metadata_object n \<longleftrightarrow>
      n \<in> generate_binlog_metadata_name ` br_name ` set records" for n
      using assms(2) differ by (auto simp: object_names_of_def)
  qed
qed

section \<open>Loading\<close>

text \<open>
  What loading needs of the metadata texts: that they are read back as they were written, and that
  they and the index are not larger than the limit on objects read into memory.
\<close>

definition loadable :: "'c metadata_codec \<Rightarrow> replication_mode_type \<Rightarrow> 'c binlog_record list \<Rightarrow> bool" where
  "loadable C mode records \<longleftrightarrow>
     storage_metadata_parse C (storage_metadata_str C mode) = Inr mode \<and>
     int (length (storage_metadata_str C mode)) \<le> max_memory_object_size \<and>
     int (length (index_content records)) \<le> max_memory_object_size \<and>
     (\<forall>r \<in> set records. let m = file_metadata_of r in
        file_metadata_parse C (file_metadata_str C m) = Inr m \<and>
        int (length (file_metadata_str C m)) \<le> max_memory_object_size)"

lemma get_object_stored:
  "contents b name = Some content \<Longrightarrow> int (length content) \<le> max_memory_object_size \<Longrightarrow> get_object name b = Inr content"
  by (simp add: get_object_def)

lemma load_binlog_metadata_stored:
  assumes "contents (st_backend s) (generate_binlog_metadata_name (br_name r)) = Some (file_metadata_str C (file_metadata_of r))"
    and "range_ok (br_timestamps r)" and "loadable C mode records" and "r \<in> set records"
  shows "load_binlog_metadata C (br_name r) s = Inr r"
proof -
  have "get_object (generate_binlog_metadata_name (br_name r)) (st_backend s) = Inr (file_metadata_str C (file_metadata_of r))"
    using assms by (intro get_object_stored) (auto simp: loadable_def Let_def)
  moreover have "file_metadata_parse C (file_metadata_str C (file_metadata_of r)) = Inr (file_metadata_of r)"
    using assms(3,4) by (simp add: loadable_def Let_def)
  ultimately show ?thesis
    using assms(2) by (simp add: load_binlog_metadata_def file_metadata_of_def make_timestamp_range_ok)
qed

lemma load_records_all:
  "\<forall>r \<in> set records. f (g (br_name r)) = Inr (Some r) \<Longrightarrow> load_records f (map (g \<circ> br_name) records) = Inr records"
  by (induction records) auto

lemma load_records_last_fails:
  "\<forall>r \<in> set records. f (g (br_name r)) = Inr (Some r) \<Longrightarrow> f (g (br_name r')) = Inl e \<Longrightarrow>
   load_records f (map (g \<circ> br_name) (records @ [r'])) = Inl e"
  by (induction records) auto

definition reloaded ::
    "uint64 \<Rightarrow> int \<Rightarrow> fs_backend \<Rightarrow> storage_construction_mode \<Rightarrow> replication_mode_type \<Rightarrow> 'c binlog_record list \<Rightarrow> 'c storage" where
  "reloaded checkpoint_size checkpoint_interval b cm mode records =
     (initial_storage checkpoint_size checkpoint_interval b cm mode)\<lparr> st_binlog_records := records,
       st_purged_gtids := (if records = [] then [] else case br_added_gtids (hd records) of None \<Rightarrow> [] | Some g \<Rightarrow> g) \<rparr>"

lemma reload_index:
  assumes names: "\<forall>r \<in> set records. index_name_ok (br_name r)" "distinct (map br_name records)"
    and index: "contents b default_binlog_index_name = Some (as_const_byte_span (index_content records))"
    and load: "loadable C mode records"
    and s: "st_backend s = b" "st_replication_mode s = mode" "st_binlog_records s = []"
  shows "load_binlog_index s = Inr (s\<lparr> st_binlog_records := map (placeholder mode \<circ> br_name) records \<rparr>)"
proof -
  have "get_object default_binlog_index_name b = Inr (as_const_byte_span (index_content records))"
    using index load by (intro get_object_stored) (simp_all add: loadable_def as_const_byte_span_def)
  moreover have "rfold load_index_line (map index_entry (map br_name records)) s =
      Inr (s\<lparr> st_binlog_records := st_binlog_records s @ map (placeholder (st_replication_mode s)) (map br_name records) \<rparr>)"
    using names by (intro load_index_lines) (auto simp: s)
  ultimately show ?thesis
    by (simp add: load_binlog_index_def s index_lines_content [OF names(1)])
qed

lemma placeholder_name [simp]: "br_name (placeholder mode n) = n"
  by (simp add: placeholder_def Let_def)

text \<open>A record is loaded if the size in its metadata is that of the file, or the sizes are not compared.\<close>

lemma load_record_stored:
  assumes "contents (st_backend s) (generate_binlog_metadata_name (br_name r)) = Some (file_metadata_str C (file_metadata_of r))"
    and ok: "record_ok mode r" and load: "loadable C mode records" and r: "r \<in> set records"
    and s: "st_replication_mode s = mode"
    and objects: "map_of M (generate_binlog_metadata_name (br_name r)) \<noteq> None" "map_of N (binlog_name_str (br_name r)) = Some n"
  shows "load_record C N M s (placeholder mode (br_name r)) =
    (if st_construction_mode s = Querying_only \<or> n = br_size r then Inr (Some r)
     else Inl (Logic_error ''size from the binlog metadata does not match the actual binlog size''))"
proof -
  have "load_binlog_metadata C (br_name r) s = Inr r"
    using assms(1) ok load r by (intro load_binlog_metadata_stored) (auto simp: record_ok_def)
  moreover have "validate_binlog_metadata r s = Inr ()"
    using ok
    by (cases "mode = Gtid_mode") (simp_all add: validate_binlog_metadata_def record_ok_def is_in_gtid_replication_mode_def s)
  ultimately show ?thesis using objects by (simp add: load_record_def)
qed

text \<open>
  The way of the constructor to the metadata files, over a directory with at least one binlog: the
  records with which it starts have the names of the index.
\<close>

lemma make_storage_stages:
  assumes shape: "directory_shape (contents b) records" and ne: "records \<noteq> []"
    and names: "\<forall>r \<in> set records'. index_name_ok (br_name r)" "map br_name records' = map br_name records"
    and meta: "contents b metadata_name = Some (storage_metadata_str C mode)"
    and index: "contents b default_binlog_index_name = Some (as_const_byte_span (index_content records'))"
    and load: "loadable C mode records'" and bk: "backend_ok b"
    and t: "t = (initial_storage checkpoint_size checkpoint_interval b cm mode)\<lparr>
      st_binlog_records := map (placeholder mode \<circ> br_name) records' \<rparr>"
  shows "make_storage C checkpoint_size checkpoint_interval b cm mode =
    load_and_validate_binlog_metadata_set C (binlog_files_of b) (metadata_files_of b) t"
proof -
  let ?s = "initial_storage checkpoint_size checkpoint_interval b cm mode"
  have s: "st_backend ?s = b" "st_replication_mode ?s = mode" "st_binlog_records ?s = []"
    by (simp_all add: initial_storage_def)
  have objects: "map_of (list_objects b) metadata_name \<noteq> None"
    "map_of (AList.delete metadata_name (list_objects b)) default_binlog_index_name \<noteq> None"
  proof -
    have "metadata_name \<noteq> default_binlog_index_name" by code_simp
    then show "map_of (list_objects b) metadata_name \<noteq> None"
      "map_of (AList.delete metadata_name (list_objects b)) default_binlog_index_name \<noteq> None"
      using directory_objects [OF shape] meta index by (simp_all add: delete_conv')
  qed
  then have nonempty: "list_objects b \<noteq> []" "AList.delete metadata_name (list_objects b) \<noteq> []" by auto
  have "load_metadata C ?s = Inr (?s\<lparr> st_replication_mode := mode \<rparr>)"
    using meta load get_object_stored [of b metadata_name] by (simp add: load_metadata_def s loadable_def)
  moreover have "?s\<lparr> st_replication_mode := mode \<rparr> = ?s" by (simp add: initial_storage_def)
  ultimately have lm: "load_metadata C ?s = Inr ?s" by simp
  have vm: "validate_metadata mode ?s = Inr ()" by (simp add: validate_metadata_def s)
  have "distinct (map br_name records')" using names(2) shape by (simp add: directory_shape_def)
  then have li: "load_binlog_index ?s = Inr t" unfolding t using names(1) index load s by (intro reload_index)
  have vi: "validate_binlog_index (binlog_files_of b) t = Inr ()"
  proof -
    have "map_of (binlog_files_of b) (binlog_name_str n) \<noteq> None" if "n \<in> set (map br_name records')" for n
      using that binlog_objects(1) [OF shape ne bk] unfolding names(2) by auto
    then have "list_all (\<lambda>r. map_of (binlog_files_of b) (binlog_name_str (br_name r)) \<noteq> None) (st_binlog_records t)"
      by (auto simp: t list_all_iff)
    moreover have "length (binlog_files_of b) = length (st_binlog_records t)"
      using binlog_objects(2) [OF shape ne bk] names(2) [THEN map_eq_imp_length_eq] by (simp add: t)
    ultimately show ?thesis by (simp add: validate_binlog_index_def)
  qed
  have "make_storage C checkpoint_size checkpoint_interval b cm mode =
      rbind (load_binlog_index ?s) (\<lambda>s. rbind (validate_binlog_index (binlog_files_of b) s)
        (\<lambda>_. load_and_validate_binlog_metadata_set C (binlog_files_of b) (metadata_files_of b) s))"
    using objects nonempty
    by (simp only: make_storage_def Let_def lm vm rbind_Inr binlog_object_list_def binlog_files_of_def metadata_files_of_def
        ensure_def if_True if_False not_False_eq_True simp_thms)
  then show ?thesis by (simp only: li vi rbind_Inr)
qed

lemma make_storage_reload:
  fixes C :: "'c metadata_codec"
  assumes dir: "directory_ok C mode (contents b) records" and bk: "backend_ok b" and load: "loadable C mode records"
  shows "make_storage C checkpoint_size checkpoint_interval b cm mode =
    Inr (reloaded checkpoint_size checkpoint_interval b cm mode records)"
proof (cases "records = []")
  case True
  let ?s = "initial_storage checkpoint_size checkpoint_interval b cm mode"
  note shape = directory_ok_shape [OF dir]
  have s: "st_backend ?s = b" "st_replication_mode ?s = mode" by (simp_all add: initial_storage_def)
  have meta: "map_of (list_objects b) metadata_name \<noteq> None"
    using directory_objects [OF shape] dir by (simp add: directory_ok_def)
  have "map_of (AList.delete metadata_name (list_objects b)) n = None" for n
    using directory_objects [OF shape] dir True
    by (auto simp: delete_conv' directory_ok_def object_names_of_def)
  then have "AList.delete metadata_name (list_objects b) = []"
    by (metis map_of_eq_empty_iff fun_eq_iff)
  moreover have "load_metadata C ?s = Inr (?s\<lparr> st_replication_mode := mode \<rparr>)"
    using dir load get_object_stored [of b metadata_name]
    by (simp add: load_metadata_def s directory_ok_def loadable_def)
  moreover have "list_objects b \<noteq> []" using meta by auto
  ultimately show ?thesis
    using meta by (simp add: make_storage_def validate_metadata_def Let_def reloaded_def True) (simp add: initial_storage_def)
next
  case False
  note shape = directory_ok_shape [OF dir] and r = directory_okD [OF dir]
  let ?N = "binlog_files_of b" and ?M = "metadata_files_of b"
  define t :: "'c storage" where "t = (initial_storage checkpoint_size checkpoint_interval b cm mode)\<lparr>
    st_binlog_records := map (placeholder mode \<circ> br_name) records \<rparr>"
  have t: "st_backend t = b" "st_replication_mode t = mode" "st_purged_gtids t = []"
    "st_binlog_records t = map (placeholder mode \<circ> br_name) records"
    by (simp_all add: t_def initial_storage_def)
  have loads: "make_storage C checkpoint_size checkpoint_interval b cm mode = load_and_validate_binlog_metadata_set C ?N ?M t"
    using shape False _ refl _ _ load bk t_def
    by (rule make_storage_stages) (use dir False in \<open>auto simp: directory_ok_def record_ok_def\<close>)
  have "load_record C ?N ?M t (placeholder mode (br_name x)) = Inr (Some x)" if x: "x \<in> set records" for x
    using load_record_stored [of t x C mode records ?M ?N "br_size x"] r(1,2) [OF x] load x t
      binlog_objects(1,3) [OF shape False bk x] by (simp add: record_stored_def)
  then have "load_records (load_record C ?N ?M t) (st_binlog_records t) = Inr records"
    unfolding t by (intro load_records_all) simp
  then have "load_and_validate_binlog_metadata_set C ?N ?M t = Inr (t\<lparr> st_binlog_records := records,
      st_purged_gtids := (case br_added_gtids (hd records) of None \<Rightarrow> st_purged_gtids t | Some g \<Rightarrow> g) \<rparr>)"
    using binlog_objects(4) [OF shape False bk] False by (simp add: load_and_validate_binlog_metadata_set_def)
  then show ?thesis unfolding loads t(3) by (simp add: reloaded_def False t_def)
qed

lemma make_storage_fresh:
  assumes "fs_objects b = []" and "backend_ok b"
  obtains s where "make_storage C checkpoint_size checkpoint_interval b Streaming mode = Inr s"
    "storage_ok C s" "st_binlog_records s = []" "buffer_clear s"
proof -
  have "make_storage C checkpoint_size checkpoint_interval b Streaming mode =
      Inr (save_metadata C (initial_storage checkpoint_size checkpoint_interval b Streaming mode))"
    using assms by (simp add: make_storage_def list_objects_def Let_def)
  moreover have ofs: "fs_ofs b = None" using assms by (auto simp: backend_ok_def)
  ultimately show ?thesis
    using that fs.put_ok [OF assms(2)] fs.put_contents [OF assms(2)] fs.put_stream [OF assms(2)] assms(1)
    by (simp add: storage_ok_def save_metadata_def initial_storage_def directory_ok_def object_names_of_def
        buffer_ok_def stream_ok_def buffer_clear_def gtid_set_is_empty_def)
qed

end
