(* ===== verification/Storage_Runs.thy ===== *)
theory Storage_Runs
  imports Storage_Reload
begin

text \<open>
  Sequences of storage operations, with restarts of the process between them. Every reachable
  storage satisfies the representation invariant, can be constructed again from its backend, and
  its records form a chain of GTID sets. An abstract log, in which an event that completes a
  transaction commits at once, is refined by the buffered implementation.
\<close>

section \<open>Operations and reachable states\<close>

datatype 'c storage_op =
    Open_binlog composite_binlog_name int
  | Write_event "byte list" bool gtid ctime_timestamp uint64 int
  | Flush_event_buffer
  | Discard_incomplete
  | Close_binlog int
  | Set_purged_gtids "'c gtid_set"

primrec perform :: "'c icl \<Rightarrow> 'c metadata_codec \<Rightarrow> 'c storage_op \<Rightarrow> 'c storage \<Rightarrow> 'c storage result" where
  "perform I C (Open_binlog name now) s = rbind (open_binlog I C name now s) (\<lambda>(_, s). Inr s)"
| "perform I C (Write_event event_data boundary transaction_gtid timestamp sequence_number now) s =
     write_event I C event_data boundary transaction_gtid timestamp sequence_number now s"
| "perform I C Flush_event_buffer s = flush_event_buffer I C s"
| "perform I C Discard_incomplete s = discard_incomplete_transaction_events s"
| "perform I C (Close_binlog now) s = close_binlog I C now s"
| "perform I C (Set_purged_gtids gtids) s = set_purged_gtids gtids s"

primrec names_ok :: "'c storage_op \<Rightarrow> bool" where
  "names_ok (Open_binlog name now) = index_name_ok name"
| "names_ok (Write_event event_data boundary transaction_gtid timestamp sequence_number now) = True"
| "names_ok Flush_event_buffer = True"
| "names_ok Discard_incomplete = True"
| "names_ok (Close_binlog now) = True"
| "names_ok (Set_purged_gtids gtids) = True"

text \<open>The process stops: what is left is the objects of the backend.\<close>

definition after_crash :: "fs_backend \<Rightarrow> fs_backend" where
  "after_crash b = b\<lparr> fs_ofs := None, fs_stream_open := False \<rparr>"

definition empty_backend :: fs_backend where
  "empty_backend = \<lparr> fs_objects = [], fs_ofs = None, fs_stream_open = False \<rparr>"

inductive storage_reachable :: "'c icl \<Rightarrow> 'c metadata_codec \<Rightarrow> 'c storage \<Rightarrow> bool" for I C where
  fresh: "make_storage C checkpoint_size checkpoint_interval empty_backend Streaming mode = Inr s \<Longrightarrow> storage_reachable I C s"
| step: "storage_reachable I C s \<Longrightarrow> perform I C op s = Inr s' \<Longrightarrow> names_ok op \<Longrightarrow> storage_reachable I C s'"
| restart: "storage_reachable I C s \<Longrightarrow> loadable C (st_replication_mode s) (st_binlog_records s) \<Longrightarrow>
    make_storage C checkpoint_size checkpoint_interval (after_crash (st_backend s)) Streaming (st_replication_mode s) = Inr s' \<Longrightarrow>
    storage_reachable I C s'"

lemma perform_ok:
  assumes "perform I C op s = Inr s'" and "names_ok op" and "storage_ok C s"
  shows "storage_ok C s'"
proof (cases op)
  case (Open_binlog n now)
  then show ?thesis using assms by (auto simp: result_simps intro: open_binlog_ok)
next
  case (Close_binlog now)
  then show ?thesis using assms close_binlog_ok(1) [of I C now s s'] by simp
qed (use assms in \<open>auto intro: write_event_ok flush_event_buffer_ok discard_ok set_purged_gtids_ok\<close>)

lemma after_crash_fields [simp]:
  "fs_objects (after_crash b) = fs_objects b" "fs_ofs (after_crash b) = None" "fs_stream_open (after_crash b) = False"
  by (simp_all add: after_crash_def)

lemma after_crash_ok: "backend_ok b \<Longrightarrow> backend_ok (after_crash b)"
  by (simp add: backend_ok_def)

lemma reloaded_fields [simp]:
  "st_construction_mode (reloaded cs ci b cm mode records) = cm" "st_backend (reloaded cs ci b cm mode records) = b"
  "st_replication_mode (reloaded cs ci b cm mode records) = mode"
  "st_binlog_records (reloaded cs ci b cm mode records) = records"
  "buffer_clear (reloaded cs ci b cm mode records)" "buffer_ok (reloaded cs ci b cm mode records)"
  by (simp_all add: reloaded_def initial_storage_def buffer_clear_def buffer_ok_def gtid_set_is_empty_def)

lemma restart_succeeds:
  assumes "storage_ok C s" and "loadable C (st_replication_mode s) (st_binlog_records s)"
  shows "make_storage C cs ci (after_crash (st_backend s)) cm (st_replication_mode s) =
    Inr (reloaded cs ci (after_crash (st_backend s)) cm (st_replication_mode s) (st_binlog_records s))"
  using storage_okD(2,3) [OF assms(1)] assms(2) by (intro make_storage_reload) (simp_all add: after_crash_ok)

lemma reloaded_ok:
  assumes "storage_ok C s"
  shows "storage_ok C (reloaded cs ci (after_crash (st_backend s)) Streaming (st_replication_mode s) (st_binlog_records s))"
  using storage_okD(2,3) [OF assms] by (simp add: storage_ok_def after_crash_ok stream_ok_def)

lemma reachable_ok: "storage_reachable I C s \<Longrightarrow> storage_ok C s"
proof (induction rule: storage_reachable.induct)
  case (fresh cs ci mode s)
  have "backend_ok empty_backend" "fs_objects empty_backend = []" by (simp_all add: backend_ok_def empty_backend_def)
  then obtain s' where "make_storage C cs ci empty_backend Streaming mode = Inr s'" "storage_ok C s'"
    using make_storage_fresh by blast
  then show ?case using fresh by simp
next
  case (step s op s')
  then show ?case using perform_ok by blast
next
  case (restart s cs ci s')
  then show ?case using restart_succeeds reloaded_ok by (metis sum.inject(2))
qed

section \<open>The abstract log\<close>

text \<open>
  Binlog files with the bytes of their complete transactions, and the bytes of the transaction that
  is still being received. An event that is not at a transaction boundary is pending; the next
  event at a boundary commits the pending bytes and its own.
\<close>

record binlog_log =
  lg_files :: "(composite_binlog_name \<times> byte list) list"
  lg_pending :: "byte list"
  lg_open :: bool

definition append_to_last :: "byte list \<Rightarrow> (composite_binlog_name \<times> byte list) list \<Rightarrow> (composite_binlog_name \<times> byte list) list" where
  "append_to_last data files =
     (if files = [] then [] else butlast files @ [(fst (last files), snd (last files) @ data)])"

fun log_step :: "'c storage_op \<Rightarrow> binlog_log \<Rightarrow> binlog_log option" where
  "log_step (Open_binlog name _) L =
     Some (if name \<in> fst ` set (lg_files L) then L\<lparr> lg_open := True \<rparr>
           else L\<lparr> lg_files := lg_files L @ [(name, magic_binlog_payload)], lg_open := True \<rparr>)"
| "log_step (Write_event event_data boundary _ _ _ _) L =
     (if \<not> lg_open L then None
      else Some (if boundary then L\<lparr> lg_files := append_to_last (lg_pending L @ event_data) (lg_files L), lg_pending := [] \<rparr>
                 else L\<lparr> lg_pending := lg_pending L @ event_data \<rparr>))"
| "log_step Flush_event_buffer L = Some L"
| "log_step Discard_incomplete L = Some (L\<lparr> lg_pending := [] \<rparr>)"
| "log_step (Close_binlog _) L = Some (L\<lparr> lg_pending := [], lg_open := False \<rparr>)"
| "log_step (Set_purged_gtids _) L = Some L"

primrec log_run :: "'c storage_op list \<Rightarrow> binlog_log \<Rightarrow> binlog_log option" where
  "log_run [] L = Some L"
| "log_run (op # ops) L = Option.bind (log_step op L) (log_run ops)"

definition file_bytes :: "(string \<Rightarrow> byte list option) \<Rightarrow> 'c binlog_record \<Rightarrow> composite_binlog_name \<times> byte list" where
  "file_bytes D r = (br_name r, case D (binlog_name_str (br_name r)) of None \<Rightarrow> [] | Some content \<Rightarrow> content)"

definition log_of :: "'c storage \<Rightarrow> binlog_log" where
  "log_of s =
     \<lparr> lg_files = append_to_last (take (st_last_transaction_boundary s) (st_event_buffer s))
         (map (file_bytes (contents (st_backend s))) (st_binlog_records s)),
       lg_pending = drop (st_last_transaction_boundary s) (st_event_buffer s),
       lg_open = is_binlog_open s \<rparr>"

lemma append_to_last_Nil [simp]: "append_to_last [] files = files"
  by (cases files rule: rev_cases) (simp_all add: append_to_last_def)

lemma append_to_last_snoc [simp]: "append_to_last data (files @ [f]) = files @ [(fst f, snd f @ data)]"
  by (simp add: append_to_last_def)

lemma append_to_last_twice [simp]: "append_to_last data (append_to_last data' files) = append_to_last (data' @ data) files"
  by (cases files rule: rev_cases) (simp_all add: append_to_last_def)

lemma fst_append_to_last [simp]: "fst ` set (append_to_last data files) = fst ` set files"
  by (cases files rule: rev_cases) (simp_all add: append_to_last_def)

lemma file_bytes_other:
  assumes "binlog_name_ok (br_name r)" and "binlog_name_ok n" and "br_name r \<noteq> n"
  shows "file_bytes (D(binlog_name_str n \<mapsto> c)) r = file_bytes D r"
    "file_bytes (D(generate_binlog_metadata_name n \<mapsto> c)) r = file_bytes D r"
    "file_bytes (D(default_binlog_index_name \<mapsto> c)) r = file_bytes D r"
  using assms object_names_differ [OF assms(1,2)] by (simp_all add: file_bytes_def binlog_name_str_inject)

lemma is_binlog_open_ok: "storage_ok C s \<Longrightarrow> is_binlog_open s \<longleftrightarrow> fs_ofs (st_backend s) \<noteq> None"
  by (simp add: is_binlog_open_def storage_ok_def backend_ok_def)

section \<open>Refinement\<close>

lemma flush_internal_log:
  assumes "flush_event_buffer_internal I C s = Inr s'" and "storage_ok C s"
  shows "log_of s' = log_of s"
proof -
  let ?n = "st_last_transaction_boundary s" and ?D = "contents (st_backend s)"
  obtain rs r content where r: "st_binlog_records s = rs @ [r]" "st_binlog_records s' = rs @ [flushed_record I s r]"
    and c: "?D (binlog_name_str (br_name r)) = Some content"
    and D: "contents (st_backend s') = ?D(binlog_name_str (br_name r) \<mapsto> content @ take ?n (st_event_buffer s),
       generate_binlog_metadata_name (br_name r) \<mapsto> file_metadata_str C (file_metadata_of (flushed_record I s r)))"
    and ofs: "fs_ofs (st_backend s') = fs_ofs (st_backend s)"
    and buf: "st_event_buffer s' = drop ?n (st_event_buffer s)" "st_last_transaction_boundary s' = 0"
    and ok': "storage_ok C s'"
    using assms by (rule flush_internal_effect)
  note dir = storage_okD(3) [OF assms(2)]
  have fresh: "br_name r \<notin> br_name ` set rs" using dir r(1) by (simp add: directory_ok_def)
  have n: "binlog_name_ok (br_name x)" if "x \<in> set (rs @ [r])" for x using directory_okD(3) [OF dir] that r(1) by simp
  have "file_bytes (contents (st_backend s')) x = file_bytes ?D x" if "x \<in> set rs" for x
  proof -
    have "br_name x \<noteq> br_name r" using that fresh by (metis image_eqI)
    then show ?thesis using file_bytes_other [OF n n, of x r] that by (simp add: D)
  qed
  then have "map (file_bytes (contents (st_backend s'))) rs = map (file_bytes ?D) rs" by simp
  moreover have "file_bytes (contents (st_backend s')) (flushed_record I s r) = (br_name r, content @ take ?n (st_event_buffer s))"
    using object_names_differ(1) [OF n n, of r r] by (simp add: file_bytes_def D)
  moreover have "file_bytes ?D r = (br_name r, content)" using c by (simp add: file_bytes_def)
  ultimately show ?thesis
    using is_binlog_open_ok [OF ok'] is_binlog_open_ok [OF assms(2)] ofs buf
    by (simp add: log_of_def r)
qed

lemma flush_event_buffer_log:
  assumes "flush_event_buffer I C s = Inr s'" and "storage_ok C s"
  shows "log_of s' = log_of s"
  using assms flush_internal_log by (auto simp: flush_event_buffer_def result_simps split: if_splits)

lemma checkpoint_log:
  assumes "checkpoint I C now s = Inr s'" and "storage_ok C s"
  shows "log_of s' = log_of s"
proof (cases "has_event_data_to_flush s \<and> needs_flush now s")
  case True
  then obtain s1 where s1: "flush_event_buffer_internal I C s = Inr s1"
    and s': "s' = s1\<lparr> st_last_checkpoint_position := get_ready_to_flush_position s, st_last_checkpoint_timestamp := now \<rparr>"
    using assms(1) by (auto simp: checkpoint_def result_simps Let_def)
  have "log_of s' = log_of s1" by (simp add: s' log_of_def is_binlog_open_def)
  then show ?thesis using flush_internal_log [OF s1 assms(2)] by simp
next
  case False
  then show ?thesis using assms(1) by (auto simp: checkpoint_def)
qed

lemma buffer_event_fields:
  assumes "buffer_event I data boundary g t n s = Inr s'"
  shows "st_backend s' = st_backend s" "st_binlog_records s' = st_binlog_records s"
    "st_event_buffer s' = st_event_buffer s @ data"
    "st_last_transaction_boundary s' = (if boundary then length (st_event_buffer s @ data) else st_last_transaction_boundary s)"
  using assms by (auto simp: buffer_event_def Let_def result_simps split: if_splits)

lemma buffer_event_log:
  fixes s :: "'c storage"
  assumes "buffer_event I data boundary g t n s = Inr s'" and "storage_ok C s" and "is_binlog_open s"
  shows "log_step (Write_event data boundary g t n now :: 'c storage_op) (log_of s) = Some (log_of s')"
proof -
  have "st_last_transaction_boundary s \<le> length (st_event_buffer s)"
    using storage_okD(4) [OF assms(2)] by (simp add: buffer_ok_def)
  moreover have join: "take k xs @ drop k xs @ data = xs @ data" for k and xs :: "byte list"
    by (simp only: append_assoc [symmetric] append_take_drop_id)
  ultimately show ?thesis
    using assms(3) buffer_event_fields [OF assms(1)] by (simp add: log_of_def is_binlog_open_def join)
qed

lemma write_event_log:
  fixes s :: "'c storage"
  assumes "write_event I C data boundary g t n now s = Inr s'" and "storage_ok C s" and "is_binlog_open s"
  shows "log_step (Write_event data boundary g t n now :: 'c storage_op) (log_of s) = Some (log_of s')"
proof -
  obtain s1 where s1: "buffer_event I data boundary g t n s = Inr s1" "checkpoint I C now s1 = Inr s'"
    using assms(1) by (auto simp: write_event_def result_simps)
  have "storage_ok C s1" using s1(1) assms(2) by (rule buffer_event_ok)
  then show ?thesis using checkpoint_log [OF s1(2)] buffer_event_log [OF s1(1) assms(2,3)] by simp
qed

lemma discard_log:
  fixes s :: "'c storage"
  assumes "discard_incomplete_transaction_events s = Inr s'" and "storage_ok C s"
  shows "log_step (Discard_incomplete :: 'c storage_op) (log_of s) = Some (log_of s')"
  using assms(1) storage_okD(4) [OF assms(2)]
  by (auto simp: discard_incomplete_transaction_events_def result_simps buffer_ok_def log_of_def is_binlog_open_def)

lemma close_log:
  fixes s :: "'c storage"
  assumes "close_binlog I C now s = Inr s'" and "storage_ok C s"
  shows "log_step (Close_binlog now :: 'c storage_op) (log_of s) = Some (log_of s')"
proof -
  obtain s1 b where s1: "flush_event_buffer I C s = Inr s1" and b: "close_stream (st_backend s1) = Inr b"
    and s': "s' = update_last_checkpoint_info now (s1\<lparr> st_event_buffer := [], st_backend := b \<rparr>)"
    using assms(1) by (rule close_binlog_flush)
  have ok: "storage_ok C s1" using s1 assms(2) by (rule flush_event_buffer_ok)
  note b' = close_stream_effect [OF storage_okD(2) [OF ok] b]
  have "st_last_transaction_boundary s1 = 0" using s1 assms(2) by (rule flush_event_buffer_boundary)
  moreover have "\<not> fs_stream_open b" using b' by (auto simp: backend_ok_def)
  moreover have "log_of s1 = log_of s" using s1 assms(2) by (rule flush_event_buffer_log)
  ultimately have "log_of s' = (log_of s)\<lparr> lg_pending := [], lg_open := False \<rparr>"
    using b'(3) by (simp add: log_of_def s' is_binlog_open_def)
  then show ?thesis by simp
qed

lemma names_in_log: "name \<in> fst ` set (lg_files (log_of s)) \<longleftrightarrow> binlog_exists name s"
  by (auto simp: log_of_def file_bytes_def binlog_exists_def list_ex_iff image_image)

lemma open_log:
  fixes s :: "'c storage"
  assumes "open_binlog I C n now s = Inr (status, s')" and "storage_ok C s" and "index_name_ok n"
  shows "log_step (Open_binlog n now :: 'c storage_op) (log_of s) = Some (log_of s')"
proof (cases "binlog_exists n s")
  case True
  note ex = open_binlog_existing [OF assms(1,2) True]
  have "is_binlog_open s'" using is_binlog_open_ok [OF ex(1)] ex(6) by simp
  then have "log_of s' = (log_of s)\<lparr> lg_open := True \<rparr>"
    using ex(2,4,5,9) by (simp add: log_of_def buffer_clear_def)
  then show ?thesis using True names_in_log [of n s] by (simp only: log_step.simps if_True)
next
  case False
  let ?D = "contents (st_backend s)"
  obtain r where r: "st_binlog_records s' = st_binlog_records s @ [r]" "br_name r = n"
    and D: "contents (st_backend s') = ?D(binlog_name_str n \<mapsto> magic_binlog_payload,
      generate_binlog_metadata_name n \<mapsto> file_metadata_str C (file_metadata_of r),
      default_binlog_index_name \<mapsto> as_const_byte_span (index_content (st_binlog_records s @ [r])))"
    and s': "storage_ok C s'" "buffer_clear s'" "fs_ofs (st_backend s') = Some (binlog_name_str n)" "buffer_clear s"
    using assms False by (rule open_binlog_new)
  note dir = storage_okD(3) [OF assms(2)] and n = index_name_okD [OF assms(3)]
  have "file_bytes (contents (st_backend s')) x = file_bytes ?D x" if "x \<in> set (st_binlog_records s)" for x
  proof -
    have "br_name x \<noteq> n" using that False by (auto simp: binlog_exists_def list_ex_iff)
    then show ?thesis using file_bytes_other [OF directory_okD(3) [OF dir that] n] by (simp add: D)
  qed
  then have "map (file_bytes (contents (st_backend s'))) (st_binlog_records s) = map (file_bytes ?D) (st_binlog_records s)"
    by simp
  moreover have "file_bytes (contents (st_backend s')) r = (n, magic_binlog_payload)"
    using object_names_differ [OF n n] r(2) by (simp add: file_bytes_def D)
  moreover have "is_binlog_open s'" using is_binlog_open_ok [OF s'(1)] s'(3) by simp
  ultimately have "log_of s' = (log_of s)\<lparr> lg_files := lg_files (log_of s) @ [(n, magic_binlog_payload)], lg_open := True \<rparr>"
    using s'(2,4) r(1) by (simp add: log_of_def buffer_clear_def)
  then show ?thesis using False names_in_log [of n s] by (simp only: log_step.simps if_False)
qed

lemma perform_log:
  assumes "perform I C op s = Inr s'" and "names_ok op" and "storage_ok C s" and "log_step op (log_of s) = Some L"
  shows "log_of s' = L"
proof (cases op)
  case (Open_binlog n now)
  then obtain status where "open_binlog I C n now s = Inr (status, s')" using assms(1) by (auto simp: result_simps)
  then show ?thesis using open_log [of I C n now s status s'] assms(2-4) Open_binlog by simp
next
  case (Write_event data boundary g t n now)
  then have "is_binlog_open s" using assms(4) by (simp add: log_of_def split: if_splits)
  then show ?thesis using write_event_log [of I C data boundary g t n now s s'] assms Write_event
    by (simp del: log_step.simps)
next
  case (Close_binlog now)
  then show ?thesis using close_log [of I C now s s'] assms by (simp del: log_step.simps)
next
  case Discard_incomplete
  then show ?thesis using discard_log [of s s' C] assms by (simp del: log_step.simps)
next
  case Flush_event_buffer
  then show ?thesis using flush_event_buffer_log [of I C s s'] assms by simp
next
  case (Set_purged_gtids g)
  then show ?thesis using assms by (auto simp: set_purged_gtids_def result_simps log_of_def is_binlog_open_def)
qed

lemma perform_run_log:
  assumes "rfold (perform I C) ops s = Inr s'" and "\<forall>op \<in> set ops. names_ok op" and "storage_ok C s"
    and "log_run ops (log_of s) = Some L"
  shows "storage_ok C s' \<and> log_of s' = L"
  using assms
proof (induction ops arbitrary: s)
  case (Cons op ops)
  obtain s1 where s1: "perform I C op s = Inr s1" "rfold (perform I C) ops s1 = Inr s'"
    using Cons.prems(1) by (auto simp: result_simps)
  obtain L1 where L1: "log_step op (log_of s) = Some L1" "log_run ops L1 = Some L"
    using Cons.prems(4) by (auto simp: bind_eq_Some_conv)
  have "storage_ok C s1" and "log_of s1 = L1"
    using perform_ok perform_log s1(1) Cons.prems(2,3) L1(1) by auto
  then show ?case using Cons.IH [OF s1(2)] Cons.prems(2) L1(2) by simp
qed simp

section \<open>Records\<close>

text \<open>The GTIDs up to the end of a binlog file: those before it and those in it.\<close>

definition record_gtids :: "'c icl \<Rightarrow> 'c binlog_record \<Rightarrow> 'c gtid_set" where
  "record_gtids I r =
     (let previous = (case br_previous_gtids r of None \<Rightarrow> [] | Some g \<Rightarrow> g)
      in case br_added_gtids r of None \<Rightarrow> previous | Some added \<Rightarrow> add_set I added previous)"

lemma get_gtids_record:
  "is_in_gtid_replication_mode s \<Longrightarrow> st_binlog_records s = rs @ [r] \<Longrightarrow> get_gtids I s = record_gtids I r"
  by (simp add: get_gtids_def record_gtids_def storage_is_empty_def)

text \<open>How an operation may change the records: not at all, the last one is flushed, or a new one follows.\<close>

inductive records_step :: "'c icl \<Rightarrow> 'c storage \<Rightarrow> 'c binlog_record list \<Rightarrow> bool" for I s where
  unchanged: "records_step I s (st_binlog_records s)"
| flushed: "st_binlog_records s = rs @ [r] \<Longrightarrow> records_step I s (rs @ [flushed_record I s0 r])"
| opened: "br_previous_gtids r = (if is_in_gtid_replication_mode s then Some (get_gtids I s) else None) \<Longrightarrow>
    records_step I s (st_binlog_records s @ [r])"

inductive_cases records_stepE: "records_step I s rs'"

lemma flush_internal_records:
  assumes "flush_event_buffer_internal I C s0 = Inr s'" and "storage_ok C s0"
    and "st_binlog_records s0 = st_binlog_records s"
  shows "records_step I s (st_binlog_records s')" "st_replication_mode s' = st_replication_mode s0"
proof -
  obtain rs r where "st_binlog_records s0 = rs @ [r]" "st_binlog_records s' = rs @ [flushed_record I s0 r]"
    using assms(1,2) by (rule flush_internal_effect)
  then show "records_step I s (st_binlog_records s')" using assms(3) records_step.flushed [of s rs r I s0] by simp
  show "st_replication_mode s' = st_replication_mode s0" using assms(1,2) by (rule flush_internal_effect)
qed

lemma checkpoint_records:
  assumes "checkpoint I C now s0 = Inr s'" and "storage_ok C s0" and "st_binlog_records s0 = st_binlog_records s"
  shows "records_step I s (st_binlog_records s') \<and> st_replication_mode s' = st_replication_mode s0"
proof (cases "has_event_data_to_flush s0 \<and> needs_flush now s0")
  case True
  then obtain s1 where "flush_event_buffer_internal I C s0 = Inr s1"
    and "st_binlog_records s' = st_binlog_records s1" "st_replication_mode s' = st_replication_mode s1"
    using assms(1) by (auto simp: checkpoint_def result_simps Let_def)
  then show ?thesis using flush_internal_records [of I C s0 s1 s] assms(2,3) by simp
next
  case False
  then show ?thesis using assms(1,3) records_step.unchanged [of I s] by (auto simp: checkpoint_def)
qed

lemma flush_event_buffer_records:
  assumes "flush_event_buffer I C s = Inr s'" and "storage_ok C s"
  shows "records_step I s (st_binlog_records s') \<and> st_replication_mode s' = st_replication_mode s"
proof (cases "has_event_data_to_flush s")
  case True
  then have "flush_event_buffer_internal I C s = Inr s'" using assms(1) by (auto simp: flush_event_buffer_def result_simps)
  then show ?thesis using flush_internal_records [of I C s s' s] assms(2) by simp
next
  case False
  then show ?thesis using assms(1) records_step.unchanged [of I s] by (auto simp: flush_event_buffer_def result_simps)
qed

lemma open_binlog_records:
  assumes "open_binlog I C n now s = Inr (status, s')" and "storage_ok C s" and "index_name_ok n"
  shows "records_step I s (st_binlog_records s') \<and> st_replication_mode s' = st_replication_mode s"
proof (cases "binlog_exists n s")
  case True
  then show ?thesis using open_binlog_existing [OF assms(1,2)] records_step.unchanged [of I s] by simp
next
  case False
  obtain r where "st_binlog_records s' = st_binlog_records s @ [r]"
    "br_previous_gtids r = (if is_in_gtid_replication_mode s then Some (get_gtids I s) else None)"
    "st_replication_mode s' = st_replication_mode s"
    using assms False by (rule open_binlog_new)
  then show ?thesis using records_step.opened [of r s I] by simp
qed

lemma perform_records:
  assumes "perform I C op s = Inr s'" and "names_ok op" and "storage_ok C s"
  shows "records_step I s (st_binlog_records s') \<and> st_replication_mode s' = st_replication_mode s"
proof (cases op)
  case (Open_binlog n now)
  then obtain status where "open_binlog I C n now s = Inr (status, s')" using assms(1) by (auto simp: result_simps)
  then show ?thesis using assms(2,3) Open_binlog by (simp add: open_binlog_records)
next
  case (Write_event data boundary g t n now)
  then obtain s1 where s1: "buffer_event I data boundary g t n s = Inr s1" "checkpoint I C now s1 = Inr s'"
    using assms(1) by (auto simp: write_event_def result_simps)
  have "storage_ok C s1" using s1(1) assms(3) by (rule buffer_event_ok)
  moreover have "st_replication_mode s1 = st_replication_mode s"
    using s1(1) by (auto simp: buffer_event_def Let_def result_simps split: if_splits)
  ultimately show ?thesis using checkpoint_records [OF s1(2)] buffer_event_fields(2) [OF s1(1)] by simp
next
  case (Close_binlog now)
  then have "close_binlog I C now s = Inr s'" using assms(1) by simp
  then obtain s1 b where s1: "flush_event_buffer I C s = Inr s1"
    and s': "s' = update_last_checkpoint_info now (s1\<lparr> st_event_buffer := [], st_backend := b \<rparr>)"
    by (rule close_binlog_flush)
  show ?thesis using flush_event_buffer_records [OF s1 assms(3)] by (simp add: s')
next
  case Flush_event_buffer
  then show ?thesis using flush_event_buffer_records assms by simp
qed (use assms records_step.unchanged [of I s] in
  \<open>auto simp: discard_incomplete_transaction_events_def set_purged_gtids_def result_simps\<close>)

definition gtid_chain :: "'c icl \<Rightarrow> 'c binlog_record list \<Rightarrow> bool" where
  "gtid_chain I rs \<longleftrightarrow> (\<forall>i. Suc i < length rs \<longrightarrow> br_previous_gtids (rs ! Suc i) = Some (record_gtids I (rs ! i)))"

lemma gtid_chain_snoc:
  "gtid_chain I (rs @ [q, r]) \<longleftrightarrow> gtid_chain I (rs @ [q]) \<and> br_previous_gtids r = Some (record_gtids I q)"
  by (auto simp: gtid_chain_def nth_append less_Suc_eq nth_Cons')

lemma gtid_chain_single [simp]: "gtid_chain I []" "gtid_chain I [r]"
  by (simp_all add: gtid_chain_def)

lemma gtid_chain_replace:
  assumes "gtid_chain I (rs @ [r])" and "br_previous_gtids r' = br_previous_gtids r"
  shows "gtid_chain I (rs @ [r'])"
proof (cases rs rule: rev_cases)
  case (snoc rs' q)
  then show ?thesis using assms gtid_chain_snoc [of I rs' q r] gtid_chain_snoc [of I rs' q r'] by simp
qed simp

lemma records_step_chain:
  assumes "records_step I s rs'" and "is_in_gtid_replication_mode s" and "gtid_chain I (st_binlog_records s)"
  shows "gtid_chain I rs'"
  using assms(1)
proof (cases rule: records_step.cases)
  case (flushed rs r s0)
  then show ?thesis using assms(3) gtid_chain_replace [of I rs r "flushed_record I s0 r"] by simp
next
  case (opened r)
  show ?thesis
  proof (cases "st_binlog_records s" rule: rev_cases)
    case (snoc rs q)
    then show ?thesis using opened assms(2,3) get_gtids_record [OF assms(2) snoc] gtid_chain_snoc [of I rs q r] by simp
  qed (simp add: opened)
qed (simp add: assms(3))

lemma reachable_chain:
  "storage_reachable I C s \<Longrightarrow> is_in_gtid_replication_mode s \<Longrightarrow> gtid_chain I (st_binlog_records s)"
proof (induction rule: storage_reachable.induct)
  case (fresh cs ci mode s)
  have "backend_ok empty_backend" "fs_objects empty_backend = []" by (simp_all add: backend_ok_def empty_backend_def)
  then obtain s' where "make_storage C cs ci empty_backend Streaming mode = Inr s'" "st_binlog_records s' = []"
    using make_storage_fresh by blast
  then show ?case using fresh(1) by simp
next
  case (step s op s')
  note ok = reachable_ok [OF step.hyps(1)] and r = perform_records [OF step.hyps(2,3) reachable_ok [OF step.hyps(1)]]
  show ?case using r step records_step_chain [of I s] by (simp add: is_in_gtid_replication_mode_def)
next
  case (restart s cs ci s')
  then show ?case
    using restart_succeeds [OF reachable_ok [OF restart.hyps(1)] restart.hyps(2)]
    by (auto simp: is_in_gtid_replication_mode_def)
qed

lemma reachable_run:
  assumes "rfold (perform I C) ops s = Inr s'" and "storage_reachable I C s" and "list_all names_ok ops"
  shows "storage_reachable I C s'"
  using assms
proof (induction ops arbitrary: s)
  case (Cons op ops)
  then obtain s1 where "perform I C op s = Inr s1" "rfold (perform I C) ops s1 = Inr s'" by (auto simp: result_simps)
  then show ?case using Cons storage_reachable.step [of I C s op s1] by simp
qed simp

section \<open>A sample run\<close>

text \<open>A metadata format for small numbers and single intervals of transactions, and a run with two binlog files.\<close>

definition sample_gtids_str :: "(gno_t \<times> gno_t) list gtid_set option \<Rightarrow> byte list" where
  "sample_gtids_str gtids =
     (case gtids of None \<Rightarrow> [0, 0, 0] | Some [] \<Rightarrow> [1, 0, 0]
      | Some g \<Rightarrow> [2, ucast (fst (hd (snd (hd (snd (hd g)))))), ucast (snd (hd (snd (hd (snd (hd g))))))])"

definition sample_gtids_parse :: "byte list \<Rightarrow> (gno_t \<times> gno_t) list gtid_set option" where
  "sample_gtids_parse content =
     (if content ! 0 = 0 then None else if content ! 0 = 1 then Some []
      else Some (sample_set (ucast (content ! 1)) (ucast (content ! 2))))"

definition sample_codec :: "(gno_t \<times> gno_t) list metadata_codec" where
  "sample_codec =
     \<lparr> storage_metadata_str = (\<lambda>mode. [if mode = Gtid_mode then 1 else 0]),
       storage_metadata_parse = (\<lambda>content. Inr (if content = [1] then Gtid_mode else Position_mode)),
       file_metadata_str = (\<lambda>m. [ucast (fm_size m), word_of_int (fm_min_timestamp m), word_of_int (fm_max_timestamp m),
         ucast (fm_last_sequence_number m)] @ sample_gtids_str (fm_previous_gtids m) @ sample_gtids_str (fm_added_gtids m)),
       file_metadata_parse = (\<lambda>content.
         Inr \<lparr> fm_size = ucast (content ! 0), fm_previous_gtids = sample_gtids_parse (take 3 (drop 4 content)),
           fm_added_gtids = sample_gtids_parse (drop 7 content),
           fm_min_timestamp = uint (content ! 1), fm_max_timestamp = uint (content ! 2),
           fm_last_sequence_number = ucast (content ! 3) \<rparr>) \<rparr>"

abbreviation sample_binlog :: "uint32 \<Rightarrow> composite_binlog_name" where
  "sample_binlog n \<equiv> Composite_binlog_name ''binlog'' n"

abbreviation sample_gtid :: "gno_t \<Rightarrow> gtid" where
  "sample_gtid n \<equiv> \<lparr> gtid_uuid = sample_uuid, gtid_tag = Tag [], gtid_gno = n \<rparr>"

definition sample_ops :: "(gno_t \<times> gno_t) list storage_op list" where
  "sample_ops =
     [Open_binlog (sample_binlog 1) 100,
      Write_event [1, 2] False (sample_gtid 5) 50 1 101, Write_event [3] True (sample_gtid 5) 51 0 102,
      Close_binlog 103, Open_binlog (sample_binlog 2) 104,
      Write_event [4, 5, 6] True (sample_gtid 6) 52 1 105, Write_event [7] False (sample_gtid 7) 53 2 106]"

definition sample_storage :: "replication_mode_type \<Rightarrow> (gno_t \<times> gno_t) list storage_op list \<Rightarrow> (gno_t \<times> gno_t) list storage" where
  "sample_storage mode ops =
     projr (rbind (make_storage sample_codec 3 0 empty_backend Streaming mode) (rfold (perform list_icl sample_codec) ops))"

lemma sample_storage_reachable:
  assumes "is_ok (rbind (make_storage sample_codec 3 0 empty_backend Streaming mode) (rfold (perform list_icl sample_codec) ops))"
    and "list_all names_ok ops"
  shows "storage_reachable list_icl sample_codec (sample_storage mode ops)"
proof -
  obtain s0 where s0: "make_storage sample_codec 3 0 empty_backend Streaming mode = Inr s0"
    using assms(1) by (cases "make_storage sample_codec 3 0 empty_backend Streaming mode") auto
  then obtain s where "rfold (perform list_icl sample_codec) ops s0 = Inr s"
    using assms(1) by (cases "rfold (perform list_icl sample_codec) ops s0") auto
  moreover have "storage_reachable list_icl sample_codec s0" using s0 by (rule storage_reachable.fresh)
  ultimately show ?thesis using reachable_run [OF _ _ assms(2)] s0 by (simp add: sample_storage_def)
qed

end
