(* ===== verification/Storage_Purge.thy ===== *)
theory Storage_Purge
  imports Storage_Reload
begin

text \<open>
  Removing a prefix of the binlog files: the outcome of \<open>purge_binlogs\<close> on every branch, and that
  the storage that is left satisfies the directory invariant.
\<close>

lemma set_victim_object_names:
  "set (victim_object_names rs) = generate_binlog_metadata_name ` br_name ` set rs \<union> binlog_name_str ` br_name ` set rs"
  by (auto simp: victim_object_names_def)

lemma distinct_victim_object_names:
  "\<forall>r \<in> set rs. binlog_name_ok (br_name r) \<Longrightarrow> distinct (map br_name rs) \<Longrightarrow> distinct (victim_object_names rs)"
proof (induction rs)
  case (Cons r rs)
  have r: "binlog_name_ok (br_name r)" and fresh: "br_name r \<notin> br_name ` set rs" using Cons.prems by simp_all
  have "generate_binlog_metadata_name (br_name r) \<notin> set (victim_object_names rs) \<and> binlog_name_str (br_name r) \<notin> set (victim_object_names rs)"
  proof (rule ccontr)
    assume "\<not> ?thesis"
    then obtain x where x: "x \<in> set rs" and
      "generate_binlog_metadata_name (br_name r) \<in> {generate_binlog_metadata_name (br_name x), binlog_name_str (br_name x)} \<or>
       binlog_name_str (br_name r) \<in> {generate_binlog_metadata_name (br_name x), binlog_name_str (br_name x)}"
      by (auto simp: set_victim_object_names)
    moreover have "binlog_name_ok (br_name x)" using Cons.prems(1) x by simp
    moreover have "br_name x \<noteq> br_name r" using x fresh by (metis image_eqI)
    ultimately show False
      using object_names_differ(1) [of "br_name x" "br_name r"] object_names_differ(1) [of "br_name r" "br_name x"] r
      by (auto simp: binlog_name_str_inject metadata_name_inject)
  qed
  moreover have "distinct (victim_object_names rs)" using Cons by simp
  ultimately show ?case using object_names_differ(1) [OF r r] by (auto simp: victim_object_names_def)
qed (simp add: victim_object_names_def)

lemma directory_ok_remove:
  assumes dir: "directory_ok C mode D (removed @ kept)" and ne: "kept \<noteq> []"
  shows "directory_ok C mode ((D(default_binlog_index_name \<mapsto> as_const_byte_span (index_content kept))) |`
    (- set (victim_object_names removed))) kept" (is "directory_ok C mode ?D kept")
proof -
  note r = directory_okD [OF dir]
  have distinct: "distinct (map br_name (removed @ kept))" using dir by (simp add: directory_ok_def)
  have other: "br_name x \<noteq> br_name y" if "x \<in> set removed" "y \<in> set kept" for x y
    using distinct that by (auto simp: disjoint_iff)
  have fixed: "default_binlog_index_name \<notin> set (victim_object_names removed)" "metadata_name \<notin> set (victim_object_names removed)"
    using r(3) object_names_differ metadata_names_differ by (fastforce simp: set_victim_object_names)+
  have keep: "binlog_name_str (br_name y) \<notin> set (victim_object_names removed)"
    "generate_binlog_metadata_name (br_name y) \<notin> set (victim_object_names removed)" if "y \<in> set kept" for y
  proof -
    have "binlog_name_str (br_name y) \<noteq> binlog_name_str (br_name x) \<and> binlog_name_str (br_name y) \<noteq> generate_binlog_metadata_name (br_name x) \<and>
      generate_binlog_metadata_name (br_name y) \<noteq> binlog_name_str (br_name x) \<and>
      generate_binlog_metadata_name (br_name y) \<noteq> generate_binlog_metadata_name (br_name x)" if x: "x \<in> set removed" for x
    proof -
      have xy: "binlog_name_ok (br_name x)" "binlog_name_ok (br_name y)" using r(3) x \<open>y \<in> set kept\<close> by auto
      show ?thesis
        using object_names_differ(1) [OF xy] object_names_differ(1) [OF xy(2,1)] other [OF x \<open>y \<in> set kept\<close>]
          binlog_name_str_inject [OF xy] metadata_name_inject [OF xy] by metis
    qed
    then show "binlog_name_str (br_name y) \<notin> set (victim_object_names removed)"
      "generate_binlog_metadata_name (br_name y) \<notin> set (victim_object_names removed)"
      unfolding set_victim_object_names by blast+
  qed
  have "dom ?D = (dom D \<union> {default_binlog_index_name}) - set (victim_object_names removed)"
    by (auto simp: restrict_map_def split: if_splits)
  also have "\<dots> = object_names_of (removed @ kept) - set (victim_object_names removed)"
    using dir ne by (auto simp: directory_ok_def object_names_of_def)
  also have "object_names_of (removed @ kept) = object_names_of kept \<union> set (victim_object_names removed)"
    using ne by (auto simp: object_names_of_def set_victim_object_names)
  also have "object_names_of kept \<inter> set (victim_object_names removed) = {}"
    using ne fixed keep by (auto simp: object_names_of_def)
  then have "object_names_of kept \<union> set (victim_object_names removed) - set (victim_object_names removed) = object_names_of kept"
    by blast
  finally have "dom ?D = object_names_of kept" .
  moreover have "record_stored C ?D y" if "y \<in> set kept" for y
  proof -
    have y: "y \<in> set (removed @ kept)" using that by simp
    show ?thesis
      using r(2) [OF y] keep [OF that] object_names_differ(3,4) [OF r(3) [OF y] r(3) [OF y]] by (simp add: record_stored_def)
  qed
  moreover have "metadata_name \<noteq> default_binlog_index_name" by code_simp
  ultimately show ?thesis
    using dir fixed r(1) distinct by (simp add: directory_ok_def)
qed

lemma find_index_append:
  "\<forall>x \<in> set xs. \<not> P x \<Longrightarrow> P y \<Longrightarrow> find_index P (xs @ y # ys) = Some (length xs)"
  by (induction xs) auto

lemma find_index_None: "find_index P xs = None \<longleftrightarrow> (\<forall>x \<in> set xs. \<not> P x)"
  by (induction xs) auto

lemma purge_success:
  assumes mode: "st_construction_mode s = Purging" and bk: "backend_ok (st_backend s)" and ofs: "fs_ofs (st_backend s) = None"
    and dir: "directory_ok C (st_replication_mode s) (contents (st_backend s)) (before @ r # kept)"
    and rs: "st_binlog_records s = before @ r # kept" and ne: "kept \<noteq> []"
    and base: "get_base_name (br_name r) = get_base_name (br_name (hd (before @ [r])))"
  obtains s' where "purge_binlogs (br_name r) s = Inr (before @ [r], None, s')"
    "st_binlog_records s' = kept" "backend_ok (st_backend s')"
    "directory_ok C (st_replication_mode s') (contents (st_backend s')) kept"
    "contents (st_backend s') = ((contents (st_backend s))(default_binlog_index_name \<mapsto> as_const_byte_span (index_content kept))) |`
       (- set (victim_object_names (before @ [r])))" "st_replication_mode s' = st_replication_mode s"
proof -
  let ?D = "(contents (st_backend s))(default_binlog_index_name \<mapsto> as_const_byte_span (index_content kept))"
  let ?b = "put_object default_binlog_index_name (as_const_byte_span (index_content kept)) (st_backend s)"
  let ?V = "victim_object_names (before @ [r])"
  have dir': "directory_ok C (st_replication_mode s) (contents (st_backend s)) ((before @ [r]) @ kept)" using dir by simp
  note ok = directory_okD [OF dir']
  have distinct: "distinct (map br_name (before @ r # kept))" using dir by (simp add: directory_ok_def)
  then have "br_name r \<notin> br_name ` set before" by simp
  then have "\<forall>x \<in> set before. br_name x \<noteq> br_name r" by (metis image_eqI)
  then have idx: "find_index (\<lambda>x. br_name x = br_name r) (st_binlog_records s) = Some (length before)"
    unfolding rs by (intro find_index_append) auto
  have b: "backend_ok ?b" "contents ?b = ?D" "fs_ofs ?b = None"
    using fs.put_ok [OF bk] fs.put_contents [OF bk] fs.put_stream [OF bk] ofs by simp_all
  have victims: "\<forall>name \<in> set ?V. contents ?b name \<noteq> None"
    using ok(2) unfolding b(2) set_victim_object_names by (auto simp: record_stored_def)
  have "distinct ?V" using ok(3) distinct by (intro distinct_victim_object_names) auto
  from remove_loop_removes [OF victims this, of None] obtain b' where rm: "remove_loop ?V ?b None = (b', None)"
    and b': "contents b' = contents ?b |` (- set ?V)" "fs_ofs b' = fs_ofs ?b" "fs_stream_open b' = fs_stream_open ?b"
    and keys: "distinct (map fst (fs_objects ?b)) \<longrightarrow> distinct (map fst (fs_objects b'))"
    by (elim exE conjE)
  have ok': "backend_ok b'" using b b'(2,3) keys by (simp add: backend_ok_def)
  let ?s = "s\<lparr> st_binlog_records := kept, st_backend := b' \<rparr>"
  have hd: "hd (st_binlog_records s) = hd (before @ [r])" unfolding rs by (cases before) simp_all
  have "purge_binlogs (br_name r) s = Inr (before @ [r], None, ?s)"
    using mode base ne rm
    by (simp add: purge_binlogs_def ensure_purging_mode_def storage_is_empty_def hd idx or_raise_def Let_def
        save_binlog_index_def remove_objects_def) (simp add: rs)
  then show ?thesis
    using that [of ?s] ok' b'(1) b(2) directory_ok_remove [OF dir' ne] by simp
qed

end
