(* ===== verification/Storage_Properties.thy ===== *)
theory Storage_Properties
  imports Storage_Runs Storage_Purge
begin

text \<open>
  The properties of the storage: it can be constructed again after a crash between operations,
  it refines the abstract log, what is on disk ends at a transaction boundary, the GTID sets of
  consecutive binlogs form a chain, and purging removes exactly a prefix. The last section shows
  states that the sources do not handle.
\<close>

section \<open>Transaction boundaries on disk\<close>

record stored_event =
  se_data :: "byte list"
  se_boundary :: bool
  se_gtid :: gtid
  se_timestamp :: ctime_timestamp
  se_sequence_number :: uint64
  se_now :: int

definition write_stored_event :: "'c icl \<Rightarrow> 'c metadata_codec \<Rightarrow> stored_event \<Rightarrow> 'c storage \<Rightarrow> 'c storage result" where
  "write_stored_event I C e s =
     write_event I C (se_data e) (se_boundary e) (se_gtid e) (se_timestamp e) (se_sequence_number e) (se_now e) s"

definition events_data :: "stored_event list \<Rightarrow> byte list" where
  "events_data es = concat (map se_data es)"

definition whole_transactions :: "stored_event list \<Rightarrow> bool" where
  "whole_transactions es \<longleftrightarrow> es = [] \<or> se_boundary (last es)"

text \<open>The events are split into those on disk, those ready to be written and those pending.\<close>

definition aligned :: "'c metadata_codec \<Rightarrow> composite_binlog_name \<Rightarrow> byte list \<Rightarrow> stored_event list \<Rightarrow> 'c storage \<Rightarrow> bool" where
  "aligned C n c es s \<longleftrightarrow> storage_ok C s \<and> fs_ofs (st_backend s) = Some (binlog_name_str n) \<and>
     (\<exists>written ready pending. es = written @ ready @ pending \<and> whole_transactions written \<and> whole_transactions ready \<and>
        contents (st_backend s) (binlog_name_str n) = Some (c @ events_data written) \<and>
        take (st_last_transaction_boundary s) (st_event_buffer s) = events_data ready \<and>
        drop (st_last_transaction_boundary s) (st_event_buffer s) = events_data pending)"

lemma events_data_append [simp]: "events_data (es @ es') = events_data es @ events_data es'"
  by (simp add: events_data_def)

lemma events_data_simps [simp]: "events_data [] = []" "events_data [e] = se_data e"
  by (simp_all add: events_data_def)

lemma whole_transactions_append: "whole_transactions es \<Longrightarrow> whole_transactions es' \<Longrightarrow> whole_transactions (es @ es')"
  by (cases "es' = []") (auto simp: whole_transactions_def)

lemma aligned_flush:
  assumes "flush_event_buffer_internal I C s = Inr s'" and "aligned C n c es s"
  shows "aligned C n c es s'"
proof -
  let ?k = "st_last_transaction_boundary s"
  have ok: "storage_ok C s" and ofs: "fs_ofs (st_backend s) = Some (binlog_name_str n)"
    using assms(2) by (simp_all add: aligned_def)
  obtain written ready pending where es: "es = written @ ready @ pending" "whole_transactions written" "whole_transactions ready"
    and disk: "contents (st_backend s) (binlog_name_str n) = Some (c @ events_data written)"
    and buf: "take ?k (st_event_buffer s) = events_data ready" "drop ?k (st_event_buffer s) = events_data pending"
    using assms(2) by (auto simp: aligned_def)
  obtain rs r content where r: "fs_ofs (st_backend s) = Some (binlog_name_str (br_name r))"
    "contents (st_backend s) (binlog_name_str (br_name r)) = Some content" "st_binlog_records s = rs @ [r]"
    and D: "contents (st_backend s') = (contents (st_backend s))
      (binlog_name_str (br_name r) \<mapsto> content @ take ?k (st_event_buffer s),
       generate_binlog_metadata_name (br_name r) \<mapsto> file_metadata_str C (file_metadata_of (flushed_record I s r)))"
    and s': "st_event_buffer s' = drop ?k (st_event_buffer s)" "st_last_transaction_boundary s' = 0" "storage_ok C s'"
      "fs_ofs (st_backend s') = fs_ofs (st_backend s)"
    using assms(1) ok by (rule flush_internal_effect)
  have "binlog_name_ok (br_name r)" using directory_okD(3) [OF storage_okD(3) [OF ok], of r] r(3) by simp
  from object_names_differ(1) [OF this this]
  have "contents (st_backend s') (binlog_name_str n) = Some (c @ events_data (written @ ready))"
    using r(1,2) ofs disk buf(1) by (simp add: D)
  moreover have "whole_transactions (written @ ready)" using es(2,3) by (rule whole_transactions_append)
  moreover have "whole_transactions []" by (simp add: whole_transactions_def)
  ultimately show ?thesis
    unfolding aligned_def using s' ofs es(1) buf(2)
    by (intro conjI exI [of _ "written @ ready"] exI [of _ "[]"] exI [of _ pending]) simp_all
qed

lemma aligned_checkpoint:
  assumes "checkpoint I C now s = Inr s'" and "aligned C n c es s"
  shows "aligned C n c es s'"
proof (cases "has_event_data_to_flush s \<and> needs_flush now s")
  case True
  then obtain s1 where s1: "flush_event_buffer_internal I C s = Inr s1"
    and s': "s' = s1\<lparr> st_last_checkpoint_position := get_ready_to_flush_position s, st_last_checkpoint_timestamp := now \<rparr>"
    using assms(1) by (auto simp: checkpoint_def result_simps Let_def)
  have "aligned C n c es s1" using s1 assms(2) by (rule aligned_flush)
  moreover have "storage_ok C s1" using calculation by (simp add: aligned_def)
  then have "storage_ok C s'" by (simp add: s' storage_ok_def buffer_ok_def stream_ok_def)
  ultimately show ?thesis by (simp add: aligned_def s')
next
  case False
  then show ?thesis using assms by (auto simp: checkpoint_def)
qed

lemma aligned_buffer_event:
  assumes "buffer_event I (se_data e) (se_boundary e) g t k s = Inr s'" and "aligned C n c es s"
  shows "aligned C n c (es @ [e]) s'"
proof -
  have ok: "storage_ok C s" using assms(2) by (simp add: aligned_def)
  have ok': "storage_ok C s'" using assms(1) ok by (rule buffer_event_ok)
  have bound: "st_last_transaction_boundary s \<le> length (st_event_buffer s)"
    using storage_okD(4) [OF ok] by (simp add: buffer_ok_def)
  note f = buffer_event_fields [OF assms(1)]
  obtain written ready pending where es: "es = written @ ready @ pending" "whole_transactions written" "whole_transactions ready"
    and disk: "contents (st_backend s) (binlog_name_str n) = Some (c @ events_data written)"
    and buf: "take (st_last_transaction_boundary s) (st_event_buffer s) = events_data ready"
      "drop (st_last_transaction_boundary s) (st_event_buffer s) = events_data pending"
    using assms(2) by (auto simp: aligned_def)
  have whole: "st_event_buffer s = events_data (ready @ pending)"
    using buf append_take_drop_id [of "st_last_transaction_boundary s" "st_event_buffer s"] by simp
  have common: "storage_ok C s' \<and> fs_ofs (st_backend s') = Some (binlog_name_str n)"
    using ok' f(1) assms(2) by (simp add: aligned_def)
  show ?thesis
  proof (cases "se_boundary e")
    case True
    then have "whole_transactions (ready @ pending @ [e])" by (simp add: whole_transactions_def)
    then show ?thesis
      unfolding aligned_def using common es f whole disk True
      by (intro conjI exI [of _ written] exI [of _ "ready @ pending @ [e]"] exI [of _ "[]"]) simp_all
  next
    case False
    then show ?thesis
      unfolding aligned_def using common es f buf bound disk
      by (intro conjI exI [of _ written] exI [of _ ready] exI [of _ "pending @ [e]"]) simp_all
  qed
qed

lemma aligned_write:
  assumes "write_stored_event I C e s = Inr s'" and "aligned C n c es s"
  shows "aligned C n c (es @ [e]) s'"
  using assms aligned_buffer_event aligned_checkpoint
  by (fastforce simp: write_stored_event_def write_event_def result_simps)

lemma aligned_writes:
  assumes "rfold (write_stored_event I C) es s = Inr s'" and "aligned C n c es0 s"
  shows "aligned C n c (es0 @ es) s'"
  using assms
proof (induction es arbitrary: s es0)
  case (Cons e es)
  then obtain s1 where "write_stored_event I C e s = Inr s1" "rfold (write_stored_event I C) es s1 = Inr s'"
    by (auto simp: result_simps)
  then show ?case using Cons.IH [of s1 "es0 @ [e]"] Cons.prems(2) aligned_write by fastforce
qed simp

text \<open>
  C11: Whatever checkpoints happen while events are written to an open binlog file, what is on disk at
  any time is the file's content at the beginning followed by a prefix of the events that ends at a
  transaction boundary (or is empty): a crash never leaves a part of a transaction in the file.
\<close>

theorem disk_ends_at_transaction_boundary:
  assumes "storage_ok C s" and "buffer_clear s" and "fs_ofs (st_backend s) = Some (binlog_name_str n)"
    and "contents (st_backend s) (binlog_name_str n) = Some c"
    and "rfold (write_stored_event I C) es s = Inr s'"
  shows "\<exists>k \<le> length es. (k = 0 \<or> se_boundary (es ! (k - 1))) \<and>
    contents (st_backend s') (binlog_name_str n) = Some (c @ events_data (take k es))"
proof -
  have "aligned C n c [] s"
    using assms(1-4) by (simp add: aligned_def buffer_clear_def whole_transactions_def)
  then have "aligned C n c es s'" using aligned_writes [OF assms(5)] by fastforce
  then obtain written rest where es: "es = written @ rest" "whole_transactions written"
    and disk: "contents (st_backend s') (binlog_name_str n) = Some (c @ events_data written)"
    by (auto simp: aligned_def)
  have "length written = 0 \<or> se_boundary (es ! (length written - 1))"
    using es by (cases "written = []") (auto simp: whole_transactions_def last_conv_nth nth_append)
  then show ?thesis using es disk by (intro exI [of _ "length written"]) simp
qed

lemma sample_run_ok:
  "is_ok (rbind (make_storage sample_codec 3 0 empty_backend Streaming Gtid_mode) (rfold (perform list_icl sample_codec) sample_ops))"
  "is_ok (rbind (make_storage sample_codec 3 0 empty_backend Streaming Position_mode) (rfold (perform list_icl sample_codec) sample_ops))"
  "is_ok (rbind (make_storage sample_codec 3 0 empty_backend Streaming Position_mode) (rfold (perform list_icl sample_codec) (take 1 sample_ops)))"
  "list_all names_ok sample_ops" "list_all names_ok (take 1 sample_ops)"
  by code_simp+

definition sample_events :: "stored_event list" where
  "sample_events = map (\<lambda>(data, boundary). \<lparr> se_data = data, se_boundary = boundary, se_gtid = gtid_empty,
     se_timestamp = 50, se_sequence_number = 0, se_now = 101 \<rparr>) [([1, 2], False), ([3, 4], True), ([5], False)]"

theorem disk_ends_at_transaction_boundary_witness:
  "\<exists>k \<le> length sample_events. (k = 0 \<or> se_boundary (sample_events ! (k - 1))) \<and>
     contents (st_backend (projr (rfold (write_stored_event list_icl sample_codec) sample_events
       (sample_storage Position_mode (take 1 sample_ops))))) (binlog_name_str (sample_binlog 1)) =
     Some (magic_binlog_payload @ events_data (take k sample_events))"
proof (rule disk_ends_at_transaction_boundary)
  let ?s = "sample_storage Position_mode (take 1 sample_ops)"
  show "storage_ok sample_codec ?s" using sample_storage_reachable [OF sample_run_ok(3,5)] by (rule reachable_ok)
  show "buffer_clear ?s" "fs_ofs (st_backend ?s) = Some (binlog_name_str (sample_binlog 1))"
    "contents (st_backend ?s) (binlog_name_str (sample_binlog 1)) = Some magic_binlog_payload" by code_simp+
  have "is_ok (rfold (write_stored_event list_icl sample_codec) sample_events ?s)" by code_simp
  then show "rfold (write_stored_event list_icl sample_codec) sample_events ?s =
      Inr (projr (rfold (write_stored_event list_icl sample_codec) sample_events ?s))"
    by (cases "rfold (write_stored_event list_icl sample_codec) sample_events ?s") simp_all
qed

section \<open>Restart after a crash\<close>

text \<open>
  C9: After any sequence of operations and restarts, a process that stops between two operations leaves a
  backend from which a storage can be constructed again in every construction mode, with the same
  binlog records, hence the same names, sizes, GTID sets and timestamps, and an empty event buffer;
  this needs that the metadata texts are read back as written and that no object exceeds the limit
  for reading.
\<close>

theorem storage_restarts_after_crash:
  assumes "storage_reachable I C s" and "loadable C (st_replication_mode s) (st_binlog_records s)"
  shows "\<exists>s'. make_storage C checkpoint_size checkpoint_interval (after_crash (st_backend s)) construction_mode
      (st_replication_mode s) = Inr s' \<and> st_binlog_records s' = st_binlog_records s \<and> buffer_clear s' \<and>
      fs_objects (st_backend s') = fs_objects (st_backend s) \<and> get_flushed_position s' = get_flushed_position s"
  using restart_succeeds [OF reachable_ok [OF assms(1)] assms(2), of checkpoint_size checkpoint_interval construction_mode]
  by (simp add: get_flushed_position_def storage_is_empty_def)

theorem storage_restarts_after_crash_witness:
  "\<exists>s'. make_storage sample_codec 0 0 (after_crash (st_backend (sample_storage Position_mode sample_ops))) Purging
      (st_replication_mode (sample_storage Position_mode sample_ops)) = Inr s' \<and>
    st_binlog_records s' = st_binlog_records (sample_storage Position_mode sample_ops)"
proof -
  let ?s = "sample_storage Position_mode sample_ops"
  have "storage_reachable list_icl sample_codec ?s" using sample_run_ok(2,4) by (rule sample_storage_reachable)
  moreover have "loadable sample_codec (st_replication_mode ?s) (st_binlog_records ?s)" by code_simp
  ultimately show ?thesis using storage_restarts_after_crash [of list_icl sample_codec ?s 0 0 Purging] by blast
qed

section \<open>Refinement of the abstract log\<close>

text \<open>
  C10: The storage refines the abstract log, in which an event at a transaction boundary commits the pending
  events with it and checkpoints do not exist: any sequence of operations that succeeds changes
  the log as the specification says, and whenever the event buffer is empty the files on disk are
  those of the log.
\<close>

theorem storage_refines_log:
  assumes "storage_reachable I C s" and "rfold (perform I C) ops s = Inr s'" and "\<forall>op \<in> set ops. names_ok op"
    and "log_run ops (log_of s) = Some L"
  shows "log_of s' = L \<and>
    (st_event_buffer s' = [] \<longrightarrow> map (file_bytes (contents (st_backend s'))) (st_binlog_records s') = lg_files L)"
  using perform_run_log [OF assms(2,3) reachable_ok [OF assms(1)] assms(4)] by (auto simp: log_of_def)

theorem storage_refines_log_witness:
  "map (file_bytes (contents (st_backend (sample_storage Position_mode (sample_ops @ [Close_binlog 107])))))
     (st_binlog_records (sample_storage Position_mode (sample_ops @ [Close_binlog 107]))) =
   [(sample_binlog 1, magic_binlog_payload @ [1, 2, 3]), (sample_binlog 2, magic_binlog_payload @ [4, 5, 6])]"
proof -
  let ?s = "sample_storage Position_mode []" and ?ops = "sample_ops @ [Close_binlog 107]"
  have "is_ok (rbind (make_storage sample_codec 3 0 empty_backend Streaming Position_mode) (rfold (perform list_icl sample_codec) []))"
    by code_simp
  then have "storage_reachable list_icl sample_codec ?s" by (rule sample_storage_reachable) simp
  moreover have "is_ok (rfold (perform list_icl sample_codec) ?ops ?s)" by code_simp
  then have "rfold (perform list_icl sample_codec) ?ops ?s = Inr (projr (rfold (perform list_icl sample_codec) ?ops ?s))"
    by (cases "rfold (perform list_icl sample_codec) ?ops ?s") simp_all
  moreover have "\<forall>op \<in> set ?ops. names_ok op" using sample_run_ok(4) by (simp add: list_all_iff)
  moreover have "log_run ?ops (log_of ?s) = Some \<lparr> lg_files =
      [(sample_binlog 1, magic_binlog_payload @ [1, 2, 3]), (sample_binlog 2, magic_binlog_payload @ [4, 5, 6])],
      lg_pending = [], lg_open = False \<rparr>" by code_simp
  moreover have "projr (rfold (perform list_icl sample_codec) ?ops ?s) = sample_storage Position_mode ?ops" by code_simp
  moreover have "st_event_buffer (sample_storage Position_mode ?ops) = []" by code_simp
  ultimately show ?thesis using storage_refines_log [of list_icl sample_codec ?s ?ops] by fastforce
qed

section \<open>GTID sets of consecutive binlogs\<close>

text \<open>
  C12: In GTID mode the previous GTIDs recorded for a binlog file are exactly the previous GTIDs of the file
  before it together with the GTIDs added in that file, in every reachable storage.
\<close>

theorem binlog_gtids_form_chain:
  assumes "storage_reachable I C s" and "is_in_gtid_replication_mode s" and "Suc i < length (st_binlog_records s)"
  shows "\<exists>previous added. br_previous_gtids (st_binlog_records s ! i) = Some previous \<and>
    br_added_gtids (st_binlog_records s ! i) = Some added \<and>
    br_previous_gtids (st_binlog_records s ! Suc i) = Some (add_set I added previous)"
proof -
  let ?r = "st_binlog_records s ! i"
  have "record_ok (st_replication_mode s) ?r"
    using directory_okD(1) [OF storage_okD(3) [OF reachable_ok [OF assms(1)]], of ?r] assms(3) by simp
  then have "br_previous_gtids ?r \<noteq> None" "br_added_gtids ?r \<noteq> None"
    using assms(2) by (simp_all add: record_ok_def is_in_gtid_replication_mode_def)
  then obtain previous added where "br_previous_gtids ?r = Some previous" "br_added_gtids ?r = Some added" by blast
  moreover have "br_previous_gtids (st_binlog_records s ! Suc i) = Some (record_gtids I ?r)"
    using reachable_chain [OF assms(1,2)] assms(3) by (simp add: gtid_chain_def)
  ultimately show ?thesis by (simp add: record_gtids_def)
qed

theorem binlog_gtids_form_chain_witness:
  "\<exists>previous added. br_previous_gtids (st_binlog_records (sample_storage Gtid_mode sample_ops) ! 0) = Some previous \<and>
    br_added_gtids (st_binlog_records (sample_storage Gtid_mode sample_ops) ! 0) = Some added \<and>
    br_previous_gtids (st_binlog_records (sample_storage Gtid_mode sample_ops) ! Suc 0) = Some (add_set list_icl added previous)"
proof (rule binlog_gtids_form_chain)
  show "storage_reachable list_icl sample_codec (sample_storage Gtid_mode sample_ops)"
    using sample_run_ok(1,4) by (rule sample_storage_reachable)
  show "is_in_gtid_replication_mode (sample_storage Gtid_mode sample_ops)"
    "Suc 0 < length (st_binlog_records (sample_storage Gtid_mode sample_ops))" by code_simp+
qed

section \<open>Purging\<close>

text \<open>
  C13: Purging up to a binlog file that is neither missing nor the last one succeeds, reports the records up to
  it, removes exactly their binlog and metadata files and rewrites the index, so that a storage
  constructed afterwards has the remaining records.
\<close>

theorem purge_keeps_suffix:
  assumes "storage_reachable I C s0" and "st_binlog_records s0 = before @ r # kept" and "kept \<noteq> []"
    and "get_base_name (br_name r) = get_base_name (br_name (hd (before @ [r])))"
    and "loadable C (st_replication_mode s0) (st_binlog_records s0)" and "loadable C (st_replication_mode s0) kept"
    and "make_storage C 0 0 (after_crash (st_backend s0)) Purging (st_replication_mode s0) = Inr s"
  shows "\<exists>s' s''. purge_binlogs (br_name r) s = Inr (before @ [r], None, s') \<and>
    dom (contents (st_backend s')) = dom (contents (st_backend s0)) - set (victim_object_names (before @ [r])) \<and>
    make_storage C checkpoint_size checkpoint_interval (st_backend s') Streaming (st_replication_mode s0) = Inr s'' \<and>
    st_binlog_records s'' = kept"
proof -
  note ok = reachable_ok [OF assms(1)]
  have s: "s = reloaded 0 0 (after_crash (st_backend s0)) Purging (st_replication_mode s0) (before @ r # kept)"
    using restart_succeeds [OF ok assms(5), of 0 0 Purging] assms(2,7) by simp
  have dir: "directory_ok C (st_replication_mode s0) (contents (st_backend s0)) (before @ r # kept)"
    using storage_okD(3) [OF ok] assms(2) by simp
  obtain s' where s': "purge_binlogs (br_name r) s = Inr (before @ [r], None, s')"
    and ok': "backend_ok (st_backend s')" "directory_ok C (st_replication_mode s') (contents (st_backend s')) kept"
    and D: "contents (st_backend s') = ((contents (st_backend s))(default_binlog_index_name \<mapsto> as_const_byte_span (index_content kept))) |`
       (- set (victim_object_names (before @ [r])))"
    and mode: "st_replication_mode s' = st_replication_mode s"
    by (rule purge_success [of s C before r kept])
      (use assms(3,4) dir storage_okD(2) [OF ok] in \<open>simp_all add: s after_crash_ok\<close>)
  have "default_binlog_index_name \<in> dom (contents (st_backend s0))"
    using dir by (simp add: directory_ok_def object_names_of_def)
  then have "dom (contents (st_backend s')) = dom (contents (st_backend s0)) - set (victim_object_names (before @ [r]))"
    by (auto simp: D s restrict_map_def split: if_splits)
  moreover have "make_storage C checkpoint_size checkpoint_interval (st_backend s') Streaming (st_replication_mode s0) =
      Inr (reloaded checkpoint_size checkpoint_interval (st_backend s') Streaming (st_replication_mode s0) kept)"
    using ok' assms(6) mode by (intro make_storage_reload) (simp_all add: s)
  ultimately show ?thesis using s' by simp
qed

theorem purge_keeps_suffix_witness:
  "\<exists>s' s''. purge_binlogs (sample_binlog 1) (projr (make_storage sample_codec 0 0
       (after_crash (st_backend (sample_storage Position_mode sample_ops))) Purging Position_mode)) =
     Inr (take 1 (st_binlog_records (sample_storage Position_mode sample_ops)), None, s') \<and>
    make_storage sample_codec 0 0 (st_backend s') Streaming Position_mode = Inr s'' \<and>
    map br_name (st_binlog_records s'') = [sample_binlog 2]"
proof -
  let ?u = "sample_storage Position_mode sample_ops"
  let ?rs = "st_binlog_records ?u"
  let ?s = "projr (make_storage sample_codec 0 0 (after_crash (st_backend ?u)) Purging Position_mode)"
  have reach: "storage_reachable list_icl sample_codec ?u" using sample_run_ok(2,4) by (rule sample_storage_reachable)
  have rs: "?rs = [] @ ?rs ! 0 # [?rs ! 1]" by code_simp
  have names: "br_name (?rs ! 0) = sample_binlog 1" "br_name (?rs ! 1) = sample_binlog 2" by code_simp+
  have mode: "st_replication_mode ?u = Position_mode" by code_simp
  have load: "loadable sample_codec Position_mode ?rs" "loadable sample_codec Position_mode [?rs ! 1]" by code_simp+
  have "is_ok (make_storage sample_codec 0 0 (after_crash (st_backend ?u)) Purging Position_mode)" by code_simp
  then have "make_storage sample_codec 0 0 (after_crash (st_backend ?u)) Purging Position_mode = Inr ?s"
    by (cases "make_storage sample_codec 0 0 (after_crash (st_backend ?u)) Purging Position_mode") simp_all
  then obtain s' s'' where "purge_binlogs (br_name (?rs ! 0)) ?s = Inr ([] @ [?rs ! 0], None, s')"
    "make_storage sample_codec 0 0 (st_backend s') Streaming (st_replication_mode ?u) = Inr s''"
    "st_binlog_records s'' = [?rs ! 1]"
    using purge_keeps_suffix [OF reach rs, of ?s 0 0] load by (auto simp: mode)
  moreover have "take 1 ?rs = [?rs ! 0]" by code_simp
  ultimately show ?thesis using names mode by auto
qed

section \<open>States that the sources do not handle\<close>

lemma flush_keeps_incomplete_timestamps:
  assumes "flush_event_buffer I C s = Inr s'"
  shows "st_incomplete_transaction_timestamps s' = st_incomplete_transaction_timestamps s"
proof (cases "has_event_data_to_flush s")
  case True
  then have "flush_event_buffer_internal I C s = Inr s'"
    using assms by (auto simp: flush_event_buffer_def result_simps)
  then show ?thesis
    by (auto simp: flush_event_buffer_internal_def result_simps Let_def update_current_record_def save_binlog_metadata_def)
next
  case False
  then show ?thesis using assms by (auto simp: flush_event_buffer_def result_simps)
qed

lemma open_needs_no_incomplete_timestamps:
  assumes "open_binlog I C name now s = Inr (status, t)"
  shows "range_is_empty (st_incomplete_transaction_timestamps s)"
  using assms
proof (rule open_binlog_stages)
  fix offset b s2
  assume "(if binlog_exists name s then open_existing_binlog_file_internal offset (s\<lparr> st_backend := b \<rparr>)
      else open_new_binlog_file_internal I C name (s\<lparr> st_backend := b \<rparr>)) = Inr (status, s2)"
  then have "st_incomplete_transaction_timestamps s2 = st_incomplete_transaction_timestamps s"
    by (auto simp: open_existing_binlog_file_internal_def open_new_binlog_file_internal_def result_simps Let_def
        update_current_record_def save_binlog_index_def save_binlog_metadata_def split: if_splits)
  moreover assume "same_state s2 t" "buffer_clear t"
  ultimately show ?thesis by (simp add: same_state_def buffer_clear_def)
qed

text \<open>
  C34: Closing a binlog file while an incomplete transaction is buffered drops its events but keeps their
  timestamps. The next call of \<open>open_binlog\<close> does not succeed, whatever the name, and for a name that
  the storage does not have yet, as after a rotation, it violates the assertion at its end: the file
  is created and listed in the index before. A binlog whose only events are the format description and
  the previous GTIDs, which are not at a transaction boundary, followed by an artificial rotation leads
  there.
\<close>

theorem close_with_incomplete_transaction:
  assumes "storage_reachable I C s" and "close_binlog I C now s = Inr s'"
    and "\<not> range_is_empty (st_incomplete_transaction_timestamps s)"
  shows "st_event_buffer s' = [] \<and> \<not> is_ok (open_binlog I C name now' s') \<and>
    (\<not> binlog_exists name s' \<longrightarrow> open_binlog I C name now' s' = Inl (Undefined_behaviour ''open_binlog''))"
proof -
  note ok = close_binlog_ok [OF assms(2) reachable_ok [OF assms(1)]]
  obtain s1 b where "flush_event_buffer I C s = Inr s1"
    and s': "s' = update_last_checkpoint_info now (s1\<lparr> st_event_buffer := [], st_backend := b \<rparr>)"
    using assms(2) by (rule close_binlog_flush)
  then have stale: "\<not> range_is_empty (st_incomplete_transaction_timestamps s')"
    using flush_keeps_incomplete_timestamps assms(3) by (fastforce simp: s')
  then have "open_binlog I C name now' s' \<noteq> Inr r" for r
    using open_needs_no_incomplete_timestamps by (cases r) blast
  then have fails: "\<not> is_ok (open_binlog I C name now' s')" unfolding is_ok_iff by blast
  moreover have "open_binlog I C name now' s' = Inl (Undefined_behaviour ''open_binlog'')" if "\<not> binlog_exists name s'"
  proof -
    obtain n b1 where b1: "open_stream (binlog_name_str name) Stream_create (st_backend s') = Inr (n, b1)"
      using fs.open_succeeds [OF storage_okD(2) [OF ok(1)] ok(2), of "binlog_name_str name" Stream_create] by blast
    note e = open_stream_effect [OF storage_okD(2) [OF ok(1)] b1 refl]
    obtain b2 where "write_data_to_stream magic_binlog_payload b1 = Inr b2"
      using fs.write_succeeds [OF e(2,3), of magic_binlog_payload] by blast
    then show ?thesis
      using that storage_okD(1) [OF ok(1)] b1 stale
      by (simp add: open_binlog_def ensure_streaming_mode_def validate_open_def open_new_binlog_file_internal_def Let_def
          save_binlog_index_def save_binlog_metadata_def)
  qed
  ultimately show ?thesis using ok(3) by blast
qed

theorem close_with_incomplete_transaction_witness:
  "open_binlog list_icl sample_codec (sample_binlog 3) 108
     (projr (close_binlog list_icl sample_codec 107 (sample_storage Position_mode sample_ops))) =
   Inl (Undefined_behaviour ''open_binlog'')"
proof -
  let ?s = "sample_storage Position_mode sample_ops" and ?c = "close_binlog list_icl sample_codec 107"
  have "storage_reachable list_icl sample_codec ?s" using sample_run_ok(2,4) by (rule sample_storage_reachable)
  moreover have "is_ok (?c ?s)" by code_simp
  then have "?c ?s = Inr (projr (?c ?s))" by (cases "?c ?s") simp_all
  moreover have "\<not> range_is_empty (st_incomplete_transaction_timestamps ?s)" "\<not> binlog_exists (sample_binlog 3) (projr (?c ?s))"
    by code_simp+
  ultimately show ?thesis using close_with_incomplete_transaction [of list_icl sample_codec ?s 107 _ "sample_binlog 3" 108] by blast
qed

text \<open>
  The directory between the two effects of a flush: the binlog file is longer than its metadata file says.
\<close>

lemma torn_directory:
  assumes ok: "directory_ok C mode D (rs @ [r])" and c: "D (binlog_name_str (br_name r)) = Some content"
    and D': "D' = D(binlog_name_str (br_name r) \<mapsto> content @ data)"
    and r': "r' = r\<lparr> br_size := br_size r + of_nat (length data) \<rparr>"
  shows "directory_shape D' (rs @ [r'])" and "D' metadata_name = Some (storage_metadata_str C mode)"
    and "D' default_binlog_index_name = Some (as_const_byte_span (index_content (rs @ [r])))"
    and "x \<in> set (rs @ [r]) \<Longrightarrow> D' (generate_binlog_metadata_name (br_name x)) = Some (file_metadata_str C (file_metadata_of x))"
proof -
  note n = directory_okD(3) [OF ok] and stored = directory_okD(2) [OF ok]
  have nr: "binlog_name_ok (br_name r)" using n by simp
  note differ = object_names_differ [OF nr nr]
  have fresh: "br_name r \<notin> br_name ` set rs" using ok by (simp add: directory_ok_def)
  have size: "of_nat (length content) = br_size r" using stored [of r] c by (simp add: record_stored_def)
  have others: "binlog_name_ok (br_name x) \<and>
      (\<exists>content. D' (binlog_name_str (br_name x)) = Some content \<and> of_nat (length content) = br_size x)" if "x \<in> set rs" for x
  proof -
    have "br_name x \<noteq> br_name r" using fresh that by (metis image_eqI)
    then show ?thesis using stored [of x] n [of x] that nr by (simp add: D' record_stored_def binlog_name_str_inject)
  qed
  have "dom D' = object_names_of (rs @ [r'])" using ok by (auto simp: D' r' directory_ok_def object_names_of_def)
  then show "directory_shape D' (rs @ [r'])"
    using others ok nr size by (simp add: directory_shape_def directory_ok_def D' r')
  show "D' metadata_name = Some (storage_metadata_str C mode)"
    "D' default_binlog_index_name = Some (as_const_byte_span (index_content (rs @ [r])))"
    using ok differ by (simp_all add: D' directory_ok_def)
  show "D' (generate_binlog_metadata_name (br_name x)) = Some (file_metadata_str C (file_metadata_of x))" if "x \<in> set (rs @ [r])"
    using stored [OF that] object_names_differ(1) [OF nr n [OF that]] by (simp add: D' record_stored_def)
qed

lemma torn_directory_refused:
  fixes C :: "'c metadata_codec"
  assumes ok: "directory_ok C mode D (rs @ [r])" and c: "D (binlog_name_str (br_name r)) = Some content"
    and b: "contents b = D(binlog_name_str (br_name r) \<mapsto> content @ data)" "backend_ok b"
    and load: "loadable C mode (rs @ [r])" and data: "of_nat (length data) \<noteq> (0 :: uint64)"
  shows "make_storage C checkpoint_size checkpoint_interval b cm mode =
    (if cm = Querying_only then Inr (reloaded checkpoint_size checkpoint_interval b cm mode (rs @ [r]))
     else Inl (Logic_error ''size from the binlog metadata does not match the actual binlog size''))"
proof -
  define r' where "r' = r\<lparr> br_size := br_size r + of_nat (length data) \<rparr>"
  note torn = torn_directory [OF ok c b(1) r'_def]
  define t :: "'c storage" where "t = (initial_storage checkpoint_size checkpoint_interval b cm mode)\<lparr>
    st_binlog_records := map (placeholder mode \<circ> br_name) (rs @ [r]) \<rparr>"
  have t: "st_backend t = b" "st_replication_mode t = mode" "st_purged_gtids t = []" "st_construction_mode t = cm"
    "st_binlog_records t = map (placeholder mode \<circ> br_name) (rs @ [r])"
    by (simp_all add: t_def initial_storage_def)
  let ?N = "binlog_files_of b" and ?M = "metadata_files_of b"
  have loads: "make_storage C checkpoint_size checkpoint_interval b cm mode = load_and_validate_binlog_metadata_set C ?N ?M t"
    using torn(1) _ _ _ torn(2,3) load b(2) t_def
    by (rule make_storage_stages) (use ok in \<open>auto simp: directory_ok_def record_ok_def r'_def\<close>)
  note objects = binlog_objects [OF torn(1) _ b(2)]
  have single: "load_record C ?N ?M t (placeholder mode (br_name x)) =
      (if cm = Querying_only \<or> n = br_size x then Inr (Some x)
       else Inl (Logic_error ''size from the binlog metadata does not match the actual binlog size''))"
    if "x \<in> set (rs @ [r])" and "map_of ?N (binlog_name_str (br_name x)) = Some n" for x n
  proof -
    have "map_of ?M (generate_binlog_metadata_name (br_name x)) \<noteq> None"
      using objects(3) [of x] objects(3) [of r'] that(1) by (auto simp: r'_def)
    then show ?thesis
      using load_record_stored [of t x C mode "rs @ [r]" ?M ?N n] torn(4) [OF that(1)] directory_okD(1) [OF ok that(1)]
        load that t by simp
  qed
  have first: "\<forall>x \<in> set rs. load_record C ?N ?M t (placeholder mode (br_name x)) = Inr (Some x)"
    using single objects(1) by simp
  have "map_of ?N (binlog_name_str (br_name r)) = Some (br_size r + of_nat (length data))"
    using objects(1) [of r'] by (simp add: r'_def)
  from single [OF _ this] have tail: "load_record C ?N ?M t (placeholder mode (br_name r)) =
      (if cm = Querying_only then Inr (Some r)
       else Inl (Logic_error ''size from the binlog metadata does not match the actual binlog size''))"
    using data by simp
  show ?thesis
  proof (cases "cm = Querying_only")
    case True
    then have "load_records (load_record C ?N ?M t) (st_binlog_records t) = Inr (rs @ [r])"
      unfolding t using first tail by (intro load_records_all) simp
    then have "load_and_validate_binlog_metadata_set C ?N ?M t = Inr (t\<lparr> st_binlog_records := rs @ [r],
        st_purged_gtids := (case br_added_gtids (hd (rs @ [r])) of None \<Rightarrow> st_purged_gtids t | Some g \<Rightarrow> g) \<rparr>)"
      using True by (simp add: load_and_validate_binlog_metadata_set_def t(4))
    then show ?thesis unfolding loads t(3) using True by (simp add: reloaded_def t_def)
  next
    case False
    then have "load_records (load_record C ?N ?M t) (st_binlog_records t) =
        Inl (Logic_error ''size from the binlog metadata does not match the actual binlog size'')"
      unfolding t using first tail by (intro load_records_last_fails) simp_all
    then show ?thesis using False by (simp add: loads load_and_validate_binlog_metadata_set_def)
  qed
qed

definition torn_ops :: "(gno_t \<times> gno_t) list storage_op list" where
  "torn_ops = [Open_binlog (sample_binlog 1) 100, Write_event [1, 2] True (sample_gtid 5) 50 1 101]"

text \<open>
  C35: A flush writes the complete transactions to the binlog file and then replaces the metadata file of the
  binlog. A process that stops between the two leaves a storage that the constructor refuses in the
  streaming and purging modes, since the recorded size does not match that of the file; only in the
  querying mode, where sizes are not compared, it is constructed, with the records before the flush.
  This holds for every flush in every reachable storage, as long as the event buffer is shorter than
  the range of its 64-bit size.
\<close>

theorem crash_inside_flush_is_refused:
  assumes "storage_reachable I C s" and "loadable C (st_replication_mode s) (st_binlog_records s)"
    and "has_event_data_to_flush s" and "int (length (st_event_buffer s)) < 2 ^ 64"
    and "flush_event_buffer_internal I C s = Inr s'"
  shows "\<exists>b. write_data_to_stream (take (st_last_transaction_boundary s) (st_event_buffer s)) (st_backend s) = Inr b \<and>
    st_backend s' = put_object (generate_binlog_metadata_name (get_current_binlog_name s))
      (file_metadata_str C (file_metadata_of (last (st_binlog_records s')))) b \<and>
    make_storage C checkpoint_size checkpoint_interval (after_crash b) construction_mode (st_replication_mode s) =
      (if construction_mode = Querying_only
       then Inr (reloaded checkpoint_size checkpoint_interval (after_crash b) construction_mode (st_replication_mode s)
              (st_binlog_records s))
       else Inl (Logic_error ''size from the binlog metadata does not match the actual binlog size''))"
proof -
  let ?data = "take (st_last_transaction_boundary s) (st_event_buffer s)"
  note ok = reachable_ok [OF assms(1)]
  obtain rs r content where r: "st_binlog_records s = rs @ [r]"
    "contents (st_backend s) (binlog_name_str (br_name r)) = Some content"
    "fs_ofs (st_backend s) = Some (binlog_name_str (br_name r))"
    using assms(5) ok by (rule flush_internal_effect)
  obtain b where b: "write_data_to_stream ?data (st_backend s) = Inr b" "backend_ok b"
    "contents b = (contents (st_backend s))(binlog_name_str (br_name r) \<mapsto> content @ ?data)"
    using storage_okD(2) [OF ok] r(3,2) by (rule write_stream_effect)
  have "st_last_transaction_boundary s \<le> length (st_event_buffer s)"
    using storage_okD(4) [OF ok] by (simp add: buffer_ok_def)
  then have data: "of_nat (length ?data) \<noteq> (0 :: uint64)"
    using assms(3,4) by (auto simp: has_event_data_to_flush_def word_of_nat_eq_0_iff dest!: dvd_imp_le)
  have dir: "directory_ok C (st_replication_mode s) (contents (st_backend s)) (rs @ [r])"
    and load: "loadable C (st_replication_mode s) (rs @ [r])"
    using storage_okD(3) [OF ok] assms(2) r(1) by simp_all
  have crash: "contents (after_crash b) = (contents (st_backend s))(binlog_name_str (br_name r) \<mapsto> content @ ?data)"
    "backend_ok (after_crash b)" using b(2,3) by (simp_all add: after_crash_ok)
  note refused = torn_directory_refused [OF dir r(2) crash load data]
  have "st_backend s' = put_object (generate_binlog_metadata_name (get_current_binlog_name s))
      (file_metadata_str C (file_metadata_of (last (st_binlog_records s')))) b"
    using assms(5) b(1) r(1)
    by (auto simp: flush_event_buffer_internal_def result_simps Let_def update_current_record_def
        save_binlog_metadata_def get_current_binlog_name_def storage_is_empty_def)
  then show ?thesis using b(1) refused unfolding r(1) by blast
qed

theorem crash_inside_flush_is_refused_witness:
  "\<exists>b. write_data_to_stream [1, 2] (st_backend (sample_storage Position_mode torn_ops)) = Inr b \<and>
     make_storage sample_codec 3 0 (after_crash b) Streaming Position_mode =
     Inl (Logic_error ''size from the binlog metadata does not match the actual binlog size'')"
proof -
  let ?s = "sample_storage Position_mode torn_ops"
  have "is_ok (rbind (make_storage sample_codec 3 0 empty_backend Streaming Position_mode) (rfold (perform list_icl sample_codec) torn_ops))"
    "list_all names_ok torn_ops" by code_simp+
  then have reach: "storage_reachable list_icl sample_codec ?s" by (rule sample_storage_reachable)
  have load: "loadable sample_codec (st_replication_mode ?s) (st_binlog_records ?s)" by code_simp
  have "has_event_data_to_flush ?s" by code_simp
  moreover have "length (st_event_buffer ?s) = 2" by code_simp
  then have "int (length (st_event_buffer ?s)) < 2 ^ 64" by simp
  moreover have "is_ok (flush_event_buffer_internal list_icl sample_codec ?s)" by code_simp
  then obtain s' where "flush_event_buffer_internal list_icl sample_codec ?s = Inr s'" unfolding is_ok_iff by blast
  moreover have "take (st_last_transaction_boundary ?s) (st_event_buffer ?s) = [1, 2]" "st_replication_mode ?s = Position_mode"
    by code_simp+
  ultimately show ?thesis
    using crash_inside_flush_is_refused [OF reach load, of _ 3 0 Streaming] by auto
qed

text \<open>
  A storage that is constructed again takes the GTIDs added in its first binlog for the purged GTIDs, not the
  GTIDs before that binlog.
\<close>

lemma reload_takes_added_gtids_as_purged:
  assumes "storage_reachable I C s" and "loadable C (st_replication_mode s) (st_binlog_records s)"
    and "st_binlog_records s = r # rs" and "br_added_gtids r = Some added"
    and "make_storage C checkpoint_size checkpoint_interval (after_crash (st_backend s)) Streaming (st_replication_mode s) = Inr s'"
  shows "st_purged_gtids s' = added"
  using restart_succeeds [OF reachable_ok [OF assms(1)] assms(2), of checkpoint_size checkpoint_interval Streaming] assms(3-5)
  by (auto simp: reloaded_def)

end
