(* ===== verification/Reader_Context.thy ===== *)
theory Reader_Context
  imports Event_View "HOL-Library.Sublist"
begin

text \<open>
  The protocol state machine of \<open>reader_context.cpp\<close>: one definition per state handler, the
  transaction accounting, the position tracking and the dispatch loop \<open>process_event_view\<close>. A
  handler returns whether it consumed the event, the \<open>info_only\<close> flag and the updated context; an
  exception ends the life of the context. The loop is shown to end after at most three rounds.
\<close>

section \<open>Position and transaction accounting\<close>

definition reset_position :: "reader_context \<Rightarrow> reader_context" where
  "reset_position c = c\<lparr> rc_position := ucast magic_binlog_offset \<rparr>"

definition validate_position :: "byte list \<Rightarrow> reader_context \<Rightarrow> unit result" where
  "validate_position common_header_v c =
     rbind (ensure (get_next_event_position_raw common_header_v \<noteq> 0)
       (Logic_error ''next event position in the event common header cannot be zero'')) (\<lambda>_.
     ensure (rc_position c + get_event_size_raw common_header_v = get_next_event_position_raw common_header_v)
       (Logic_error ''unexpected next event position in the event common header''))"

definition validate_position_and_advance :: "byte list \<Rightarrow> reader_context \<Rightarrow> reader_context result" where
  "validate_position_and_advance common_header_v c =
     rbind (validate_position common_header_v c) (\<lambda>_.
     Inr (c\<lparr> rc_position := get_next_event_position_raw common_header_v \<rparr>))"

text \<open>\<open>std::in_range<std::uint32_t>\<close> and the cast that follows it.\<close>

definition checked_transaction_length :: "uint64 \<Rightarrow> string \<Rightarrow> uint32 result" where
  "checked_transaction_length raw message =
     rbind (ensure (raw \<le> 0xFFFFFFFF) (Logic_error message)) (\<lambda>_. Inr (ucast raw))"

definition start_transaction :: "event_view \<Rightarrow> reader_context \<Rightarrow> reader_context result" where
  "start_transaction current_event_v c =
     (let common_header_v = get_common_header_raw current_event_v;
          code = get_type_code common_header_v in
      rbind
        (if code = Anonymous_gtid_log then
           rbind (gtid_log_post_header_decode (get_post_header_raw current_event_v)) (\<lambda>current_post_header.
           rbind (gtid_log_get_gtid current_post_header) (\<lambda>g.
           rbind (ensure (gtid_is_empty g)
             (Logic_error ''encountered non-empty gtid in the anonymous gtid log event'')) (\<lambda>_.
           rbind (gtid_log_body_decode (get_body_raw current_event_v)) (\<lambda>current_body.
           rbind (checked_transaction_length (glb_transaction_length current_body)
             ''transaction length in the anonymous gtid log event is too large'') (\<lambda>expected.
           Inr (c\<lparr> rc_transaction_sequence_number := glp_sequence_number current_post_header,
                   rc_expected_transaction_length := expected \<rparr>))))))
         else if code = Gtid_log then
           rbind (gtid_log_post_header_decode (get_post_header_raw current_event_v)) (\<lambda>current_post_header.
           rbind (gtid_log_get_gtid current_post_header) (\<lambda>g.
           rbind (ensure (\<not> gtid_is_empty g)
             (Logic_error ''encountered an empty gtid in the gtid log event'')) (\<lambda>_.
           rbind (gtid_log_body_decode (get_body_raw current_event_v)) (\<lambda>current_body.
           rbind (checked_transaction_length (glb_transaction_length current_body)
             ''transaction length in the gtid log event is too large'') (\<lambda>expected.
           Inr (c\<lparr> rc_transaction_gtid := g,
                   rc_transaction_sequence_number := glp_sequence_number current_post_header,
                   rc_expected_transaction_length := expected \<rparr>))))))
         else if code = Gtid_tagged_log then
           rbind (tagged_body_decode (get_body_raw current_event_v)) (\<lambda>current_body.
           rbind (tagged_body_get_gtid current_body) (\<lambda>g.
           rbind (ensure (\<not> gtid_is_empty g)
             (Logic_error ''encountered an empty gtid in the gtid tagged log event'')) (\<lambda>_.
           rbind (checked_transaction_length (tb_transaction_length current_body)
             ''transaction length in the gtid tagged log event is too large'') (\<lambda>expected.
           Inr (c\<lparr> rc_transaction_gtid := g,
                   rc_transaction_sequence_number := tb_sequence_number current_body,
                   rc_expected_transaction_length := expected \<rparr>)))))
         else Inl (Undefined_behaviour ''start_transaction''))
        (\<lambda>c. Inr (c\<lparr> rc_current_transaction_length := get_event_size_raw common_header_v \<rparr>)))"

definition update_transaction :: "byte list \<Rightarrow> reader_context \<Rightarrow> reader_context result" where
  "update_transaction common_header_v c =
     (let current = rc_current_transaction_length c + get_event_size_raw common_header_v in
      rbind (ensure (\<not> current > rc_expected_transaction_length c)
        (Logic_error ''current event exceeds declared transaction length'')) (\<lambda>_.
      Inr (c\<lparr> rc_current_transaction_length := current \<rparr>)))"

definition finish_transaction :: "reader_context \<Rightarrow> reader_context result" where
  "finish_transaction c =
     rbind (ensure (rc_current_transaction_length c = rc_expected_transaction_length c)
       (Logic_error ''transaction did not end at the declared length'')) (\<lambda>_.
     Inr (c\<lparr> rc_transaction_gtid := gtid_empty, rc_transaction_sequence_number := 0,
             rc_expected_transaction_length := 0, rc_current_transaction_length := 0 \<rparr>))"

section \<open>State handlers\<close>

text \<open>The returned flag, the output parameter \<open>info_only\<close> and the context.\<close>

type_synonym handler_result = "(bool \<times> bool \<times> reader_context) result"

definition validate_artificial_rotate_position :: "string \<Rightarrow> uint64 \<Rightarrow> reader_context \<Rightarrow> unit result" where
  "validate_artificial_rotate_position readable_binlog position_raw c =
     (if rc_replication_mode c = Position_mode then
        if readable_binlog = rc_binlog_name c then
          ensure (position_raw = ucast (rc_position c))
            (Logic_error ''unexpected position found in an artificial rotate event in position-based replication mode'')
        else
          ensure (position_raw = magic_binlog_offset)
            (Logic_error ''unexpected position found in an artificial rotate event in position-based replication mode'')
      else
        ensure (position_raw = magic_binlog_offset)
          (Logic_error ''unexpected position found in an artificial rotate event in GTID-based replication mode''))"

definition process_event_in_rotate_artificial_expected_state ::
    "event_view \<Rightarrow> bool \<Rightarrow> reader_context \<Rightarrow> handler_result" where
  "process_event_in_rotate_artificial_expected_state current_event_v info_only c =
     (let common_header_v = get_common_header_raw current_event_v in
      rbind (ensure (get_type_code common_header_v = Rotate \<and> is_artificial common_header_v)
        (Logic_error ''an artificial rotate event must be the very first event in the rotate_artificial_expected state'')) (\<lambda>_.
      rbind (ensure (get_timestamp_raw common_header_v = 0)
        (Logic_error ''non-zero timestamp found in an artificial rotate event'')) (\<lambda>_.
      rbind (ensure (get_next_event_position_raw common_header_v = 0)
        (Logic_error ''non-zero next event position found in an artificial rotate event'')) (\<lambda>_.
      rbind (rotate_post_header_decode (get_post_header_raw current_event_v)) (\<lambda>position_raw.
      let readable_binlog = rotate_body_readable_binlog (get_body_raw current_event_v) in
      rbind (validate_artificial_rotate_position readable_binlog position_raw c) (\<lambda>_.
      let expect_info_only = (rc_cycle_number c = 0 \<and> readable_binlog = rc_binlog_name c \<and>
                              ucast (rc_position c) > magic_binlog_offset);
          c = c\<lparr> rc_expect_info_only_preamble_events := expect_info_only \<rparr>;
          c = (if readable_binlog \<noteq> rc_binlog_name c
               then reset_position (c\<lparr> rc_binlog_name := readable_binlog \<rparr>) else c)
      in Inr (True, True, c\<lparr> rc_cycle_number := rc_cycle_number c + 1,
                             rc_state := Format_description_expected \<rparr>)))))))"

definition process_event_in_format_description_expected_state ::
    "event_view \<Rightarrow> bool \<Rightarrow> reader_context \<Rightarrow> handler_result" where
  "process_event_in_format_description_expected_state current_event_v info_only c =
     (let common_header_v = get_common_header_raw current_event_v in
      rbind (ensure (get_type_code common_header_v = Format_description)
        (Logic_error ''format description event must follow an artificial rotate event'')) (\<lambda>_.
      rbind (ensure (\<not> is_artificial common_header_v)
        (Logic_error ''format description event is not expected to be artificial'')) (\<lambda>_.
      rbind (fde_post_header_decode (get_post_header_raw current_event_v)) (\<lambda>post_header.
      rbind (ensure (fde_binlog_version post_header = default_binlog_version)
        (Logic_error ''unexpected binlog version number in format description event'')) (\<lambda>_.
      rbind (ensure (unat (fde_common_header_length post_header) = default_common_header_length)
        (Logic_error ''unexpected common header length in format description event'')) (\<lambda>_.
      rbind (encoded_server_version_of (fde_server_version post_header)) (\<lambda>encoded_server_version.
      rbind (ensure (\<not> encoded_server_version > rc_connection_encoded_server_version c)
        (Logic_error ''unexpected server version in format description event'')) (\<lambda>_.
      rbind (validate_post_header_lengths encoded_server_version (fde_post_header_lengths post_header)
        (get_known_post_header_lengths encoded_server_version)) (\<lambda>_.
      rbind (fde_body_decode (get_body_raw current_event_v)) (\<lambda>body.
      let c = c\<lparr> rc_current_encoded_server_version := encoded_server_version,
                 rc_post_header_lengths := fde_post_header_lengths post_header,
                 rc_footer_expected := has_checksum_algorithm body \<rparr>;
          info_only = rc_expect_info_only_preamble_events c;
          pseudo = (rc_replication_mode c = Position_mode \<and> info_only) in
      rbind (ensure (\<not> (pseudo \<and> get_next_event_position_raw common_header_v \<noteq> 0))
        (Logic_error ''expected next event position set to zero in pseudo format description event'')) (\<lambda>_.
      rbind (if \<not> info_only then validate_position_and_advance common_header_v c else Inr c) (\<lambda>c.
      Inr (True, info_only,
           c\<lparr> rc_state := (if pseudo then Gtid_log_expected else Previous_gtids_expected) \<rparr>)))))))))))))"

definition process_event_in_previous_gtids_expected_state ::
    "event_view \<Rightarrow> bool \<Rightarrow> reader_context \<Rightarrow> handler_result" where
  "process_event_in_previous_gtids_expected_state current_event_v info_only c =
     (let common_header_v = get_common_header_raw current_event_v in
      rbind (ensure (get_type_code common_header_v = Previous_gtids_log)
        (Logic_error ''previous gtids log event must follow a format description event'')) (\<lambda>_.
      rbind (ensure (\<not> is_artificial common_header_v)
        (Logic_error ''previous gtids log event is not expected to be artificial'')) (\<lambda>_.
      let info_only = rc_expect_info_only_preamble_events c in
      rbind (if \<not> info_only then validate_position_and_advance common_header_v c else Inr c) (\<lambda>c.
      Inr (True, info_only, c\<lparr> rc_state := Gtid_log_expected \<rparr>)))))"

definition is_gtid_log_code :: "code_type \<Rightarrow> bool" where
  "is_gtid_log_code code \<longleftrightarrow> code = Anonymous_gtid_log \<or> code = Gtid_log \<or> code = Gtid_tagged_log"

definition process_event_in_gtid_log_expected_state ::
    "event_view \<Rightarrow> bool \<Rightarrow> reader_context \<Rightarrow> handler_result" where
  "process_event_in_gtid_log_expected_state current_event_v info_only c =
     (let common_header_v = get_common_header_raw current_event_v;
          code = get_type_code common_header_v in
      if code = Rotate \<and> is_artificial common_header_v then
        rbind (finish_transaction c) (\<lambda>c.
        Inr (False, info_only, (reset_position c)\<lparr> rc_state := Rotate_artificial_expected \<rparr>))
      else if code = Rotate \<or> code = Stop then
        rbind (finish_transaction c) (\<lambda>c.
        Inr (False, info_only, c\<lparr> rc_state := Rotate_or_stop_expected \<rparr>))
      else
        rbind (ensure (is_gtid_log_code code)
          (Logic_error ''transaction group must start from one of the gtid log events'')) (\<lambda>_.
        rbind (ensure (\<not> (rc_replication_mode c = Gtid_mode \<and> code = Anonymous_gtid_log))
          (Logic_error ''unexpected anonymous gtid log event in gtid mode replication'')) (\<lambda>_.
        rbind (start_transaction current_event_v c) (\<lambda>c.
        rbind (validate_position_and_advance common_header_v c) (\<lambda>c.
        Inr (True, False, c\<lparr> rc_state := Any_other_expected \<rparr>))))))"

definition process_event_in_any_other_expected_state ::
    "event_view \<Rightarrow> bool \<Rightarrow> reader_context \<Rightarrow> handler_result" where
  "process_event_in_any_other_expected_state current_event_v info_only c =
     (let common_header_v = get_common_header_raw current_event_v;
          code = get_type_code common_header_v in
      if is_gtid_log_code code then
        rbind (finish_transaction c) (\<lambda>c.
        Inr (False, info_only, c\<lparr> rc_state := Gtid_log_expected \<rparr>))
      else if code = Rotate \<and> is_artificial common_header_v then
        rbind (finish_transaction c) (\<lambda>c.
        Inr (False, info_only, (reset_position c)\<lparr> rc_state := Rotate_artificial_expected \<rparr>))
      else if code = Rotate \<or> code = Stop then
        rbind (finish_transaction c) (\<lambda>c.
        Inr (False, info_only, c\<lparr> rc_state := Rotate_or_stop_expected \<rparr>))
      else
        rbind (ensure (code \<noteq> Format_description)
          (Logic_error ''encountered second format description event within the same binlog'')) (\<lambda>_.
        rbind (ensure (code \<noteq> Previous_gtids_log)
          (Logic_error ''encountered second previous gtids log event within the same binlog'')) (\<lambda>_.
        rbind (ensure (\<not> is_artificial common_header_v)
          (Logic_error ''unexpected artificial event in the previous gtids log processed state'')) (\<lambda>_.
        rbind (update_transaction common_header_v c) (\<lambda>c.
        rbind (validate_position_and_advance common_header_v c) (\<lambda>c.
        Inr (True, False, c)))))))"

definition process_event_in_rotate_or_stop_expected_state ::
    "event_view \<Rightarrow> bool \<Rightarrow> reader_context \<Rightarrow> handler_result" where
  "process_event_in_rotate_or_stop_expected_state current_event_v info_only c =
     (let common_header_v = get_common_header_raw current_event_v;
          code = get_type_code common_header_v in
      rbind (ensure (code = Rotate \<or> code = Stop)
        (Logic_error ''the very last event in the binlog must be either rotate or stop'')) (\<lambda>_.
      rbind (ensure (\<not> is_artificial common_header_v)
        (Logic_error ''the very last event in the binlog is not expected to be artificial'')) (\<lambda>_.
      rbind (if code = Rotate then
               rbind (rotate_post_header_decode (get_post_header_raw current_event_v)) (\<lambda>position_raw.
               ensure (position_raw = magic_binlog_offset)
                 (Logic_error ''unexpected position in an non-artificial rotate event post header''))
             else Inr ()) (\<lambda>_.
      rbind (validate_position common_header_v c) (\<lambda>_.
      Inr (True, False, (reset_position c)\<lparr> rc_state := Rotate_artificial_expected \<rparr>))))))"

section \<open>The dispatch loop\<close>

fun dispatch_state :: "state_type \<Rightarrow> event_view \<Rightarrow> bool \<Rightarrow> reader_context \<Rightarrow> handler_result" where
  "dispatch_state Rotate_artificial_expected = process_event_in_rotate_artificial_expected_state"
| "dispatch_state Format_description_expected = process_event_in_format_description_expected_state"
| "dispatch_state Previous_gtids_expected = process_event_in_previous_gtids_expected_state"
| "dispatch_state Gtid_log_expected = process_event_in_gtid_log_expected_state"
| "dispatch_state Any_other_expected = process_event_in_any_other_expected_state"
| "dispatch_state Rotate_or_stop_expected = process_event_in_rotate_or_stop_expected_state"

lemmas handler_defs =
  process_event_in_rotate_artificial_expected_state_def
  process_event_in_format_description_expected_state_def
  process_event_in_previous_gtids_expected_state_def
  process_event_in_gtid_log_expected_state_def
  process_event_in_any_other_expected_state_def
  process_event_in_rotate_or_stop_expected_state_def

text \<open>Every handler that leaves the event unprocessed moves to a state of smaller rank.\<close>

fun state_rank :: "state_type \<Rightarrow> nat" where
  "state_rank Any_other_expected = 2"
| "state_rank Gtid_log_expected = 1"
| "state_rank _ = 0"

lemma dispatch_unprocessed:
  assumes "dispatch_state (rc_state c) v i c = Inr (False, i', c')"
  shows "(rc_state c = Any_other_expected \<or> rc_state c = Gtid_log_expected) \<and> i' = i \<and>
    state_rank (rc_state c') < state_rank (rc_state c)"
  using assms
  by (cases "rc_state c") (auto simp: handler_defs result_simps Let_def split: if_splits)

function process_loop :: "event_view \<Rightarrow> bool \<Rightarrow> bool \<Rightarrow> reader_context \<Rightarrow> (bool \<times> reader_context) result" where
  "process_loop current_event_v processed info_only c =
     (if processed then Inr (info_only, c)
      else rbind (dispatch_state (rc_state c) current_event_v info_only c)
             (\<lambda>(processed, info_only, c). process_loop current_event_v processed info_only c))"
  by pat_completeness auto

termination process_loop
proof (relation "measure (\<lambda>(_, processed, _, c). if processed then 0 else Suc (state_rank (rc_state c)))")
  fix v processed info_only c x p' y i' c'
  assume "\<not> processed" and "dispatch_state (rc_state c) v info_only c = Inr x"
    and "(p', y) = x" and "(i', c') = y"
  then show "((v, p', i', c'), v, processed, info_only, c)
      \<in> measure (\<lambda>(_, processed, _, c). if processed then 0 else Suc (state_rank (rc_state c)))"
    using dispatch_unprocessed [of c v info_only i' c'] by (cases p') auto
qed simp

declare process_loop.simps [simp del]

definition process_event_view :: "event_view \<Rightarrow> reader_context \<Rightarrow> (bool \<times> reader_context) result" where
  "process_event_view current_event_v c = process_loop current_event_v False False c"

section \<open>Receiving a sequence of events\<close>

text \<open>
  The part of the receive loop that concerns the context: every portion becomes an event view under
  the current context, and the context processes it.
\<close>

definition receive_event ::
    "crc32 \<Rightarrow> reader_context \<Rightarrow> byte list \<Rightarrow> (event_view \<times> bool \<times> reader_context) result" where
  "receive_event crc c portion =
     rbind (make_event_view crc c portion) (\<lambda>current_event_v.
     rbind (process_event_view current_event_v c) (\<lambda>(info_only, c').
     Inr (current_event_v, info_only, c')))"

fun receive_events ::
    "crc32 \<Rightarrow> reader_context \<Rightarrow> byte list list \<Rightarrow> ((event_view \<times> bool) list \<times> reader_context) result" where
  "receive_events crc c [] = Inr ([], c)"
| "receive_events crc c (portion # portions) =
     rbind (receive_event crc c portion) (\<lambda>(v, info_only, c').
     rbind (receive_events crc c' portions) (\<lambda>(evs, c'').
     Inr ((v, info_only) # evs, c'')))"

section \<open>The protocol as a step relation\<close>

definition event_code :: "event_view \<Rightarrow> code_type" where
  "event_code v = get_type_code (get_common_header_raw v)"

definition event_artificial :: "event_view \<Rightarrow> bool" where
  "event_artificial v = is_artificial (get_common_header_raw v)"

definition event_size :: "event_view \<Rightarrow> uint32" where
  "event_size v = get_event_size_raw (get_common_header_raw v)"

definition event_next_position :: "event_view \<Rightarrow> uint32" where
  "event_next_position v = get_next_event_position_raw (get_common_header_raw v)"

lemmas event_field_defs [simp] =
  event_code_def [symmetric] event_artificial_def [symmetric] event_size_def [symmetric]
  event_next_position_def [symmetric]

definition ordinary_code :: "code_type \<Rightarrow> bool" where
  "ordinary_code code \<longleftrightarrow> \<not> is_gtid_log_code code \<and>
     code \<notin> {Rotate, Stop, Format_description, Previous_gtids_log}"

inductive protocol_step :: "state_type \<Rightarrow> code_type \<Rightarrow> bool \<Rightarrow> state_type \<Rightarrow> bool" where
  ps_rotate: "q \<in> {Rotate_artificial_expected, Gtid_log_expected, Any_other_expected} \<Longrightarrow>
     protocol_step q Rotate True Format_description_expected"
| ps_description: "q' \<in> {Previous_gtids_expected, Gtid_log_expected} \<Longrightarrow>
     protocol_step Format_description_expected Format_description False q'"
| ps_previous: "protocol_step Previous_gtids_expected Previous_gtids_log False Gtid_log_expected"
| ps_gtid: "q \<in> {Gtid_log_expected, Any_other_expected} \<Longrightarrow> is_gtid_log_code code \<Longrightarrow>
     protocol_step q code artificial Any_other_expected"
| ps_ordinary: "ordinary_code code \<Longrightarrow> protocol_step Any_other_expected code False Any_other_expected"
| ps_last: "q \<in> {Gtid_log_expected, Any_other_expected} \<Longrightarrow> code \<in> {Rotate, Stop} \<Longrightarrow>
     protocol_step q code False Rotate_artificial_expected"

inductive_cases protocol_step_any_other: "protocol_step Any_other_expected code artificial q'"

inductive_simps protocol_step_simps:
  "protocol_step Rotate_artificial_expected code artificial q'"
  "protocol_step Format_description_expected code artificial q'"
  "protocol_step Previous_gtids_expected code artificial q'"
  "protocol_step Gtid_log_expected code artificial q'"
  "protocol_step Any_other_expected code artificial q'"
  "protocol_step Rotate_or_stop_expected code artificial q'"

text \<open>Between transactions nothing is remembered of the last one.\<close>

definition transaction_idle :: "reader_context \<Rightarrow> bool" where
  "transaction_idle c \<longleftrightarrow> rc_transaction_gtid c = gtid_empty \<and> rc_transaction_sequence_number c = 0 \<and>
     rc_expected_transaction_length c = 0 \<and> rc_current_transaction_length c = 0"

definition reader_ok :: "reader_context \<Rightarrow> bool" where
  "reader_ok c \<longleftrightarrow> rc_state c \<noteq> Rotate_or_stop_expected \<and>
     (if rc_state c = Any_other_expected
      then rc_replication_mode c = Gtid_mode \<longrightarrow> has_transaction_gtid c
      else transaction_idle c)"

lemma process_loop_processed [simp]: "process_loop v True i c = Inr (i, c)"
  by (simp add: process_loop.simps)

lemma process_loop_step:
  "process_loop v False i c =
     rbind (dispatch_state (rc_state c) v i c) (\<lambda>(p, i, c). process_loop v p i c)"
  by (subst process_loop.simps) simp

lemma finish_transaction_Inr:
  "finish_transaction c = Inr c' \<longleftrightarrow>
   rc_current_transaction_length c = rc_expected_transaction_length c \<and>
   c' = c\<lparr> rc_transaction_gtid := gtid_empty, rc_transaction_sequence_number := 0,
           rc_expected_transaction_length := 0, rc_current_transaction_length := 0 \<rparr>"
  by (auto simp: finish_transaction_def result_simps)

lemma validate_position_Inr:
  "validate_position h c = Inr u \<longleftrightarrow> get_next_event_position_raw h \<noteq> 0 \<and>
   rc_position c + get_event_size_raw h = get_next_event_position_raw h"
  by (simp add: validate_position_def result_simps)

lemma validate_position_and_advance_Inr:
  "validate_position_and_advance h c = Inr c' \<longleftrightarrow> get_next_event_position_raw h \<noteq> 0 \<and>
   rc_position c + get_event_size_raw h = get_next_event_position_raw h \<and>
   c' = c\<lparr> rc_position := get_next_event_position_raw h \<rparr>"
  by (auto simp: validate_position_and_advance_def result_simps validate_position_Inr)

lemma update_transaction_Inr:
  "update_transaction h c = Inr c' \<longleftrightarrow>
   rc_current_transaction_length c + get_event_size_raw h \<le> rc_expected_transaction_length c \<and>
   c' = c\<lparr> rc_current_transaction_length := rc_current_transaction_length c + get_event_size_raw h \<rparr>"
  by (auto simp: update_transaction_def result_simps Let_def not_less)

lemmas accounting_Inr = finish_transaction_Inr validate_position_Inr validate_position_and_advance_Inr
  update_transaction_Inr

text \<open>The length that a GTID event declares for its transaction.\<close>

definition declared_transaction_length :: "event_view \<Rightarrow> uint64 result" where
  "declared_transaction_length v =
     (if event_code v = Gtid_tagged_log
      then rbind (tagged_body_decode (get_body_raw v)) (\<lambda>b. Inr (tb_transaction_length b))
      else rbind (gtid_log_body_decode (get_body_raw v)) (\<lambda>b. Inr (glb_transaction_length b)))"

lemma rank_zero_loop:
  assumes "state_rank (rc_state c) = 0"
  shows "process_loop v False i c = Inr (i', c') \<longleftrightarrow> dispatch_state (rc_state c) v i c = Inr (True, i', c')"
proof -
  have "p" if "dispatch_state (rc_state c) v i c = Inr (p, i'', c'')" for p i'' c''
    using dispatch_unprocessed [of c v i i'' c''] that assms by (cases p) auto
  then show ?thesis by (force simp: process_loop_step result_simps)
qed

lemma checked_transaction_length_Inr:
  "checked_transaction_length raw m = Inr n \<longleftrightarrow> unat raw < 2 ^ 32 \<and> n = ucast raw"
  by (auto simp: checked_transaction_length_def result_simps word_le_nat_alt)

lemma start_transaction_Inr:
  assumes "start_transaction v c = Inr c'"
  shows "rc_current_transaction_length c' = event_size v" and "is_gtid_log_code (event_code v)"
    and "event_code v \<noteq> Anonymous_gtid_log \<Longrightarrow> has_transaction_gtid c'"
    and "\<exists>raw. declared_transaction_length v = Inr raw \<and> unat raw < 2 ^ 32 \<and>
      rc_expected_transaction_length c' = ucast raw"
    and "rc_state c' = rc_state c" and "rc_position c' = rc_position c"
    and "rc_replication_mode c' = rc_replication_mode c" and "rc_binlog_name c' = rc_binlog_name c"
    and "rc_cycle_number c' = rc_cycle_number c"
    and "rc_expect_info_only_preamble_events c' = rc_expect_info_only_preamble_events c"
  using assms
  by (auto simp: start_transaction_def Let_def result_simps is_gtid_log_code_def has_transaction_gtid_def
      checked_transaction_length_Inr declared_transaction_length_def split: if_splits)

text \<open>The context in which an event is finally consumed: at most one handler passes it on.\<close>

inductive settles :: "event_view \<Rightarrow> reader_context \<Rightarrow> reader_context \<Rightarrow> bool" where
  settles_here: "settles v c c"
| settles_gtid: "rc_state c = Any_other_expected \<Longrightarrow> is_gtid_log_code (event_code v) \<Longrightarrow>
     finish_transaction c = Inr c' \<Longrightarrow> settles v c (c'\<lparr> rc_state := Gtid_log_expected \<rparr>)"
| settles_rotate: "rc_state c \<in> {Gtid_log_expected, Any_other_expected} \<Longrightarrow>
     event_code v = Rotate \<Longrightarrow> event_artificial v \<Longrightarrow> finish_transaction c = Inr c' \<Longrightarrow>
     settles v c ((reset_position c')\<lparr> rc_state := Rotate_artificial_expected \<rparr>)"
| settles_last: "rc_state c \<in> {Gtid_log_expected, Any_other_expected} \<Longrightarrow>
     event_code v \<in> {Rotate, Stop} \<Longrightarrow> \<not> (event_code v = Rotate \<and> event_artificial v) \<Longrightarrow>
     finish_transaction c = Inr c' \<Longrightarrow> settles v c (c'\<lparr> rc_state := Rotate_or_stop_expected \<rparr>)"

lemma dispatch_hop:
  assumes "dispatch_state (rc_state c) v i c = Inr (False, i', c')"
  shows "settles v c c' \<and> (state_rank (rc_state c') = 0 \<or>
    rc_state c' = Gtid_log_expected \<and> is_gtid_log_code (event_code v))"
  using assms
  by (cases "rc_state c")
    (auto simp: handler_defs result_simps Let_def intro: settles.intros split: if_splits)

lemma gtid_code_is_consumed:
  assumes "is_gtid_log_code (event_code v)" and "rc_state c = Gtid_log_expected"
    and "dispatch_state (rc_state c) v i c = Inr (p, i', c')"
  shows p
  using assms by (auto simp: handler_defs result_simps Let_def is_gtid_log_code_def split: if_splits)

lemma process_event_view_settles:
  assumes "process_event_view v c = Inr (i, c')"
  obtains c1 where "settles v c c1" and "dispatch_state (rc_state c1) v False c1 = Inr (True, i, c')"
proof -
  obtain p i1 c1 where first: "dispatch_state (rc_state c) v False c = Inr (p, i1, c1)"
    and rest: "process_loop v p i1 c1 = Inr (i, c')"
    using assms by (auto simp: process_event_view_def process_loop_step result_simps)
  show ?thesis
  proof (cases p)
    case True
    with first rest show ?thesis by (intro that [of c]) (auto intro: settles.intros)
  next
    case False
    have i1: "i1 = False" using dispatch_unprocessed [of c v False i1 c1] first False by simp
    note hop = dispatch_hop [of c v False i1 c1] first False
    have "dispatch_state (rc_state c1) v False c1 = Inr (True, i, c')"
    proof (cases "state_rank (rc_state c1) = 0")
      case True
      with rest False i1 show ?thesis by (simp add: rank_zero_loop)
    next
      case ne: False
      then have g: "rc_state c1 = Gtid_log_expected" "is_gtid_log_code (event_code v)" using hop by auto
      obtain p2 i2 c2 where second: "dispatch_state (rc_state c1) v False c1 = Inr (p2, i2, c2)"
        and "process_loop v p2 i2 c2 = Inr (i, c')"
        using rest False i1 by (auto simp: process_loop_step result_simps)
      with gtid_code_is_consumed [OF g(2,1)] show ?thesis by fastforce
    qed
    with hop show ?thesis by (intro that [of c1]) auto
  qed
qed

lemma reader_okD:
  assumes "reader_ok c"
  shows "rc_state c \<noteq> Rotate_or_stop_expected"
    and "rc_state c \<noteq> Any_other_expected \<Longrightarrow> transaction_idle c"
  using assms by (auto simp: reader_ok_def split: if_splits)

lemma settles_idle:
  "settles v c c1 \<Longrightarrow> c1 = c \<or> transaction_idle c1 \<and> rc_current_transaction_length c = rc_expected_transaction_length c"
  by (erule settles.cases) (auto simp: finish_transaction_Inr transaction_idle_def reset_position_def)

text \<open>What each handler does when it consumes the event.\<close>

definition same_transaction :: "reader_context \<Rightarrow> reader_context \<Rightarrow> bool" where
  "same_transaction c c' \<longleftrightarrow> rc_transaction_gtid c' = rc_transaction_gtid c \<and>
     rc_transaction_sequence_number c' = rc_transaction_sequence_number c \<and>
     rc_expected_transaction_length c' = rc_expected_transaction_length c \<and>
     rc_current_transaction_length c' = rc_current_transaction_length c"

lemma same_transaction_idle: "same_transaction c c' \<Longrightarrow> transaction_idle c' \<longleftrightarrow> transaction_idle c"
  by (simp add: same_transaction_def transaction_idle_def)

lemma above_magic_offset: "(4 :: uint64) < ucast (p :: uint32) \<longleftrightarrow> 4 < p"
proof -
  have "unat p < 2 ^ LENGTH(32)" by (rule unsigned_less)
  then show ?thesis by (simp add: word_less_nat_alt unat_ucast_mod)
qed

lemma rotate_artificial_consumes:
  assumes "process_event_in_rotate_artificial_expected_state v b c = Inr (p, i, c')"
  shows "event_code v = Rotate" "event_artificial v" "i" "rc_state c' = Format_description_expected"
    "same_transaction c c'" "rc_replication_mode c' = rc_replication_mode c"
    "rc_cycle_number c' = Suc (rc_cycle_number c)"
    "rc_binlog_name c' = rotate_body_readable_binlog (get_body_raw v)"
    "rc_position c' = (if rc_binlog_name c' = rc_binlog_name c then rc_position c else 4)"
    "rc_expect_info_only_preamble_events c' \<longleftrightarrow>
       rc_cycle_number c = 0 \<and> rc_binlog_name c' = rc_binlog_name c \<and> 4 < rc_position c"
  using assms
  by (auto simp: process_event_in_rotate_artificial_expected_state_def result_simps Let_def same_transaction_def
      reset_position_def above_magic_offset split: if_splits)

lemma format_description_consumes:
  assumes "process_event_in_format_description_expected_state v b c = Inr (p, i, c')"
  shows "event_code v = Format_description" "\<not> event_artificial v"
    "i \<longleftrightarrow> rc_expect_info_only_preamble_events c"
    "rc_state c' = (if rc_replication_mode c = Position_mode \<and> i then Gtid_log_expected else Previous_gtids_expected)"
    "same_transaction c c'" "rc_replication_mode c' = rc_replication_mode c"
    "rc_cycle_number c' = rc_cycle_number c" "rc_binlog_name c' = rc_binlog_name c"
    "rc_expect_info_only_preamble_events c' = rc_expect_info_only_preamble_events c"
    "rc_position c' = (if i then rc_position c else rc_position c + event_size v)"
    "\<not> i \<Longrightarrow> event_next_position v = rc_position c + event_size v"
proof -
  obtain e l f c1 c2 where codes: "event_code v = Format_description" "\<not> event_artificial v"
    and i: "i = rc_expect_info_only_preamble_events c"
    and c1: "c1 = c\<lparr> rc_current_encoded_server_version := e, rc_post_header_lengths := l, rc_footer_expected := f \<rparr>"
    and c2: "(if \<not> i then validate_position_and_advance (get_common_header_raw v) c1 else Inr c1) = Inr c2"
    and c': "c' = c2\<lparr> rc_state := (if rc_replication_mode c = Position_mode \<and> i then Gtid_log_expected
                                 else Previous_gtids_expected) \<rparr>"
    using assms unfolding process_event_in_format_description_expected_state_def Let_def
    by (simp add: result_simps) blast
  show "event_code v = Format_description" "\<not> event_artificial v" by (fact codes)+
  show "i \<longleftrightarrow> rc_expect_info_only_preamble_events c" by (simp add: i)
  have c2: "c2 = c1\<lparr> rc_position := (if i then rc_position c else rc_position c + event_size v) \<rparr>"
    and pos: "\<not> i \<Longrightarrow> event_next_position v = rc_position c + event_size v"
    using c2 by (auto simp: validate_position_and_advance_Inr c1 split: if_splits)
  show "\<not> i \<Longrightarrow> event_next_position v = rc_position c + event_size v" by (fact pos)
  show "rc_state c' = (if rc_replication_mode c = Position_mode \<and> i then Gtid_log_expected else Previous_gtids_expected)"
    "same_transaction c c'" "rc_replication_mode c' = rc_replication_mode c"
    "rc_cycle_number c' = rc_cycle_number c" "rc_binlog_name c' = rc_binlog_name c"
    "rc_expect_info_only_preamble_events c' = rc_expect_info_only_preamble_events c"
    "rc_position c' = (if i then rc_position c else rc_position c + event_size v)"
    by (simp_all add: c' c2 c1 same_transaction_def)
qed

lemma previous_gtids_consumes:
  assumes "process_event_in_previous_gtids_expected_state v b c = Inr (p, i, c')"
  shows "event_code v = Previous_gtids_log" "\<not> event_artificial v"
    "i \<longleftrightarrow> rc_expect_info_only_preamble_events c" "rc_state c' = Gtid_log_expected"
    "same_transaction c c'" "rc_replication_mode c' = rc_replication_mode c"
    "rc_cycle_number c' = rc_cycle_number c" "rc_binlog_name c' = rc_binlog_name c"
    "rc_expect_info_only_preamble_events c' = rc_expect_info_only_preamble_events c"
    "rc_position c' = (if i then rc_position c else rc_position c + event_size v)"
    "\<not> i \<Longrightarrow> event_next_position v = rc_position c + event_size v"
  using assms
  by (auto simp: process_event_in_previous_gtids_expected_state_def result_simps Let_def same_transaction_def
      validate_position_and_advance_Inr split: if_splits)

lemma gtid_log_consumes:
  assumes "process_event_in_gtid_log_expected_state v b c = Inr (True, i, c')"
  shows "is_gtid_log_code (event_code v)" "\<not> i" "rc_state c' = Any_other_expected"
    "\<not> (rc_replication_mode c = Gtid_mode \<and> event_code v = Anonymous_gtid_log)"
    "rc_current_transaction_length c' = event_size v"
    "\<exists>raw. declared_transaction_length v = Inr raw \<and> unat raw < 2 ^ 32 \<and>
      rc_expected_transaction_length c' = ucast raw"
    "event_code v \<noteq> Anonymous_gtid_log \<Longrightarrow> has_transaction_gtid c'"
    "rc_replication_mode c' = rc_replication_mode c"
    "rc_cycle_number c' = rc_cycle_number c" "rc_binlog_name c' = rc_binlog_name c"
    "rc_expect_info_only_preamble_events c' = rc_expect_info_only_preamble_events c"
    "rc_position c' = rc_position c + event_size v" "event_next_position v = rc_position c + event_size v"
proof -
  obtain c1 where "start_transaction v c = Inr c1" and rest: "validate_position_and_advance (get_common_header_raw v) c1 = Inr
      (c'\<lparr> rc_state := rc_state c1 \<rparr>)" "\<not> i" "rc_state c' = Any_other_expected"
    "\<not> (rc_replication_mode c = Gtid_mode \<and> event_code v = Anonymous_gtid_log)"
    using assms
    by (auto simp: process_event_in_gtid_log_expected_state_def result_simps Let_def validate_position_and_advance_Inr
        split: if_splits)
  note start = start_transaction_Inr [OF this(1)]
  show "\<not> i" "rc_state c' = Any_other_expected"
    "\<not> (rc_replication_mode c = Gtid_mode \<and> event_code v = Anonymous_gtid_log)" by (fact rest)+
  show "is_gtid_log_code (event_code v)" by (fact start)
  have eq: "c'\<lparr> rc_state := rc_state c1 \<rparr> = c1\<lparr> rc_position := event_next_position v \<rparr>"
    and pos: "rc_position c1 + event_size v = event_next_position v"
    using rest(1) by (simp_all add: validate_position_and_advance_Inr)
  have f: "f c' = f (c1\<lparr> rc_position := event_next_position v \<rparr>)"
    if "\<And>x. f (c'\<lparr> rc_state := x \<rparr>) = f c'" for f :: "reader_context \<Rightarrow> 'z"
    by (metis that eq)
  show "rc_current_transaction_length c' = event_size v" using start(1) by (subst f) simp_all
  show "\<exists>raw. declared_transaction_length v = Inr raw \<and> unat raw < 2 ^ 32 \<and>
      rc_expected_transaction_length c' = ucast raw" using start(4) by (subst f) simp_all
  show "has_transaction_gtid c'" if "event_code v \<noteq> Anonymous_gtid_log"
    using start(3) [OF that] by (subst f) (simp_all add: has_transaction_gtid_def)
  show "rc_replication_mode c' = rc_replication_mode c" using start by (subst f) simp_all
  show "rc_cycle_number c' = rc_cycle_number c" using start by (subst f) simp_all
  show "rc_binlog_name c' = rc_binlog_name c" using start by (subst f) simp_all
  show "rc_expect_info_only_preamble_events c' = rc_expect_info_only_preamble_events c"
    using start by (subst f) simp_all
  show "rc_position c' = rc_position c + event_size v" using start pos by (subst f) simp_all
  show "event_next_position v = rc_position c + event_size v" using start pos by simp
qed

lemma any_other_consumes:
  assumes "process_event_in_any_other_expected_state v b c = Inr (True, i, c')"
  shows "ordinary_code (event_code v)" "\<not> event_artificial v" "\<not> i"
    "rc_current_transaction_length c + event_size v \<le> rc_expected_transaction_length c"
    "event_next_position v = rc_position c + event_size v"
    "c' = c\<lparr> rc_current_transaction_length := rc_current_transaction_length c + event_size v,
           rc_position := rc_position c + event_size v \<rparr>"
  using assms
  by (auto simp: process_event_in_any_other_expected_state_def result_simps Let_def update_transaction_Inr
      validate_position_and_advance_Inr ordinary_code_def split: if_splits)

lemma rotate_or_stop_consumes:
  assumes "process_event_in_rotate_or_stop_expected_state v b c = Inr (p, i, c')"
  shows "event_code v \<in> {Rotate, Stop}" "\<not> event_artificial v" "\<not> i"
    "event_next_position v = rc_position c + event_size v"
    "c' = (reset_position c)\<lparr> rc_state := Rotate_artificial_expected \<rparr>"
  using assms
  by (auto simp: process_event_in_rotate_or_stop_expected_state_def result_simps Let_def validate_position_Inr
      split: if_splits)

text \<open>One accepted event: the context it was consumed in, and the case that applied.\<close>

lemma process_event_view_cases [consumes 1, case_names rotate_artificial format_description previous_gtids
    gtid_log any_other rotate_or_stop]:
  assumes "process_event_view v c = Inr (i, c')"
  obtains (rotate_artificial) c1 where "settles v c c1" "rc_state c1 = Rotate_artificial_expected"
      "process_event_in_rotate_artificial_expected_state v False c1 = Inr (True, i, c')"
  | (format_description) "rc_state c = Format_description_expected"
      "process_event_in_format_description_expected_state v False c = Inr (True, i, c')"
  | (previous_gtids) "rc_state c = Previous_gtids_expected"
      "process_event_in_previous_gtids_expected_state v False c = Inr (True, i, c')"
  | (gtid_log) c1 where "settles v c c1" "rc_state c1 = Gtid_log_expected"
      "process_event_in_gtid_log_expected_state v False c1 = Inr (True, i, c')"
  | (any_other) "rc_state c = Any_other_expected"
      "process_event_in_any_other_expected_state v False c = Inr (True, i, c')"
  | (rotate_or_stop) c1 where "settles v c c1" "rc_state c1 = Rotate_or_stop_expected"
      "process_event_in_rotate_or_stop_expected_state v False c1 = Inr (True, i, c')"
proof -
  obtain c1 where c1: "settles v c c1" "dispatch_state (rc_state c1) v False c1 = Inr (True, i, c')"
    using assms by (rule process_event_view_settles)
  have here: "c1 = c" if "rc_state c1 \<in> {Format_description_expected, Previous_gtids_expected, Any_other_expected}"
    using c1(1) that by cases auto
  show ?thesis
    using c1 here that by (cases "rc_state c1") auto
qed

lemma settles_unchanged:
  assumes "settles v c c1"
  shows "rc_replication_mode c1 = rc_replication_mode c" "rc_binlog_name c1 = rc_binlog_name c"
    "rc_cycle_number c1 = rc_cycle_number c"
    "rc_expect_info_only_preamble_events c1 = rc_expect_info_only_preamble_events c"
    "rc_state c1 \<noteq> Rotate_artificial_expected \<Longrightarrow> rc_position c1 = rc_position c"
    "rc_state c1 = Rotate_artificial_expected \<Longrightarrow> c1 = c \<or> rc_position c1 = 4"
  using assms by (cases, auto simp: finish_transaction_Inr reset_position_def)+

lemma settles_from:
  assumes "settles v c c1" and "rc_state c \<noteq> Rotate_or_stop_expected"
  shows "rc_state c1 = Rotate_artificial_expected \<Longrightarrow>
      rc_state c \<in> {Rotate_artificial_expected, Gtid_log_expected, Any_other_expected}"
    and "rc_state c1 = Gtid_log_expected \<Longrightarrow> rc_state c \<in> {Gtid_log_expected, Any_other_expected}"
    and "rc_state c1 = Rotate_or_stop_expected \<Longrightarrow> rc_state c \<in> {Gtid_log_expected, Any_other_expected}"
  using assms by (cases, auto)+

lemma settles_ok_idle:
  assumes "settles v c c1" and "reader_ok c" and "rc_state c1 \<noteq> Any_other_expected"
  shows "transaction_idle c1"
  using settles_idle [OF assms(1)] reader_okD(2) [OF assms(2)] assms(3) by auto

lemma process_event_view_step:
  assumes "process_event_view v c = Inr (i, c')" and ok: "reader_ok c"
  shows "protocol_step (rc_state c) (event_code v) (event_artificial v) (rc_state c') \<and> reader_ok c' \<and>
    rc_replication_mode c' = rc_replication_mode c"
  using assms(1)
proof (cases rule: process_event_view_cases)
  case (rotate_artificial c1)
  note r = rotate_artificial_consumes [OF rotate_artificial(3)]
  have "transaction_idle c1" using settles_ok_idle [OF rotate_artificial(1) ok] rotate_artificial(2) by simp
  then show ?thesis
    using r settles_from(1) [OF rotate_artificial(1) reader_okD(1) [OF ok] rotate_artificial(2)]
      settles_unchanged(1) [OF rotate_artificial(1)]
    by (simp add: reader_ok_def same_transaction_idle ps_rotate)
next
  case format_description
  note r = format_description_consumes [OF format_description(2)]
  show ?thesis using r reader_okD(2) [OF ok] format_description(1)
    by (simp add: reader_ok_def same_transaction_idle ps_description)
next
  case previous_gtids
  note r = previous_gtids_consumes [OF previous_gtids(2)]
  show ?thesis using r reader_okD(2) [OF ok] previous_gtids(1)
    by (simp add: reader_ok_def same_transaction_idle ps_previous)
next
  case (gtid_log c1)
  note r = gtid_log_consumes [OF gtid_log(3)]
  show ?thesis
    using r settles_from(2) [OF gtid_log(1) reader_okD(1) [OF ok] gtid_log(2)] settles_unchanged(1) [OF gtid_log(1)]
    by (auto simp: reader_ok_def ps_gtid)
next
  case any_other
  note r = any_other_consumes [OF any_other(2)]
  show ?thesis using r(1-3) ok any_other(1)
    by (simp add: r(6) reader_ok_def ps_ordinary has_transaction_gtid_def)
next
  case (rotate_or_stop c1)
  note r = rotate_or_stop_consumes [OF rotate_or_stop(3)]
  have "transaction_idle c1" using settles_ok_idle [OF rotate_or_stop(1) ok] rotate_or_stop(2) by simp
  then show ?thesis
    using r(1-3) settles_from(3) [OF rotate_or_stop(1) reader_okD(1) [OF ok] rotate_or_stop(2)]
      settles_unchanged(1) [OF rotate_or_stop(1)]
    by (simp add: r(5) reader_ok_def ps_last reset_position_def transaction_idle_def)
qed

section \<open>The documented grammar\<close>

text \<open>
  The comment in \<open>reader_context.hpp\<close> describes the accepted streams by
  \<open>(ROTATE(artificial) FORMAT_DESCRIPTION PREVIOUS_GTIDS_LOG? (GTID <ANY>*)* (ROTATE | STOP)?)+\<close>;
  a symbol is an event code with the artificial flag.
\<close>

type_synonym symbol = "code_type \<times> bool"

definition symbol_of :: "event_view \<Rightarrow> symbol" where
  "symbol_of v = (event_code v, event_artificial v)"

definition transaction_words :: "symbol list set" where
  "transaction_words = {(code, artificial) # anys | code artificial anys.
     is_gtid_log_code code \<and> (\<forall>(c, a) \<in> set anys. ordinary_code c \<and> \<not> a)}"

definition star :: "symbol list set \<Rightarrow> symbol list set" where
  "star L = {concat ws | ws. set ws \<subseteq> L}"

definition cycle_words :: "symbol list set" where
  "cycle_words = {[(Rotate, True), (Format_description, False)] @ previous @ transactions @ final | previous transactions final.
     previous \<in> {[], [(Previous_gtids_log, False)]} \<and> transactions \<in> star transaction_words \<and>
     final \<in> {[], [(Rotate, False)], [(Stop, False)]}}"

definition protocol_words :: "symbol list set" where
  "protocol_words = {cycle @ cycles | cycle cycles. cycle \<in> cycle_words \<and> cycles \<in> star cycle_words}"

lemma star_Nil [simp]: "[] \<in> star L"
  unfolding star_def by (auto intro: exI [of _ "[]"])

lemma star_snoc: "u \<in> star L \<Longrightarrow> w \<in> L \<Longrightarrow> u @ w \<in> star L"
  unfolding star_def by (auto, rule_tac x = "ws @ [w]" in exI) simp

lemma star_extend_last:
  assumes "u \<in> star L" and "u \<noteq> []" and "\<And>w. w \<in> L \<Longrightarrow> w \<noteq> [] \<Longrightarrow> w @ [x] \<in> L"
  shows "u @ [x] \<in> star L"
proof -
  obtain ws where ws: "u = concat ws" "set ws \<subseteq> L" using assms(1) by (auto simp: star_def)
  define vs where "vs = filter (\<lambda>w. w \<noteq> []) ws"
  have "concat (filter (\<lambda>w. w \<noteq> []) ws) = concat ws" by (induction ws) auto
  then have vs: "u = concat vs" "set vs \<subseteq> L" "[] \<notin> set vs"
    using ws by (auto simp: vs_def)
  then have "vs \<noteq> []" using assms(2) by auto
  then have split: "vs = butlast vs @ [last vs]" by simp
  moreover have "last vs \<in> L" "last vs \<noteq> []" using vs \<open>vs \<noteq> []\<close> last_in_set by fastforce+
  ultimately have "set (butlast vs @ [last vs @ [x]]) \<subseteq> L"
    using assms(3) vs(2) in_set_butlastD by fastforce
  moreover have "u @ [x] = concat (butlast vs @ [last vs @ [x]])"
    using vs(1) split by (metis append.assoc append.right_neutral concat.simps concat_append)
  ultimately show ?thesis unfolding star_def by blast
qed

text \<open>The words read so far when the machine rests in a state.\<close>

definition preamble :: "symbol list \<Rightarrow> symbol list" where
  "preamble previous = [(Rotate, True), (Format_description, False)] @ previous"

fun shape :: "state_type \<Rightarrow> symbol list \<Rightarrow> bool" where
  "shape Rotate_artificial_expected w \<longleftrightarrow> w \<in> star cycle_words"
| "shape Format_description_expected w \<longleftrightarrow> (\<exists>u \<in> star cycle_words. w = u @ [(Rotate, True)])"
| "shape Previous_gtids_expected w \<longleftrightarrow> (\<exists>u \<in> star cycle_words. w = u @ preamble [])"
| "shape Gtid_log_expected w \<longleftrightarrow> (\<exists>u \<in> star cycle_words.
     \<exists>previous \<in> {[], [(Previous_gtids_log, False)]}. w = u @ preamble previous)"
| "shape Any_other_expected w \<longleftrightarrow> (\<exists>u \<in> star cycle_words.
     \<exists>previous \<in> {[], [(Previous_gtids_log, False)]}. \<exists>transactions \<in> star transaction_words.
       transactions \<noteq> [] \<and> w = u @ preamble previous @ transactions)"
| "shape Rotate_or_stop_expected w \<longleftrightarrow> False"

lemma cycle_wordsI:
  "previous \<in> {[], [(Previous_gtids_log, False)]} \<Longrightarrow> transactions \<in> star transaction_words \<Longrightarrow>
   final \<in> {[], [(Rotate, False)], [(Stop, False)]} \<Longrightarrow> preamble previous @ transactions @ final \<in> cycle_words"
  unfolding cycle_words_def preamble_def mem_Collect_eq
  by (rule exI [of _ previous], rule exI [of _ transactions], rule exI [of _ final]) simp

lemma shape_open_cycle:
  assumes "shape q w" and "q \<in> {Gtid_log_expected, Any_other_expected}"
  obtains u previous transactions where "u \<in> star cycle_words"
    and "previous \<in> {[], [(Previous_gtids_log, False)]}" and "transactions \<in> star transaction_words"
    and "w = u @ preamble previous @ transactions" and "q = Any_other_expected \<Longrightarrow> transactions \<noteq> []"
proof -
  have "\<exists>u \<in> star cycle_words. \<exists>previous \<in> {[], [(Previous_gtids_log, False)]}.
      \<exists>transactions \<in> star transaction_words. w = u @ preamble previous @ transactions \<and>
        (q = Any_other_expected \<longrightarrow> transactions \<noteq> [])"
    using assms by (cases q) (simp_all, metis append_Nil2 star_Nil, metis)
  then show ?thesis using that by blast
qed

lemma shape_close_cycle:
  assumes "shape q w" and "q \<in> {Gtid_log_expected, Any_other_expected}"
    and "final \<in> {[], [(Rotate, False)], [(Stop, False)]}"
  shows "w @ final \<in> star cycle_words"
proof -
  obtain u previous transactions where "u \<in> star cycle_words"
    "previous \<in> {[], [(Previous_gtids_log, False)]}" "transactions \<in> star transaction_words"
    "w = u @ preamble previous @ transactions"
    using assms(1,2) by (rule shape_open_cycle)
  then show ?thesis using star_snoc [OF _ cycle_wordsI [OF _ _ assms(3)]] by simp
qed

lemma shape_any_otherI:
  "u \<in> star cycle_words \<Longrightarrow> previous \<in> {[], [(Previous_gtids_log, False)]} \<Longrightarrow>
   transactions @ [x] \<in> star transaction_words \<Longrightarrow>
   shape Any_other_expected ((u @ preamble previous @ transactions) @ [x])"
  unfolding shape.simps
  by (rule bexI [of _ u], rule bexI [of _ previous], rule bexI [of _ "transactions @ [x]"]) simp_all

lemma shape_step:
  assumes "shape q w" and "protocol_step q code artificial q'"
  shows "shape q' (w @ [(code, artificial)])"
  using assms(2)
proof cases
  case ps_rotate
  then have "w \<in> star cycle_words" using assms(1) shape_close_cycle [OF assms(1), of "[]"] by auto
  then show ?thesis using ps_rotate by simp
next
  case ps_description
  then obtain u where "u \<in> star cycle_words" and w: "w = u @ [(Rotate, True)]" using assms(1) by auto
  moreover have "w @ [(code, artificial)] = u @ preamble []" using ps_description w by (simp add: preamble_def)
  ultimately show ?thesis using ps_description(4) by auto
next
  case ps_previous
  then obtain u where "u \<in> star cycle_words" and w: "w = u @ preamble []" using assms(1) by auto
  moreover have "w @ [(code, artificial)] = u @ preamble [(Previous_gtids_log, False)]"
    using ps_previous w by (simp add: preamble_def)
  ultimately show ?thesis using ps_previous(4) by auto
next
  case ps_gtid
  obtain u previous transactions where w: "u \<in> star cycle_words"
    "previous \<in> {[], [(Previous_gtids_log, False)]}" "transactions \<in> star transaction_words"
    "w = u @ preamble previous @ transactions"
    using assms(1) ps_gtid(2) by (rule shape_open_cycle)
  have "[(code, artificial)] \<in> transaction_words" using ps_gtid by (simp add: transaction_words_def)
  then have "transactions @ [(code, artificial)] \<in> star transaction_words" using star_snoc [OF w(3)] by blast
  then show ?thesis using w(1,2) unfolding ps_gtid(1) w(4) by (rule shape_any_otherI [rotated 2])
next
  case ps_ordinary
  obtain u previous transactions where w: "u \<in> star cycle_words"
    "previous \<in> {[], [(Previous_gtids_log, False)]}" "transactions \<in> star transaction_words"
    "w = u @ preamble previous @ transactions" "transactions \<noteq> []"
    using shape_open_cycle [OF assms(1)] ps_ordinary(1) by blast
  have "t @ [(code, artificial)] \<in> transaction_words" if "t \<in> transaction_words" for t
    using that ps_ordinary by (fastforce simp: transaction_words_def)
  then have "transactions @ [(code, artificial)] \<in> star transaction_words"
    using star_extend_last [OF w(3,5)] by blast
  then show ?thesis using w(1,2) unfolding ps_ordinary(3) w(4) by (rule shape_any_otherI [rotated 2])
next
  case ps_last
  then show ?thesis using shape_close_cycle [OF assms(1), of "[(code, artificial)]"] by auto
qed

section \<open>Runs\<close>

lemma receive_events_split:
  "receive_events crc c portions = Inr (es1 @ es2, c'') \<Longrightarrow>
   \<exists>ps1 ps2 c'. portions = ps1 @ ps2 \<and> receive_events crc c ps1 = Inr (es1, c') \<and>
     receive_events crc c' ps2 = Inr (es2, c'')"
proof (induction es1 arbitrary: c portions)
  case Nil
  then show ?case by (intro exI [of _ "[]"] exI [of _ portions]) simp
next
  case (Cons e es1)
  obtain p ps where portions: "portions = p # ps" using Cons.prems by (cases portions) auto
  then obtain v i c1 where e: "receive_event crc c p = Inr (v, i, c1)" "e = (v, i)"
    and "receive_events crc c1 ps = Inr (es1 @ es2, c'')"
    using Cons.prems by (auto simp: result_simps)
  from Cons.IH [OF this(3)] obtain ps1 ps2 c' where "ps = ps1 @ ps2" "receive_events crc c1 ps1 = Inr (es1, c')"
    "receive_events crc c' ps2 = Inr (es2, c'')" by blast
  then show ?case using e portions by (intro exI [of _ "p # ps1"] exI [of _ ps2] exI [of _ c']) simp
qed

lemma receive_events_Cons:
  assumes "receive_events crc c portions = Inr ((v, i) # es, c'')"
  obtains p ps c' where "portions = p # ps" and "process_event_view v c = Inr (i, c')"
    and "receive_events crc c' ps = Inr (es, c'')"
proof -
  obtain p ps where "portions = p # ps" using assms by (cases portions) auto
  then show ?thesis using assms that by (auto simp: result_simps receive_event_def)
qed

lemma receive_events_invariant:
  assumes "receive_events crc c portions = Inr (es, c')" and "P c"
    and step: "\<And>v c i c'. process_event_view v c = Inr (i, c') \<Longrightarrow> P c \<Longrightarrow> P c'"
  shows "P c'"
  using assms(1,2)
proof (induction es arbitrary: c portions)
  case Nil
  then show ?case by (cases portions) (auto simp: result_simps)
next
  case (Cons e es)
  obtain v i where e: "e = (v, i)" by (cases e)
  obtain p ps c1 where "process_event_view v c = Inr (i, c1)" "receive_events crc c1 ps = Inr (es, c')"
    using Cons.prems(1) unfolding e by (rule receive_events_Cons)
  then show ?case using Cons.IH [OF _ step] Cons.prems(2) by blast
qed

lemma reader_ok_init: "reader_ok (make_reader_context version checksum mode name pos)"
  by (simp add: make_reader_context_def reader_ok_def transaction_idle_def)

lemma receive_events_ok:
  assumes "receive_events crc c portions = Inr (es, c')" and "reader_ok c"
  shows "reader_ok c' \<and> rc_replication_mode c' = rc_replication_mode c"
  using receive_events_invariant [OF assms(1), of "\<lambda>d. reader_ok d \<and> rc_replication_mode d = rc_replication_mode c"]
    assms(2) process_event_view_step by simp

lemma receive_events_shape:
  assumes "receive_events crc c portions = Inr (es, c')" and "reader_ok c" and "shape (rc_state c) w"
  shows "shape (rc_state c') (w @ map (symbol_of \<circ> fst) es)"
  using assms
proof (induction es arbitrary: c portions w)
  case Nil
  then show ?case by (cases portions) (auto simp: result_simps)
next
  case (Cons e es)
  obtain v i where e: "e = (v, i)" by (cases e)
  obtain p ps c1 where c1: "process_event_view v c = Inr (i, c1)" "receive_events crc c1 ps = Inr (es, c')"
    using Cons.prems(1) unfolding e by (rule receive_events_Cons)
  note step = process_event_view_step [OF c1(1) Cons.prems(2)]
  then have "shape (rc_state c1) (w @ [symbol_of v])"
    using shape_step [OF Cons.prems(3)] by (simp add: symbol_of_def)
  then show ?case using Cons.IH [OF c1(2), of "w @ [symbol_of v]"] step by (simp add: e)
qed

lemma star_is_prefix: "u \<in> star L \<Longrightarrow> w \<in> L \<Longrightarrow> \<exists>u' \<in> L. \<exists>us \<in> star L. u @ w = u' @ us"
proof -
  assume "u \<in> star L" "w \<in> L"
  then obtain ws where "set ws \<subseteq> L" "u = concat ws" by (auto simp: star_def)
  moreover have "concat (vs @ [w]) \<in> star L" if "set vs \<subseteq> L" for vs
    unfolding star_def using that \<open>w \<in> L\<close> by (intro CollectI exI [of _ "vs @ [w]"]) simp
  ultimately show ?thesis using \<open>w \<in> L\<close>
    by (cases ws) (simp, metis append_Nil2 star_Nil, simp, metis concat.simps(1) concat.simps(2) concat_append append_Nil2)
qed

lemma shape_prefix:
  assumes "shape q w"
  shows "\<exists>u \<in> protocol_words. prefix w u"
proof -
  have "\<exists>u \<in> star cycle_words. \<exists>x \<in> cycle_words. \<exists>y. u @ x = w @ y"
  proof (cases q)
    case Rotate_artificial_expected
    then show ?thesis using assms cycle_wordsI [of "[]" "[]" "[]"] by auto
  next
    case Rotate_or_stop_expected
    then show ?thesis using assms by simp
  next
    case Format_description_expected
    then obtain u where "u \<in> star cycle_words" "w = u @ [(Rotate, True)]" using assms by auto
    moreover have "[(Rotate, True)] @ [(Format_description, False)] \<in> cycle_words"
      using cycle_wordsI [of "[]" "[]" "[]"] by (simp add: preamble_def)
    ultimately show ?thesis by (metis append.assoc)
  next
    case Previous_gtids_expected
    then obtain u where "u \<in> star cycle_words" "w = u @ preamble []" using assms by auto
    moreover have "preamble [] \<in> cycle_words" using cycle_wordsI [of "[]" "[]" "[]"] by simp
    ultimately show ?thesis by (metis append_Nil2)
  next
    case Gtid_log_expected
    then have "q \<in> {Gtid_log_expected, Any_other_expected}" by simp
    with assms obtain u previous transactions where "u \<in> star cycle_words"
      "previous \<in> {[], [(Previous_gtids_log, False)]}" "transactions \<in> star transaction_words"
      "w = u @ preamble previous @ transactions" by (rule shape_open_cycle)
    moreover from this have "preamble previous @ transactions \<in> cycle_words"
      using cycle_wordsI [of previous transactions "[]"] by simp
    ultimately show ?thesis by (metis append_Nil2)
  next
    case Any_other_expected
    then have "q \<in> {Gtid_log_expected, Any_other_expected}" by simp
    with assms obtain u previous transactions where "u \<in> star cycle_words"
      "previous \<in> {[], [(Previous_gtids_log, False)]}" "transactions \<in> star transaction_words"
      "w = u @ preamble previous @ transactions" by (rule shape_open_cycle)
    moreover from this have "preamble previous @ transactions \<in> cycle_words"
      using cycle_wordsI [of previous transactions "[]"] by simp
    ultimately show ?thesis by (metis append_Nil2)
  qed
  then obtain u x y where "u \<in> star cycle_words" "x \<in> cycle_words" "u @ x = w @ y" by blast
  moreover from star_is_prefix [OF this(1,2)] have "u @ x \<in> protocol_words"
    unfolding protocol_words_def by blast
  ultimately show ?thesis by (metis prefixI)
qed

section \<open>Transactions\<close>

lemma gtid_event_starts_transaction:
  assumes "process_event_view g c = Inr (i, c')" and "is_gtid_log_code (event_code g)"
  shows "rc_state c' = Any_other_expected \<and> rc_current_transaction_length c' = event_size g \<and>
    (\<exists>raw. declared_transaction_length g = Inr raw \<and> unat raw < 2 ^ 32 \<and>
      rc_expected_transaction_length c' = ucast raw)"
  using assms(1)
proof (cases rule: process_event_view_cases)
  case (gtid_log c1)
  then show ?thesis using gtid_log_consumes(3,5,6) by blast
qed (use assms(2) in \<open>auto simp: is_gtid_log_code_def ordinary_code_def dest: rotate_artificial_consumes(1)
    format_description_consumes(1) previous_gtids_consumes(1) any_other_consumes(1) rotate_or_stop_consumes(1)\<close>)

lemma ordinary_event_extends_transaction:
  assumes "process_event_view v c = Inr (i, c')" and "ordinary_code (event_code v)"
  shows "rc_state c = Any_other_expected \<and> rc_current_transaction_length c' = rc_current_transaction_length c + event_size v \<and>
    rc_expected_transaction_length c' = rc_expected_transaction_length c \<and> rc_state c' = rc_state c"
  using assms(1)
proof (cases rule: process_event_view_cases)
  case any_other
  then show ?thesis using any_other_consumes(6) [OF any_other(2)] by simp
qed (use assms(2) in \<open>auto simp: is_gtid_log_code_def ordinary_code_def dest: rotate_artificial_consumes(1)
    format_description_consumes(1) previous_gtids_consumes(1) gtid_log_consumes(1) rotate_or_stop_consumes(1)\<close>)

lemma transaction_end_is_exact:
  assumes "process_event_view v c = Inr (i, c')" and "\<not> ordinary_code (event_code v)"
    and "rc_state c = Any_other_expected"
  shows "rc_current_transaction_length c = rc_expected_transaction_length c"
  using assms(1)
proof (cases rule: process_event_view_cases)
  case any_other
  then show ?thesis using any_other_consumes(1) assms(2) by blast
qed (use assms(3) in \<open>auto dest!: settles_idle\<close>)

lemma ordinary_events_extend_transaction:
  assumes "receive_events crc c portions = Inr (es, c')" and "rc_state c = Any_other_expected"
    and "\<forall>(v, i) \<in> set es. ordinary_code (event_code v)"
  shows "rc_state c' = Any_other_expected \<and>
    rc_current_transaction_length c' = rc_current_transaction_length c + sum_list (map (event_size \<circ> fst) es) \<and>
    rc_expected_transaction_length c' = rc_expected_transaction_length c"
  using assms
proof (induction es arbitrary: c portions)
  case Nil
  then show ?case by (cases portions) (auto simp: result_simps)
next
  case (Cons e es)
  obtain v i where e: "e = (v, i)" by (cases e)
  obtain p ps c1 where c1: "process_event_view v c = Inr (i, c1)" "receive_events crc c1 ps = Inr (es, c')"
    using Cons.prems(1) unfolding e by (rule receive_events_Cons)
  note step = ordinary_event_extends_transaction [OF c1(1)]
  then show ?case using Cons.IH [OF c1(2)] Cons.prems(2,3) by (simp add: e)
qed

section \<open>Positions\<close>

definition is_artificial_rotate :: "event_view \<Rightarrow> bool" where
  "is_artificial_rotate v \<longleftrightarrow> event_code v = Rotate \<and> event_artificial v"

definition rotations :: "(event_view \<times> bool) list \<Rightarrow> event_view list" where
  "rotations es = filter is_artificial_rotate (map fst es)"

definition written_size :: "(event_view \<times> bool) list \<Rightarrow> uint32" where
  "written_size es = sum_list (map (event_size \<circ> fst) (filter (\<lambda>(v, info_only). \<not> info_only) es))"

text \<open>An event that is not an artificial rotation keeps the name and the cycle, and advances the position.\<close>

lemma non_rotation_step:
  assumes "process_event_view v c = Inr (i, c')" and "\<not> is_artificial_rotate v"
  shows "rc_cycle_number c' = rc_cycle_number c" "rc_binlog_name c' = rc_binlog_name c"
    "rc_expect_info_only_preamble_events c' = rc_expect_info_only_preamble_events c"
    "i \<longleftrightarrow> event_code v \<in> {Format_description, Previous_gtids_log} \<and> rc_expect_info_only_preamble_events c"
    "\<not> i \<Longrightarrow> event_next_position v = rc_position c + event_size v"
    "rc_position c' = (if rc_state c' = Rotate_artificial_expected then 4
       else if i then rc_position c else rc_position c + event_size v)"
proof -
  have "rc_cycle_number c' = rc_cycle_number c \<and> rc_binlog_name c' = rc_binlog_name c \<and>
    rc_expect_info_only_preamble_events c' = rc_expect_info_only_preamble_events c \<and>
    (i \<longleftrightarrow> event_code v \<in> {Format_description, Previous_gtids_log} \<and> rc_expect_info_only_preamble_events c) \<and>
    (\<not> i \<longrightarrow> event_next_position v = rc_position c + event_size v) \<and>
    rc_position c' = (if rc_state c' = Rotate_artificial_expected then 4
       else if i then rc_position c else rc_position c + event_size v)"
    using assms(1)
  proof (cases rule: process_event_view_cases)
    case (rotate_artificial c1)
    then show ?thesis using rotate_artificial_consumes(1,2) assms(2) by (auto simp: is_artificial_rotate_def)
  next
    case format_description
    note r = format_description_consumes [OF format_description(2)]
    show ?thesis using r by auto
  next
    case previous_gtids
    note r = previous_gtids_consumes [OF previous_gtids(2)]
    show ?thesis using r by auto
  next
    case (gtid_log c1)
    note r = gtid_log_consumes [OF gtid_log(3)] and u = settles_unchanged [OF gtid_log(1)]
    show ?thesis using r u gtid_log(2) by (auto simp: is_gtid_log_code_def)
  next
    case any_other
    note r = any_other_consumes [OF any_other(2)]
    show ?thesis using r(1-5) any_other(1) by (auto simp: r(6) ordinary_code_def)
  next
    case (rotate_or_stop c1)
    note r = rotate_or_stop_consumes [OF rotate_or_stop(3)] and u = settles_unchanged [OF rotate_or_stop(1)]
    show ?thesis using r(1-4) u rotate_or_stop(2) by (auto simp: r(5) reset_position_def)
  qed
  then show "rc_cycle_number c' = rc_cycle_number c" "rc_binlog_name c' = rc_binlog_name c"
    "rc_expect_info_only_preamble_events c' = rc_expect_info_only_preamble_events c"
    "i \<longleftrightarrow> event_code v \<in> {Format_description, Previous_gtids_log} \<and> rc_expect_info_only_preamble_events c"
    "\<not> i \<Longrightarrow> event_next_position v = rc_position c + event_size v"
    "rc_position c' = (if rc_state c' = Rotate_artificial_expected then 4
       else if i then rc_position c else rc_position c + event_size v)" by blast+
qed

end
