(* ===== verification/Reader_Properties.thy ===== *)
theory Reader_Properties
  imports Reader_Context
begin

text \<open>
  What the state machine of \<open>Reader_Context\<close> guarantees about whole streams of received events: the
  documented grammar, the declared transaction lengths, contiguous positions of the events that
  are written, the events that are read only for information, and the bound of the dispatch
  loop. One concrete stream (rotation, format description, previous GTIDs, a transaction of two
  events, rotation) shows that the hypotheses can be met.
\<close>

section \<open>Positions over runs\<close>

lemma non_rotation_run:
  assumes "receive_events crc c portions = Inr (es, c')" and "rotations es = []" and "reader_ok c"
    and "rc_state c \<noteq> Rotate_artificial_expected"
  shows "rc_expect_info_only_preamble_events c' = rc_expect_info_only_preamble_events c \<and>
    rc_position c' = (if rc_state c' = Rotate_artificial_expected then 4 else rc_position c + written_size es)"
  using assms
proof (induction es arbitrary: c portions)
  case Nil
  then show ?case by (cases portions) (auto simp: result_simps written_size_def)
next
  case (Cons e es)
  obtain v i where e: "e = (v, i)" by (cases e)
  obtain p ps c1 where c1: "process_event_view v c = Inr (i, c1)" "receive_events crc c1 ps = Inr (es, c')"
    using Cons.prems(1) unfolding e by (rule receive_events_Cons)
  have rot: "\<not> is_artificial_rotate v" "rotations es = []" using Cons.prems(2) by (auto simp: rotations_def e split: if_splits)
  note step = non_rotation_step [OF c1(1) rot(1)] and ok = process_event_view_step [OF c1(1) Cons.prems(3)]
  show ?case
  proof (cases "rc_state c1 = Rotate_artificial_expected")
    case False
    then show ?thesis using Cons.IH [OF c1(2) rot(2)] step ok by (auto simp: e written_size_def add.assoc)
  next
    case True
    have "es = []"
    proof (cases es)
      case (Cons e' es')
      obtain v' i' where e': "e' = (v', i')" by (cases e')
      obtain c2 where c2: "process_event_view v' c1 = Inr (i', c2)"
        using c1(2) unfolding Cons e' by (rule receive_events_Cons)
      have "event_code v' = Rotate \<and> event_artificial v'"
        using process_event_view_step [OF c2] ok True by (auto simp: protocol_step_simps)
      then show ?thesis using rot(2) by (simp add: Cons e' rotations_def is_artificial_rotate_def)
    qed simp
    then show ?thesis using c1(2) step True by (cases ps) (auto simp: result_simps)
  qed
qed

text \<open>The number of cycles is the number of artificial rotations, and a later cycle starts at offset 4.\<close>

definition cycle_start_ok :: "reader_context \<Rightarrow> bool" where
  "cycle_start_ok c \<longleftrightarrow>
     (rc_state c = Rotate_artificial_expected \<longrightarrow> rc_cycle_number c > 0 \<longrightarrow> rc_position c = 4)"

lemma rotation_step:
  assumes "process_event_view v c = Inr (i, c')" and "is_artificial_rotate v"
  shows "i" "rc_state c' = Format_description_expected" "rc_cycle_number c' = Suc (rc_cycle_number c)"
    "rc_binlog_name c' = rotate_body_readable_binlog (get_body_raw v)"
    "rc_position c' = (if rc_state c = Rotate_artificial_expected \<and> rc_binlog_name c' = rc_binlog_name c
       then rc_position c else 4)"
    "rc_expect_info_only_preamble_events c' \<longrightarrow> rc_cycle_number c = 0"
    "rc_state c = Rotate_artificial_expected \<Longrightarrow> rc_expect_info_only_preamble_events c' \<longleftrightarrow>
       rc_cycle_number c = 0 \<and> rc_binlog_name c' = rc_binlog_name c \<and> 4 < rc_position c"
proof -
  have "i \<and> rc_state c' = Format_description_expected \<and> rc_cycle_number c' = Suc (rc_cycle_number c) \<and>
    rc_binlog_name c' = rotate_body_readable_binlog (get_body_raw v) \<and>
    rc_position c' = (if rc_state c = Rotate_artificial_expected \<and> rc_binlog_name c' = rc_binlog_name c
       then rc_position c else 4) \<and>
    (rc_expect_info_only_preamble_events c' \<longrightarrow> rc_cycle_number c = 0) \<and>
    (rc_state c = Rotate_artificial_expected \<longrightarrow> (rc_expect_info_only_preamble_events c' \<longleftrightarrow>
       rc_cycle_number c = 0 \<and> rc_binlog_name c' = rc_binlog_name c \<and> 4 < rc_position c))"
    using assms(1)
  proof (cases rule: process_event_view_cases)
    case (rotate_artificial c1)
    note r = rotate_artificial_consumes [OF rotate_artificial(3)]
    have "c1 = c \<or> rc_state c \<noteq> Rotate_artificial_expected \<and> rc_position c1 = 4"
      using rotate_artificial(1,2) by cases (auto simp: reset_position_def)
    then show ?thesis using r settles_unchanged(2,3) [OF rotate_artificial(1)] rotate_artificial(2) by auto
  qed (use assms(2) in \<open>auto simp: is_artificial_rotate_def is_gtid_log_code_def ordinary_code_def
      dest: format_description_consumes(1) previous_gtids_consumes(1) gtid_log_consumes(1) any_other_consumes(1)
        rotate_or_stop_consumes(2)\<close>)
  then show "i" "rc_state c' = Format_description_expected" "rc_cycle_number c' = Suc (rc_cycle_number c)"
    "rc_binlog_name c' = rotate_body_readable_binlog (get_body_raw v)"
    "rc_position c' = (if rc_state c = Rotate_artificial_expected \<and> rc_binlog_name c' = rc_binlog_name c
       then rc_position c else 4)"
    "rc_expect_info_only_preamble_events c' \<longrightarrow> rc_cycle_number c = 0"
    "rc_state c = Rotate_artificial_expected \<Longrightarrow> rc_expect_info_only_preamble_events c' \<longleftrightarrow>
       rc_cycle_number c = 0 \<and> rc_binlog_name c' = rc_binlog_name c \<and> 4 < rc_position c" by blast+
qed

lemma cycle_start_run:
  assumes "receive_events crc c portions = Inr (es, c')" and "cycle_start_ok c"
  shows "cycle_start_ok c' \<and> rc_cycle_number c' = rc_cycle_number c + length (rotations es)"
  using assms
proof (induction es arbitrary: c portions)
  case Nil
  then show ?case by (cases portions) (auto simp: result_simps rotations_def)
next
  case (Cons e es)
  obtain v i where e: "e = (v, i)" by (cases e)
  obtain p ps c1 where c1: "process_event_view v c = Inr (i, c1)" "receive_events crc c1 ps = Inr (es, c')"
    using Cons.prems(1) unfolding e by (rule receive_events_Cons)
  have "cycle_start_ok c1 \<and> rc_cycle_number c1 = rc_cycle_number c + (if is_artificial_rotate v then 1 else 0)"
  proof (cases "is_artificial_rotate v")
    case True
    then show ?thesis using rotation_step [OF c1(1)] by (simp add: cycle_start_ok_def)
  next
    case False
    then show ?thesis using non_rotation_step [OF c1(1)] by (simp add: cycle_start_ok_def)
  qed
  then show ?case using Cons.IH [OF c1(2)] by (simp add: e rotations_def)
qed

lemma fresh_context:
  fixes version checksum mode name pos
  defines "c \<equiv> make_reader_context version checksum mode name pos"
  shows "reader_ok c" "cycle_start_ok c" "rc_cycle_number c = 0" "rc_state c = Rotate_artificial_expected"
    "rc_binlog_name c = name" "rc_position c = (if pos = 0 then 4 else pos)" "rc_replication_mode c = mode"
  by (simp_all add: c_def reader_ok_init cycle_start_ok_def, simp_all add: make_reader_context_def)

lemma first_event_is_rotation:
  assumes "process_event_view v c = Inr (i, c')" and "reader_ok c" and "rc_state c = Rotate_artificial_expected"
  shows "is_artificial_rotate v"
  using process_event_view_step [OF assms(1,2)] assms(3) by (auto simp: protocol_step_simps is_artificial_rotate_def)

lemma last_rotation_split:
  assumes "rotations es \<noteq> []"
  obtains a r i b where "es = a @ (r, i) # b" and "is_artificial_rotate r" and "rotations b = []"
proof -
  have "\<exists>e \<in> set es. is_artificial_rotate (fst e)" using assms by (auto simp: rotations_def filter_empty_conv)
  then obtain a e b where "es = a @ e # b" "is_artificial_rotate (fst e)" "\<forall>x \<in> set b. \<not> is_artificial_rotate (fst x)"
    by (rule split_list_last_propE)
  then show ?thesis using that [of a "fst e" "snd e" b] by (simp add: rotations_def filter_empty_conv)
qed

lemma preamble_flag_after_run:
  assumes run: "receive_events crc (make_reader_context version checksum mode name pos) portions = Inr (pre, c)"
    and "pre \<noteq> []"
  shows "rc_expect_info_only_preamble_events c \<longleftrightarrow>
    (\<exists>r. rotations pre = [r] \<and> rotate_body_readable_binlog (get_body_raw r) = name \<and> 4 < pos)"
proof -
  let ?c0 = "make_reader_context version checksum mode name pos"
  note fresh = fresh_context [of version checksum mode name pos]
  obtain v0 i0 pre' where pre: "pre = (v0, i0) # pre'" using assms(2) by (cases pre) auto
  obtain p0 ps0 c1 where v0: "process_event_view v0 ?c0 = Inr (i0, c1)" and run1: "receive_events crc c1 ps0 = Inr (pre', c)"
    using run unfolding pre by (rule receive_events_Cons)
  have rot0: "is_artificial_rotate v0" using first_event_is_rotation [OF v0 fresh(1,4)] .
  note r0 = rotation_step [OF v0 rot0] and ok1 = process_event_view_step [OF v0 fresh(1)]
  show ?thesis
  proof (cases "rotations pre' = []")
    case True
    then show ?thesis using non_rotation_run [OF run1 True] ok1 r0 fresh rot0
      by (auto simp: pre rotations_def split: if_splits)
  next
    case False
    then obtain a r i b where pre': "pre' = a @ (r, i) # b" "is_artificial_rotate r" "rotations b = []"
      by (rule last_rotation_split)
    from run1 obtain pa pb c2 where a: "receive_events crc c1 pa = Inr (a, c2)"
      and rb: "receive_events crc c2 pb = Inr ((r, i) # b, c)" unfolding pre' by (auto dest: receive_events_split)
    from rb obtain q qs c3 where r: "process_event_view r c2 = Inr (i, c3)" and b: "receive_events crc c3 qs = Inr (b, c)"
      by (rule receive_events_Cons)
    have "cycle_start_ok c1" using r0(2) by (simp add: cycle_start_ok_def)
    then have "rc_cycle_number c2 > 0" using cycle_start_run [OF a] r0(3) by simp
    then have "\<not> rc_expect_info_only_preamble_events c3" using rotation_step(6) [OF r pre'(2)] by simp
    moreover have "reader_ok c3" using process_event_view_step [OF r] receive_events_ok [OF a] ok1 by simp
    ultimately have "\<not> rc_expect_info_only_preamble_events c"
      using non_rotation_run [OF b pre'(3)] rotation_step(2) [OF r pre'(2)] by simp
    moreover have "length (rotations pre) \<ge> 2" using rot0 pre'(2) by (simp add: pre pre' rotations_def)
    ultimately show ?thesis by auto
  qed
qed

section \<open>A concrete stream\<close>

definition rotate_portion :: "byte list" where
  "rotate_portion = [
     0, 0, 0, 0, 4, 1, 0, 0, 0, 34, 0, 0, 0, 0, 0, 0, 0, 32, 0, 4, 0, 0, 0, 0, 0, 0, 0, 98, 46, 49,
     0, 0, 0, 0]"

definition format_description_portion :: "byte list" where
  "format_description_portion = [
     7, 0, 0, 0, 15, 1, 0, 0, 0, 122, 0, 0, 0, 126, 0, 0, 0, 0, 0, 4, 0, 56, 46, 48, 46, 51, 48, 0,
     0, 0, 0, 0, 0, 0, 0, 0, 0, 0, 0, 0, 0, 0, 0, 0, 0, 0, 0, 0, 0, 0, 0, 0, 0, 0, 0, 0, 0, 0, 0,
     0, 0, 0, 0, 0, 0, 0, 0, 0, 0, 0, 0, 0, 0, 0, 0, 19, 0, 13, 0, 8, 0, 0, 0, 0, 4, 0, 4, 0, 0, 0,
     98, 0, 4, 26, 8, 0, 0, 0, 8, 8, 8, 2, 0, 0, 0, 10, 10, 10, 42, 42, 0, 18, 52, 0, 10, 40, 0, 1,
     0, 0, 0, 0]"

definition previous_gtids_portion :: "byte list" where
  "previous_gtids_portion = [
     7, 0, 0, 0, 35, 1, 0, 0, 0, 31, 0, 0, 0, 157, 0, 0, 0, 0, 0, 0, 0, 0, 0, 0, 0, 0, 0, 0, 0, 0, 0]"

definition gtid_log_portion :: "byte list" where
  "gtid_log_portion = [
     7, 0, 0, 0, 33, 1, 0, 0, 0, 73, 0, 0, 0, 230, 0, 0, 0, 0, 0, 0, 1, 2, 3, 4, 5, 6, 7, 8, 9, 10,
     11, 12, 13, 14, 15, 16, 5, 0, 0, 0, 0, 0, 0, 0, 2, 0, 0, 0, 0, 0, 0, 0, 0, 1, 0, 0, 0, 0, 0,
     0, 0, 0, 0, 0, 0, 0, 0, 0, 111, 0, 0, 0, 0]"

definition query_portion :: "byte list" where
  "query_portion = [
     7, 0, 0, 0, 2, 1, 0, 0, 0, 38, 0, 0, 0, 12, 1, 0, 0, 0, 0, 0, 0, 0, 0, 0, 0, 0, 0, 0, 0, 0, 0,
     0, 0, 0, 0, 0, 0, 0]"

definition last_rotate_portion :: "byte list" where
  "last_rotate_portion = [
     7, 0, 0, 0, 4, 1, 0, 0, 0, 34, 0, 0, 0, 46, 1, 0, 0, 0, 0, 4, 0, 0, 0, 0, 0, 0, 0, 98, 46, 50,
     0, 0, 0, 0]"

definition rotate_view :: event_view where
  "rotate_view = \<lparr> ev_portion = rotate_portion, ev_post_header_size = 8, ev_footer_size = 4 \<rparr>"

definition format_description_view :: event_view where
  "format_description_view = \<lparr> ev_portion = format_description_portion, ev_post_header_size = 98, ev_footer_size = 4 \<rparr>"

definition previous_gtids_view :: event_view where
  "previous_gtids_view = \<lparr> ev_portion = previous_gtids_portion, ev_post_header_size = 0, ev_footer_size = 4 \<rparr>"

definition gtid_log_view :: event_view where
  "gtid_log_view = \<lparr> ev_portion = gtid_log_portion, ev_post_header_size = 42, ev_footer_size = 4 \<rparr>"

definition query_view :: event_view where
  "query_view = \<lparr> ev_portion = query_portion, ev_post_header_size = 13, ev_footer_size = 4 \<rparr>"

definition last_rotate_view :: event_view where
  "last_rotate_view = \<lparr> ev_portion = last_rotate_portion, ev_post_header_size = 8, ev_footer_size = 4 \<rparr>"

definition sample_portions :: "byte list list" where
  "sample_portions = [rotate_portion, format_description_portion, previous_gtids_portion, gtid_log_portion,
     query_portion, last_rotate_portion]"

definition sample_context :: reader_context where
  "sample_context = make_reader_context 80030 True Gtid_mode [] 0"

definition sample_final_context :: reader_context where
  "sample_final_context = (make_reader_context 80030 True Gtid_mode ''b.1'' 4)
     \<lparr> rc_cycle_number := 1, rc_post_header_lengths := get_hardcoded_post_header_lengths 80030 \<rparr>"

definition sample_events :: "(event_view \<times> bool) list" where
  "sample_events = [(rotate_view, True), (format_description_view, False), (previous_gtids_view, False),
     (gtid_log_view, False), (query_view, False), (last_rotate_view, False)]"

lemmas sample_views = rotate_view_def format_description_view_def previous_gtids_view_def gtid_log_view_def
  query_view_def last_rotate_view_def

lemma sample_run: "receive_events (\<lambda>_. 0) sample_context sample_portions = Inr (sample_events, sample_final_context)"
  by code_simp

section \<open>Properties\<close>

text \<open>
  C1: Every stream of events that a fresh context accepts is a prefix of a word of the documented
  grammar: cycles of an artificial rotation, a format description, optionally the previous
  GTIDs, transactions that each begin with a GTID event, and optionally a final rotation or stop.
\<close>

theorem reader_accepts_documented_grammar:
  assumes "receive_events crc (make_reader_context version checksum mode name pos) portions = Inr (es, c')"
  shows "\<exists>w \<in> protocol_words. prefix (map (symbol_of \<circ> fst) es) w"
  using receive_events_shape [OF assms fresh_context(1), of "[]"] fresh_context(4) [of version checksum mode name pos]
    shape_prefix by auto

theorem reader_accepts_documented_grammar_witness:
  "\<exists>w \<in> protocol_words. prefix (map (symbol_of \<circ> fst) sample_events) w"
  by (rule reader_accepts_documented_grammar [OF sample_run [unfolded sample_context_def]])

text \<open>
  C2: In an accepted stream every finished transaction has exactly the length its GTID event
  declares: the sizes of the GTID event and of the following events up to the next event that
  is not part of the transaction sum up (in 32 bits) to the declared length.
\<close>

theorem finished_transactions_have_declared_length:
  assumes "receive_events crc (make_reader_context version checksum mode name pos) portions =
      Inr (pre @ (g, i) # anys @ (e, j) # post, c')"
    and "is_gtid_log_code (event_code g)" and "\<forall>(v, k) \<in> set anys. ordinary_code (event_code v)"
    and "\<not> ordinary_code (event_code e)"
  shows "\<exists>raw. declared_transaction_length g = Inr raw \<and> unat raw < 2 ^ 32 \<and>
    event_size g + sum_list (map (event_size \<circ> fst) anys) = ucast raw"
proof -
  obtain p1 c1 where "receive_events crc c1 p1 = Inr ((g, i) # anys @ (e, j) # post, c')"
    using assms(1) by (auto dest: receive_events_split)
  then obtain p ps c2 where g: "process_event_view g c1 = Inr (i, c2)"
    and "receive_events crc c2 ps = Inr (anys @ (e, j) # post, c')" by (rule receive_events_Cons)
  then obtain p3 p4 c3 where anys: "receive_events crc c2 p3 = Inr (anys, c3)"
    and "receive_events crc c3 p4 = Inr ((e, j) # post, c')" by (auto dest: receive_events_split)
  then obtain c4 where e: "process_event_view e c3 = Inr (j, c4)" by (auto elim: receive_events_Cons)
  note start = gtid_event_starts_transaction [OF g assms(2)]
  note middle = ordinary_events_extend_transaction [OF anys _ assms(3)]
  have "rc_current_transaction_length c3 = rc_expected_transaction_length c3"
    using transaction_end_is_exact [OF e assms(4)] start middle by simp
  then show ?thesis using start middle by auto
qed

theorem finished_transactions_have_declared_length_witness:
  "\<exists>raw. declared_transaction_length gtid_log_view = Inr raw \<and> unat raw < 2 ^ 32 \<and>
    event_size gtid_log_view + sum_list (map (event_size \<circ> fst) [(query_view, False)]) = ucast raw"
proof (rule finished_transactions_have_declared_length)
  show "receive_events (\<lambda>_. 0) (make_reader_context 80030 True Gtid_mode [] 0) sample_portions =
      Inr ([(rotate_view, True), (format_description_view, False), (previous_gtids_view, False)] @
        (gtid_log_view, False) # [(query_view, False)] @ (last_rotate_view, False) # [], sample_final_context)"
    using sample_run by (simp add: sample_context_def sample_events_def)
  show "is_gtid_log_code (event_code gtid_log_view)" by code_simp
  show "\<forall>(v, k) \<in> set [(query_view, False)]. ordinary_code (event_code v)" by code_simp
  show "\<not> ordinary_code (event_code last_rotate_view)" by code_simp
qed

text \<open>
  C3: The events that are written to a binlog file are contiguous in it: the end position an
  event states is the start of the file (offset 4, or the position that streaming resumes
  from) plus the sizes of the events written since the rotation to that file, its own included.
\<close>

theorem written_events_are_contiguous:
  assumes "receive_events crc (make_reader_context version checksum mode name pos) portions =
      Inr (pre @ (r, i) # mid @ (v, False) # post, c')"
    and "is_artificial_rotate r" and "rotations mid = []"
  shows "event_next_position v =
    (if pre = [] \<and> rotate_body_readable_binlog (get_body_raw r) = name \<and> pos \<noteq> 0 then pos else 4) +
    written_size mid + event_size v"
proof -
  let ?c0 = "make_reader_context version checksum mode name pos"
  note fresh = fresh_context [of version checksum mode name pos]
  obtain pa p1 c1 where pre: "receive_events crc ?c0 pa = Inr (pre, c1)"
    and "receive_events crc c1 p1 = Inr ((r, i) # mid @ (v, False) # post, c')"
    using assms(1) by (auto dest: receive_events_split)
  then obtain p ps c2 where r: "process_event_view r c1 = Inr (i, c2)"
    and "receive_events crc c2 ps = Inr (mid @ (v, False) # post, c')" by (auto elim: receive_events_Cons)
  then obtain p3 p4 c3 where mid: "receive_events crc c2 p3 = Inr (mid, c3)"
    and "receive_events crc c3 p4 = Inr ((v, False) # post, c')" by (auto dest: receive_events_split)
  then obtain c4 where v: "process_event_view v c3 = Inr (False, c4)" by (auto elim: receive_events_Cons)
  have ok1: "reader_ok c1" using receive_events_ok [OF pre fresh(1)] by simp
  then have ok2: "reader_ok c2" using process_event_view_step [OF r] by simp
  then have ok3: "reader_ok c3" using receive_events_ok [OF mid] by simp
  note rot = rotation_step [OF r assms(2)]
  have v_no_rot: "\<not> is_artificial_rotate v" using rotation_step(1) [OF v] by blast
  then have "rc_state c3 \<noteq> Rotate_artificial_expected" using first_event_is_rotation [OF v ok3] by blast
  then have pos3: "rc_position c3 = rc_position c2 + written_size mid"
    using non_rotation_run [OF mid assms(3) ok2] rot(2) by simp
  have "rc_position c2 = (if pre = [] \<and> rc_binlog_name c2 = name \<and> pos \<noteq> 0 then pos else 4)"
  proof (cases "pre = []")
    case True
    then have "c1 = ?c0" using pre by (cases pa) (auto simp: result_simps)
    then have "rc_position c2 = (if rc_binlog_name c2 = name then (if pos = 0 then 4 else pos) else 4)"
      using rot(5) fresh(4-6) by (simp only: simp_thms)
    then show ?thesis using True by simp
  next
    case False
    then obtain v0 i0 pre' where "pre = (v0, i0) # pre'" by (cases pre) auto
    moreover from this pre obtain d where "process_event_view v0 ?c0 = Inr (i0, d)" by (auto elim: receive_events_Cons)
    ultimately have "rotations pre \<noteq> []" using first_event_is_rotation fresh(1,4) by (auto simp: rotations_def)
    then have "rc_state c1 = Rotate_artificial_expected \<Longrightarrow> rc_position c1 = 4"
      using cycle_start_run [OF pre fresh(2)] by (simp add: cycle_start_ok_def)
    then show ?thesis using rot(5) False by simp
  qed
  then show ?thesis using non_rotation_step(5) [OF v v_no_rot] pos3 rot(4) by simp
qed

theorem written_events_are_contiguous_witness:
  "event_next_position query_view = 268"
proof -
  have "receive_events (\<lambda>_. 0) (make_reader_context 80030 True Gtid_mode [] 0) sample_portions =
      Inr ([] @ (rotate_view, True) # [(format_description_view, False), (previous_gtids_view, False),
        (gtid_log_view, False)] @ (query_view, False) # [(last_rotate_view, False)], sample_final_context)"
    using sample_run by (simp add: sample_context_def sample_events_def)
  moreover have "is_artificial_rotate rotate_view" by code_simp
  moreover have "rotations [(format_description_view, False), (previous_gtids_view, False), (gtid_log_view, False)] = []"
    by code_simp
  ultimately have "event_next_position query_view =
      4 + written_size [(format_description_view, False), (previous_gtids_view, False), (gtid_log_view, False)] +
      event_size query_view"
    using written_events_are_contiguous by fastforce
  also have "\<dots> = 268" by code_simp
  finally show ?thesis .
qed

text \<open>
  C28: An accepted event is read only for information exactly if it is an artificial rotation, or
  the format description or the previous GTIDs of the first cycle while streaming resumes in
  the middle of the binlog file that the context was created with.
\<close>

theorem info_only_events_characterised:
  assumes "receive_events crc (make_reader_context version checksum mode name pos) portions =
      Inr (pre @ (v, info_only) # post, c')"
  shows "info_only \<longleftrightarrow> is_artificial_rotate v \<or>
    event_code v \<in> {Format_description, Previous_gtids_log} \<and>
    (\<exists>r. rotations pre = [r] \<and> rotate_body_readable_binlog (get_body_raw r) = name \<and> 4 < pos)"
proof -
  let ?c0 = "make_reader_context version checksum mode name pos"
  note fresh = fresh_context [of version checksum mode name pos]
  obtain pa p1 c1 where pre: "receive_events crc ?c0 pa = Inr (pre, c1)"
    and "receive_events crc c1 p1 = Inr ((v, info_only) # post, c')"
    using assms(1) by (auto dest: receive_events_split)
  then obtain c2 where v: "process_event_view v c1 = Inr (info_only, c2)" by (auto elim: receive_events_Cons)
  show ?thesis
  proof (cases "is_artificial_rotate v")
    case True
    then show ?thesis using rotation_step(1) [OF v] by simp
  next
    case False
    have "pre \<noteq> []"
    proof
      assume "pre = []"
      then have "c1 = ?c0" using pre by (cases pa) (auto simp: result_simps)
      then show False using first_event_is_rotation [OF v] fresh False by simp
    qed
    then show ?thesis using preamble_flag_after_run [OF pre] non_rotation_step(4) [OF v False] False by simp
  qed
qed

definition resumed_context :: reader_context where
  "resumed_context = make_reader_context 80030 True Gtid_mode ''b.1'' 157"

lemma resumed_run:
  "map_sum id (map fst \<circ> fst) (receive_events (\<lambda>_. 0) resumed_context [rotate_portion, format_description_portion, previous_gtids_portion]) =
   Inr [rotate_view, format_description_view, previous_gtids_view]"
  by code_simp

theorem info_only_events_characterised_witness:
  "\<exists>i j c'. receive_events (\<lambda>_. 0) resumed_context [rotate_portion, format_description_portion, previous_gtids_portion] =
     Inr ([(rotate_view, i)] @ (format_description_view, j) # [(previous_gtids_view, j)], c') \<and> i \<and> j"
proof -
  obtain i j k c' where run: "receive_events (\<lambda>_. 0) resumed_context [rotate_portion, format_description_portion, previous_gtids_portion] =
      Inr ([(rotate_view, i), (format_description_view, j), (previous_gtids_view, k)], c')"
    using resumed_run
    by (cases "receive_events (\<lambda>_. 0) resumed_context [rotate_portion, format_description_portion, previous_gtids_portion]")
      (auto simp: map_eq_Cons_conv)
  have codes: "is_artificial_rotate rotate_view" "event_code format_description_view = Format_description"
    "event_code previous_gtids_view = Previous_gtids_log" by code_simp+
  have rotation: "rotations [(rotate_view, x)] = [rotate_view]" "rotations [(rotate_view, x), (format_description_view, y)] = [rotate_view]" for x y
    using codes by (simp_all add: rotations_def is_artificial_rotate_def)
  have name: "rotate_body_readable_binlog (get_body_raw rotate_view) = ''b.1''" by code_simp
  note info = info_only_events_characterised [of "\<lambda>_. 0" 80030 True Gtid_mode "''b.1''" 157
      "[rotate_portion, format_description_portion, previous_gtids_portion]", folded resumed_context_def]
  have "i" using info [of "[]" rotate_view] run codes(1) by simp
  moreover have "j" using info [of "[(rotate_view, i)]" format_description_view] run codes(2) rotation name by simp
  moreover have "k" using info [of "[(rotate_view, i), (format_description_view, j)]" previous_gtids_view] run codes(3) rotation name
    by simp
  ultimately show ?thesis using run by (intro exI [of _ True] exI [of _ c']) (simp del: receive_events.simps)
qed

text \<open>
  C29: After every accepted stream the context is consistent: it never rests in the state that
  expects the final rotation or stop, it remembers nothing of a transaction outside of one, and in
  GTID mode it knows the GTID of the transaction it is in.
\<close>

theorem reader_context_consistent:
  assumes "receive_events crc (make_reader_context version checksum mode name pos) portions = Inr (es, c')"
  shows "rc_state c' \<noteq> Rotate_or_stop_expected \<and> rc_replication_mode c' = mode \<and>
    (rc_state c' \<noteq> Any_other_expected \<longrightarrow> \<not> has_transaction_gtid c' \<and> \<not> has_transaction_sequence_number c' \<and>
       rc_current_transaction_length c' = 0 \<and> rc_expected_transaction_length c' = 0) \<and>
    (rc_state c' = Any_other_expected \<and> mode = Gtid_mode \<longrightarrow> has_transaction_gtid c')"
  using receive_events_ok [OF assms fresh_context(1)] fresh_context(7) [of version checksum mode name pos]
  by (auto simp: reader_ok_def transaction_idle_def has_transaction_gtid_def has_transaction_sequence_number_def
      gtid_is_empty_def gtid_empty_def split: if_splits)

theorem reader_context_consistent_witness:
  "rc_state sample_final_context \<noteq> Rotate_or_stop_expected"
  using reader_context_consistent [OF sample_run [unfolded sample_context_def]] by blast

text \<open>The dispatch loop with a bound on the number of handler calls.\<close>

fun process_rounds :: "nat \<Rightarrow> event_view \<Rightarrow> bool \<Rightarrow> bool \<Rightarrow> reader_context \<Rightarrow> (bool \<times> reader_context) result option" where
  "process_rounds n v True info_only c = Some (Inr (info_only, c))"
| "process_rounds 0 v False info_only c = None"
| "process_rounds (Suc n) v False info_only c =
     (case dispatch_state (rc_state c) v info_only c of
        Inl e \<Rightarrow> Some (Inl e)
      | Inr (processed, info_only', c') \<Rightarrow> process_rounds n v processed info_only' c')"

text \<open>
  The dispatch loop calls at most two handlers per event, so every event is accepted or refused
  after a bounded amount of work.
\<close>

theorem process_event_view_two_rounds:
  "process_rounds 2 v False False c = Some (process_event_view v c)"
proof (cases "dispatch_state (rc_state c) v False c")
  case (Inr x)
  obtain p i c1 where x: "x = (p, i, c1)" by (cases x)
  show ?thesis
  proof (cases p)
    case False
    then have hop: "settles v c c1 \<and> (state_rank (rc_state c1) = 0 \<or>
        rc_state c1 = Gtid_log_expected \<and> is_gtid_log_code (event_code v))"
      using Inr x dispatch_hop [of c v False i c1] by simp
    have consumed: "q" if "dispatch_state (rc_state c1) v i c1 = Inr (q, j, c2)" for q j c2
      using that hop gtid_code_is_consumed [of v c1 i q j c2] dispatch_unprocessed [of c1 v i j c2] by (cases q) auto
    show ?thesis
    proof (cases "dispatch_state (rc_state c1) v i c1")
      case (Inr y)
      obtain q j c2 where "y = (q, j, c2)" by (cases y)
      with consumed Inr have "dispatch_state (rc_state c1) v i c1 = Inr (True, j, c2)" by auto
      then show ?thesis using \<open>dispatch_state (rc_state c) v False c = Inr x\<close> x False
        by (simp add: process_event_view_def process_loop_step numeral_2_eq_2)
    qed (use Inr x False in \<open>simp add: process_event_view_def process_loop_step numeral_2_eq_2\<close>)
  qed (simp add: Inr x process_event_view_def process_loop_step numeral_2_eq_2)
qed (simp add: process_event_view_def process_loop_step numeral_2_eq_2)

end
