(* ===== verification/App.thy ===== *)
theory App
  imports Reader_Properties Storage_Runs
begin

text \<open>
  The event processing of the application (\<open>app.cpp\<close>): every received event goes through the reader
  context and, unless it is for information only, into the storage; artificial rotations open
  binlog files, rotations and stops close them. Logging is left out. The readings of the clock that
  the storage makes while one event is processed are a record (\<open>clock_readings\<close>).
\<close>

section \<open>Model\<close>

datatype operation_mode_type =
  Fetch | Pull | List_binlogs | Search_by_timestamp | Search_by_gtid_set | Purge_binlogs | Version

record clock_readings =
  at_closing :: int
  at_opening :: int
  at_writing :: int
  at_final_closing :: int

definition process_artificial_rotate_event ::
    "'c icl \<Rightarrow> 'c metadata_codec \<Rightarrow> clock_readings \<Rightarrow> event_view \<Rightarrow> 'c storage \<Rightarrow> 'c storage result" where
  "process_artificial_rotate_event I C now current_event_v s =
     (let readable_binlog = rotate_body_readable_binlog (get_body_raw current_event_v) in
      rbind (if is_binlog_open s then
               rbind (parse_binlog_name readable_binlog) (\<lambda>parsed_binlog.
               if parsed_binlog = get_current_binlog_name s then
                 rbind (if st_replication_mode s = Position_mode then
                          rbind (rotate_post_header_decode (get_post_header_raw current_event_v)) (\<lambda>position_raw.
                          ensure (\<not> position_raw \<noteq> get_current_position s)
                            (Logic_error ''unexpected binlog position in artificial rotate event''))
                        else Inr ()) (\<lambda>_.
                 Inr (False, s))
               else
                 rbind (close_binlog I C (at_closing now) s) (\<lambda>s. Inr (True, s)))
             else Inr (True, s)) (\<lambda>(binlog_opening_needed, s).
      if binlog_opening_needed then
        rbind (parse_binlog_name readable_binlog) (\<lambda>parsed_binlog.
        rbind (open_binlog I C parsed_binlog (at_opening now) s) (\<lambda>(_, s). Inr s))
      else Inr s))"

definition process_rotate_or_stop_event ::
    "'c icl \<Rightarrow> 'c metadata_codec \<Rightarrow> clock_readings \<Rightarrow> 'c storage \<Rightarrow> 'c storage result" where
  "process_rotate_or_stop_event I C now s = close_binlog I C (at_final_closing now) s"

text \<open>What is done with an event that the reader context has processed.\<close>

definition store_event ::
    "'c icl \<Rightarrow> 'c metadata_codec \<Rightarrow> clock_readings \<Rightarrow> event_view \<Rightarrow> bool \<Rightarrow> reader_context \<Rightarrow> 'c storage \<Rightarrow> 'c storage result" where
  "store_event I C now current_event_v info_only context s =
     (let common_header_v = get_common_header_raw current_event_v;
          code = get_type_code common_header_v;
          artificial = is_artificial common_header_v in
      rbind (if code = Rotate \<and> artificial then process_artificial_rotate_event I C now current_event_v s else Inr s) (\<lambda>s.
      rbind (if \<not> info_only then
               write_event I C (ev_portion current_event_v) (is_at_transaction_boundary context)
                 (rc_transaction_gtid context) (uint (get_timestamp_raw common_header_v))
                 (rc_transaction_sequence_number context) (at_writing now) s
             else Inr s) (\<lambda>s.
      if code = Rotate \<and> \<not> artificial \<or> code = Stop then process_rotate_or_stop_event I C now s else Inr s)))"

definition process_binlog_event ::
    "'c icl \<Rightarrow> 'c metadata_codec \<Rightarrow> clock_readings \<Rightarrow> event_view \<Rightarrow> reader_context \<times> 'c storage \<Rightarrow>
     (reader_context \<times> 'c storage) result" where
  "process_binlog_event I C now current_event_v = (\<lambda>(context, s).
     rbind (process_event_view current_event_v context) (\<lambda>(info_only, context).
     rbind (store_event I C now current_event_v info_only context s) (\<lambda>s.
     Inr (context, s))))"

section \<open>Positions in the storage\<close>

lemma flush_internal_position:
  assumes "flush_event_buffer_internal I C s = Inr s'" and "storage_ok C s"
  shows "get_current_position s' = get_current_position s" "st_binlog_records s' \<noteq> []"
    "get_current_binlog_name s' = get_current_binlog_name s" "fs_ofs (st_backend s') = fs_ofs (st_backend s)"
    "st_replication_mode s' = st_replication_mode s"
proof -
  let ?n = "st_last_transaction_boundary s"
  have n: "?n \<le> length (st_event_buffer s)" using storage_okD(4) [OF assms(2)] by (simp add: buffer_ok_def)
  obtain rs r where r: "st_binlog_records s = rs @ [r]" "st_binlog_records s' = rs @ [flushed_record I s r]"
    and buf: "st_event_buffer s' = drop ?n (st_event_buffer s)"
    and ofs: "fs_ofs (st_backend s') = fs_ofs (st_backend s)" "st_replication_mode s' = st_replication_mode s"
    using assms by (rule flush_internal_effect)
  have "(of_nat ?n :: uint64) + of_nat (length (st_event_buffer s) - ?n) = of_nat (length (st_event_buffer s))"
    using n by (simp flip: of_nat_add)
  then show "get_current_position s' = get_current_position s"
    by (simp add: get_current_position_def get_flushed_position_def storage_is_empty_def r buf add.assoc)
  show "st_binlog_records s' \<noteq> []" "get_current_binlog_name s' = get_current_binlog_name s"
    "fs_ofs (st_backend s') = fs_ofs (st_backend s)" "st_replication_mode s' = st_replication_mode s"
    using r ofs by (simp_all add: get_current_binlog_name_def storage_is_empty_def)
qed

text \<open>What the processing of an event changes of the view that the application has of the storage.\<close>

definition same_place :: "'c storage \<Rightarrow> 'c storage \<Rightarrow> bool" where
  "same_place s s' \<longleftrightarrow> get_current_position s' = get_current_position s \<and>
     get_current_binlog_name s' = get_current_binlog_name s \<and> fs_ofs (st_backend s') = fs_ofs (st_backend s) \<and>
     st_replication_mode s' = st_replication_mode s"

lemma same_place_refl [simp]: "same_place s s"
  by (simp add: same_place_def)

lemma flush_internal_place:
  "flush_event_buffer_internal I C s = Inr s' \<Longrightarrow> storage_ok C s \<Longrightarrow> same_place s s'"
  unfolding same_place_def using flush_internal_position by blast

lemma position_cong:
  "st_binlog_records s' = st_binlog_records s \<Longrightarrow> st_event_buffer s' = st_event_buffer s \<Longrightarrow>
   get_current_position s' = get_current_position s"
  by (simp add: get_current_position_def get_flushed_position_def storage_is_empty_def)

lemma name_cong:
  "st_binlog_records s' = st_binlog_records s \<Longrightarrow> get_current_binlog_name s' = get_current_binlog_name s"
  by (simp add: get_current_binlog_name_def storage_is_empty_def)

lemma checkpoint_place:
  assumes "checkpoint I C now s = Inr s'" and "storage_ok C s"
  shows "same_place s s'"
proof (cases "has_event_data_to_flush s \<and> needs_flush now s")
  case True
  then obtain s1 where s1: "flush_event_buffer_internal I C s = Inr s1"
    and s': "s' = s1\<lparr> st_last_checkpoint_position := get_ready_to_flush_position s, st_last_checkpoint_timestamp := now \<rparr>"
    using assms(1) by (auto simp: checkpoint_def result_simps Let_def)
  show ?thesis
    using flush_internal_place [OF s1 assms(2)] position_cong [of s' s1] name_cong [of s' s1]
    by (simp add: s' same_place_def)
next
  case False
  then show ?thesis using assms(1) by (auto simp: checkpoint_def)
qed

lemma flush_event_buffer_place:
  assumes "flush_event_buffer I C s = Inr s'" and "storage_ok C s"
  shows "same_place s s'"
  using assms flush_internal_place by (auto simp: flush_event_buffer_def result_simps split: if_splits)

lemma write_event_place:
  assumes "write_event I C data boundary g t n now s = Inr s'" and "storage_ok C s"
  shows "get_current_position s' = get_current_position s + of_nat (length data)"
    "get_current_binlog_name s' = get_current_binlog_name s" "fs_ofs (st_backend s') = fs_ofs (st_backend s)"
    "st_replication_mode s' = st_replication_mode s" "storage_ok C s'"
    "boundary \<Longrightarrow> drop (st_last_transaction_boundary s') (st_event_buffer s') = []"
proof -
  obtain s1 where s1: "buffer_event I data boundary g t n s = Inr s1" "checkpoint I C now s1 = Inr s'"
    using assms(1) by (auto simp: write_event_def result_simps)
  have ok: "storage_ok C s1" using s1(1) assms(2) by (rule buffer_event_ok)
  note f = buffer_event_fields [OF s1(1)] and place = checkpoint_place [OF s1(2) ok]
  have m: "st_replication_mode s1 = st_replication_mode s"
    using s1(1) by (auto simp: buffer_event_def Let_def result_simps split: if_splits)
  have position: "get_current_position s1 = get_current_position s + of_nat (length data)"
    using f(2,3) by (simp add: get_current_position_def get_flushed_position_def storage_is_empty_def add.assoc)
  show "get_current_position s' = get_current_position s + of_nat (length data)"
    "get_current_binlog_name s' = get_current_binlog_name s" "fs_ofs (st_backend s') = fs_ofs (st_backend s)"
    "st_replication_mode s' = st_replication_mode s"
    using place f(1) m name_cong [OF f(2)] position by (simp_all add: same_place_def)
  show "storage_ok C s'" using assms by (rule write_event_ok)
  show "drop (st_last_transaction_boundary s') (st_event_buffer s') = []" if boundary
  proof -
    have "lg_pending (log_of s') = lg_pending (log_of s1)" using checkpoint_log [OF s1(2) ok] by simp
    moreover have "lg_pending (log_of s1) = []" using f that by (simp add: log_of_def)
    ultimately show ?thesis by (simp add: log_of_def)
  qed
qed

lemma close_binlog_place:
  assumes "close_binlog I C now s = Inr s'" and "storage_ok C s"
  shows "get_current_binlog_name s' = get_current_binlog_name s" "st_replication_mode s' = st_replication_mode s"
    "drop (st_last_transaction_boundary s) (st_event_buffer s) = [] \<Longrightarrow> get_current_position s' = get_current_position s"
proof -
  obtain s1 b where s1: "flush_event_buffer I C s = Inr s1"
    and s': "s' = update_last_checkpoint_info now (s1\<lparr> st_event_buffer := [], st_backend := b \<rparr>)"
    using assms(1) by (rule close_binlog_flush)
  note place = flush_event_buffer_place [OF s1 assms(2)]
  show "get_current_binlog_name s' = get_current_binlog_name s" "st_replication_mode s' = st_replication_mode s"
    using place name_cong [of s' s1] by (simp_all add: s' same_place_def)
  assume "drop (st_last_transaction_boundary s) (st_event_buffer s) = []"
  then have "lg_pending (log_of s1) = []" using flush_event_buffer_log [OF s1 assms(2)] by (simp add: log_of_def)
  moreover have "st_last_transaction_boundary s1 = 0" using s1 assms(2) by (rule flush_event_buffer_boundary)
  ultimately have "st_event_buffer s1 = []" by (simp add: log_of_def)
  then show "get_current_position s' = get_current_position s"
    using place position_cong [of s' s1] by (simp add: s' same_place_def)
qed

lemma buffer_clear_position:
  "buffer_clear s \<Longrightarrow> get_current_position s = get_flushed_position s"
  by (simp add: buffer_clear_def get_current_position_def)

lemma open_binlog_place:
  assumes "open_binlog I C n now s = Inr (status, s')" and "storage_ok C s" and "index_name_ok n"
  shows "storage_ok C s'" "is_binlog_open s'" "get_current_binlog_name s' = n" "st_replication_mode s' = st_replication_mode s"
    "binlog_exists n s \<Longrightarrow> n = get_current_binlog_name s \<and> get_current_position s' = get_current_position s \<and> get_current_position s \<noteq> 0"
    "\<not> binlog_exists n s \<Longrightarrow> get_current_position s' = 4"
proof -
  show ok: "storage_ok C s'" using assms by (rule open_binlog_ok)
  have v: "validate_open n s = Inr ()" using assms(1) by (rule open_binlog_stages)
  show "binlog_exists n s \<Longrightarrow> n = get_current_binlog_name s \<and> get_current_position s' = get_current_position s \<and> get_current_position s \<noteq> 0"
  proof -
    assume ex: "binlog_exists n s"
    note e = open_binlog_existing [OF assms(1,2) ex]
    have "st_event_buffer s' = st_event_buffer s" using e(2,9) by (simp add: buffer_clear_def)
    then show ?thesis using v ex position_cong [OF e(4)] by (simp add: validate_open_def result_simps)
  qed
  show "\<not> binlog_exists n s \<Longrightarrow> get_current_position s' = 4"
  proof -
    assume "\<not> binlog_exists n s"
    with assms obtain r where "st_binlog_records s' = st_binlog_records s @ [r]" "br_size r = magic_binlog_offset" "buffer_clear s'"
      by (rule open_binlog_new)
    then show ?thesis
      by (simp add: buffer_clear_position get_flushed_position_def storage_is_empty_def magic_binlog_offset_def)
  qed
  show "is_binlog_open s'" "get_current_binlog_name s' = n" "st_replication_mode s' = st_replication_mode s"
  proof -
    have "fs_ofs (st_backend s') = Some (binlog_name_str n) \<and> get_current_binlog_name s' = n \<and>
        st_replication_mode s' = st_replication_mode s"
    proof (cases "binlog_exists n s")
      case True
      note e = open_binlog_existing [OF assms(1,2) True]
      show ?thesis using e(4,6-8) True
        by (auto simp: get_current_binlog_name_def storage_is_empty_def binlog_exists_def)
    next
      case False
      with assms obtain r where "st_binlog_records s' = st_binlog_records s @ [r]" "br_name r = n"
        "fs_ofs (st_backend s') = Some (binlog_name_str n)" "st_replication_mode s' = st_replication_mode s"
        by (rule open_binlog_new)
      then show ?thesis by (simp add: get_current_binlog_name_def storage_is_empty_def)
    qed
    then show "is_binlog_open s'" "get_current_binlog_name s' = n" "st_replication_mode s' = st_replication_mode s"
      using is_binlog_open_ok [OF ok] by simp_all
  qed
qed

section \<open>Reader context and storage in step\<close>

definition in_step :: "'c metadata_codec \<Rightarrow> reader_context \<Rightarrow> 'c storage \<Rightarrow> bool" where
  "in_step C c s \<longleftrightarrow> storage_ok C s \<and> reader_ok c \<and> rc_replication_mode c = st_replication_mode s \<and>
     (rc_cycle_number c = 0 \<longrightarrow> rc_state c = Rotate_artificial_expected) \<and>
     (if rc_state c \<noteq> Rotate_artificial_expected then
        is_binlog_open s \<and> rc_binlog_name c = binlog_name_str (get_current_binlog_name s) \<and>
        rc_position c = ucast (get_current_position s)
      else if rc_cycle_number c = 0 then
        rc_binlog_name c = binlog_name_str (get_current_binlog_name s) \<and> unat (get_current_position s) < 2 ^ 32 \<and>
        rc_position c = (if get_current_position s = 0 then 4 else ucast (get_current_position s)) \<and>
        (is_binlog_open s \<longrightarrow> get_current_position s \<noteq> 0)
      else \<not> is_binlog_open s \<and> rc_position c = 4)"

lemma in_stepD:
  assumes "in_step C c s"
  shows "storage_ok C s" "reader_ok c" "rc_replication_mode c = st_replication_mode s"
    "rc_cycle_number c = 0 \<Longrightarrow> rc_state c = Rotate_artificial_expected"
    "rc_state c \<noteq> Rotate_artificial_expected \<Longrightarrow> is_binlog_open s \<and>
       rc_binlog_name c = binlog_name_str (get_current_binlog_name s) \<and> rc_position c = ucast (get_current_position s)"
    "rc_cycle_number c = 0 \<Longrightarrow> rc_binlog_name c = binlog_name_str (get_current_binlog_name s) \<and>
       rc_position c = (if get_current_position s = 0 then 4 else ucast (get_current_position s)) \<and>
       (is_binlog_open s \<longrightarrow> get_current_position s \<noteq> 0)"
    "rc_state c = Rotate_artificial_expected \<Longrightarrow> rc_cycle_number c \<noteq> 0 \<Longrightarrow> \<not> is_binlog_open s \<and> rc_position c = 4"
  using assms by (auto simp: in_step_def split: if_splits)

text \<open>
  What is expected of the server: the name in an artificial rotation has no line feed, and within a
  connection a rotation does not go back to the file that is being written.
\<close>

definition rotation_expected :: "event_view \<Rightarrow> reader_context \<Rightarrow> 'c storage \<Rightarrow> bool" where
  "rotation_expected v c s \<longleftrightarrow> (is_artificial_rotate v \<longrightarrow>
     (let name = rotate_body_readable_binlog (get_body_raw v)
      in CHR 0x0A \<notin> set name \<and> (rc_cycle_number c = 0 \<or> name \<noteq> binlog_name_str (get_current_binlog_name s))))"

lemma parsed_name:
  assumes "parse_binlog_name name = Inr n"
  shows "binlog_name_str n = name" "binlog_name_ok n" "CHR 0x0A \<notin> set name \<Longrightarrow> index_name_ok n"
  using binlog_name_str_parse [OF assms] by (auto simp: index_name_ok_def binlog_name_str_def)

lemma current_name_ok:
  assumes "storage_ok C s" and "\<not> storage_is_empty s"
  shows "binlog_name_ok (get_current_binlog_name s)" "binlog_exists (get_current_binlog_name s) s"
proof -
  have "last (st_binlog_records s) \<in> set (st_binlog_records s)" using assms(2) by (simp add: storage_is_empty_def)
  then show "binlog_name_ok (get_current_binlog_name s)" "binlog_exists (get_current_binlog_name s) s"
    using directory_okD(3) [OF storage_okD(3) [OF assms(1)]] assms(2)
    by (auto simp: get_current_binlog_name_def binlog_exists_def list_ex_iff)
qed

lemma empty_name_not_parsed: "parse_binlog_name (binlog_name_str empty_binlog_name) \<noteq> Inr n"
proof -
  have "\<not> is_ok (parse_binlog_name (binlog_name_str empty_binlog_name))" by code_simp
  then show ?thesis by auto
qed

lemma parsed_is_current:
  assumes "storage_ok C s" and "parse_binlog_name name = Inr n" and "name = binlog_name_str (get_current_binlog_name s)"
  shows "n = get_current_binlog_name s" "binlog_exists n s"
proof -
  have ne: "\<not> storage_is_empty s"
    using assms(2,3) empty_name_not_parsed by (auto simp: get_current_binlog_name_def)
  show "n = get_current_binlog_name s"
    using parsed_name [OF assms(2)] current_name_ok(1) [OF assms(1) ne] assms(3) binlog_name_str_inject by metis
  then show "binlog_exists n s" using current_name_ok(2) [OF assms(1) ne] by simp
qed

lemma artificial_rotate_cases [consumes 1, case_names reused opened]:
  assumes "process_artificial_rotate_event I C now v s = Inr s'"
  obtains n where "is_binlog_open s" "parse_binlog_name (rotate_body_readable_binlog (get_body_raw v)) = Inr n"
      "n = get_current_binlog_name s" "s' = s"
  | n s1 status where "parse_binlog_name (rotate_body_readable_binlog (get_body_raw v)) = Inr n"
      "\<not> is_binlog_open s \<and> s1 = s \<or>
       is_binlog_open s \<and> n \<noteq> get_current_binlog_name s \<and> close_binlog I C (at_closing now) s = Inr s1"
      "open_binlog I C n (at_opening now) s1 = Inr (status, s')"
proof (cases "is_binlog_open s")
  case False
  then show ?thesis using assms that(2) by (auto simp: process_artificial_rotate_event_def Let_def result_simps)
next
  case True
  then obtain n where n: "parse_binlog_name (rotate_body_readable_binlog (get_body_raw v)) = Inr n"
    using assms by (auto simp: process_artificial_rotate_event_def Let_def result_simps)
  show ?thesis
  proof (cases "n = get_current_binlog_name s")
    case same: True
    then have "s' = s" using assms True n by (auto simp: process_artificial_rotate_event_def Let_def result_simps split: if_splits)
    then show ?thesis using that(1) True n same by blast
  next
    case other: False
    then obtain s1 status where "close_binlog I C (at_closing now) s = Inr s1" "open_binlog I C n (at_opening now) s1 = Inr (status, s')"
      using assms True n by (auto simp: process_artificial_rotate_event_def Let_def result_simps)
    then show ?thesis using that(2) True n other by blast
  qed
qed

lemma rotation_in_step:
  assumes "in_step C c s" and "process_event_view v c = Inr (i, c')" and rot: "is_artificial_rotate v"
    and "process_artificial_rotate_event I C now v s = Inr s'" and "rotation_expected v c s"
  shows "in_step C c' s'"
proof -
  let ?name = "rotate_body_readable_binlog (get_body_raw v)"
  note d = in_stepD [OF assms(1)] and r = rotation_step [OF assms(2) rot]
  have lf: "CHR 0x0A \<notin> set ?name"
    and other: "rc_cycle_number c = 0 \<or> ?name \<noteq> binlog_name_str (get_current_binlog_name s)"
    using assms(5) rot by (simp_all add: rotation_expected_def Let_def)
  have reader: "reader_ok c'" "rc_replication_mode c' = rc_replication_mode c"
    using process_event_view_step [OF assms(2) d(2)] by simp_all
  have goal: "in_step C c' s'"
    if "storage_ok C s'" "is_binlog_open s'" "?name = binlog_name_str (get_current_binlog_name s')"
      "rc_position c' = ucast (get_current_position s')" "st_replication_mode s' = st_replication_mode s"
    using that r(2-4) reader d(3) by (simp add: in_step_def)
  show ?thesis using assms(4)
  proof (cases rule: artificial_rotate_cases)
    case (reused n)
    have name: "?name = binlog_name_str (get_current_binlog_name s)" using parsed_name [OF reused(2)] reused(3) by simp
    then have zero: "rc_cycle_number c = 0" using other by simp
    then have "rc_position c' = ucast (get_current_position s)"
      using r(4,5) d(4) d(6) name reused(1) by simp
    then show ?thesis using goal d(1) reused name by simp
  next
    case (opened n s1 status)
    note n = parsed_name [OF opened(1)]
    have s1: "storage_ok C s1" "get_current_binlog_name s1 = get_current_binlog_name s" "st_replication_mode s1 = st_replication_mode s"
      "binlog_exists n s1 \<Longrightarrow> s1 = s"
    proof -
      show ok1: "storage_ok C s1" "get_current_binlog_name s1 = get_current_binlog_name s" "st_replication_mode s1 = st_replication_mode s"
        using opened(2) d(1) close_binlog_ok(1) close_binlog_place(1,2) by auto
      assume "binlog_exists n s1"
      then have "n = get_current_binlog_name s1" using open_binlog_place(5) [OF opened(3) ok1(1) n(3) [OF lf]] by blast
      then show "s1 = s" using opened(2) ok1(2) by auto
    qed
    note p = open_binlog_place [OF opened(3) s1(1) n(3) [OF lf]]
    have "rc_position c' = ucast (get_current_position s')"
    proof (cases "binlog_exists n s1")
      case True
      then have "s1 = s" "n = get_current_binlog_name s" "get_current_position s' = get_current_position s" "get_current_position s \<noteq> 0"
        using s1(4) p(5) by auto
      moreover from this have "rc_cycle_number c = 0" using other n(1) by auto
      ultimately show ?thesis using r(4,5) d(4) d(6) n(1) by simp
    next
      case False
      then have "n \<noteq> get_current_binlog_name s \<or> storage_is_empty s1"
        using s1(2) current_name_ok(2) [OF s1(1)] by auto
      then have "?name \<noteq> binlog_name_str (get_current_binlog_name s)"
        using parsed_is_current [OF s1(1) opened(1)] s1(2) False by auto
      then have "rc_position c' = 4"
        using r(4,5) d(6) d(7) by (cases "rc_cycle_number c = 0") auto
      then show ?thesis using p(6) False by simp
    qed
    then show ?thesis using goal p(1-4) n(1) s1(3) by simp
  qed
qed

lemma ucast_add_64_32: "(ucast (a + b :: uint64) :: uint32) = ucast a + ucast b"
  by (simp add: word_unat_eq_iff unat_ucast_mod unat_word_ariths mod_mod_cancel mod_add_eq)

lemma ucast_64_32: "(ucast (ucast (x :: uint32) :: uint64) :: uint32) = x"
proof -
  have "unat x < 2 ^ LENGTH(32)" by (rule unsigned_less)
  then show ?thesis by (simp add: word_unat_eq_iff unat_ucast_mod)
qed

lemma ucast_position:
  assumes "event_view_ok v"
  shows "ucast (p + of_nat (length (ev_portion v)) :: uint64) = (ucast p + event_size v :: uint32)"
proof -
  have len: "length (ev_portion v) = unat (event_size v)"
    using assms by (simp add: event_view_ok_def get_total_size_def)
  have "(of_nat (unat (event_size v)) :: uint64) = ucast (event_size v)" by (simp add: of_nat_unat)
  then show ?thesis unfolding len by (simp add: ucast_add_64_32 ucast_64_32)
qed

text \<open>The write of an event that is not for information only.\<close>

lemma write_or_skip_place:
  assumes "(if \<not> i then write_event I C data boundary g t n now s else Inr s) = Inr s1" and "storage_ok C s"
  shows "storage_ok C s1" "get_current_binlog_name s1 = get_current_binlog_name s"
    "is_binlog_open s1 = is_binlog_open s" "st_replication_mode s1 = st_replication_mode s"
    "get_current_position s1 = (if i then get_current_position s else get_current_position s + of_nat (length data))"
    "\<not> i \<Longrightarrow> boundary \<Longrightarrow> drop (st_last_transaction_boundary s1) (st_event_buffer s1) = []"
proof -
  have p: "storage_ok C s1 \<and> get_current_binlog_name s1 = get_current_binlog_name s \<and> fs_ofs (st_backend s1) = fs_ofs (st_backend s) \<and>
    st_replication_mode s1 = st_replication_mode s \<and>
    get_current_position s1 = (if i then get_current_position s else get_current_position s + of_nat (length data)) \<and>
    (\<not> i \<longrightarrow> boundary \<longrightarrow> drop (st_last_transaction_boundary s1) (st_event_buffer s1) = [])"
  proof (cases i)
    case False
    then have "write_event I C data boundary g t n now s = Inr s1" using assms(1) by simp
    note p = write_event_place [OF this assms(2)]
    show ?thesis using p False by simp
  qed (use assms in simp)
  show "is_binlog_open s1 = is_binlog_open s" using p is_binlog_open_ok [OF assms(2)] is_binlog_open_ok [of C s1] by simp
  show "storage_ok C s1" "get_current_binlog_name s1 = get_current_binlog_name s" "st_replication_mode s1 = st_replication_mode s"
    "get_current_position s1 = (if i then get_current_position s else get_current_position s + of_nat (length data))"
    "\<not> i \<Longrightarrow> boundary \<Longrightarrow> drop (st_last_transaction_boundary s1) (st_event_buffer s1) = []"
    using p by auto
qed

lemma event_in_step:
  assumes "in_step C c s" and "process_event_view v c = Inr (i, c')" and rot: "\<not> is_artificial_rotate v"
    and "event_view_ok v" and "store_event I C now v i c' s = Inr s'"
  shows "in_step C c' s'" "\<not> i \<Longrightarrow> event_next_position v = ucast (get_current_position s')"
proof -
  note d = in_stepD [OF assms(1)] and n = non_rotation_step [OF assms(2) rot]
  have ps: "protocol_step (rc_state c) (event_code v) (event_artificial v) (rc_state c')" "reader_ok c'"
    "rc_replication_mode c' = rc_replication_mode c" using process_event_view_step [OF assms(2) d(2)] by simp_all
  have st: "rc_state c \<noteq> Rotate_artificial_expected"
    using ps(1) rot by (auto simp: protocol_step_simps is_artificial_rotate_def)
  note o = d(5) [OF st]
  have cycle: "rc_cycle_number c' \<noteq> 0" using d(4) st n(1) by auto
  let ?last = "event_code v = Rotate \<and> \<not> event_artificial v \<or> event_code v = Stop"
  have final: "rc_state c' = Rotate_artificial_expected \<longleftrightarrow> ?last"
    using ps(1) rot by cases (auto simp: is_artificial_rotate_def ordinary_code_def is_gtid_log_code_def)
  have "\<not> (event_code v = Rotate \<and> event_artificial v)" using rot by (simp add: is_artificial_rotate_def)
  then obtain s1 where w: "(if \<not> i then write_event I C (ev_portion v) (is_at_transaction_boundary c') (rc_transaction_gtid c')
        (uint (get_timestamp_raw (get_common_header_raw v))) (rc_transaction_sequence_number c') (at_writing now) s
      else Inr s) = Inr s1"
    and close: "(if ?last then close_binlog I C (at_final_closing now) s1 else Inr s1) = Inr s'"
    using assms(5) unfolding store_event_def process_rotate_or_stop_event_def Let_def event_field_defs
    by (auto simp only: result_simps if_False)
  note s1 = write_or_skip_place [OF w d(1)]
  have pos1: "ucast (get_current_position s1) = (if i then rc_position c else rc_position c + event_size v)"
    using s1(5) o ucast_position [OF assms(4)] by simp
  have "in_step C c' s' \<and> (\<not> i \<longrightarrow> event_next_position v = ucast (get_current_position s'))"
  proof (cases ?last)
    case False
    then have "s' = s1" using close by auto
    then show ?thesis
      using s1 pos1 n o ps(2,3) d(3) False final cycle by (auto simp: in_step_def)
  next
    case True
    then have cl: "close_binlog I C (at_final_closing now) s1 = Inr s'" using close by simp
    have i: "\<not> i" using n(4) True by auto
    have "is_at_transaction_boundary c'" using final True by (simp add: is_at_transaction_boundary_def)
    then have "get_current_position s' = get_current_position s1"
      using close_binlog_place(3) [OF cl s1(1)] s1(6) i by simp
    moreover have "\<not> is_binlog_open s'"
      using close_binlog_ok(2) [OF cl s1(1)] is_binlog_open_ok [OF close_binlog_ok(1) [OF cl s1(1)]] by simp
    ultimately show ?thesis
      using close_binlog_ok(1) [OF cl s1(1)] close_binlog_place(2) [OF cl s1(1)] s1(4) ps(2,3) d(3) final True cycle n pos1 i
      by (auto simp: in_step_def)
  qed
  then show "in_step C c' s'" "\<not> i \<Longrightarrow> event_next_position v = ucast (get_current_position s')" by blast+
qed

lemma process_binlog_event_stages:
  assumes "process_binlog_event I C now v (c, s) = Inr (c', s')"
  obtains i where "process_event_view v c = Inr (i, c')" "store_event I C now v i c' s = Inr s'"
  using assms by (auto simp: process_binlog_event_def result_simps)

lemma store_rotation:
  assumes "store_event I C now v i c' s = Inr s'" and "is_artificial_rotate v" and i
  shows "process_artificial_rotate_event I C now v s = Inr s'"
  using assms by (auto simp: store_event_def Let_def is_artificial_rotate_def result_simps)

lemma process_binlog_event_in_step:
  assumes "in_step C c s" and "process_binlog_event I C now v (c, s) = Inr (c', s')"
    and "event_view_ok v" and "rotation_expected v c s"
  shows "in_step C c' s' \<and>
    (process_event_view v c = Inr (False, c') \<longrightarrow> event_next_position v = ucast (get_current_position s'))"
proof -
  obtain i where i: "process_event_view v c = Inr (i, c')" "store_event I C now v i c' s = Inr s'"
    using assms(2) by (rule process_binlog_event_stages)
  show ?thesis
  proof (cases "is_artificial_rotate v")
    case True
    note r = rotation_step(1) [OF i(1) True]
    show ?thesis using rotation_in_step [OF assms(1) i(1) True store_rotation [OF i(2) True r] assms(4)] i(1) r by simp
  next
    case False
    show ?thesis using event_in_step [OF assms(1) i(1) False assms(3) i(2)] i(1) by simp
  qed
qed

section \<open>Streaming as a transition system\<close>

text \<open>The storage operations that one event leads to keep the storage reachable.\<close>

lemma reachable_open:
  assumes "storage_reachable I C s" and "open_binlog I C n now s = Inr (status, s')" and "index_name_ok n"
  shows "storage_reachable I C s'"
  using storage_reachable.step [of I C s "Open_binlog n now" s'] assms by simp

lemma reachable_close:
  assumes "storage_reachable I C s" and "close_binlog I C now s = Inr s'"
  shows "storage_reachable I C s'"
  using storage_reachable.step [of I C s "Close_binlog now" s'] assms by simp

lemma reachable_write:
  assumes "storage_reachable I C s" and "write_event I C data boundary g t n now s = Inr s'"
  shows "storage_reachable I C s'"
  using storage_reachable.step [of I C s "Write_event data boundary g t n now" s'] assms by simp

lemma store_event_reachable:
  assumes "storage_reachable I C s" and "store_event I C now v i c' s = Inr s'"
    and "is_artificial_rotate v \<longrightarrow> CHR 0x0A \<notin> set (rotate_body_readable_binlog (get_body_raw v))"
  shows "storage_reachable I C s'"
proof -
  obtain s1 s2 where
    r: "(if is_artificial_rotate v then process_artificial_rotate_event I C now v s else Inr s) = Inr s1"
    and w: "(if \<not> i then write_event I C (ev_portion v) (is_at_transaction_boundary c') (rc_transaction_gtid c')
        (uint (get_timestamp_raw (get_common_header_raw v))) (rc_transaction_sequence_number c') (at_writing now) s1
      else Inr s1) = Inr s2"
    and cl: "(if event_code v = Rotate \<and> \<not> event_artificial v \<or> event_code v = Stop
      then close_binlog I C (at_final_closing now) s2 else Inr s2) = Inr s'"
    using assms(2) unfolding store_event_def process_rotate_or_stop_event_def Let_def event_field_defs is_artificial_rotate_def
    by (simp only: result_simps) blast
  have "storage_reachable I C s1"
  proof (cases "is_artificial_rotate v")
    case True
    then have "process_artificial_rotate_event I C now v s = Inr s1" using r by simp
    then show ?thesis
    proof (cases rule: artificial_rotate_cases)
      case (opened n s0 status)
      have "storage_reachable I C s0" using opened(2) assms(1) reachable_close by auto
      then show ?thesis using opened(3) parsed_name(3) [OF opened(1)] assms(3) True by (auto intro: reachable_open)
    qed (use assms(1) in simp)
  qed (use r assms(1) in simp)
  then have "storage_reachable I C s2" using w reachable_write by (auto split: if_splits)
  then show ?thesis using cl reachable_close by (auto split: if_splits)
qed

text \<open>
  States of a process that streams: a connection is opened over a reachable storage, and events are
  received one by one.
\<close>

inductive streaming :: "'c icl \<Rightarrow> 'c metadata_codec \<Rightarrow> crc32 \<Rightarrow> reader_context \<Rightarrow> 'c storage \<Rightarrow> bool" for I C crc where
  connect: "storage_reachable I C s \<Longrightarrow> unat (get_current_position s) < 2 ^ 32 \<Longrightarrow>
    (is_binlog_open s \<longrightarrow> get_current_position s \<noteq> 0) \<Longrightarrow>
    streaming I C crc (make_reader_context version checksum (st_replication_mode s)
      (binlog_name_str (get_current_binlog_name s)) (ucast (get_current_position s))) s"
| receive: "streaming I C crc c s \<Longrightarrow> make_event_view crc c portion = Inr v \<Longrightarrow> rotation_expected v c s \<Longrightarrow>
    process_binlog_event I C now v (c, s) = Inr (c', s') \<Longrightarrow> streaming I C crc c' s'"

lemma connect_in_step:
  assumes "storage_ok C s" and "unat (get_current_position s) < 2 ^ 32"
    and "is_binlog_open s \<longrightarrow> get_current_position s \<noteq> 0"
  shows "in_step C (make_reader_context version checksum (st_replication_mode s)
    (binlog_name_str (get_current_binlog_name s)) (ucast (get_current_position s))) s"
proof -
  have "ucast (get_current_position s) = (0 :: uint32) \<longleftrightarrow> get_current_position s = 0"
    using assms(2) by (simp add: word_unat_eq_iff unat_ucast_mod)
  then show ?thesis
    using assms by (simp add: in_step_def make_reader_context_def reader_ok_def transaction_idle_def)
qed

lemma streaming_in_step: "streaming I C crc c s \<Longrightarrow> storage_reachable I C s \<and> in_step C c s"
proof (induction rule: streaming.induct)
  case (connect s version checksum)
  then show ?case using connect_in_step reachable_ok by blast
next
  case (receive c s portion v now c' s')
  obtain i where i: "store_event I C now v i c' s = Inr s'" using receive.hyps(4) by (rule process_binlog_event_stages)
  have "is_artificial_rotate v \<longrightarrow> CHR 0x0A \<notin> set (rotate_body_readable_binlog (get_body_raw v))"
    using receive.hyps(3) by (simp add: rotation_expected_def Let_def)
  then have "storage_reachable I C s'" using store_event_reachable i receive.IH by blast
  moreover have "in_step C c' s'"
    using process_binlog_event_in_step [OF _ receive.hyps(4) make_event_view_Inr(2) [OF receive.hyps(2)] receive.hyps(3)] receive.IH by blast
  ultimately show ?case by simp
qed

lemma reconnect:
  assumes "streaming I C crc c s" and "loadable C (st_replication_mode s) (st_binlog_records s)"
    and "unat (get_flushed_position s) < 2 ^ 32"
    and "s' = reloaded checkpoint_size checkpoint_interval (after_crash (st_backend s)) Streaming (st_replication_mode s) (st_binlog_records s)"
  shows "make_storage C checkpoint_size checkpoint_interval (after_crash (st_backend s)) Streaming (st_replication_mode s) = Inr s'"
    and "streaming I C crc (make_reader_context version checksum (st_replication_mode s')
      (binlog_name_str (get_current_binlog_name s')) (ucast (get_current_position s'))) s'"
proof -
  have r: "storage_reachable I C s" and ok: "storage_ok C s"
    using streaming_in_step [OF assms(1)] reachable_ok by blast+
  show make: "make_storage C checkpoint_size checkpoint_interval (after_crash (st_backend s)) Streaming (st_replication_mode s) = Inr s'"
    unfolding assms(4) using ok assms(2) by (rule restart_succeeds)
  have "storage_reachable I C s'" using r assms(2) make by (rule storage_reachable.restart)
  moreover have "get_current_position s' = get_flushed_position s'"
    unfolding assms(4) by (rule buffer_clear_position) simp
  then have "get_current_position s' = get_flushed_position s"
    by (simp add: assms(4) get_flushed_position_def storage_is_empty_def)
  moreover have "\<not> is_binlog_open s'" by (simp add: assms(4) is_binlog_open_def)
  ultimately show "streaming I C crc (make_reader_context version checksum (st_replication_mode s')
      (binlog_name_str (get_current_binlog_name s')) (ucast (get_current_position s'))) s'"
    using assms(3) by (intro streaming.connect) simp_all
qed

text \<open>A run of packets in which every rotation is as expected.\<close>

definition expected_packet ::
    "'c icl \<Rightarrow> 'c metadata_codec \<Rightarrow> crc32 \<Rightarrow> byte list \<times> clock_readings \<Rightarrow> reader_context \<times> 'c storage \<Rightarrow>
     (reader_context \<times> 'c storage) result" where
  "expected_packet I C crc = (\<lambda>(portion, now) (c, s).
     rbind (make_event_view crc c portion) (\<lambda>v.
     rbind (ensure (rotation_expected v c s) (Logic_error ''rotation'')) (\<lambda>_.
     process_binlog_event I C now v (c, s))))"

lemma streaming_run:
  assumes "rfold (expected_packet I C crc) packets (c, s) = Inr (c', s')" and "streaming I C crc c s"
  shows "streaming I C crc c' s'"
  using assms
proof (induction packets arbitrary: c s)
  case (Cons p packets)
  obtain portion now where p: "p = (portion, now)" by fastforce
  obtain c1 s1 where e: "expected_packet I C crc p (c, s) = Inr (c1, s1)"
    and rest: "rfold (expected_packet I C crc) packets (c1, s1) = Inr (c', s')"
    using Cons.prems(1) by (auto simp: result_simps)
  obtain v where "make_event_view crc c portion = Inr v" "rotation_expected v c s" "process_binlog_event I C now v (c, s) = Inr (c1, s1)"
    using e by (auto simp: p expected_packet_def result_simps)
  then have "streaming I C crc c1 s1" using Cons.prems(2) streaming.receive by blast
  then show ?case using Cons.IH rest by blast
qed simp

end
