(* ===== verification/Commands.thy ===== *)
theory Commands
  imports App Storage_Purge Metadata
begin

text \<open>
  The commands of the application that do not stream (\<open>app.cpp\<close>): the check of the command line, the
  listing of the stored binlogs, the two searches and purging, with their JSON responses
  (\<open>models/search_response.cpp\<close>, \<open>models/error_response.cpp\<close>). The configuration that is read from
  a file and the URI of an object (Boost.URL) are parameters.
\<close>

section \<open>Command line\<close>

definition operation_mode_labels :: "(string \<times> operation_mode_type) list" where
  "operation_mode_labels =
     [(''fetch'', Fetch), (''pull'', Pull), (''list'', List_binlogs), (''search_by_timestamp'', Search_by_timestamp),
      (''search_by_gtid_set'', Search_by_gtid_set), (''purge_binlogs'', Purge_binlogs), (''version'', Version)]"

definition operation_mode_of_string :: "string \<Rightarrow> operation_mode_type option" where
  "operation_mode_of_string s = Option.bind (read_word s) (map_of operation_mode_labels)"

text \<open>The operation mode, the path of the configuration file and the value of the subcommand.\<close>

definition check_cmd_args :: "string list \<Rightarrow> (operation_mode_type \<times> string \<times> string) option" where
  "check_cmd_args cmd_args =
     (let number_of_cmd_args = length cmd_args in
      if number_of_cmd_args < 2 then None
      else
        case operation_mode_of_string (cmd_args ! 1) of
          None \<Rightarrow> None
        | Some operation_mode \<Rightarrow>
            if operation_mode \<in> {Fetch, Pull, List_binlogs} then
              if number_of_cmd_args \<noteq> 3 then None else Some (operation_mode, cmd_args ! 2, [])
            else if operation_mode \<in> {Search_by_timestamp, Search_by_gtid_set, Purge_binlogs} then
              if number_of_cmd_args \<noteq> 4 then None else Some (operation_mode, cmd_args ! 2, cmd_args ! 3)
            else if number_of_cmd_args = 2 then Some (operation_mode, [], []) else None)"

section \<open>Responses\<close>

datatype response_status_type = Status_error | Status_warning | Status_success

definition response_status_str :: "response_status_type \<Rightarrow> string" where
  "response_status_str status =
     (case status of Status_error \<Rightarrow> ''error'' | Status_warning \<Rightarrow> ''warning'' | Status_success \<Rightarrow> ''success'')"

record 'c binlog_file_record =
  fr_name :: string
  fr_size :: uint64
  fr_uri :: string
  fr_previous_gtids :: "'c gtid_set option"
  fr_added_gtids :: "'c gtid_set option"
  fr_min_timestamp :: ctime_timestamp
  fr_max_timestamp :: ctime_timestamp

record 'c search_response =
  sr_version :: uint32
  sr_status :: response_status_type
  sr_result :: "'c binlog_file_record list"
  sr_message :: "string option"

definition expected_search_response_version :: uint32 where "expected_search_response_version = 1"
definition expected_error_response_version :: uint32 where "expected_error_response_version = 1"

definition make_search_response :: "'c search_response" where
  "make_search_response =
     \<lparr> sr_version = expected_search_response_version, sr_status = Status_success, sr_result = [], sr_message = None \<rparr>"

definition make_search_response_with :: "response_status_type \<Rightarrow> string \<Rightarrow> 'c search_response" where
  "make_search_response_with status message =
     \<lparr> sr_version = expected_search_response_version, sr_status = status, sr_result = [], sr_message = Some message \<rparr>"

definition add_record ::
    "string \<Rightarrow> uint64 \<Rightarrow> string \<Rightarrow> 'c gtid_set option \<Rightarrow> 'c gtid_set option \<Rightarrow> ctime_timestamp \<Rightarrow> ctime_timestamp \<Rightarrow>
     'c search_response \<Rightarrow> 'c search_response" where
  "add_record name file_size uri previous_gtids added_gtids min_ts max_ts response =
     response\<lparr> sr_result := sr_result response @
       [\<lparr> fr_name = name, fr_size = file_size, fr_uri = uri, fr_previous_gtids = previous_gtids, fr_added_gtids = added_gtids,
          fr_min_timestamp = min_ts, fr_max_timestamp = max_ts \<rparr>] \<rparr>"

definition file_record_json :: "boost_library \<Rightarrow> 'c icl \<Rightarrow> 'c binlog_file_record \<Rightarrow> json_value" where
  "file_record_json B I r =
     object_of_fields
       [(''name'', Json_string (fr_name r)), (''size'', Json_number (uint (fr_size r))), (''uri'', Json_string (fr_uri r)),
        (''previous_gtids'', optional_gtid_set_json B I (fr_previous_gtids r)),
        (''added_gtids'', optional_gtid_set_json B I (fr_added_gtids r)),
        (''min_timestamp'', Json_string (to_iso_extended_string B (fr_min_timestamp r))),
        (''max_timestamp'', Json_string (to_iso_extended_string B (fr_max_timestamp r)))]"

definition search_response_json :: "boost_library \<Rightarrow> 'c icl \<Rightarrow> 'c search_response \<Rightarrow> json_value" where
  "search_response_json B I response =
     object_of_fields
       [(''version'', Json_number (uint (sr_version response))),
        (''status'', Json_string (response_status_str (sr_status response))),
        (''result'', Json_array (map (file_record_json B I) (sr_result response))),
        (''message'', case sr_message response of None \<Rightarrow> Json_null | Some m \<Rightarrow> Json_string m)]"

definition search_response_str :: "boost_library \<Rightarrow> 'c icl \<Rightarrow> 'c search_response \<Rightarrow> string" where
  "search_response_str B I response = json_serialize B (search_response_json B I response)"

definition error_response_json :: "string \<Rightarrow> json_value" where
  "error_response_json message =
     object_of_fields
       [(''version'', Json_number (uint expected_error_response_version)),
        (''status'', Json_string (response_status_str Status_error)), (''message'', Json_string message)]"

definition error_response_str :: "boost_library \<Rightarrow> string \<Rightarrow> string" where
  "error_response_str B message = json_serialize B (error_response_json message)"

section \<open>Handlers\<close>

text \<open>What the handlers use of \<open>main_config\<close>, with the objects that the configured backend finds.\<close>

record main_config =
  cfg_checkpoint_size :: uint64
  cfg_checkpoint_interval :: int
  cfg_backend :: fs_backend
  cfg_replication_mode :: replication_mode_type

definition configured_storage :: "'c metadata_codec \<Rightarrow> storage_construction_mode \<Rightarrow> main_config \<Rightarrow> 'c storage result" where
  "configured_storage C construction_mode config =
     make_storage C (cfg_checkpoint_size config) (cfg_checkpoint_interval config) (cfg_backend config)
       construction_mode (cfg_replication_mode config)"

fun error_what :: "cpp_error \<Rightarrow> string" where
  "error_what (Invalid_argument m) = m"
| "error_what (Logic_error m) = m"
| "error_what (Runtime_error m) = m"
| "error_what (Out_of_range m) = m"
| "error_what (Bad_alloc m) = m"
| "error_what (Core_error code m) = m @ '': CR_'' @ to_string code"
| "error_what (Terminate m) = m"
| "error_what (Undefined_behaviour m) = m"

text \<open>The text of the response and the success flag; a \<open>std::exception\<close> becomes an error response.\<close>

definition respond :: "boost_library \<Rightarrow> 'c icl \<Rightarrow> 'c search_response result \<Rightarrow> (bool \<times> string) result" where
  "respond B I outcome =
     (case outcome of
        Inl e \<Rightarrow> if is_std_exception e then Inr (False, error_response_str B (error_what e)) else Inl e
      | Inr response \<Rightarrow> Inr (True, search_response_str B I response))"

definition append_record_to_response ::
    "(string \<Rightarrow> string) \<Rightarrow> 'c binlog_record \<Rightarrow> 'c search_response \<Rightarrow> 'c search_response" where
  "append_record_to_response object_uri r response =
     add_record (binlog_name_str (br_name r)) (br_size r) (object_uri (binlog_name_str (br_name r)))
       (br_previous_gtids r) (br_added_gtids r) (min_timestamp (br_timestamps r)) (max_timestamp (br_timestamps r)) response"

definition list_binlogs :: "'c metadata_codec \<Rightarrow> (string \<Rightarrow> string) \<Rightarrow> main_config result \<Rightarrow> 'c search_response result" where
  "list_binlogs C object_uri main_config =
     rbind main_config (\<lambda>config.
     rbind (configured_storage C Querying_only config) (\<lambda>s.
     Inr (fold (append_record_to_response object_uri) (st_binlog_records s) make_search_response)))"

definition handle_list ::
    "boost_library \<Rightarrow> 'c icl \<Rightarrow> 'c metadata_codec \<Rightarrow> (string \<Rightarrow> string) \<Rightarrow> main_config result \<Rightarrow> (bool \<times> string) result" where
  "handle_list B I C object_uri main_config = respond B I (list_binlogs C object_uri main_config)"

primrec search_timestamp_loop ::
    "(string \<Rightarrow> string) \<Rightarrow> ctime_timestamp \<Rightarrow> 'c binlog_record list \<Rightarrow> 'c search_response \<Rightarrow> 'c search_response" where
  "search_timestamp_loop object_uri timestamp [] response = response"
| "search_timestamp_loop object_uri timestamp (r # records) response =
     (if min_timestamp (br_timestamps r) > timestamp then response
      else search_timestamp_loop object_uri timestamp records (append_record_to_response object_uri r response))"

definition search_by_timestamp ::
    "boost_library \<Rightarrow> 'c metadata_codec \<Rightarrow> (string \<Rightarrow> string) \<Rightarrow> main_config result \<Rightarrow> string \<Rightarrow> 'c search_response result" where
  "search_by_timestamp B C object_uri main_config subcommand_value =
     rbind (or_raise (from_iso_extended_string B subcommand_value) (Runtime_error ''Invalid timestamp format'')) (\<lambda>timestamp.
     rbind main_config (\<lambda>config.
     rbind (configured_storage C Querying_only config) (\<lambda>s.
     rbind (ensure (st_binlog_records s \<noteq> []) (Runtime_error ''Binlog storage is empty'')) (\<lambda>_.
     let response = search_timestamp_loop object_uri timestamp (st_binlog_records s) make_search_response in
     rbind (ensure (sr_result response \<noteq> []) (Runtime_error ''Timestamp is too old'')) (\<lambda>_.
     Inr response)))))"

definition handle_search_by_timestamp ::
    "boost_library \<Rightarrow> 'c icl \<Rightarrow> 'c metadata_codec \<Rightarrow> (string \<Rightarrow> string) \<Rightarrow> main_config result \<Rightarrow> string \<Rightarrow> (bool \<times> string) result" where
  "handle_search_by_timestamp B I C object_uri main_config subcommand_value =
     respond B I (search_by_timestamp B C object_uri main_config subcommand_value)"

primrec search_gtids_loop ::
    "'c icl \<Rightarrow> (string \<Rightarrow> string) \<Rightarrow> 'c binlog_record list \<Rightarrow> 'c gtid_set \<times> 'c search_response \<Rightarrow> 'c gtid_set \<times> 'c search_response" where
  "search_gtids_loop I object_uri [] acc = acc"
| "search_gtids_loop I object_uri (r # records) acc =
     (case acc of (remaining_gtids, response) \<Rightarrow>
        if gtid_set_is_empty remaining_gtids then acc
        else case br_added_gtids r of
            None \<Rightarrow> search_gtids_loop I object_uri records acc
          | Some added_gtids \<Rightarrow>
              if \<not> intersects I remaining_gtids added_gtids then search_gtids_loop I object_uri records acc
              else search_gtids_loop I object_uri records
                (subtract_set I added_gtids remaining_gtids, append_record_to_response object_uri r response))"

definition search_by_gtid_set ::
    "'c icl \<Rightarrow> 'c metadata_codec \<Rightarrow> (string \<Rightarrow> string) \<Rightarrow> main_config result \<Rightarrow> string \<Rightarrow> 'c search_response result" where
  "search_by_gtid_set I C object_uri main_config subcommand_value =
     rbind (gtid_set_of_string I subcommand_value) (\<lambda>requested_gtids.
     rbind main_config (\<lambda>config.
     rbind (configured_storage C Querying_only config) (\<lambda>s.
     rbind (ensure (st_binlog_records s \<noteq> []) (Runtime_error ''Binlog storage is empty'')) (\<lambda>_.
     rbind (ensure (is_in_gtid_replication_mode s)
       (Runtime_error ''GTID set search is not supported in storages created in position-based replication mode'')) (\<lambda>_.
     let (remaining_gtids, response) =
           search_gtids_loop I object_uri (st_binlog_records s) (requested_gtids, make_search_response) in
     rbind (ensure (gtid_set_is_empty remaining_gtids)
       (Runtime_error ''The specified GTID set cannot be covered'')) (\<lambda>_.
     Inr response))))))"

definition handle_search_by_gtid_set ::
    "boost_library \<Rightarrow> 'c icl \<Rightarrow> 'c metadata_codec \<Rightarrow> (string \<Rightarrow> string) \<Rightarrow> main_config result \<Rightarrow> string \<Rightarrow> (bool \<times> string) result" where
  "handle_search_by_gtid_set B I C object_uri main_config subcommand_value =
     respond B I (search_by_gtid_set I C object_uri main_config subcommand_value)"

text \<open>Purging also changes the objects of the backend.\<close>

definition purge ::
    "'c metadata_codec \<Rightarrow> (string \<Rightarrow> string) \<Rightarrow> main_config result \<Rightarrow> string \<Rightarrow> ('c search_response \<times> fs_backend) result" where
  "purge C object_uri main_config subcommand_value =
     rbind (parse_binlog_name subcommand_value) (\<lambda>target_name.
     rbind main_config (\<lambda>config.
     rbind (configured_storage C Purging config) (\<lambda>s.
     rbind (purge_binlogs target_name s) (\<lambda>(removed_records, cleanup_error, s).
     let response = (case cleanup_error of
           None \<Rightarrow> make_search_response
         | Some e \<Rightarrow> make_search_response_with Status_warning (error_what e)) in
     Inr (fold (append_record_to_response object_uri) removed_records response, st_backend s)))))"

definition handle_purge_binlogs ::
    "boost_library \<Rightarrow> 'c icl \<Rightarrow> 'c metadata_codec \<Rightarrow> (string \<Rightarrow> string) \<Rightarrow> main_config result \<Rightarrow> string \<Rightarrow> (bool \<times> string) result" where
  "handle_purge_binlogs B I C object_uri main_config subcommand_value =
     respond B I (map_sum id fst (purge C object_uri main_config subcommand_value))"

text \<open>\<open>None\<close> for the streaming commands.\<close>

definition dispatch_stateless_command ::
    "boost_library \<Rightarrow> 'c icl \<Rightarrow> 'c metadata_codec \<Rightarrow> (string \<Rightarrow> string) \<Rightarrow> string \<Rightarrow> operation_mode_type \<Rightarrow>
     main_config result \<Rightarrow> string \<Rightarrow> (bool \<times> string) result option" where
  "dispatch_stateless_command B I C object_uri app_version operation_mode main_config subcommand_value =
     (case operation_mode of
        Version \<Rightarrow> Some (Inr (True, app_version))
      | List_binlogs \<Rightarrow> Some (handle_list B I C object_uri main_config)
      | Search_by_timestamp \<Rightarrow> Some (handle_search_by_timestamp B I C object_uri main_config subcommand_value)
      | Search_by_gtid_set \<Rightarrow> Some (handle_search_by_gtid_set B I C object_uri main_config subcommand_value)
      | Purge_binlogs \<Rightarrow> Some (handle_purge_binlogs B I C object_uri main_config subcommand_value)
      | _ \<Rightarrow> None)"

end
