(* ===== verification/Commands_Properties.thy ===== *)
theory Commands_Properties
  imports Commands
begin

text \<open>
  What the searches and the command line check answer: the GTID search is a greedy cover of the
  requested set by the sets of the binlog files, the timestamp search returns a prefix of the files.
\<close>

section \<open>Records of a response\<close>

definition file_record_of :: "(string \<Rightarrow> string) \<Rightarrow> 'c binlog_record \<Rightarrow> 'c binlog_file_record" where
  "file_record_of object_uri r =
     \<lparr> fr_name = binlog_name_str (br_name r), fr_size = br_size r, fr_uri = object_uri (binlog_name_str (br_name r)),
       fr_previous_gtids = br_previous_gtids r, fr_added_gtids = br_added_gtids r,
       fr_min_timestamp = min_timestamp (br_timestamps r), fr_max_timestamp = max_timestamp (br_timestamps r) \<rparr>"

lemma append_record_fields [simp]:
  "sr_result (append_record_to_response u r response) = sr_result response @ [file_record_of u r]"
  "sr_status (append_record_to_response u r response) = sr_status response"
  by (simp_all add: append_record_to_response_def add_record_def file_record_of_def)

lemma append_records_fields [simp]:
  "sr_result (fold (append_record_to_response u) rs response) = sr_result response @ map (file_record_of u) rs"
  "sr_status (fold (append_record_to_response u) rs response) = sr_status response"
  by (induction rs arbitrary: response) simp_all

lemma make_search_response_fields [simp]:
  "sr_result make_search_response = []" "sr_status make_search_response = Status_success"
  by (simp_all add: make_search_response_def)

text \<open>The storage that a query constructs over what a streaming process has left.\<close>

definition config_of :: "'c storage \<Rightarrow> main_config" where
  "config_of s = \<lparr> cfg_checkpoint_size = st_checkpoint_size_bytes s, cfg_checkpoint_interval = st_checkpoint_interval_seconds s,
     cfg_backend = after_crash (st_backend s), cfg_replication_mode = st_replication_mode s \<rparr>"

lemma configured_storage_records:
  assumes "storage_reachable I C s" and "loadable C (st_replication_mode s) (st_binlog_records s)"
  obtains s' where "configured_storage C construction_mode (config_of s) = Inr s'"
    "st_binlog_records s' = st_binlog_records s" "st_replication_mode s' = st_replication_mode s"
  using restart_succeeds [OF reachable_ok [OF assms(1)] assms(2)] by (simp add: configured_storage_def config_of_def)

section \<open>The search for GTIDs as a greedy cover\<close>

definition gtids_added :: "'c icl \<Rightarrow> 'c binlog_record \<Rightarrow> gtid_triple set" where
  "gtids_added I r = (case br_added_gtids r of None \<Rightarrow> {} | Some g \<Rightarrow> gtid_set_abs I g)"

primrec greedy_cover :: "'c icl \<Rightarrow> gtid_triple set \<Rightarrow> 'c binlog_record list \<Rightarrow> 'c binlog_record list" where
  "greedy_cover I A [] = []"
| "greedy_cover I A (r # rs) =
     (if A \<inter> gtids_added I r = {} then greedy_cover I A rs else r # greedy_cover I (A - gtids_added I r) rs)"

lemma greedy_cover_empty [simp]: "greedy_cover I {} rs = []"
  by (induction rs) simp_all

lemma greedy_cover_subseq: "subseq (greedy_cover I A rs) rs"
  by (induction rs arbitrary: A) (auto intro: list_emb_Cons)

lemma greedy_cover_covers:
  "A - \<Union> (gtids_added I ` set (greedy_cover I A rs)) = A - \<Union> (gtids_added I ` set rs)"
proof (induction rs arbitrary: A)
  case (Cons r rs)
  have minus: "A - (gtids_added I r \<union> X) = (A - gtids_added I r) - X" for X by blast
  show ?case
  proof (cases "A \<inter> gtids_added I r = {}")
    case True
    then have "A - gtids_added I r = A" by blast
    then show ?thesis using True Cons.IH [of A] by (simp add: minus)
  qed (use Cons.IH [of "A - gtids_added I r"] in \<open>simp add: minus\<close>)
qed simp

lemma greedy_cover_irredundant:
  "i < length (greedy_cover I A rs) \<Longrightarrow>
   (A - \<Union> (gtids_added I ` set (take i (greedy_cover I A rs)))) \<inter> gtids_added I (greedy_cover I A rs ! i) \<noteq> {}"
proof (induction rs arbitrary: A i)
  case (Cons r rs)
  show ?case
  proof (cases "A \<inter> gtids_added I r = {}")
    case False
    show ?thesis
    proof (cases i)
      case (Suc j)
      then show ?thesis using Cons.IH [of j "A - gtids_added I r"] Cons.prems False by (simp add: Diff_Un Diff_eq Int_assoc)
    qed (use False in simp)
  qed (use Cons in simp)
qed simp

definition added_inv :: "'c icl \<Rightarrow> ('c \<Rightarrow> bool) \<Rightarrow> 'c binlog_record list \<Rightarrow> bool" where
  "added_inv I invar rs \<longleftrightarrow> (\<forall>r \<in> set rs. case br_added_gtids r of None \<Rightarrow> True | Some g \<Rightarrow> gtid_set_inv I invar g)"

lemma added_inv_map:
  "added_inv I invar rs \<longleftrightarrow> list_all (case_option True (gtid_set_inv I invar)) (map br_added_gtids rs)"
  by (simp add: added_inv_def list_all_iff)

context icl_interval_set
begin

lemma search_gtids_loop_refines:
  assumes "gtid_set_inv I invar remaining" and "added_inv I invar rs"
  shows "\<exists>remaining'. search_gtids_loop I u rs (remaining, response) =
      (remaining', fold (append_record_to_response u) (greedy_cover I (gtid_set_abs I remaining) rs) response) \<and>
    gtid_set_inv I invar remaining' \<and>
    gtid_set_abs I remaining' = gtid_set_abs I remaining - \<Union> (gtids_added I ` set rs)"
  using assms
proof (induction rs arbitrary: remaining response)
  case (Cons r rs)
  have "added_inv I invar rs" using Cons.prems(2) by (simp add: added_inv_def)
  note IH = Cons.IH [OF _ this] and empty = is_empty_refines [OF Cons.prems(1)]
  show ?case
  proof (cases "gtid_set_is_empty remaining \<or> br_added_gtids r = None")
    case True
    then show ?thesis using empty Cons.prems(1) IH [OF Cons.prems(1)] by (auto simp: gtids_added_def)
  next
    case False
    then obtain g where g: "br_added_gtids r = Some g" by blast
    have inv: "gtid_set_inv I invar g" using Cons.prems(2) g by (simp add: added_inv_def)
    note meets = intersects_refines [OF Cons.prems(1) inv] and sub = subtract_set_refines [OF Cons.prems(1) inv]
    have G: "gtids_added I r = gtid_set_abs I g" by (simp add: gtids_added_def g)
    have minus: "A - (B \<union> X) = A - B - X" for A B X :: "gtid_triple set" by blast
    show ?thesis
    proof (cases "intersects I remaining g")
      case True
      then show ?thesis
        using False g meets IH [OF conjunct1 [OF sub], where response = "append_record_to_response u r response"] sub
        by (simp add: G minus del: Diff_eq_empty_iff)
    next
      case miss: False
      then have "gtid_set_abs I remaining \<inter> gtid_set_abs I g = {}" using meets by blast
      moreover from this have "gtid_set_abs I remaining - gtid_set_abs I g = gtid_set_abs I remaining" by blast
      ultimately show ?thesis
        using False g miss IH [OF Cons.prems(1), where response = response] by (simp add: minus) (simp add: G)
    qed
  qed
qed simp

end

lemma search_by_gtid_set_eq:
  assumes "gtid_set_of_string I subcommand_value = Inr requested"
    and "configured_storage C Querying_only config = Inr s" "st_binlog_records s \<noteq> []" "is_in_gtid_replication_mode s"
    and "search_gtids_loop I object_uri (st_binlog_records s) (requested, make_search_response) = (remaining, response)"
  shows "search_by_gtid_set I C object_uri (Inr config) subcommand_value =
    (if gtid_set_is_empty remaining then Inr response
     else Inl (Runtime_error ''The specified GTID set cannot be covered''))"
  using assms by (simp add: search_by_gtid_set_def)

lemma takeWhile_sorted:
  "sorted (map (min_timestamp \<circ> br_timestamps) rs) \<Longrightarrow>
   takeWhile (\<lambda>r. min_timestamp (br_timestamps r) \<le> t) rs = filter (\<lambda>r. min_timestamp (br_timestamps r) \<le> t) rs"
  by (induction rs) (auto intro!: filter_False [symmetric])

section \<open>Properties\<close>

text \<open>
  C14: A search for a set of GTIDs in a storage fails exactly if the binlog files together do not cover the set; otherwise
  it lists files in their order that cover the set, each of which has a requested GTID that the files listed
  before it do not have.
\<close>

theorem gtid_search_is_irredundant_cover:
  assumes "icl_interval_set I invar" and "storage_reachable I C s" and "is_in_gtid_replication_mode s"
    and "loadable C (st_replication_mode s) (st_binlog_records s)" and "st_binlog_records s \<noteq> []"
    and "added_inv I invar (st_binlog_records s)"
    and "gtid_set_of_string I subcommand_value = Inr requested" and "gtid_set_inv I invar requested"
  shows "case search_by_gtid_set I C object_uri (Inr (config_of s)) subcommand_value of
      Inl e \<Rightarrow> e = Runtime_error ''The specified GTID set cannot be covered'' \<and>
        \<not> gtid_set_abs I requested \<subseteq> \<Union> (gtids_added I ` set (st_binlog_records s))
    | Inr response \<Rightarrow> \<exists>selected. subseq selected (st_binlog_records s) \<and>
        sr_status response = Status_success \<and> sr_result response = map (file_record_of object_uri) selected \<and>
        gtid_set_abs I requested \<subseteq> \<Union> (gtids_added I ` set selected) \<and>
        (\<forall>i < length selected. (gtid_set_abs I requested - \<Union> (gtids_added I ` set (take i selected))) \<inter>
          gtids_added I (selected ! i) \<noteq> {})"
proof -
  let ?A = "gtid_set_abs I requested" and ?rs = "st_binlog_records s"
  let ?selected = "greedy_cover I ?A ?rs"
  obtain s' where s': "configured_storage C Querying_only (config_of s) = Inr s'"
    "st_binlog_records s' = ?rs" "st_replication_mode s' = st_replication_mode s"
    using assms(2,4) by (rule configured_storage_records)
  obtain remaining where loop: "search_gtids_loop I object_uri ?rs (requested, make_search_response) =
      (remaining, fold (append_record_to_response object_uri) ?selected make_search_response)"
    and inv: "gtid_set_inv I invar remaining" "gtid_set_abs I remaining = ?A - \<Union> (gtids_added I ` set ?rs)"
    using icl_interval_set.search_gtids_loop_refines [OF assms(1,8,6)] by blast
  have remaining: "gtid_set_is_empty remaining \<longleftrightarrow> ?A \<subseteq> \<Union> (gtids_added I ` set ?rs)"
    using icl_interval_set.is_empty_refines [OF assms(1) inv(1)] inv(2) by simp
  let ?response = "fold (append_record_to_response object_uri) ?selected make_search_response"
  have s'_ok: "st_binlog_records s' \<noteq> []" "is_in_gtid_replication_mode s'"
    using assms(3,5) s'(2,3) by (simp_all add: is_in_gtid_replication_mode_def)
  note result = search_by_gtid_set_eq [OF assms(7) s'(1) s'_ok loop [folded s'(2)], unfolded s'(2)]
  show ?thesis
  proof (cases "gtid_set_is_empty remaining")
    case True
    have "?A - \<Union> (gtids_added I ` set ?selected) = {}" using greedy_cover_covers [of ?A I ?rs] True remaining by simp
    then have "?A \<subseteq> \<Union> (gtids_added I ` set ?selected)" by simp
    moreover have "sr_status ?response = Status_success" "sr_result ?response = map (file_record_of object_uri) ?selected" by simp_all
    ultimately have "\<exists>selected. subseq selected ?rs \<and>
        sr_status ?response = Status_success \<and> sr_result ?response = map (file_record_of object_uri) selected \<and>
        ?A \<subseteq> \<Union> (gtids_added I ` set selected) \<and>
        (\<forall>i < length selected. (?A - \<Union> (gtids_added I ` set (take i selected))) \<inter> gtids_added I (selected ! i) \<noteq> {})"
      using greedy_cover_subseq [of I ?A ?rs] greedy_cover_irredundant [of _ I ?A ?rs] by blast
    then show ?thesis using True by (simp only: result if_True sum.case)
  next
    case False
    then show ?thesis using remaining by (simp only: result if_False sum.case simp_thms)
  qed
qed

definition sample_request :: string where
  "sample_request = uuid_text (replicate 16 1) @ '':5-6''"

theorem gtid_search_is_irredundant_cover_witness:
  "\<exists>selected. subseq selected (st_binlog_records (sample_storage Gtid_mode sample_ops)) \<and>
    {sample_uuid} \<times> {Tag []} \<times> {5..<7} \<subseteq> \<Union> (gtids_added list_icl ` set selected)"
proof -
  let ?s = "sample_storage Gtid_mode sample_ops"
  let ?r = "search_by_gtid_set list_icl sample_codec (\<lambda>name. name) (Inr (config_of ?s)) sample_request"
  have "is_ok (rbind (make_storage sample_codec 3 0 empty_backend Streaming Gtid_mode) (rfold (perform list_icl sample_codec) sample_ops))"
    "list_all names_ok sample_ops" by code_simp+
  then have reach: "storage_reachable list_icl sample_codec ?s" by (rule sample_storage_reachable)
  have load: "is_in_gtid_replication_mode ?s" "loadable sample_codec (st_replication_mode ?s) (st_binlog_records ?s)"
    "st_binlog_records ?s \<noteq> []" by code_simp+
  have "map br_added_gtids (st_binlog_records ?s) = [Some (sample_set 5 6), Some (sample_set 6 7)]" by code_simp
  then have added: "added_inv list_icl ivl_canonical (st_binlog_records ?s)"
    using sample_set_inv [of 5 6] sample_set_inv [of 6 7] by (simp add: added_inv_map)
  have request: "gtid_set_of_string list_icl sample_request = Inr (sample_set 5 7)" by code_simp
  have inv: "gtid_set_inv list_icl ivl_canonical (sample_set 5 7)" by (rule sample_set_inv) simp
  have "is_ok ?r" by code_simp
  then obtain response where "?r = Inr response" by (cases ?r) auto
  then obtain selected where "subseq selected (st_binlog_records ?s)"
    "gtid_set_abs list_icl (sample_set 5 7) \<subseteq> \<Union> (gtids_added list_icl ` set selected)"
    using gtid_search_is_irredundant_cover [OF list_icl_interval_set reach load added request inv, of "\<lambda>name. name"] by auto
  moreover have "gtid_set_abs list_icl (sample_set 5 7) = {sample_uuid} \<times> {Tag []} \<times> {5..<7}"
    by (auto simp: mem_gtid_set_abs smap_find_def list_icl_def split: if_splits)
  ultimately show ?thesis by metis
qed

text \<open>
  C15: A search by time in a storage that is not empty goes through the binlog files in their order up to the first
  one whose least timestamp is later than the given time, and lists the files before it, all with a least timestamp
  at or before that time; it fails if the first file is already later. This is less than a list of all files with an
  event at or before the time: it is that list, up to files without events, if the least timestamps of the files
  ascend, but a file behind a later one is left out (\<open>timestamp_search_misses_files\<close>).
\<close>

theorem timestamp_search_is_prefix:
  assumes "storage_reachable I C s" and "loadable C (st_replication_mode s) (st_binlog_records s)"
    and "st_binlog_records s \<noteq> []" and "from_iso_extended_string B subcommand_value = Some timestamp"
  shows "case search_by_timestamp B C object_uri (Inr (config_of s)) subcommand_value of
      Inl e \<Rightarrow> e = Runtime_error ''Timestamp is too old'' \<and>
        timestamp < min_timestamp (br_timestamps (hd (st_binlog_records s)))
    | Inr response \<Rightarrow> \<exists>listed later. st_binlog_records s = listed @ later \<and> listed \<noteq> [] \<and>
        sr_result response = map (file_record_of object_uri) listed \<and>
        (\<forall>r \<in> set listed. min_timestamp (br_timestamps r) \<le> timestamp) \<and>
        (later \<noteq> [] \<longrightarrow> timestamp < min_timestamp (br_timestamps (hd later))) \<and>
        (sorted (map (min_timestamp \<circ> br_timestamps) (st_binlog_records s)) \<longrightarrow>
          listed = filter (\<lambda>r. min_timestamp (br_timestamps r) \<le> timestamp) (st_binlog_records s))"
proof -
  let ?rs = "st_binlog_records s" and ?early = "\<lambda>r. min_timestamp (br_timestamps r) \<le> timestamp"
  obtain s' where s': "configured_storage C Querying_only (config_of s) = Inr s'" "st_binlog_records s' = ?rs"
    using assms(1,2) by (rule configured_storage_records)
  have loop: "search_timestamp_loop object_uri timestamp rs response =
      fold (append_record_to_response object_uri) (takeWhile ?early rs) response" for rs and response :: "'a search_response"
    by (induction rs arbitrary: response) auto
  have result: "search_by_timestamp B C object_uri (Inr (config_of s)) subcommand_value =
    (if takeWhile ?early ?rs \<noteq> [] then Inr (fold (append_record_to_response object_uri) (takeWhile ?early ?rs) make_search_response)
     else Inl (Runtime_error ''Timestamp is too old''))"
    using assms(3,4) s' by (simp add: search_by_timestamp_def or_raise_def loop Let_def)
  show ?thesis
  proof (cases "takeWhile ?early ?rs = []")
    case True
    then show ?thesis using assms(3) by (cases ?rs) (auto simp: result split: if_splits)
  next
    case False
    let ?listed = "takeWhile ?early ?rs" and ?later = "dropWhile ?early ?rs"
    have "sorted (map (min_timestamp \<circ> br_timestamps) ?rs) \<longrightarrow> ?listed = filter ?early ?rs"
      using takeWhile_sorted by blast
    moreover have "?later \<noteq> [] \<longrightarrow> timestamp < min_timestamp (br_timestamps (hd ?later))"
      using hd_dropWhile [of ?early ?rs] by (simp add: not_le)
    moreover have "\<forall>r \<in> set ?listed. ?early r" by (blast dest: set_takeWhileD)
    moreover have "sr_result (fold (append_record_to_response object_uri) ?listed make_search_response) =
        map (file_record_of object_uri) ?listed" by simp
    moreover have "?rs = ?listed @ ?later" by simp
    ultimately have "\<exists>listed later. ?rs = listed @ later \<and> listed \<noteq> [] \<and>
        sr_result (fold (append_record_to_response object_uri) ?listed make_search_response) =
          map (file_record_of object_uri) listed \<and> (\<forall>r \<in> set listed. ?early r) \<and>
        (later \<noteq> [] \<longrightarrow> timestamp < min_timestamp (br_timestamps (hd later))) \<and>
        (sorted (map (min_timestamp \<circ> br_timestamps) ?rs) \<longrightarrow> listed = filter ?early ?rs)"
      using False by blast
    then show ?thesis using False by (simp only: result simp_thms if_True sum.case)
  qed
qed

theorem timestamp_search_is_prefix_witness:
  "\<exists>response. search_by_timestamp sample_boost sample_codec (\<lambda>name. name)
      (Inr (config_of (sample_storage Position_mode sample_ops))) ''6'' = Inl response \<and>
    6 < min_timestamp (br_timestamps (hd (st_binlog_records (sample_storage Position_mode sample_ops))))"
proof -
  let ?s = "sample_storage Position_mode sample_ops"
  let ?r = "search_by_timestamp sample_boost sample_codec (\<lambda>name. name) (Inr (config_of ?s)) ''6''"
  have "is_ok (rbind (make_storage sample_codec 3 0 empty_backend Streaming Position_mode) (rfold (perform list_icl sample_codec) sample_ops))"
    "list_all names_ok sample_ops" by code_simp+
  then have reach: "storage_reachable list_icl sample_codec ?s" by (rule sample_storage_reachable)
  have load: "loadable sample_codec (st_replication_mode ?s) (st_binlog_records ?s)" "st_binlog_records ?s \<noteq> []" by code_simp+
  have t: "from_iso_extended_string sample_boost ''6'' = Some 6" by code_simp
  have "\<not> is_ok ?r" by code_simp
  then obtain e where "?r = Inl e" by (cases ?r) auto
  then show ?thesis using timestamp_search_is_prefix [OF reach load t, of "\<lambda>name. name"] by simp
qed

text \<open>
  Four binlog files, with events at times 5, none, 9 and 4: a search for time 6 lists the first two. The second one
  has no event; the last one has an event at time 4 and is left out.
\<close>

definition unsorted_ops :: "(gno_t \<times> gno_t) list storage_op list" where
  "unsorted_ops =
     [Open_binlog (sample_binlog 1) 100, Write_event [1] True gtid_empty 5 1 100, Close_binlog 100,
      Open_binlog (sample_binlog 2) 100, Close_binlog 100,
      Open_binlog (sample_binlog 3) 100, Write_event [2] True gtid_empty 9 1 100, Close_binlog 100,
      Open_binlog (sample_binlog 4) 100, Write_event [3] True gtid_empty 4 1 100, Close_binlog 100]"

lemma timestamp_search_misses_files:
  fixes s :: "(gno_t \<times> gno_t) list storage"
  defines "s \<equiv> sample_storage Position_mode unsorted_ops"
  shows "storage_reachable list_icl sample_codec s"
    and "map (\<lambda>r. (min_timestamp (br_timestamps r), max_timestamp (br_timestamps r))) (st_binlog_records s) =
      [(5, 5), (0, 0), (9, 9), (4, 4)]"
    and "map_sum id (\<lambda>response. sr_result response) (search_by_timestamp sample_boost sample_codec (\<lambda>name. name) (Inr (config_of s)) ''6'') =
      Inr (map (file_record_of (\<lambda>name. name)) (take 2 (st_binlog_records s)))"
proof -
  have "is_ok (rbind (make_storage sample_codec 3 0 empty_backend Streaming Position_mode) (rfold (perform list_icl sample_codec) unsorted_ops))"
    "list_all names_ok unsorted_ops" by code_simp+
  then show "storage_reachable list_icl sample_codec s" unfolding s_def by (rule sample_storage_reachable)
  show "map (\<lambda>r. (min_timestamp (br_timestamps r), max_timestamp (br_timestamps r))) (st_binlog_records s) =
      [(5, 5), (0, 0), (9, 9), (4, 4)]"
    unfolding s_def by code_simp
  show "map_sum id (\<lambda>response. sr_result response) (search_by_timestamp sample_boost sample_codec (\<lambda>name. name) (Inr (config_of s)) ''6'') =
      Inr (map (file_record_of (\<lambda>name. name)) (take 2 (st_binlog_records s)))"
    unfolding s_def by code_simp
qed

end
