(* ===== verification/Event.thy ===== *)
theory Event
  imports Event_View
begin

text \<open>
  Events that own their parts (\<open>event.cpp\<close>, \<open>event.hpp\<close>): the variants of post headers and bodies,
  the decoding of a view, the encoding, and the creation of new events with a checksum. The parts
  that a variant can hold form a codec (locale \<open>part_codec\<close>); the main result is that a created
  event is accepted by the view constructor and decoded to itself.
\<close>

section \<open>Parts\<close>

datatype post_header_variant =
    Unknown_post_header
  | Empty_post_header
  | Rotate_post_header uint64
  | Format_description_post_header fde_post_header
  | Gtid_log_post_header gtid_log_post_header

datatype body_variant =
    Unknown_body
  | Empty_body
  | Rotate_body "byte list"
  | Format_description_body uint8
  | Previous_gtids_log_body "byte list"
  | Gtid_log_body gtid_log_body
  | Gtid_tagged_log_body tagged_body

definition empty_post_header_decode :: "const_byte_span \<Rightarrow> unit result" where
  "empty_post_header_decode portion =
     ensure (\<not> length portion \<noteq> 0) (Invalid_argument ''invalid event empty post header length'')"

definition empty_body_decode :: "const_byte_span \<Rightarrow> unit result" where
  "empty_body_decode portion =
     ensure (\<not> length portion \<noteq> 0) (Invalid_argument ''invalid event empty body length'')"

definition previous_gtids_body_encode_to :: "byte list \<Rightarrow> byte_span \<Rightarrow> byte_span result" where
  "previous_gtids_body_encode_to gtids destination =
     rbind (ensure (\<not> span_size destination < length gtids)
       (Invalid_argument ''cannot encode previous gtids log event body'')) (\<lambda>_.
     Inr (write_bytes gtids destination))"

definition emplace_post_header :: "code_type \<Rightarrow> const_byte_span \<Rightarrow> post_header_variant result" where
  "emplace_post_header code portion =
     (if code = Rotate then
        rbind (rotate_post_header_decode portion) (\<lambda>h. Inr (Rotate_post_header h))
      else if code = Format_description then
        rbind (fde_post_header_decode portion) (\<lambda>h. Inr (Format_description_post_header h))
      else if code = Gtid_log \<or> code = Anonymous_gtid_log then
        rbind (gtid_log_post_header_decode portion) (\<lambda>h. Inr (Gtid_log_post_header h))
      else if code = Previous_gtids_log \<or> code = Gtid_tagged_log \<or> code = Stop then
        rbind (empty_post_header_decode portion) (\<lambda>_. Inr Empty_post_header)
      else Inr Unknown_post_header)"

definition emplace_body :: "code_type \<Rightarrow> const_byte_span \<Rightarrow> body_variant result" where
  "emplace_body code portion =
     (if code = Rotate then Inr (Rotate_body portion)
      else if code = Format_description then
        rbind (fde_body_decode portion) (\<lambda>b. Inr (Format_description_body b))
      else if code = Previous_gtids_log then Inr (Previous_gtids_log_body portion)
      else if code = Gtid_log \<or> code = Anonymous_gtid_log then
        rbind (gtid_log_body_decode portion) (\<lambda>b. Inr (Gtid_log_body b))
      else if code = Gtid_tagged_log then
        rbind (tagged_body_decode portion) (\<lambda>b. Inr (Gtid_tagged_log_body b))
      else if code = Stop then
        rbind (empty_body_decode portion) (\<lambda>_. Inr Empty_body)
      else Inr Unknown_body)"

text \<open>The visitors of \<open>calculate_encoded_size\<close> and \<open>encode_to\<close>.\<close>

fun post_header_calculate_encoded_size :: "post_header_variant \<Rightarrow> nat result" where
  "post_header_calculate_encoded_size Unknown_post_header =
     Inl (Logic_error ''calculate_encoded_size() not implemented for this event post header / body'')"
| "post_header_calculate_encoded_size Empty_post_header = Inr 0"
| "post_header_calculate_encoded_size (Rotate_post_header _) = Inr 8"
| "post_header_calculate_encoded_size (Format_description_post_header h) =
     rbind (encoded_server_version_of (fde_server_version h)) (\<lambda>version. Inr (fde_post_header_size version))"
| "post_header_calculate_encoded_size (Gtid_log_post_header _) = Inr gtid_log_post_header_size"

fun body_calculate_encoded_size :: "body_variant \<Rightarrow> nat result" where
  "body_calculate_encoded_size Unknown_body =
     Inl (Logic_error ''calculate_encoded_size() not implemented for this event post header / body'')"
| "body_calculate_encoded_size Empty_body = Inr 0"
| "body_calculate_encoded_size (Rotate_body binlog) = Inr (length binlog)"
| "body_calculate_encoded_size (Format_description_body _) = Inr fde_body_size"
| "body_calculate_encoded_size (Previous_gtids_log_body gtids) = Inr (length gtids)"
| "body_calculate_encoded_size (Gtid_log_body b) = Inr (gtid_log_body_calculate_encoded_size b)"
| "body_calculate_encoded_size (Gtid_tagged_log_body b) = tagged_body_calculate_encoded_size b"

fun post_header_encode_to :: "post_header_variant \<Rightarrow> byte_span \<Rightarrow> byte_span result" where
  "post_header_encode_to Unknown_post_header destination =
     Inl (Logic_error ''encode_to() not implemented for this event post header / body'')"
| "post_header_encode_to Empty_post_header destination = Inr destination"
| "post_header_encode_to (Rotate_post_header position) destination = rotate_post_header_encode_to position destination"
| "post_header_encode_to (Format_description_post_header h) destination = fde_post_header_encode_to h destination"
| "post_header_encode_to (Gtid_log_post_header h) destination = gtid_log_post_header_encode_to h destination"

fun body_encode_to :: "body_variant \<Rightarrow> byte_span \<Rightarrow> byte_span result" where
  "body_encode_to Unknown_body destination =
     Inl (Logic_error ''encode_to() not implemented for this event post header / body'')"
| "body_encode_to Empty_body destination = Inr destination"
| "body_encode_to (Rotate_body binlog) destination = rotate_body_encode_to binlog destination"
| "body_encode_to (Format_description_body b) destination = fde_body_encode_to b destination"
| "body_encode_to (Previous_gtids_log_body gtids) destination = previous_gtids_body_encode_to gtids destination"
| "body_encode_to (Gtid_log_body b) destination = gtid_log_body_encode_to b destination"
| "body_encode_to (Gtid_tagged_log_body b) destination = tagged_body_encode_to b destination"

section \<open>Events\<close>

record event =
  evt_common_header :: common_header
  evt_post_header :: post_header_variant
  evt_body :: body_variant
  evt_footer :: "uint32 option"

definition event_of_view :: "event_view \<Rightarrow> event result" where
  "event_of_view view =
     rbind (common_header_of_portion (get_common_header_raw view)) (\<lambda>header.
     let code = code_types ! unat (ch_type_code header) in
     rbind (emplace_post_header code (get_post_header_raw view)) (\<lambda>post_header.
     rbind (emplace_body code (get_body_raw view)) (\<lambda>body.
     rbind (if has_footer view
            then rbind (footer_view (get_footer_raw view)) (\<lambda>footer_v. Inr (Some (get_crc_raw footer_v)))
            else Inr None) (\<lambda>footer.
     Inr \<lparr> evt_common_header = header, evt_post_header = post_header, evt_body = body, evt_footer = footer \<rparr>))))"

definition event_calculate_encoded_size :: "event \<Rightarrow> nat result" where
  "event_calculate_encoded_size e =
     rbind (post_header_calculate_encoded_size (evt_post_header e)) (\<lambda>post_header_size.
     rbind (body_calculate_encoded_size (evt_body e)) (\<lambda>body_size.
     Inr (common_header_size_in_bytes + post_header_size + body_size +
       (case evt_footer e of None \<Rightarrow> 0 | Some _ \<Rightarrow> footer_size_in_bytes))))"

definition event_encode_to :: "event \<Rightarrow> byte_span \<Rightarrow> byte_span result" where
  "event_encode_to e destination =
     rbind (event_calculate_encoded_size e) (\<lambda>encoded_size.
     rbind (ensure (\<not> span_size destination < encoded_size) (Invalid_argument ''cannot encode event'')) (\<lambda>_.
     rbind (common_header_encode_to (evt_common_header e) destination) (\<lambda>destination.
     rbind (post_header_encode_to (evt_post_header e) destination) (\<lambda>destination.
     rbind (body_encode_to (evt_body e) destination) (\<lambda>destination.
     case evt_footer e of None \<Rightarrow> Inr destination | Some crc \<Rightarrow> footer_encode_to crc destination)))))"

text \<open>\<open>resize\<close> of a buffer keeps its bytes and appends zeros.\<close>

definition buffer_resize :: "nat \<Rightarrow> byte list \<Rightarrow> byte list" where
  "buffer_resize n buffer = take n buffer @ replicate (n - length buffer) 0"

definition encode_and_checksum :: "crc32 \<Rightarrow> byte list \<Rightarrow> bool \<Rightarrow> event \<Rightarrow> (event \<times> byte list) result" where
  "encode_and_checksum crc buffer include_checksum e =
     (let size_with_footer = unat (ch_event_size (evt_common_header e));
          buffer = buffer_resize size_with_footer buffer in
      rbind (event_encode_to e ([], buffer)) (\<lambda>(encoded, output_span).
      if include_checksum then
        rbind (ensure (footer_size_in_bytes \<le> size_with_footer) (Undefined_behaviour ''span out of bounds'')) (\<lambda>_.
        let crc_value = crc (take (size_with_footer - footer_size_in_bytes) (encoded @ output_span)) in
        rbind (footer_view output_span) (\<lambda>footer_uv.
        Inr (e\<lparr> evt_footer := Some crc_value \<rparr>, encoded @ set_crc_raw crc_value footer_uv)))
      else Inr (e, encoded @ output_span)))"

text \<open>The private constructor, called by \<open>create_event\<close> with a buffer.\<close>

definition create_event ::
    "crc32 \<Rightarrow> code_type \<Rightarrow> uint32 \<Rightarrow> uint64 \<Rightarrow> uint32 \<Rightarrow> uint16 \<Rightarrow> post_header_variant \<Rightarrow> body_variant \<Rightarrow> bool \<Rightarrow>
     byte list \<Rightarrow> (event \<times> byte list) result" where
  "create_event crc code offset timestamp server_id flags post_header body include_checksum buffer =
     rbind (post_header_calculate_encoded_size post_header) (\<lambda>post_header_size.
     rbind (body_calculate_encoded_size body) (\<lambda>body_size.
     let event_size = of_nat (common_header_size_in_bytes + post_header_size + body_size +
           (if include_checksum then footer_size_in_bytes else 0));
         header = create_with_offset offset event_size timestamp code server_id flags in
     encode_and_checksum crc buffer (include_checksum \<or> code = Format_description)
       \<lparr> evt_common_header = header, evt_post_header = post_header, evt_body = body, evt_footer = None \<rparr>))"

section \<open>Parts as codecs\<close>

text \<open>
  What the parts of an event promise: the calculated size is the number of bytes written, and the
  bytes are decoded to the part.
\<close>

locale part_codec =
  fixes part_ok :: "'p \<Rightarrow> bool"
    and part_bytes :: "'p \<Rightarrow> byte list"
    and part_size :: "'p \<Rightarrow> nat result"
    and part_encode :: "'p \<Rightarrow> byte_span \<Rightarrow> byte_span result"
    and part_decode :: "const_byte_span \<Rightarrow> 'p result"
  assumes size_bytes: "part_ok p \<Longrightarrow> part_size p = Inr (length (part_bytes p))"
    and encode_bytes: "part_ok p \<Longrightarrow> length (part_bytes p) \<le> span_size s \<Longrightarrow>
      part_encode p s = Inr (write_bytes (part_bytes p) s)"
    and decode_bytes: "part_ok p \<Longrightarrow> part_decode (part_bytes p) = Inr p"
begin

lemma part_bytes_inject: "part_ok p \<Longrightarrow> part_ok q \<Longrightarrow> part_bytes p = part_bytes q \<longleftrightarrow> p = q"
  by (metis decode_bytes sum.inject(2))

end

fun post_header_ok :: "code_type \<Rightarrow> post_header_variant \<Rightarrow> bool" where
  "post_header_ok code Unknown_post_header \<longleftrightarrow> False"
| "post_header_ok code Empty_post_header \<longleftrightarrow> code = Previous_gtids_log \<or> code = Gtid_tagged_log \<or> code = Stop"
| "post_header_ok code (Rotate_post_header _) \<longleftrightarrow> code = Rotate"
| "post_header_ok code (Format_description_post_header h) \<longleftrightarrow> code = Format_description \<and>
     (case encoded_server_version_of (fde_server_version h) of Inl _ \<Rightarrow> False | Inr version \<Rightarrow> fde_post_header_ok h version)"
| "post_header_ok code (Gtid_log_post_header h) \<longleftrightarrow> (code = Gtid_log \<or> code = Anonymous_gtid_log) \<and>
     length (glp_uuid h) = uuid_length \<and> glp_logical_ts_code h = known_logical_ts_code"

fun post_header_bytes :: "post_header_variant \<Rightarrow> byte list" where
  "post_header_bytes Unknown_post_header = []"
| "post_header_bytes Empty_post_header = []"
| "post_header_bytes (Rotate_post_header position) = le_of_nat 8 (unat position)"
| "post_header_bytes (Format_description_post_header h) =
     fde_post_header_bytes h (projr (encoded_server_version_of (fde_server_version h)))"
| "post_header_bytes (Gtid_log_post_header h) = gtid_log_post_header_bytes h"

fun body_ok :: "code_type \<Rightarrow> body_variant \<Rightarrow> bool" where
  "body_ok code Unknown_body \<longleftrightarrow> False"
| "body_ok code Empty_body \<longleftrightarrow> code = Stop"
| "body_ok code (Rotate_body _) \<longleftrightarrow> code = Rotate"
| "body_ok code (Format_description_body b) \<longleftrightarrow> code = Format_description \<and> b < 2"
| "body_ok code (Previous_gtids_log_body _) \<longleftrightarrow> code = Previous_gtids_log"
| "body_ok code (Gtid_log_body b) \<longleftrightarrow> (code = Gtid_log \<or> code = Anonymous_gtid_log) \<and> gtid_log_body_ok b"
| "body_ok code (Gtid_tagged_log_body b) \<longleftrightarrow> code = Gtid_tagged_log \<and> tagged_body_ok b"

fun body_bytes :: "body_variant \<Rightarrow> byte list" where
  "body_bytes Unknown_body = []"
| "body_bytes Empty_body = []"
| "body_bytes (Rotate_body binlog) = binlog"
| "body_bytes (Format_description_body b) = [b]"
| "body_bytes (Previous_gtids_log_body gtids) = gtids"
| "body_bytes (Gtid_log_body b) = gtid_log_body_bytes b"
| "body_bytes (Gtid_tagged_log_body b) = tagged_body_bytes b"

lemma length_gtid_log_post_header_bytes:
  "length (glp_uuid h) = 16 \<Longrightarrow> length (gtid_log_post_header_bytes h) = 42"
  by (simp add: gtid_log_post_header_bytes_def)

lemma fde_versionE:
  assumes "post_header_ok code (Format_description_post_header h)"
  obtains version where "encoded_server_version_of (fde_server_version h) = Inr version" "fde_post_header_ok h version"
    "code = Format_description"
  using assms by (auto split: sum.splits)

interpretation ph: part_codec "post_header_ok code" post_header_bytes post_header_calculate_encoded_size
  post_header_encode_to "emplace_post_header code" for code
proof (unfold_locales, goal_cases)
  case (1 p)
  show ?case
  proof (cases p)
    case (Format_description_post_header h)
    then have "post_header_ok code (Format_description_post_header h)" using 1 by simp
    then show ?thesis by (rule fde_versionE) (simp add: Format_description_post_header length_fde_post_header_bytes)
  qed (use 1 in \<open>auto simp: length_gtid_log_post_header_bytes gtid_log_post_header_size_def\<close>)
next
  case (2 p s)
  show ?case
  proof (cases p)
    case (Format_description_post_header h)
    then have "post_header_ok code (Format_description_post_header h)" using 2 by simp
    then show ?thesis
      by (rule fde_versionE) (use 2(2) Format_description_post_header in \<open>simp add: length_fde_post_header_bytes fde_post_header_encode_eq\<close>)
  qed (use 2 in \<open>auto simp: length_gtid_log_post_header_bytes gtid_log_post_header_encode_eq rotate_post_header_encode_to_def part_codec_simps\<close>)
next
  case (3 p)
  show ?case
  proof (cases p)
    case (Format_description_post_header h)
    then have "post_header_ok code (Format_description_post_header h)" using 3 by simp
    then show ?thesis
      by (rule fde_versionE) (simp add: Format_description_post_header emplace_post_header_def fde_post_header_decode_bytes)
  qed (use 3 in \<open>auto simp: emplace_post_header_def gtid_log_post_header_decode_bytes empty_post_header_decode_def
      rotate_post_header_decode_def\<close>)
qed

interpretation body: part_codec "body_ok code" body_bytes body_calculate_encoded_size body_encode_to "emplace_body code" for code
proof (unfold_locales, goal_cases)
  case (1 p)
  then show ?case
    by (cases p) (auto simp: fde_body_size_def length_gtid_log_body_bytes tagged_body_size_bytes(1))
next
  case (2 p s)
  then show ?case
    by (cases p) (auto simp: rotate_body_encode_to_def fde_body_encode_to_def fde_body_size_def previous_gtids_body_encode_to_def
        insert_fixed_Inr Suc_le_eq length_gtid_log_body_bytes gtid_log_body_encode_eq tagged_body_encode_bytes)
next
  case (3 p)
  then show ?case
    by (cases p) (auto simp: emplace_body_def empty_body_decode_def fde_body_decode_def fde_body_size_def
        gtid_log_body_decode_bytes tagged_body_decode_bytes not_le)
qed

section \<open>Views over assembled events\<close>

lemma view_of_parts:
  fixes h post_header body footer
  defines "v \<equiv> \<lparr> ev_portion = common_header_bytes h @ post_header @ body @ footer,
    ev_post_header_size = length post_header, ev_footer_size = length footer \<rparr>"
  shows "get_common_header_raw v = common_header_bytes h" "get_post_header_raw v = post_header"
    "get_body_raw v = body" "get_footer_raw v = footer" "get_total_size v = 19 + length post_header + length body + length footer"
    "calculate_crc crc v = crc (common_header_bytes h @ post_header @ body)"
  by (simp_all add: v_def get_common_header_raw_def get_post_header_raw_def get_body_raw_def get_footer_raw_def get_total_size_def
      get_body_size_def calculate_crc_def subspan_def)

definition parts_view :: "common_header \<Rightarrow> byte list \<Rightarrow> byte list \<Rightarrow> byte list \<Rightarrow> event_view" where
  "parts_view h post_header body footer =
     \<lparr> ev_portion = common_header_bytes h @ post_header @ body @ footer,
       ev_post_header_size = length post_header, ev_footer_size = length footer \<rparr>"

lemmas parts_view_simps [simp] = view_of_parts [folded parts_view_def]

lemma parts_view_fields [simp]:
  "ev_portion (parts_view h p b f) = common_header_bytes h @ p @ b @ f"
  "ev_post_header_size (parts_view h p b f) = length p" "ev_footer_size (parts_view h p b f) = length f"
  by (simp_all add: parts_view_def)

lemma make_event_view_parts:
  assumes code: "unat (ch_type_code h) = enum_to_index code"
    and total: "unat (ch_event_size h) = 19 + length post_header + length body + length footer"
    and foot: "length footer = (if code = Format_description \<or> rc_footer_expected c then 4 else 0)"
    and ph: "if code = Format_description then length body = 1 \<and> (\<exists>a. fde_body_decode body = Inr a)
      else get_current_post_header_length c code = Some (length post_header)"
    and crc: "footer \<noteq> [] \<Longrightarrow> get_crc_raw footer = crc (common_header_bytes h @ post_header @ body)"
  shows "make_event_view crc c (common_header_bytes h @ post_header @ body @ footer) = Inr (parts_view h post_header body footer)"
proof -
  let ?H = "common_header_bytes h"
  let ?v = "\<lparr> ev_portion = ?H @ post_header @ body @ footer, ev_post_header_size = length post_header, ev_footer_size = length footer \<rparr>"
  note parts = view_of_parts [where h = h and post_header = post_header and body = body and footer = footer]
  have raw: "get_type_code ?H = code" by (simp add: get_type_code_def header_getters code code_types_nth)
  have head: "subspan 0 default_common_header_length (?H @ post_header @ body @ footer) = ?H" by (simp add: subspan_def)
  have "enum_to_index code < 43" using enum_to_index_less [of code] by simp
  then have view: "common_header_view ?H = Inr ?H"
    by (simp add: common_header_view_def header_getters code header_offsets)
  have size: "calculate_post_header_size c code (length (?H @ post_header @ body @ footer)) (length footer) = Inr (length post_header)"
    using ph by (auto simp: calculate_post_header_size_def Let_def fde_body_size_def or_raise_def)
  define v where "v = ?v"
  have "ev_footer_size v = length footer" by (simp add: v_def)
  moreover have "footer = [] \<or> length footer = 4 \<and> get_crc_raw footer = crc (?H @ post_header @ body)"
    using foot crc by (cases "footer = []") (auto split: if_splits)
  ultimately have "verify_checksum crc c code v = Inr ()"
    using ph parts(3,4,6) [folded v_def]
    by (auto simp: verify_checksum_def has_footer_def footer_view_def footer_size_in_bytes_def split: if_splits)
  moreover define portion where "portion = ?H @ post_header @ body @ footer"
  have "v = \<lparr> ev_portion = portion, ev_post_header_size = length post_header, ev_footer_size = length footer \<rparr>"
    by (simp add: v_def portion_def)
  moreover have "(if code = Format_description then footer_size_in_bytes
      else if rc_footer_expected c then footer_size_in_bytes else 0) = length footer"
    using foot by (simp add: footer_size_in_bytes_def)
  moreover have "length portion = 19 + length post_header + length body + length footer" by (simp add: portion_def)
  ultimately have "make_event_view crc c portion = Inr v"
    using size by (simp add: make_event_view_def head [folded portion_def, simplified] view raw header_getters total header_offsets
        portion_def [symmetric] Let_def del: append_assoc)
  then show ?thesis by (simp only: v_def portion_def parts_view_def)
qed

section \<open>Created events\<close>

definition event_core :: "event \<Rightarrow> byte list" where
  "event_core e = common_header_bytes (evt_common_header e) @ post_header_bytes (evt_post_header e) @ body_bytes (evt_body e)"

text \<open>The old bytes of a buffer must pass for a header, since the encoder of the header looks at them.\<close>

definition buffer_reusable :: "nat \<Rightarrow> byte list \<Rightarrow> bool" where
  "buffer_reusable n buffer \<longleftrightarrow> unat (get_type_code_raw (take 19 (buffer_resize n buffer))) < 43"

lemma length_buffer_resize [simp]: "length (buffer_resize n buffer) = n"
  by (simp add: buffer_resize_def)

lemma header_prefix_reusable:
  assumes "19 \<le> n" and "unat (ch_type_code h) < 43"
  shows "buffer_reusable n (common_header_bytes h @ rest)"
  using assms by (simp add: buffer_reusable_def buffer_resize_def header_getters)

lemma empty_buffer_reusable: "5 \<le> n \<Longrightarrow> buffer_reusable n []"
  by (simp add: buffer_reusable_def buffer_resize_def get_type_code_raw_def get_field_def header_offsets subspan_def
      read_fixed_int_def min_def numeral_eq_Suc)

lemma event_encode_eq:
  assumes "post_header_ok code (evt_post_header e)" and "body_ok code (evt_body e)" and "evt_footer e = None"
    and "length (event_core e) \<le> length room" and "unat (get_type_code_raw (take 19 room)) < 43"
  shows "event_encode_to e (done, room) = Inr (write_bytes (event_core e) (done, room))"
proof -
  let ?H = "common_header_bytes (evt_common_header e)"
  have header: "common_header_encode_to (evt_common_header e) (done, room) = Inr (write_bytes ?H (done, room))"
    using assms(4,5) by (simp add: common_header_encode_to_eq event_core_def write_bytes_def)
  have "post_header_encode_to (evt_post_header e) (write_bytes ?H (done, room)) =
      Inr (write_bytes (post_header_bytes (evt_post_header e)) (write_bytes ?H (done, room)))"
    using assms(4) by (intro ph.encode_bytes [OF assms(1)]) (simp add: event_core_def)
  moreover have "body_encode_to (evt_body e) (write_bytes (?H @ post_header_bytes (evt_post_header e)) (done, room)) =
      Inr (write_bytes (body_bytes (evt_body e)) (write_bytes (?H @ post_header_bytes (evt_post_header e)) (done, room)))"
    using assms(4) by (intro body.encode_bytes [OF assms(2)]) (simp add: event_core_def)
  ultimately show ?thesis
    using assms(3,4) header
    by (simp add: event_encode_to_def event_calculate_encoded_size_def ph.size_bytes [OF assms(1)] body.size_bytes [OF assms(2)]
        event_core_def header_offsets)
qed

lemma set_crc_raw_eq: "length bs = 4 \<Longrightarrow> set_crc_raw crc bs = le_of_nat 4 (unat crc)"
  by (simp add: set_crc_raw_def set_field_def)

lemma get_crc_raw_eq: "get_crc_raw (le_of_nat 4 (unat crc)) = crc"
  using get_field_at [OF _ uint32_fits, of "[]" 0 crc "[]"] by (simp add: get_crc_raw_def)

definition created_size :: "post_header_variant \<Rightarrow> body_variant \<Rightarrow> bool \<Rightarrow> nat" where
  "created_size post_header body include_checksum =
     19 + length (post_header_bytes post_header) + length (body_bytes body) + (if include_checksum then 4 else 0)"

lemma create_event_eq:
  assumes ok: "post_header_ok code post_header" "body_ok code body" and fde: "code = Format_description \<longrightarrow> include_checksum"
    and small: "created_size post_header body include_checksum < 2 ^ 32"
    and old: "buffer_reusable (created_size post_header body include_checksum) buffer"
    and h: "h = create_with_offset offset (of_nat (created_size post_header body include_checksum)) timestamp code server_id flags"
    and core: "core = common_header_bytes h @ post_header_bytes post_header @ body_bytes body"
  shows "create_event crc code offset timestamp server_id flags post_header body include_checksum buffer =
    Inr (\<lparr> evt_common_header = h, evt_post_header = post_header, evt_body = body,
           evt_footer = (if include_checksum then Some (crc core) else None) \<rparr>,
         core @ (if include_checksum then le_of_nat 4 (unat (crc core)) else []))"
proof -
  let ?n = "created_size post_header body include_checksum"
  let ?e = "\<lparr> evt_common_header = h, evt_post_header = post_header, evt_body = body, evt_footer = None \<rparr>"
  let ?room = "buffer_resize ?n buffer"
  have size: "unat (ch_event_size h) = ?n"
    using small by (simp add: h create_with_offset_def make_common_header_def unat_of_nat Let_def)
  have n: "?n = length core + (if include_checksum then 4 else 0)" by (simp add: core created_size_def)
  have "event_encode_to ?e ([], ?room) = Inr (write_bytes (event_core ?e) ([], ?room))"
    using ok old n by (intro event_encode_eq) (simp_all add: event_core_def core buffer_reusable_def)
  then have "event_encode_to ?e ([], ?room) = Inr (core, drop (length core) ?room)"
    by (simp add: event_core_def core write_bytes_def)
  moreover have "length (drop (length core) ?room) = (if include_checksum then 4 else 0)" by (simp add: n)
  ultimately have "encode_and_checksum crc buffer include_checksum ?e =
    Inr (?e\<lparr> evt_footer := (if include_checksum then Some (crc core) else None) \<rparr>,
      core @ (if include_checksum then le_of_nat 4 (unat (crc core)) else []))"
    using n by (simp add: encode_and_checksum_def size footer_view_def footer_size_in_bytes_def set_crc_raw_eq Let_def)
  moreover have "(include_checksum \<or> code = Format_description) = include_checksum" using fde by blast
  moreover have total: "common_header_size_in_bytes + length (post_header_bytes post_header) + length (body_bytes body) +
      (if include_checksum then footer_size_in_bytes else 0) = ?n"
    by (simp add: created_size_def header_offsets footer_size_in_bytes_def)
  ultimately show ?thesis
    unfolding create_event_def ph.size_bytes [OF ok(1)] body.size_bytes [OF ok(2)] rbind_Inr total Let_def h [symmetric] by simp
qed

lemma created_view:
  assumes "post_header_ok code post_header" and "body_ok code body"
    and "code = Format_description \<longrightarrow> include_checksum"
    and "created_size post_header body include_checksum < 2 ^ 32"
    and "buffer_reusable (created_size post_header body include_checksum) buffer"
    and "code \<noteq> Format_description \<longrightarrow> rc_footer_expected c = include_checksum \<and>
      get_current_post_header_length c code = Some (length (post_header_bytes post_header))"
  obtains h e v footer where
    "create_event crc code offset timestamp server_id flags post_header body include_checksum buffer = Inr (e, ev_portion v)"
    "make_event_view crc c (ev_portion v) = Inr v"
    "v = parts_view h (post_header_bytes post_header) (body_bytes body) footer"
    "h = create_with_offset offset (of_nat (created_size post_header body include_checksum)) timestamp code server_id flags"
    "e = \<lparr> evt_common_header = h, evt_post_header = post_header, evt_body = body,
       evt_footer = (if footer = [] then None else Some (get_crc_raw footer)) \<rparr>"
    "unat (ch_event_size h) = length (ev_portion v)" "unat (ch_type_code h) = enum_to_index code" "footer = [] \<or> length footer = 4"
proof -
  define h where "h = create_with_offset offset (of_nat (created_size post_header body include_checksum)) timestamp code server_id flags"
  define core where "core = common_header_bytes h @ post_header_bytes post_header @ body_bytes body"
  define footer where "footer = (if include_checksum then le_of_nat 4 (unat (crc core)) else [])"
  let ?v = "parts_view h (post_header_bytes post_header) (body_bytes body) footer"
  have size: "unat (ch_event_size h) = created_size post_header body include_checksum"
    using assms(4) by (simp add: h_def create_with_offset_def make_common_header_def unat_of_nat Let_def)
  have code: "unat (ch_type_code h) = enum_to_index code"
    using enum_to_index_less [of code] by (simp add: h_def create_with_offset_def make_common_header_def unat_of_nat Let_def)
  have fde: "length (body_bytes body) = 1" "\<exists>a. fde_body_decode (body_bytes body) = Inr a" if "code = Format_description"
    using assms(2) that body.decode_bytes [OF assms(2)] by (cases body; auto simp: emplace_body_def result_simps)+
  have foot: "footer = [] \<or> length footer = 4" by (simp add: footer_def)
  have crc: "include_checksum \<longleftrightarrow> footer \<noteq> []" "footer \<noteq> [] \<Longrightarrow> get_crc_raw footer = crc core"
    using length_le_of_nat [of 4 "unat (crc core)"] by (auto simp: footer_def get_crc_raw_eq simp del: length_le_of_nat split: if_splits)
  have create: "create_event crc code offset timestamp server_id flags post_header body include_checksum buffer =
      Inr (\<lparr> evt_common_header = h, evt_post_header = post_header, evt_body = body,
        evt_footer = (if footer = [] then None else Some (get_crc_raw footer)) \<rparr>, ev_portion ?v)"
    using create_event_eq [OF assms(1-5) h_def core_def, of crc] crc [unfolded footer_def] footer_def
    by (cases include_checksum) (simp_all add: core_def)
  have view: "make_event_view crc c (ev_portion ?v) = Inr ?v"
    using make_event_view_parts [OF code, of "post_header_bytes post_header" "body_bytes body" footer c crc] size assms(3,6) fde foot crc
    by (auto simp: created_size_def core_def)
  have "unat (ch_event_size h) = length (ev_portion ?v)" using size foot crc by (auto simp: created_size_def)
  from that [OF create view refl h_def refl this code foot] show thesis .
qed

section \<open>Properties\<close>

text \<open>
  C21: An event that is created from parts that fit its code, in a buffer that is new or holds an earlier event, is accepted by
  the view constructor of a reader context that expects its footer and its post header length, and the event decoded from the
  view is the created one; its size in the header is the number of bytes, and it ends at the offset plus its size, unless it is
  an artificial rotation.
\<close>

theorem created_event_reads_back:
  assumes "post_header_ok code post_header" and "body_ok code body"
    and "code = Format_description \<longrightarrow> include_checksum"
    and "created_size post_header body include_checksum < 2 ^ 32"
    and "buffer_reusable (created_size post_header body include_checksum) buffer"
    and "code \<noteq> Format_description \<longrightarrow> rc_footer_expected c = include_checksum \<and>
      get_current_post_header_length c code = Some (length (post_header_bytes post_header))"
  shows "\<exists>e bytes v. create_event crc code offset timestamp server_id flags post_header body include_checksum buffer = Inr (e, bytes) \<and>
    make_event_view crc c bytes = Inr v \<and> event_of_view v = Inr e \<and>
    evt_post_header e = post_header \<and> evt_body e = body \<and>
    length bytes = unat (ch_event_size (evt_common_header e)) \<and>
    ch_next_event_position (evt_common_header e) =
      (if code = Rotate \<and> flag_set_has_element flags artificial_flag then 0 else offset + ch_event_size (evt_common_header e))"
proof -
  obtain h e v footer where made: "create_event crc code offset timestamp server_id flags post_header body include_checksum buffer =
      Inr (e, ev_portion v)" "make_event_view crc c (ev_portion v) = Inr v"
    and v: "v = parts_view h (post_header_bytes post_header) (body_bytes body) footer"
    and h: "h = create_with_offset offset (of_nat (created_size post_header body include_checksum)) timestamp code server_id flags"
    and e: "e = \<lparr> evt_common_header = h, evt_post_header = post_header, evt_body = body,
      evt_footer = (if footer = [] then None else Some (get_crc_raw footer)) \<rparr>"
    and size: "unat (ch_event_size h) = length (ev_portion v)" "unat (ch_type_code h) = enum_to_index code" "footer = [] \<or> length footer = 4"
    by (rule created_view [OF assms])
  have "event_of_view v = Inr e"
    using common_header_of_bytes [of h] size(2,3) enum_to_index_less [of code] ph.decode_bytes [OF assms(1)] body.decode_bytes [OF assms(2)]
    by (auto simp: event_of_view_def v e code_types_nth has_footer_def footer_view_def footer_size_in_bytes_def Let_def)
  moreover have "ch_next_event_position h =
      (if code = Rotate \<and> flag_set_has_element flags artificial_flag then 0 else offset + ch_event_size h)"
    by (simp add: h create_with_offset_def make_common_header_def Let_def)
  ultimately show ?thesis using made size(1) by (intro exI [of _ e] exI [of _ "ev_portion v"] exI [of _ v]) (simp add: e)
qed

theorem created_event_reads_back_witness:
  "\<exists>e bytes v. create_event (\<lambda>_. 7) Rotate 100 5 1 0 (Rotate_post_header 4) (Rotate_body [98, 46, 49]) True [] = Inr (e, bytes) \<and>
     make_event_view (\<lambda>_. 7) stop_context bytes = Inr v \<and> event_of_view v = Inr e \<and> ch_next_event_position (evt_common_header e) = 134"
proof -
  have "buffer_reusable (created_size (Rotate_post_header 4) (Rotate_body [98, 46, 49]) True) []"
    by (rule empty_buffer_reusable) (simp add: created_size_def)
  moreover have "rc_footer_expected stop_context" "get_current_post_header_length stop_context Rotate = Some 8" by code_simp+
  moreover have "\<not> flag_set_has_element 0 artificial_flag" by code_simp
  ultimately obtain e bytes v where
    "create_event (\<lambda>_. 7) Rotate 100 5 1 0 (Rotate_post_header 4) (Rotate_body [98, 46, 49]) True [] = Inr (e, bytes)"
    "make_event_view (\<lambda>_. 7) stop_context bytes = Inr v" "event_of_view v = Inr e"
    "ch_next_event_position (evt_common_header e) = 100 + ch_event_size (evt_common_header e)"
    using created_event_reads_back [of Rotate "Rotate_post_header 4" "Rotate_body [98, 46, 49]" True "[]" stop_context "\<lambda>_. 7" 100 5 1 0]
    by (auto simp: created_size_def)
  moreover have "map_sum id (ch_event_size \<circ> evt_common_header \<circ> fst)
      (create_event (\<lambda>_. 7) Rotate 100 5 1 0 (Rotate_post_header 4) (Rotate_body [98, 46, 49]) True []) = Inr 34" by code_simp
  ultimately show ?thesis by auto
qed

end
