(* ===== verification/Rewriter.thy ===== *)
theory Rewriter
  imports Event
begin

text \<open>
  The rewriting of received events for their place in a storage of its own layout (\<open>rewriter.cpp\<close>,
  and the updatable view with its write proxy in \<open>event_view.hpp\<close>): the event is copied, gets a
  footer if it has none, its size and position fields are set, GTID events are renumbered, and the
  checksum is computed anew. A write proxy is a function on the bytes of the event; the checksum is
  set when it is gone.
\<close>

section \<open>Updatable views\<close>

definition get_write_proxy :: "crc32 \<Rightarrow> (event_view \<Rightarrow> event_view result) \<Rightarrow> event_view \<Rightarrow> event_view result" where
  "get_write_proxy crc modification uv =
     rbind (modification uv) (\<lambda>uv.
     if has_footer uv then
       case footer_view (get_footer_raw uv) of
         Inl _ \<Rightarrow> Inl (Terminate ''~write_proxy'')
       | Inr footer_v \<Rightarrow>
           Inr (uv\<lparr> ev_portion := take (get_total_size uv - ev_footer_size uv) (ev_portion uv) @
             set_crc_raw (calculate_crc crc uv) footer_v \<rparr>)
     else Inr uv)"

text \<open>An update through \<open>get_common_header_updatable_view\<close>.\<close>

definition update_common_header :: "(byte list \<Rightarrow> byte list) \<Rightarrow> event_view \<Rightarrow> event_view result" where
  "update_common_header setters uv =
     rbind (common_header_view (get_common_header_raw uv)) (\<lambda>common_header_uv.
     Inr (uv\<lparr> ev_portion := setters common_header_uv @ drop default_common_header_length (ev_portion uv) \<rparr>))"

section \<open>Materialization\<close>

datatype materialization_type = Force_add_checksum | Force_remove_checksum | Leave_checksum_as_is

definition normalized_mode :: "event_view \<Rightarrow> materialization_type \<Rightarrow> materialization_type" where
  "normalized_mode event_v mode =
     (let mode = (if mode = Force_remove_checksum \<and> \<not> has_footer event_v then Leave_checksum_as_is else mode)
      in if mode = Force_add_checksum \<and> has_footer event_v then Leave_checksum_as_is else mode)"

definition prepare_generic_materialize_internal ::
    "event_view \<Rightarrow> materialization_type \<Rightarrow> materialization_type \<times> event_view" where
  "prepare_generic_materialize_internal event_v mode =
     (let mode = normalized_mode event_v mode;
          source_portion = ev_portion event_v;
          (buffer, destination_footer_size) =
            (case mode of
               Force_add_checksum \<Rightarrow> (source_portion @ replicate footer_size_in_bytes 0, footer_size_in_bytes)
             | Force_remove_checksum \<Rightarrow> (take (get_total_size event_v - footer_size_in_bytes) source_portion, 0)
             | Leave_checksum_as_is \<Rightarrow> (source_portion, ev_footer_size event_v))
      in (mode, \<lparr> ev_portion = buffer, ev_post_header_size = ev_post_header_size event_v,
                  ev_footer_size = destination_footer_size \<rparr>))"

definition generic_materialize ::
    "crc32 \<Rightarrow> event_view \<Rightarrow> materialization_type \<Rightarrow> (materialization_type \<Rightarrow> event_view \<Rightarrow> event_view result) \<Rightarrow>
     event_view result" where
  "generic_materialize crc event_v mode modification_functor =
     (let (mode, result) = prepare_generic_materialize_internal event_v mode
      in get_write_proxy crc (modification_functor mode) result)"

definition resize_setters :: "materialization_type \<Rightarrow> event_view \<Rightarrow> byte list \<Rightarrow> byte list" where
  "resize_setters mode proxy h =
     (if mode \<noteq> Leave_checksum_as_is then set_event_size_raw (of_nat (get_total_size proxy)) h else h)"

definition relocate_setters :: "uint64 \<Rightarrow> materialization_type \<Rightarrow> event_view \<Rightarrow> byte list \<Rightarrow> byte list" where
  "relocate_setters offset mode proxy h =
     set_next_event_position_raw (ucast (offset + of_nat (get_total_size proxy))) (resize_setters mode proxy h)"

text \<open>The header view is only made when the size has to be set.\<close>

definition materialize :: "crc32 \<Rightarrow> event_view \<Rightarrow> materialization_type \<Rightarrow> event_view result" where
  "materialize crc event_v mode =
     generic_materialize crc event_v mode (\<lambda>mode proxy.
       if mode \<noteq> Leave_checksum_as_is then update_common_header (resize_setters mode proxy) proxy else Inr proxy)"

definition materialize_and_relocate :: "crc32 \<Rightarrow> event_view \<Rightarrow> materialization_type \<Rightarrow> uint64 \<Rightarrow> event_view result" where
  "materialize_and_relocate crc event_v mode offset =
     generic_materialize crc event_v mode (\<lambda>mode proxy.
       update_common_header (relocate_setters offset mode proxy) proxy)"

section \<open>Renumbering of GTID events\<close>

definition fix_sequence_number_and_last_committed :: "uint64 \<Rightarrow> uint64 \<Rightarrow> uint64 \<Rightarrow> (uint64 \<times> uint64) result" where
  "fix_sequence_number_and_last_committed last_local_sequence_number remote_sequence_number remote_last_committed =
     rbind (ensure (\<not> remote_last_committed \<ge> remote_sequence_number)
       (Logic_error ''remote last_committed is greater than or equal to remote sequence_number'')) (\<lambda>_.
     let delta = remote_sequence_number - remote_last_committed;
         remote_sequence_number = last_local_sequence_number + 1;
         remote_last_committed = remote_sequence_number;
         remote_last_committed =
           (if remote_last_committed > delta then remote_last_committed - delta
            else if remote_sequence_number = 1 then 0 else 1)
     in Inr (remote_sequence_number, remote_last_committed))"

definition update_post_header :: "byte list \<Rightarrow> event_view \<Rightarrow> event_view" where
  "update_post_header bytes uv =
     uv\<lparr> ev_portion := take default_common_header_length (ev_portion uv) @ bytes @
       drop (default_common_header_length + ev_post_header_size uv) (ev_portion uv) \<rparr>"

definition rewrite_gtid_log_internal :: "crc32 \<Rightarrow> uint64 \<Rightarrow> event_view \<Rightarrow> uint64 \<Rightarrow> event_view result" where
  "rewrite_gtid_log_internal crc last_local_sequence_number current_event_v offset =
     generic_materialize crc current_event_v Force_add_checksum (\<lambda>mode proxy.
       rbind (update_common_header (relocate_setters offset mode proxy) proxy) (\<lambda>proxy.
       rbind (gtid_log_post_header_decode (get_post_header_raw proxy)) (\<lambda>h.
       rbind (fix_sequence_number_and_last_committed last_local_sequence_number
                (glp_sequence_number h) (glp_last_committed h)) (\<lambda>(sequence_number, last_committed).
       rbind (gtid_log_post_header_encode_to
                (h\<lparr> glp_sequence_number := sequence_number, glp_last_committed := last_committed \<rparr>)
                ([], get_post_header_raw proxy)) (\<lambda>(encoded, rest).
       Inr (update_post_header (encoded @ rest) proxy))))))"

definition event_size_calculator :: "tagged_body \<Rightarrow> uint64 \<Rightarrow> nat \<Rightarrow> nat result" where
  "event_size_calculator updated_body transaction_tail_length event_size_candidate =
     rbind (tagged_body_calculate_encoded_size
              (updated_body\<lparr> tb_transaction_length := of_nat event_size_candidate + transaction_tail_length \<rparr>)) (\<lambda>body_size.
     Inr (default_common_header_length + body_size + default_footer_length))"

text \<open>
  The loop returns the number of iterations, the last recalculated size and the body with the
  transaction length of the last candidate.
\<close>

function tagged_size_loop :: "tagged_body \<Rightarrow> uint64 \<Rightarrow> nat \<Rightarrow> nat \<Rightarrow> (nat \<times> nat \<times> tagged_body) result" where
  "tagged_size_loop updated_body transaction_tail_length event_size_candidate iteration =
     rbind (event_size_calculator updated_body transaction_tail_length event_size_candidate) (\<lambda>recalculated_event_size.
     if recalculated_event_size \<noteq> event_size_candidate \<and> iteration < max_number_of_iterations
     then tagged_size_loop updated_body transaction_tail_length recalculated_event_size (Suc iteration)
     else Inr (iteration, recalculated_event_size,
       updated_body\<lparr> tb_transaction_length := of_nat event_size_candidate + transaction_tail_length \<rparr>))"
  by pat_completeness auto
termination
  by (relation "measure (\<lambda>(_, _, _, iteration). max_number_of_iterations - iteration)") auto

declare tagged_size_loop.simps [simp del]

definition rewrite_gtid_tagged_log_internal :: "crc32 \<Rightarrow> uint64 \<Rightarrow> event_view \<Rightarrow> byte list \<Rightarrow> uint64 \<Rightarrow> event_view result" where
  "rewrite_gtid_tagged_log_internal crc last_local_sequence_number current_event_v buffer offset =
     (let original_event_size = get_total_size current_event_v in
      rbind (tagged_body_decode (get_body_raw current_event_v)) (\<lambda>updated_body.
      let original_transaction_length = tb_transaction_length updated_body in
      rbind (ensure (\<not> unat original_transaction_length < original_event_size)
        (Logic_error ''transaction length in the gtid tagged log event is less than the event size'')) (\<lambda>_.
      let transaction_tail_length = original_transaction_length - of_nat original_event_size in
      rbind (fix_sequence_number_and_last_committed last_local_sequence_number
               (tb_sequence_number updated_body) (tb_last_committed updated_body)) (\<lambda>(sequence_number, last_committed).
      let updated_body = updated_body\<lparr> tb_sequence_number := sequence_number, tb_last_committed := last_committed \<rparr> in
      rbind (tagged_size_loop updated_body transaction_tail_length original_event_size 0)
        (\<lambda>(iteration, recalculated_event_size, updated_body).
      rbind (ensure (iteration < max_number_of_iterations) (Undefined_behaviour ''assert'')) (\<lambda>_.
      let buffer = buffer_resize recalculated_event_size buffer;
          buffer = get_common_header_raw current_event_v @ drop default_common_header_length buffer;
          result = \<lparr> ev_portion = buffer, ev_post_header_size = 0, ev_footer_size = default_footer_length \<rparr> in
      get_write_proxy crc (\<lambda>proxy.
        rbind (update_common_header (\<lambda>h.
            set_next_event_position_raw (ucast (offset + of_nat recalculated_event_size))
              (set_event_size_raw (of_nat recalculated_event_size) h)) proxy) (\<lambda>proxy.
        rbind (tagged_body_encode_to updated_body ([], get_body_raw proxy)) (\<lambda>(encoded, rest).
        Inr (proxy\<lparr> ev_portion := take default_common_header_length (ev_portion proxy) @ encoded @ rest @ get_footer_raw proxy \<rparr>))))
        result))))))"

definition rewrite :: "crc32 \<Rightarrow> uint64 \<Rightarrow> event_view \<Rightarrow> byte list \<Rightarrow> uint64 \<Rightarrow> event_view result" where
  "rewrite crc last_local_sequence_number current_event_v buffer offset =
     rbind (common_header_view (get_common_header_raw current_event_v)) (\<lambda>common_header_v.
     let code = get_type_code common_header_v in
     if code = Gtid_log \<or> code = Anonymous_gtid_log then
       rewrite_gtid_log_internal crc last_local_sequence_number current_event_v offset
     else if code = Gtid_tagged_log then
       rewrite_gtid_tagged_log_internal crc last_local_sequence_number current_event_v buffer offset
     else materialize_and_relocate crc current_event_v Force_add_checksum offset)"

end
