(* ===== verification/Rewriter_Properties.thy ===== *)
theory Rewriter_Properties
  imports Rewriter
begin

text \<open>
  The rewriter keeps events well formed: the parts of an accepted event determine its bytes, each
  update of the rewriter acts on one part, and the result has a consistent size, position and
  checksum.
\<close>

section \<open>Events as their parts\<close>

lemma drop_subspan: "drop k bs = subspan k m bs @ drop (k + m) bs"
  by (metis subspan_def append_take_drop_id drop_drop add.commute)

lemma get_field_inverse:
  assumes "offset + n \<le> length bs" and "8 * n \<le> LENGTH('a::len)"
  shows "le_of_nat n (unat (get_field offset n bs :: 'a word)) = subspan offset n bs"
proof -
  have len: "length (subspan offset n bs) = n" using assms(1) by (rule length_subspan)
  have "nat_of_le (subspan offset n bs) < 256 ^ n" using nat_of_le_less [of "subspan offset n bs"] len by simp
  also have "(256 :: nat) ^ n = 2 ^ (8 * n)" by (simp add: power_mult)
  also have "\<dots> \<le> 2 ^ LENGTH('a)" using assms(2) by (rule power_increasing) simp
  finally have "unat (of_nat (nat_of_le (subspan offset n bs)) :: 'a word) = nat_of_le (subspan offset n bs)"
    by (simp add: unat_of_nat)
  then show ?thesis
    using le_of_nat_nat_of_le [of "subspan offset n bs"] len by (simp add: get_field_def read_fixed_int_def)
qed

lemma common_header_bytes_of_view:
  assumes "length hb = 19"
  shows "common_header_bytes (common_header_of_view hb) = hb"
proof -
  have "hb = subspan 0 4 hb @ subspan 4 1 hb @ subspan 5 4 hb @ subspan 9 4 hb @ subspan 13 4 hb @ subspan 17 2 hb"
    using drop_subspan [of 0 hb 4] drop_subspan [of 4 hb 1] drop_subspan [of 5 hb 4] drop_subspan [of 9 hb 4]
      drop_subspan [of 13 hb 4] drop_subspan [of 17 hb 2] assms by (simp del: One_nat_def)
  then show ?thesis
    using assms
    by (simp add: common_header_bytes_def common_header_of_view_def get_timestamp_raw_def get_type_code_raw_def get_server_id_raw_def
        get_event_size_raw_def get_next_event_position_raw_def get_flags_raw_def header_offsets get_field_inverse del: le_of_nat.simps)
qed

lemma set_header_fields:
  "set_event_size_raw s (common_header_bytes h) = common_header_bytes (h\<lparr> ch_event_size := s \<rparr>)"
  "set_next_event_position_raw p (common_header_bytes h) = common_header_bytes (h\<lparr> ch_next_event_position := p \<rparr>)"
  by (simp_all add: set_event_size_raw_def set_next_event_position_raw_def set_field_def header_offsets common_header_bytes_def
      drop_append del: le_of_nat.simps)

lemma view_parts:
  assumes "event_view_ok v"
  obtains h where "v = parts_view h (get_post_header_raw v) (get_body_raw v) (get_footer_raw v)"
    "unat (ch_type_code h) < 43" "unat (ch_event_size h) = get_total_size v" "get_common_header_raw v = common_header_bytes h"
proof
  let ?hb = "get_common_header_raw v"
  let ?h = "common_header_of_view ?hb"
  have len: "19 + ev_post_header_size v + ev_footer_size v \<le> length (ev_portion v)"
    using assms by (simp add: event_view_ok_def get_total_size_def)
  then have "length ?hb = 19" by (simp add: get_common_header_raw_def length_subspan)
  then show hb: "?hb = common_header_bytes ?h" by (simp add: common_header_bytes_of_view)
  have ok: "unat (get_type_code_raw ?hb) < 43" "unat (get_event_size_raw ?hb) = get_total_size v"
    using assms by (simp_all add: event_view_ok_def common_header_view_def result_simps)
  show "unat (ch_type_code ?h) < 43" "unat (ch_event_size ?h) = get_total_size v"
    using ok by (simp_all add: common_header_of_view_def)
  let ?n = "length (ev_portion v)" and ?p = "ev_post_header_size v" and ?f = "ev_footer_size v"
  have "subspan (?n - ?f) ?f (ev_portion v) = drop (?n - ?f) (ev_portion v)" by (simp add: subspan_def)
  moreover have "19 + ?p + (?n - 19 - ?p - ?f) = ?n - ?f" using len by simp
  ultimately have "ev_portion v = ?hb @ get_post_header_raw v @ get_body_raw v @ get_footer_raw v"
    using drop_subspan [of 0 "ev_portion v" 19] drop_subspan [of 19 "ev_portion v" ?p]
      drop_subspan [of "19 + ?p" "ev_portion v" "?n - 19 - ?p - ?f"]
    by (simp add: get_common_header_raw_def get_post_header_raw_def get_body_raw_def get_body_size_def get_footer_raw_def get_total_size_def)
  moreover have "length (get_post_header_raw v) = ?p" "length (get_footer_raw v) = ?f"
    using len by (simp_all add: get_post_header_raw_def get_footer_raw_def get_total_size_def length_subspan)
  ultimately show "v = parts_view ?h (get_post_header_raw v) (get_body_raw v) (get_footer_raw v)"
    using hb by (simp add: parts_view_def)
qed

section \<open>Write proxies and materialization\<close>

definition footed_view :: "crc32 \<Rightarrow> common_header \<Rightarrow> byte list \<Rightarrow> byte list \<Rightarrow> event_view" where
  "footed_view crc h post_header body =
     parts_view h post_header body (le_of_nat 4 (unat (crc (common_header_bytes h @ post_header @ body))))"


lemma write_proxy_parts:
  assumes "modification uv = Inr (parts_view h p b f)" and "length f = 4"
  shows "get_write_proxy crc modification uv = Inr (footed_view crc h p b)"
proof -
  have "take (get_total_size (parts_view h p b f) - length f) (ev_portion (parts_view h p b f)) = common_header_bytes h @ p @ b"
    by simp
  then show ?thesis
    using assms by (simp add: get_write_proxy_def has_footer_def footer_view_def footer_size_in_bytes_def set_crc_raw_eq
        footed_view_def parts_view_def [of h p b "le_of_nat 4 _"] del: append_assoc parts_view_fields(1))
qed

lemma update_header_parts:
  assumes "unat (ch_type_code h) < 43" and "setters (common_header_bytes h) = common_header_bytes h'"
  shows "update_common_header setters (parts_view h p b f) = Inr (parts_view h' p b f)"
  using assms by (simp add: update_common_header_def common_header_view_def header_getters header_offsets)

text \<open>The header of an event of \<open>n\<close> bytes at an offset.\<close>

definition relocated :: "uint64 \<Rightarrow> nat \<Rightarrow> common_header \<Rightarrow> common_header" where
  "relocated offset n h = h\<lparr> ch_event_size := of_nat n, ch_next_event_position := ucast (offset + of_nat n) \<rparr>"

lemma relocated_fields [simp]:
  "ch_timestamp (relocated offset n h) = ch_timestamp h" "ch_type_code (relocated offset n h) = ch_type_code h"
  "ch_server_id (relocated offset n h) = ch_server_id h" "ch_flags (relocated offset n h) = ch_flags h"
  "ch_event_size (relocated offset n h) = of_nat n" "ch_next_event_position (relocated offset n h) = ucast (offset + of_nat n)"
  by (simp_all add: relocated_def)

lemma relocate_setters_parts:
  assumes "mode = Leave_checksum_as_is \<Longrightarrow> ch_event_size h = of_nat (get_total_size proxy)"
  shows "relocate_setters offset mode proxy (common_header_bytes h) = common_header_bytes (relocated offset (get_total_size proxy) h)"
proof (cases "mode = Leave_checksum_as_is")
  case True
  then have "relocated offset (get_total_size proxy) h = h\<lparr> ch_next_event_position := ucast (offset + of_nat (get_total_size proxy)) \<rparr>"
    using assms by (cases h) (simp add: relocated_def)
  then show ?thesis using True by (simp add: relocate_setters_def resize_setters_def set_header_fields)
qed (simp add: relocate_setters_def resize_setters_def set_header_fields relocated_def)

lemma prepare_parts:
  assumes "length f = 0 \<or> length f = 4"
  obtains f' where "prepare_generic_materialize_internal (parts_view h p b f) Force_add_checksum =
      (if f = [] then Force_add_checksum else Leave_checksum_as_is, parts_view h p b f')" "length f' = 4"
proof
  let ?f = "if f = [] then replicate 4 0 else f"
  show "prepare_generic_materialize_internal (parts_view h p b f) Force_add_checksum =
      (if f = [] then Force_add_checksum else Leave_checksum_as_is, parts_view h p b ?f)" "length ?f = 4"
    using assms by (auto simp: prepare_generic_materialize_internal_def normalized_mode_def has_footer_def footer_size_in_bytes_def
        parts_view_def)
qed

lemma force_add_parts:
  assumes v: "v = parts_view h p b f" and f: "length f = 0 \<or> length f = 4" and code: "unat (ch_type_code h) < 43"
    and size: "unat (ch_event_size h) = get_total_size v"
    and k: "\<And>f'. length f' = 4 \<Longrightarrow> k (parts_view (relocated offset (23 + length p + length b) h) p b f') =
      Inr (parts_view (relocated offset (23 + length p + length b) h) p' b f')"
  shows "generic_materialize crc v Force_add_checksum
      (\<lambda>mode proxy. rbind (update_common_header (relocate_setters offset mode proxy) proxy) k) =
    Inr (footed_view crc (relocated offset (23 + length p + length b) h) p' b)"
proof -
  let ?mode = "if f = [] then Force_add_checksum else Leave_checksum_as_is" and ?n = "23 + length p + length b"
  obtain f' where f': "prepare_generic_materialize_internal v Force_add_checksum = (?mode, parts_view h p b f')" "length f' = 4"
    using prepare_parts [OF f] v by metis
  have total: "get_total_size (parts_view h p b f') = ?n" using f'(2) by simp
  have "ch_event_size h = of_nat ?n" if "f \<noteq> []"
  proof -
    have "unat (ch_event_size h) = ?n" using size that f by (auto simp: v)
    moreover have "of_nat (unat (ch_event_size h)) = ch_event_size h" by simp
    ultimately show ?thesis by (simp only:)
  qed
  then have "relocate_setters offset ?mode (parts_view h p b f') (common_header_bytes h) = common_header_bytes (relocated offset ?n h)"
    unfolding total [symmetric] by (intro relocate_setters_parts) (simp split: if_splits)
  then have "update_common_header (relocate_setters offset ?mode (parts_view h p b f')) (parts_view h p b f') =
      Inr (parts_view (relocated offset ?n h) p b f')"
    by (rule update_header_parts [OF code])
  then show ?thesis
    using write_proxy_parts [of "\<lambda>proxy. rbind (update_common_header (relocate_setters offset ?mode proxy) proxy) k"
        "parts_view h p b f'" _ p' b f' crc] k [OF f'(2)] f'
    by (simp add: generic_materialize_def)
qed

section \<open>The three kinds of events\<close>

lemma relocate_parts:
  assumes "v = parts_view h p b f" and "length f = 0 \<or> length f = 4" and "unat (ch_type_code h) < 43"
    and "unat (ch_event_size h) = get_total_size v"
  shows "materialize_and_relocate crc v Force_add_checksum offset =
    Inr (footed_view crc (relocated offset (23 + length p + length b) h) p b)"
proof -
  have "rbind x Inr = x" for x :: "event_view result" by (cases x) simp_all
  then show ?thesis using force_add_parts [OF assms, of Inr offset p crc] by (simp add: materialize_and_relocate_def)
qed

lemma gtid_log_post_header_decode_ok:
  assumes "gtid_log_post_header_decode portion = Inr g"
  shows "length portion = 42" "length (glp_uuid g) = uuid_length" "glp_logical_ts_code g = known_logical_ts_code"
  using assms
  by (auto simp: gtid_log_post_header_decode_def gtid_log_post_header_size_def result_simps extract_byte_array_from_byte_span_def
      extract_fixed_int_from_byte_span_def read_fixed_int_def)

definition renumbered :: "uint64 \<Rightarrow> uint64 \<Rightarrow> uint64 \<Rightarrow> uint64" where
  "renumbered local sequence_number last_committed =
     (if local + 1 > sequence_number - last_committed then local + 1 - (sequence_number - last_committed)
      else if local + 1 = 1 then 0 else 1)"

lemma fix_sequence_number_eq:
  "last_committed < sequence_number \<Longrightarrow>
   fix_sequence_number_and_last_committed local sequence_number last_committed = Inr (local + 1, renumbered local sequence_number last_committed)"
  by (simp add: fix_sequence_number_and_last_committed_def renumbered_def Let_def not_le)

lemma gtid_log_parts:
  assumes "v = parts_view h p b f" and "length f = 0 \<or> length f = 4" and "unat (ch_type_code h) < 43"
    and "unat (ch_event_size h) = get_total_size v"
    and g: "gtid_log_post_header_decode p = Inr g" "glp_last_committed g < glp_sequence_number g"
    and g': "g' = g\<lparr> glp_sequence_number := local + 1,
      glp_last_committed := renumbered local (glp_sequence_number g) (glp_last_committed g) \<rparr>"
  shows "rewrite_gtid_log_internal crc local v offset =
    Inr (footed_view crc (relocated offset (23 + length p + length b) h) (gtid_log_post_header_bytes g') b)"
    "gtid_log_post_header_decode (gtid_log_post_header_bytes g') = Inr g'"
proof -
  note ok = gtid_log_post_header_decode_ok [OF g(1)]
  show "gtid_log_post_header_decode (gtid_log_post_header_bytes g') = Inr g'"
    using ok by (intro gtid_log_post_header_decode_bytes) (simp_all add: g')
  have len: "length (gtid_log_post_header_bytes g') = 42" using ok by (simp add: length_gtid_log_post_header_bytes g')
  have encode: "gtid_log_post_header_encode_to g' ([], p) = Inr (gtid_log_post_header_bytes g', [])"
    using gtid_log_post_header_encode_eq [of g' "([], p)"] ok len by (simp add: g' write_bytes_def)
  have post: "update_post_header (gtid_log_post_header_bytes g') (parts_view h' p b f') = parts_view h' (gtid_log_post_header_bytes g') b f'"
    for h' f' using ok(1) len by (simp add: update_post_header_def parts_view_def)
  show "rewrite_gtid_log_internal crc local v offset =
    Inr (footed_view crc (relocated offset (23 + length p + length b) h) (gtid_log_post_header_bytes g') b)"
    unfolding rewrite_gtid_log_internal_def
    by (rule force_add_parts [OF assms(1-4)]) (simp add: g(1) fix_sequence_number_eq [OF g(2)] encode [unfolded g'] post [unfolded g'] g')
qed

section \<open>Tagged GTID events\<close>

lemma extract_uuid_field_count: "extract_uuid_field n r = Inr (bs, r') \<Longrightarrow> length bs = n"
  by (induction n arbitrary: r bs) (fastforce simp: result_simps)+

lemma extract_tag_field_count: "extract_tag_field r = Inr (bs, r') \<Longrightarrow> length bs \<le> tag_max_length"
  by (auto simp: extract_tag_field_def result_simps or_raise_eq_Inr extract_byte_span_from_byte_span_checked_def split: if_splits)

lemma process_field_data_ok:
  "process_field_data i r b = Inr (b', r') \<Longrightarrow> tagged_body_ok b \<Longrightarrow> tagged_body_ok b'"
  unfolding process_field_data_def
  by (auto simp: result_simps tagged_body_ok_def split: if_splits dest: extract_uuid_field_count extract_tag_field_count)

lemma tagged_fields_loop_ok:
  "tagged_fields_loop i m r b = Inr (b', m', r') \<Longrightarrow> tagged_body_ok b \<Longrightarrow> tagged_body_ok b'"
proof (induction i m r b rule: tagged_fields_loop.induct)
  case (1 i m r b)
  note step = 1(2) [unfolded tagged_fields_loop.simps [of i m r b]]
  show ?case
  proof (cases "extract_varlen_int_from_byte_span_checked r :: (uint8 \<times> byte list) option")
    case None
    then show ?thesis using step 1(3) by simp
  next
    case (Some q)
    obtain field_id r1 where q: "q = (field_id, r1)" by fastforce
    obtain b1 r2 where data: "process_field_data field_id r1 b = Inr (b1, r2)"
      and rest: "tagged_fields_loop field_id (m[unat field_id := False]) r2 b1 = Inr (b', m', r')"
      and guards: "\<not> (i \<noteq> 255 \<and> field_id \<le> i)"
        "\<not> (field_id \<le> known_last_non_ignorable_field_id \<and> field_id \<noteq> 0 \<and> unat field_id \<noteq> unat i + 1)"
      using step Some q by (auto simp: result_simps)
    have "tagged_body_ok b1" using process_field_data_ok [OF data 1(3)] .
    then show ?thesis using 1(1) [OF Some q [symmetric] _ _ data refl rest] guards by simp
  qed
qed

lemma tagged_body_decode_ok: "tagged_body_decode bs = Inr b \<Longrightarrow> tagged_body_ok b"
  by (auto simp: tagged_body_decode_def result_simps tagged_body_ok_def tagged_body_init_def
      dest!: tagged_fields_loop_ok)

lemma varlen_size_le:
  assumes "unat v < 2 ^ (7 * j)" and "1 \<le> j"
  shows "calculate_varlen_int_size (v :: uint64) \<le> j"
proof -
  have "bit_width_nat (unat v) \<le> 7 * j" using assms(1) by (simp only: bit_width_nat_le_iff)
  then have "(bit_width_nat (unat v) + 6) div 7 \<le> j" by simp
  moreover have "calculate_varlen_int_size v = (if v = 0 then 1 else min 9 ((bit_width_nat (unat v) + 6) div 7))"
    by (rule calculate_varlen_int_size_eq) simp
  ultimately show ?thesis using assms(2) by (auto simp: min_def)
qed

lemma varlen_size_ge: "j < calculate_varlen_int_size (v :: uint64) \<Longrightarrow> 1 \<le> j \<Longrightarrow> 2 ^ (7 * j) \<le> unat v"
  using varlen_size_le [of v j] by linarith

lemma varlen_size_mono:
  assumes "unat u \<le> unat v"
  shows "calculate_varlen_int_size (u :: uint64) \<le> calculate_varlen_int_size (v :: uint64)"
proof (cases "calculate_varlen_int_size v \<le> 8")
  case True
  have "unat v < 2 ^ (7 * calculate_varlen_int_size v)" using True by (intro varlen_size_bounds(3)) simp_all
  then show ?thesis using assms varlen_size_bounds(1) [of v] by (intro varlen_size_le) simp_all
next
  case False
  then show ?thesis using varlen_size_bounds(2) [of u] by simp
qed

text \<open>In a short window of numbers the width changes at most once.\<close>

lemma varlen_size_window:
  fixes u v w :: uint64
  assumes "unat u \<le> unat v" and "unat v \<le> unat w" and "unat w \<le> unat u + 16"
  shows "calculate_varlen_int_size u = calculate_varlen_int_size v \<or> calculate_varlen_int_size v = calculate_varlen_int_size w"
proof (rule ccontr)
  let ?a = "calculate_varlen_int_size u" and ?b = "calculate_varlen_int_size v" and ?c = "calculate_varlen_int_size w"
  assume "\<not> (?a = ?b \<or> ?b = ?c)"
  then have less: "?a < ?b" "?b < ?c" using varlen_size_mono [OF assms(1)] varlen_size_mono [OF assms(2)] by simp_all
  have a: "1 \<le> ?a" "?a \<le> 8" using varlen_size_bounds(1) [of u] varlen_size_bounds(2) [of w] less by simp_all
  have "unat u < 2 ^ (7 * ?a)" using a(2) by (intro varlen_size_bounds(3)) simp_all
  moreover have "(2 :: nat) ^ (7 * (?a + 1)) \<le> 2 ^ (7 * ?b)" using less(1) by (intro power_increasing) simp_all
  then have "128 * (2 :: nat) ^ (7 * ?a) \<le> unat w"
    using varlen_size_ge [of ?b w] less a(1) by (simp add: power_add)
  moreover have "(2 :: nat) ^ (7 * 1) \<le> 2 ^ (7 * ?a)" using a(1) by (intro power_increasing) simp_all
  ultimately show False using assms(3) by simp
qed

lemma monotone_iteration_settles:
  fixes g w :: "nat \<Rightarrow> nat"
  assumes g: "\<And>s t. s \<le> t \<Longrightarrow> g s \<le> g t" "\<And>x. L \<le> g (w x) \<and> g (w x) \<le> L + 16"
    and w: "\<And>x y. x \<le> y \<Longrightarrow> y \<le> L + 16 \<Longrightarrow> w x \<le> w y"
    and window: "\<And>x y z. x \<le> y \<Longrightarrow> y \<le> z \<Longrightarrow> z \<le> x + 16 \<Longrightarrow> z \<le> L + 16 \<Longrightarrow> w x = w y \<or> w y = w z"
    and xs: "x1 = g (w x0)" "x2 = g (w x1)" "x3 = g (w x2)"
  shows "g (w x3) = x3"
proof -
  have r: "L \<le> x1 \<and> x1 \<le> L + 16" "L \<le> x2 \<and> x2 \<le> L + 16" "L \<le> x3 \<and> x3 \<le> L + 16"
    using g(2) by (simp_all add: xs)
  consider "x1 \<le> x2" | "x2 \<le> x1" by linarith
  then have "w x1 = w x2 \<or> w x2 = w x3"
  proof cases
    case 1
    then have "x2 \<le> x3" using g(1) [OF w, of x1 x2] r by (simp add: xs(2,3))
    with 1 show ?thesis using window [of x1 x2 x3] r by linarith
  next
    case 2
    then have "x3 \<le> x2" using g(1) [OF w, of x2 x1] r by (simp add: xs(2,3))
    with 2 show ?thesis using window [of x3 x2 x1] r by linarith
  qed
  then show ?thesis using xs by auto
qed

subsection \<open>The size of the rewritten event\<close>

text \<open>The size of a tagged GTID event as a function of the width of its transaction length.\<close>

definition tagged_event_size :: "tagged_body \<Rightarrow> nat \<Rightarrow> nat" where
  "tagged_event_size b width =
     (let fields = calculate_tlv_section_size (b\<lparr> tb_transaction_length := 0 \<rparr>) - 1 + width
      in if fields < 125 then 26 + fields else 27 + fields)"

lemma tlv_transaction_length:
  "calculate_tlv_section_size (b\<lparr> tb_transaction_length := x \<rparr>) =
   calculate_tlv_section_size (b\<lparr> tb_transaction_length := 0 \<rparr>) - 1 + calculate_varlen_int_size x"
proof -
  have "calculate_varlen_int_size (0 :: uint64) = 1" by (rule varlen_size_1) simp
  then have "calculate_tlv_section_size (b\<lparr> tb_transaction_length := x \<rparr>) + 1 =
      calculate_tlv_section_size (b\<lparr> tb_transaction_length := 0 \<rparr>) + calculate_varlen_int_size x"
    by (cases b, simp only: calculate_tlv_section_size_def tb_has_original_commit_timestamp_def tb_has_original_server_version_def
        tb_has_commit_group_ticket_def tagged_body.update_convs tagged_body.select_convs)
  moreover have "1 \<le> calculate_tlv_section_size c" for c
    unfolding calculate_tlv_section_size_def using varlen_size_bounds(1) [of "0 :: uint8"] by simp
  then have "1 \<le> calculate_tlv_section_size (b\<lparr> tb_transaction_length := 0 \<rparr>)" .
  ultimately show ?thesis by linarith
qed

lemma event_size_calculator_eq:
  assumes "tagged_body_ok b"
  shows "event_size_calculator b tail x = Inr (tagged_event_size b (calculate_varlen_int_size (of_nat x + tail)))"
proof -
  have "tagged_body_ok (b\<lparr> tb_transaction_length := of_nat x + tail \<rparr>)" using assms by (simp add: tagged_body_ok_def)
  then show ?thesis
    using tlv_transaction_length [where b = b and x = "of_nat x + tail"]
    by (simp add: event_size_calculator_def tagged_calculate_encoded_size_eq tagged_event_size_def Let_def)
qed

lemma tagged_event_size_mono: "s \<le> t \<Longrightarrow> tagged_event_size b s \<le> tagged_event_size b t"
  by (simp add: tagged_event_size_def Let_def)

lemma tagged_event_size_range:
  assumes "tagged_body_ok b" and "s \<le> 9"
  shows "tagged_event_size b 0 \<le> tagged_event_size b s \<and> tagged_event_size b s \<le> tagged_event_size b 0 + 16 \<and>
    tagged_event_size b 0 < 2000"
proof -
  have "calculate_tlv_section_size (b\<lparr> tb_transaction_length := 0 \<rparr>) < 1000"
    using assms(1) by (intro tlv_section_bounded) (simp add: tagged_body_ok_def)
  then show ?thesis using assms(2) by (simp add: tagged_event_size_def Let_def)
qed

lemma tagged_size_settles:
  fixes tail :: uint64
  assumes ok: "tagged_body_ok b" and room: "unat tail + 4096 < 2 ^ 64"
    and xs: "x1 = tagged_event_size b (calculate_varlen_int_size (of_nat x0 + tail))"
      "x2 = tagged_event_size b (calculate_varlen_int_size (of_nat x1 + tail))"
      "x3 = tagged_event_size b (calculate_varlen_int_size (of_nat x2 + tail))"
  shows "tagged_event_size b (calculate_varlen_int_size (of_nat x3 + tail)) = x3"
proof -
  let ?L = "tagged_event_size b 0" and ?w = "\<lambda>x. calculate_varlen_int_size (of_nat x + tail :: uint64)"
  note range = tagged_event_size_range [OF ok varlen_size_bounds(2)]
  have L: "?L + 16 < 2016" using tagged_event_size_range [OF ok, of 0] by simp
  have unat: "unat (of_nat x + tail :: uint64) = x + unat tail" if "x \<le> ?L + 16" for x
    using that L room by (simp add: unat_word_ariths unat_of_nat)
  show ?thesis
  proof (rule monotone_iteration_settles [where g = "tagged_event_size b" and w = ?w and L = ?L, OF tagged_event_size_mono _ _ _ xs])
    show "?L \<le> tagged_event_size b (?w x) \<and> tagged_event_size b (?w x) \<le> ?L + 16" for x
      using range [of "of_nat x + tail"] by simp
    show "?w x \<le> ?w y" if "x \<le> y" "y \<le> ?L + 16" for x y
      using that unat by (intro varlen_size_mono) simp
    show "?w x = ?w y \<or> ?w y = ?w z" if "x \<le> y" "y \<le> z" "z \<le> x + 16" "z \<le> ?L + 16" for x y z
      using that unat by (intro varlen_size_window) simp_all
  qed
qed

lemma tagged_size_loop_settles:
  fixes tail :: uint64
  assumes ok: "tagged_body_ok b" and room: "unat tail + 4096 < 2 ^ 64"
  obtains i n where "tagged_size_loop b tail x 0 = Inr (i, n, b\<lparr> tb_transaction_length := of_nat n + tail \<rparr>)"
    "i \<le> 3" "event_size_calculator b tail n = Inr n"
proof -
  let ?f = "\<lambda>x. tagged_event_size b (calculate_varlen_int_size (of_nat x + tail))"
  note found = that and calc = event_size_calculator_eq [OF ok, of tail]
  have loop: "tagged_size_loop b tail y i =
      (if ?f y \<noteq> y \<and> i < 9 then tagged_size_loop b tail (?f y) (Suc i)
       else Inr (i, ?f y, b\<lparr> tb_transaction_length := of_nat y + tail \<rparr>))" for y i
    by (subst tagged_size_loop.simps) (simp add: calc max_number_of_iterations_def)
  have settled: "?f (?f (?f (?f x))) = ?f (?f (?f x))"
    by (rule tagged_size_settles [OF ok room refl refl refl])
  have stop: thesis if "?f y = y" "tagged_size_loop b tail x 0 = tagged_size_loop b tail y i" "i \<le> 3" for y i
    using that calc [of y] loop [of y i] by (intro found [of i y]) simp_all
  have next_round: "tagged_size_loop b tail y i = tagged_size_loop b tail (?f y) (Suc i)" if "?f y \<noteq> y" "i \<le> 3" for y i
    using that loop [of y i] by simp
  consider "?f x = x" | "?f x \<noteq> x" "?f (?f x) = ?f x" | "?f x \<noteq> x" "?f (?f x) \<noteq> ?f x" "?f (?f (?f x)) = ?f (?f x)"
    | "?f x \<noteq> x" "?f (?f x) \<noteq> ?f x" "?f (?f (?f x)) \<noteq> ?f (?f x)" by blast
  then show thesis
  proof cases
    case 1
    show ?thesis by (rule stop [OF 1, of 0]) simp_all
  next
    case 2
    show ?thesis by (rule stop [OF 2(2), of "Suc 0"]) (simp_all add: next_round [OF 2(1)])
  next
    case 3
    show ?thesis
      by (rule stop [OF 3(3), of "Suc (Suc 0)"]) (simp_all add: next_round [OF 3(1)] next_round [OF 3(2)])
  next
    case 4
    show ?thesis
      by (rule stop [OF settled, of "Suc (Suc (Suc 0))"])
        (simp_all add: next_round [OF 4(1)] next_round [OF 4(2)] next_round [OF 4(3)])
  qed
qed


subsection \<open>The rewritten tagged event\<close>

definition renumbered_tagged :: "uint64 \<Rightarrow> nat \<Rightarrow> nat \<Rightarrow> tagged_body \<Rightarrow> tagged_body" where
  "renumbered_tagged local old_size new_size t =
     t\<lparr> tb_sequence_number := local + 1,
        tb_last_committed := renumbered local (tb_sequence_number t) (tb_last_committed t),
        tb_transaction_length := of_nat new_size + (tb_transaction_length t - of_nat old_size) \<rparr>"

lemma renumbered_tagged_ok: "tagged_body_ok t \<Longrightarrow> tagged_body_ok (renumbered_tagged local m n t)"
  by (simp add: tagged_body_ok_def renumbered_tagged_def)

lemma buffer_as_parts:
  assumes "n = 23 + k"
  obtains body footer where "length body = k" "length footer = 4"
    "\<lparr> ev_portion = common_header_bytes h @ drop 19 (buffer_resize n buffer), ev_post_header_size = 0, ev_footer_size = 4 \<rparr> =
     parts_view h [] body footer"
proof
  let ?rest = "drop 19 (buffer_resize n buffer)"
  show "length (take k ?rest) = k" "length (drop k ?rest) = 4" using assms by simp_all
  then show "\<lparr> ev_portion = common_header_bytes h @ ?rest, ev_post_header_size = 0, ev_footer_size = 4 \<rparr> =
     parts_view h [] (take k ?rest) (drop k ?rest)"
    by (simp add: parts_view_def del: drop_drop)
qed

lemma tagged_parts:
  assumes head: "get_common_header_raw v = common_header_bytes h" "unat (ch_type_code h) < 43"
    and t: "tagged_body_decode (get_body_raw v) = Inr t" "tb_last_committed t < tb_sequence_number t"
    and len: "get_total_size v \<le> unat (tb_transaction_length t)" "unat (tb_transaction_length t) < 2 ^ 63"
  obtains n where "n = 23 + length (tagged_body_bytes (renumbered_tagged local (get_total_size v) n t))" "n < 2100"
    "rewrite_gtid_tagged_log_internal crc local v buffer offset =
     Inr (footed_view crc (relocated offset n h) [] (tagged_body_bytes (renumbered_tagged local (get_total_size v) n t)))"
proof -
  let ?b = "t\<lparr> tb_sequence_number := local + 1, tb_last_committed := renumbered local (tb_sequence_number t) (tb_last_committed t) \<rparr>"
  let ?tail = "tb_transaction_length t - of_nat (get_total_size v)"
  note found = that
  have ok: "tagged_body_ok ?b" using tagged_body_decode_ok [OF t(1)] by (simp add: tagged_body_ok_def)
  have "unat ?tail \<le> unat (tb_transaction_length t)"
    using len by (simp add: unat_sub word_le_nat_alt unat_of_nat)
  then have room: "unat ?tail + 4096 < 2 ^ 64" using len(2) by simp
  obtain i n where loop: "tagged_size_loop ?b ?tail (get_total_size v) 0 = Inr (i, n, ?b\<lparr> tb_transaction_length := of_nat n + ?tail \<rparr>)"
    and i: "i \<le> 3" and size: "event_size_calculator ?b ?tail n = Inr n"
    by (rule tagged_size_loop_settles [OF ok room])
  define t' where "t' = renumbered_tagged local (get_total_size v) n t"
  have t': "?b\<lparr> tb_transaction_length := of_nat n + ?tail \<rparr> = t'" by (simp add: t'_def renumbered_tagged_def)
  have ok': "tagged_body_ok t'" using tagged_body_decode_ok [OF t(1)] by (simp add: t'_def renumbered_tagged_ok)
  note bytes = tagged_body_size_bytes [OF ok']
  have n: "n = 23 + length (tagged_body_bytes t')"
    using size bytes(1) by (simp add: event_size_calculator_def t')
  obtain body footer where parts: "length body = length (tagged_body_bytes t')" "length footer = 4"
    "\<lparr> ev_portion = common_header_bytes h @ drop 19 (buffer_resize n buffer), ev_post_header_size = 0, ev_footer_size = 4 \<rparr> =
     parts_view h [] body footer"
    using n by (rule buffer_as_parts)
  have encode: "tagged_body_encode_to t' ([], body) = Inr (tagged_body_bytes t', [])"
    using tagged_body_encode_bytes [OF ok', of "([], body)"] parts(1) by (simp add: write_bytes_def)
  have header: "update_common_header (\<lambda>h. set_next_event_position_raw (ucast (offset + of_nat n)) (set_event_size_raw (of_nat n) h))
      (parts_view h [] body footer) = Inr (parts_view (relocated offset n h) [] body footer)"
    by (rule update_header_parts [OF head(2)]) (simp add: set_header_fields relocated_def)
  have stored: "(parts_view (relocated offset n h) [] body footer)\<lparr> ev_portion :=
      common_header_bytes (relocated offset n h) @ tagged_body_bytes t' @ footer \<rparr> =
    parts_view (relocated offset n h) [] (tagged_body_bytes t') footer"
    by (simp add: parts_view_def)
  have guards: "ensure (\<not> unat (tb_transaction_length t) < get_total_size v) x = Inr ()"
    "ensure (i < max_number_of_iterations) x = Inr ()" for x
    using len(1) i by (simp_all add: max_number_of_iterations_def)
  have lengths: "default_common_header_length = 19" "default_footer_length = 4" by simp_all
  have "get_write_proxy crc (\<lambda>proxy.
        rbind (update_common_header (\<lambda>h. set_next_event_position_raw (ucast (offset + of_nat n)) (set_event_size_raw (of_nat n) h)) proxy) (\<lambda>proxy.
        rbind (tagged_body_encode_to t' ([], get_body_raw proxy)) (\<lambda>(encoded, rest).
        Inr (proxy\<lparr> ev_portion := take default_common_header_length (ev_portion proxy) @ encoded @ rest @ get_footer_raw proxy \<rparr>))))
      (parts_view h [] body footer) = Inr (footed_view crc (relocated offset n h) [] (tagged_body_bytes t'))"
    by (rule write_proxy_parts [OF _ parts(2)]) (simp add: header encode stored)
  then have result: "rewrite_gtid_tagged_log_internal crc local v buffer offset =
      Inr (footed_view crc (relocated offset n h) [] (tagged_body_bytes t'))"
    unfolding rewrite_gtid_tagged_log_internal_def Let_def
    by (simp only: guards t(1) fix_sequence_number_eq [OF t(2)] loop [unfolded t'] head(1) lengths parts(3) rbind_Inr prod.case)
  have "n < 2100" using n bytes(2) by linarith
  with n show thesis using result unfolding t'_def by (rule found)
qed

section \<open>The rewritten event\<close>

text \<open>What the rewriter asks of an event: a GTID event decodes, is numbered after the one it depends on, and does not overflow.\<close>

definition rewritable :: "event_view \<Rightarrow> bool" where
  "rewritable v \<longleftrightarrow> get_total_size v + 4 < 2 ^ 32 \<and>
     (let code = get_type_code (get_common_header_raw v) in
      if code = Gtid_log \<or> code = Anonymous_gtid_log then
        (case gtid_log_post_header_decode (get_post_header_raw v) of
           Inl _ \<Rightarrow> False
         | Inr g \<Rightarrow> glp_last_committed g < glp_sequence_number g)
      else if code = Gtid_tagged_log then
        (case tagged_body_decode (get_body_raw v) of
           Inl _ \<Rightarrow> False
         | Inr t \<Rightarrow> ev_post_header_size v = 0 \<and> tb_last_committed t < tb_sequence_number t \<and>
             get_total_size v \<le> unat (tb_transaction_length t) \<and> unat (tb_transaction_length t) < 2 ^ 63)
      else True)"

definition renumbered_log :: "uint64 \<Rightarrow> gtid_log_post_header \<Rightarrow> gtid_log_post_header" where
  "renumbered_log local g =
     g\<lparr> glp_sequence_number := local + 1,
        glp_last_committed := renumbered local (glp_sequence_number g) (glp_last_committed g) \<rparr>"

definition renumbered_parts :: "uint64 \<Rightarrow> event_view \<Rightarrow> nat \<Rightarrow> byte list \<Rightarrow> byte list \<Rightarrow> bool" where
  "renumbered_parts local v n post_header body \<longleftrightarrow>
     (let code = get_type_code (get_common_header_raw v) in
      if code = Gtid_log \<or> code = Anonymous_gtid_log then
        body = get_body_raw v \<and> gtid_log_post_header_decode post_header =
          rbind (gtid_log_post_header_decode (get_post_header_raw v)) (Inr \<circ> renumbered_log local)
      else if code = Gtid_tagged_log then
        post_header = [] \<and> tagged_body_decode body =
          rbind (tagged_body_decode (get_body_raw v)) (Inr \<circ> renumbered_tagged local (get_total_size v) n)
      else post_header = get_post_header_raw v \<and> body = get_body_raw v)"

lemma rewrite_parts:
  assumes ok: "event_view_ok v" and foot: "ev_footer_size v = 0 \<or> ev_footer_size v = 4" and re: "rewritable v"
  obtains h n post_header body where "get_common_header_raw v = common_header_bytes h" "unat (ch_type_code h) < 43"
    "n = 23 + length post_header + length body" "n < 2 ^ 32" "length post_header = ev_post_header_size v"
    "rewrite crc local v buffer offset = Inr (footed_view crc (relocated offset n h) post_header body)"
    "renumbered_parts local v n post_header body"
proof -
  note found = that
  obtain h where v: "v = parts_view h (get_post_header_raw v) (get_body_raw v) (get_footer_raw v)"
    and h: "unat (ch_type_code h) < 43" "unat (ch_event_size h) = get_total_size v" "get_common_header_raw v = common_header_bytes h"
    by (rule view_parts [OF ok])
  let ?p = "get_post_header_raw v" and ?b = "get_body_raw v"
  have lens: "length ?p = ev_post_header_size v" "length (get_footer_raw v) = ev_footer_size v"
    "get_total_size v = 19 + length ?p + length ?b + length (get_footer_raw v)"
    using arg_cong [OF v, of ev_post_header_size] arg_cong [OF v, of ev_footer_size] arg_cong [OF v, of get_total_size] by simp_all
  have small: "23 + length ?p + length ?b < 2 ^ 32" using re lens(3) by (simp add: rewritable_def)
  have f: "length (get_footer_raw v) = 0 \<or> length (get_footer_raw v) = 4" using foot lens(2) by simp
  have head: "common_header_view (get_common_header_raw v) = Inr (get_common_header_raw v)" using ok by (simp add: event_view_ok_def)
  let ?code = "get_type_code (get_common_header_raw v)"
  consider (log) "?code = Gtid_log \<or> ?code = Anonymous_gtid_log" | (tagged) "?code = Gtid_tagged_log"
    | (other) "\<not> (?code = Gtid_log \<or> ?code = Anonymous_gtid_log)" "?code \<noteq> Gtid_tagged_log" by blast
  then show thesis
  proof cases
    case log
    then obtain g where g: "gtid_log_post_header_decode ?p = Inr g" "glp_last_committed g < glp_sequence_number g"
      using re by (auto simp: rewritable_def Let_def split: sum.splits)
    note out = gtid_log_parts [OF v f h(1,2) g renumbered_log_def [of local g]]
    have len: "length (gtid_log_post_header_bytes (renumbered_log local g)) = length ?p"
      using gtid_log_post_header_decode_ok [OF g(1)] gtid_log_post_header_decode_ok(1) [OF out(2)] by simp
    show ?thesis
    proof (rule found [OF h(3,1) refl])
      show "23 + length (gtid_log_post_header_bytes (renumbered_log local g)) + length ?b < 2 ^ 32"
        using small len by simp
      show "rewrite crc local v buffer offset =
          Inr (footed_view crc (relocated offset (23 + length (gtid_log_post_header_bytes (renumbered_log local g)) + length ?b) h)
            (gtid_log_post_header_bytes (renumbered_log local g)) ?b)"
        using log out(1) len by (auto simp: rewrite_def head)
    qed (use log g(1) out(2) len lens(1) in \<open>simp_all add: renumbered_parts_def\<close>)
  next
    case tagged
    then obtain t where t: "tagged_body_decode ?b = Inr t" "tb_last_committed t < tb_sequence_number t"
      "get_total_size v \<le> unat (tb_transaction_length t)" "unat (tb_transaction_length t) < 2 ^ 63" "ev_post_header_size v = 0"
      using re by (auto simp: rewritable_def Let_def split: sum.splits)
    obtain n where n: "n = 23 + length (tagged_body_bytes (renumbered_tagged local (get_total_size v) n t))" "n < 2100"
      and out: "rewrite_gtid_tagged_log_internal crc local v buffer offset =
        Inr (footed_view crc (relocated offset n h) [] (tagged_body_bytes (renumbered_tagged local (get_total_size v) n t)))"
      by (rule tagged_parts [OF h(3,1) t(1-4)])
    show ?thesis
    proof (rule found [OF h(3,1), of n "[]" "tagged_body_bytes (renumbered_tagged local (get_total_size v) n t)"])
      show "n = 23 + length [] + length (tagged_body_bytes (renumbered_tagged local (get_total_size v) n t))"
        unfolding list.size(3) add_0_right by (rule n(1))
      show "renumbered_parts local v n [] (tagged_body_bytes (renumbered_tagged local (get_total_size v) n t))"
        using tagged tagged_body_decode_ok [OF t(1)] by (simp add: renumbered_parts_def t(1) renumbered_tagged_ok tagged_body_decode_bytes)
    qed (use tagged out n(2) t(5) in \<open>simp_all add: rewrite_def head\<close>)
  next
    case other
    show ?thesis
      by (rule found [OF h(3,1) refl small lens(1)])
        (use other relocate_parts [OF v f h(1,2), of crc offset] in \<open>simp_all add: rewrite_def head renumbered_parts_def\<close>)
  qed
qed

lemma renumbered_less:
  assumes "local + 1 \<noteq> 0" and "last_committed < sequence_number"
  shows "renumbered local sequence_number last_committed < local + 1"
proof -
  define m d where "m = local + 1" and "d = sequence_number - last_committed"
  have "d \<noteq> 0" using assms(2) by (auto simp: d_def)
  then have "m - d < m" if "d < m"
    using that unat_sub [of d m] unat_gt_0 [of d] unat_gt_0 [of m] by (simp add: word_less_nat_alt word_le_nat_alt)
  moreover have "1 < m" if "m \<noteq> 1"
    using that assms(1) word_unat_eq_iff [of m 0] word_unat_eq_iff [of m 1] by (simp add: word_less_nat_alt m_def [symmetric])
  ultimately show ?thesis by (simp add: renumbered_def m_def [symmetric] d_def [symmetric])
qed

lemma renumbered_gap:
  "sequence_number - last_committed < local + 1 \<Longrightarrow>
   local + 1 - renumbered local sequence_number last_committed = sequence_number - last_committed"
  by (simp add: renumbered_def)

lemma made_view_rewrite:
  assumes "make_event_view crc0 c portion = Inr v" and "rewritable v"
  obtains h n post_header body where "get_common_header_raw v = common_header_bytes h" "unat (ch_type_code h) < 43"
    "n = 23 + length post_header + length body" "n < 2 ^ 32" "length post_header = ev_post_header_size v"
    "rewrite crc local v buffer offset = Inr (footed_view crc (relocated offset n h) post_header body)"
    "renumbered_parts local v n post_header body"
  using make_event_view_Inr(2,3) [OF assms(1)] assms(2) by (rule_tac rewrite_parts [of v]) auto

lemma enum_to_index_nth:
  assumes "n < 43"
  shows "enum_to_index (code_types ! n) = n"
proof -
  have "map enum_to_index code_types = [0..<43]" by code_simp
  moreover have "length code_types = 43" by code_simp
  ultimately have "map enum_to_index code_types ! n = n" "length code_types = 43" using assms by simp_all
  then show ?thesis using assms by simp
qed

section \<open>A concrete event\<close>

definition gtid_portion :: "byte list" where
  "gtid_portion = [7, 0, 0, 0, 33, 1, 0, 0, 0, 65, 0, 0, 0, 200, 0, 0, 0, 0, 0] @
     [1] @ replicate 16 9 @ [5, 0, 0, 0, 0, 0, 0, 0] @ [2] @ [10, 0, 0, 0, 0, 0, 0, 0] @ [12, 0, 0, 0, 0, 0, 0, 0] @ [0, 0, 0, 0]"

definition gtid_view :: event_view where
  "gtid_view = \<lparr> ev_portion = gtid_portion, ev_post_header_size = 42, ev_footer_size = 4 \<rparr>"

lemma gtid_view_made: "make_event_view (\<lambda>_. 0) stop_context gtid_portion = Inr gtid_view"
  by code_simp

lemma gtid_view_rewritable: "rewritable gtid_view"
proof -
  have "get_type_code (get_common_header_raw gtid_view) = Gtid_log" by code_simp
  moreover have "(case gtid_log_post_header_decode (get_post_header_raw gtid_view) of
      Inl _ \<Rightarrow> False | Inr g \<Rightarrow> glp_last_committed g < glp_sequence_number g)" by code_simp
  moreover have "get_total_size gtid_view = 65" by code_simp
  ultimately show ?thesis by (simp add: rewritable_def)
qed

section \<open>Properties\<close>

text \<open>
  C17: A received event, with or without a checksum, that the rewriter can rewrite becomes an event that a reader context with the
  same post header lengths accepts together with its new checksum; its header is the one received except for its size, which is
  its number of bytes, and its end, which is the offset it is written at plus that size, modulo the width of the field.
\<close>

theorem rewritten_event_accepted:
  assumes "make_event_view crc0 c portion = Inr v" and "rewritable v"
    and "get_type_code (get_common_header_raw v) \<noteq> Format_description"
    and "rc_footer_expected c'" and "\<And>code. get_current_post_header_length c' code = get_current_post_header_length c code"
  shows "\<exists>v'. rewrite crc local v buffer offset = Inr v' \<and> make_event_view crc c' (ev_portion v') = Inr v' \<and>
    common_header_of_view (get_common_header_raw v') =
      (common_header_of_view (get_common_header_raw v))\<lparr> ch_event_size := of_nat (get_total_size v'),
        ch_next_event_position := ucast (offset + of_nat (get_total_size v')) \<rparr>"
proof -
  obtain h n p b where h: "get_common_header_raw v = common_header_bytes h" "unat (ch_type_code h) < 43"
    and n: "n = 23 + length p + length b" "n < 2 ^ 32" "length p = ev_post_header_size v"
    and out: "rewrite crc local v buffer offset = Inr (footed_view crc (relocated offset n h) p b)"
    by (rule made_view_rewrite [OF assms(1,2)])
  let ?code = "get_type_code (get_common_header_raw v)" and ?h = "relocated offset n h"
  have "get_common_header_raw v = subspan 0 default_common_header_length portion"
    using make_event_view_Inr(1) [OF assms(1)] by (simp add: get_common_header_raw_def)
  then have "calculate_post_header_size c ?code (length portion) (ev_footer_size v) = Inr (ev_post_header_size v)"
    using make_event_view_Inr(5) [OF assms(1)] by simp
  then have ph: "get_current_post_header_length c' ?code = Some (length p)"
    using assms(3,5) n(3) by (auto simp: calculate_post_header_size_def result_simps or_raise_eq_Inr)
  have code: "unat (ch_type_code ?h) = enum_to_index ?code"
    using h by (simp add: get_type_code_def header_getters enum_to_index_nth)
  have "unat (ch_event_size ?h) = n" using n(2) by (simp add: unat_of_nat)
  then have size: "unat (ch_event_size ?h) = 19 + length p + length b + 4" using n(1) by linarith
  let ?footer = "le_of_nat 4 (unat (crc (common_header_bytes ?h @ p @ b)))"
  have "make_event_view crc c' (common_header_bytes ?h @ p @ b @ ?footer) = Inr (footed_view crc ?h p b)"
    using make_event_view_parts [OF code, of p b ?footer c' crc] size assms(3,4) ph
    by (simp add: footed_view_def parts_view_def get_crc_raw_eq)
  moreover have "common_header_of_view (get_common_header_raw (footed_view crc ?h p b)) = ?h"
    "common_header_of_view (get_common_header_raw v) = h" "get_total_size (footed_view crc ?h p b) = n"
    by (simp_all add: footed_view_def h(1) common_header_of_view_def header_getters n(1))
  ultimately show ?thesis
    by (intro exI [of _ "footed_view crc ?h p b"]) (simp add: out relocated_def footed_view_def)
qed

theorem rewritten_event_accepted_witness:
  "\<exists>v'. rewrite (\<lambda>_. 7) 3 gtid_view [] 1000 = Inr v' \<and> make_event_view (\<lambda>_. 7) stop_context (ev_portion v') = Inr v'"
proof -
  have "get_type_code (get_common_header_raw gtid_view) = Gtid_log" "rc_footer_expected stop_context" by code_simp+
  then show ?thesis
    using rewritten_event_accepted [OF gtid_view_made gtid_view_rewritable, of stop_context "\<lambda>_. 7" 3 "[]" 1000] by auto
qed

text \<open>
  C18: The rewriter numbers a GTID event as the next one of the storage: its sequence number follows the last local one, its last
  committed number is smaller, and their distance is the received one wherever the storage has that many events. Everything
  else of the event is kept, GTID included, but the transaction length of a tagged event, which changes with the size of
  the event itself, so that the length of the rest of the transaction is the one received. Other events keep their contents.
\<close>

theorem rewritten_event_renumbered:
  assumes "make_event_view crc0 c portion = Inr v" and "rewritable v" and "local + 1 \<noteq> 0"
    and "code = get_type_code (get_common_header_raw v)"
  shows "\<exists>v'. rewrite crc local v buffer offset = Inr v' \<and>
    (if code = Gtid_log \<or> code = Anonymous_gtid_log then
       get_body_raw v' = get_body_raw v \<and>
       (\<exists>g g'. gtid_log_post_header_decode (get_post_header_raw v) = Inr g \<and> gtid_log_post_header_decode (get_post_header_raw v') = Inr g' \<and>
          g' = g\<lparr> glp_sequence_number := local + 1, glp_last_committed := glp_last_committed g' \<rparr> \<and>
          glp_last_committed g' < local + 1 \<and>
          (glp_sequence_number g - glp_last_committed g < local + 1 \<longrightarrow>
             local + 1 - glp_last_committed g' = glp_sequence_number g - glp_last_committed g))
     else if code = Gtid_tagged_log then
       (\<exists>t t'. tagged_body_decode (get_body_raw v) = Inr t \<and> tagged_body_decode (get_body_raw v') = Inr t' \<and>
          t' = t\<lparr> tb_sequence_number := local + 1, tb_last_committed := tb_last_committed t', tb_transaction_length := tb_transaction_length t' \<rparr> \<and>
          tb_last_committed t' < local + 1 \<and>
          (tb_sequence_number t - tb_last_committed t < local + 1 \<longrightarrow>
             local + 1 - tb_last_committed t' = tb_sequence_number t - tb_last_committed t) \<and>
          tb_transaction_length t' - of_nat (get_total_size v') = tb_transaction_length t - of_nat (get_total_size v))
     else get_post_header_raw v' = get_post_header_raw v \<and> get_body_raw v' = get_body_raw v)"
proof -
  obtain h n p b where n: "n = 23 + length p + length b"
    and out: "rewrite crc local v buffer offset = Inr (footed_view crc (relocated offset n h) p b)"
    and parts: "renumbered_parts local v n p b"
    by (rule made_view_rewrite [OF assms(1,2)])
  let ?v = "footed_view crc (relocated offset n h) p b"
  have v': "get_post_header_raw (footed_view crc h' p b) = p" "get_body_raw (footed_view crc h' p b) = b"
    "get_total_size (footed_view crc h' p b) = 23 + length p + length b" for h' p b by (simp_all add: footed_view_def)
  consider (log) g where "code = Gtid_log \<or> code = Anonymous_gtid_log" "gtid_log_post_header_decode (get_post_header_raw v) = Inr g"
      "glp_last_committed g < glp_sequence_number g"
    | (tagged) t where "code = Gtid_tagged_log" "tagged_body_decode (get_body_raw v) = Inr t" "tb_last_committed t < tb_sequence_number t"
    | (other) "\<not> (code = Gtid_log \<or> code = Anonymous_gtid_log)" "code \<noteq> Gtid_tagged_log"
    using assms(2) by (auto simp: rewritable_def assms(4) [symmetric] Let_def split: sum.splits if_splits)
  then show ?thesis
  proof cases
    case log
    then have "b = get_body_raw v" "gtid_log_post_header_decode p = Inr (renumbered_log local g)"
      using parts by (simp_all add: renumbered_parts_def assms(4) [symmetric])
    then show ?thesis
      using log renumbered_less [OF assms(3) log(3)] renumbered_gap
      by (intro exI [of _ ?v]) (simp add: out v' renumbered_log_def)
  next
    case tagged
    then have "tagged_body_decode b = Inr (renumbered_tagged local (get_total_size v) n t)"
      using parts by (simp add: renumbered_parts_def assms(4) [symmetric])
    then show ?thesis
      using tagged renumbered_less [OF assms(3) tagged(3)] renumbered_gap
      by (intro exI [of _ ?v]) (simp add: out v' n [symmetric] renumbered_tagged_def)
  next
    case other
    then show ?thesis using parts by (intro exI [of _ ?v]) (simp add: out v' renumbered_parts_def assms(4) [symmetric])
  qed
qed

theorem rewritten_event_renumbered_witness:
  "\<exists>v' g'. rewrite (\<lambda>_. 7) 3 gtid_view [] 1000 = Inr v' \<and> gtid_log_post_header_decode (get_post_header_raw v') = Inr g' \<and>
     glp_sequence_number g' = 4 \<and> glp_last_committed g' < 4"
proof -
  have code: "Gtid_log = get_type_code (get_common_header_raw gtid_view)" by code_simp
  have "(3 :: uint64) + 1 \<noteq> 0" by simp
  then obtain v' g g' where g': "rewrite (\<lambda>_. 7) 3 gtid_view [] 1000 = Inr v'" "gtid_log_post_header_decode (get_post_header_raw v') = Inr g'"
    "g' = g\<lparr> glp_sequence_number := 3 + 1, glp_last_committed := glp_last_committed g' \<rparr>" "glp_last_committed g' < 3 + 1"
    using rewritten_event_renumbered [OF gtid_view_made gtid_view_rewritable _ code, of 3 "\<lambda>_. 7" "[]" 1000] by auto
  have "glp_sequence_number g' = 4" using arg_cong [OF g'(3), of glp_sequence_number] by simp
  then show ?thesis using g'(1,2,4) by auto
qed

text \<open>
  C31: The loop that makes the size of a rewritten tagged event agree with the transaction length inside it stops after at most three
  rounds of its bound of nine, at a size that is a fixed point of the calculation, for every body and every length of the rest of the
  transaction that leaves room for the event.
\<close>

theorem tagged_size_loop_terminates:
  assumes "tagged_body_ok b" and "unat transaction_tail_length + 4096 < 2 ^ 64"
  shows "\<exists>i n. tagged_size_loop b transaction_tail_length event_size 0 =
      Inr (i, n, b\<lparr> tb_transaction_length := of_nat n + transaction_tail_length \<rparr>) \<and> i \<le> 3 \<and>
    event_size_calculator b transaction_tail_length n = Inr n"
  using tagged_size_loop_settles [OF assms] by metis

theorem tagged_size_loop_terminates_witness:
  "\<exists>i n. tagged_size_loop tagged_body_init 900 100 0 = Inr (i, n, tagged_body_init\<lparr> tb_transaction_length := of_nat n + 900 \<rparr>) \<and> i \<le> 3 \<and>
    event_size_calculator tagged_body_init 900 n = Inr n"
  by (rule tagged_size_loop_terminates) (simp_all add: tagged_body_ok_def tagged_body_init_def)

end
