(* ===== verification/App_Rewrite.thy ===== *)
theory App_Rewrite
  imports App Rewriter_Properties Gtid_Set_Codec
begin

text \<open>
  The rewrite mode of the application (\<open>app.cpp\<close>): the binlog files of the storage get names and
  sizes of their own, so the events that frame a file are generated instead of received, and the
  received events of transactions are rewritten for their new place. Logging is left out; the
  readings of the clock are a record.
\<close>

section \<open>Model\<close>

definition make_rotate_body :: "composite_binlog_name \<Rightarrow> byte list" where
  "make_rotate_body binlog_name = as_const_byte_span (binlog_name_str binlog_name)"

definition make_previous_gtids_body :: "'c icl \<Rightarrow> 'c gtid_set \<Rightarrow> byte list result" where
  "make_previous_gtids_body I gtids =
     rbind (encode_to I gtids ([], replicate (calculate_encoded_size I gtids) 0)) (\<lambda>(encoded, rest).
     Inr (encoded @ rest))"

definition checksum_algorithm_crc32 :: uint8 where "checksum_algorithm_crc32 = 1"

text \<open>The generators return the view and the buffer that holds its bytes.\<close>

definition generate_rotate_event ::
    "crc32 \<Rightarrow> byte list \<Rightarrow> reader_context \<Rightarrow> uint32 \<Rightarrow> uint64 option \<Rightarrow> uint32 \<Rightarrow> bool \<Rightarrow> composite_binlog_name \<Rightarrow>
     (event_view \<times> byte list) result" where
  "generate_rotate_event crc event_buffer context offset current_timestamp server_id artificial binlog_name =
     (let post_header = Rotate_post_header magic_binlog_offset;
          body = Rotate_body (make_rotate_body binlog_name);
          timestamp = (case current_timestamp of None \<Rightarrow> 0 | Some now \<Rightarrow> now);
          flags = (if artificial then artificial_flag else 0) in
      rbind (create_event crc Rotate offset timestamp server_id flags post_header body
        (rc_footer_expected context) event_buffer) (\<lambda>(_, event_buffer).
      rbind (make_event_view crc context event_buffer) (\<lambda>v.
      Inr (v, event_buffer))))"

definition generate_format_description_event ::
    "crc32 \<Rightarrow> byte list \<Rightarrow> reader_context \<Rightarrow> uint32 \<Rightarrow> uint64 \<Rightarrow> uint64 \<Rightarrow> uint32 \<Rightarrow> (event_view \<times> byte list) result" where
  "generate_format_description_event crc event_buffer context offset create_timestamp timestamp server_id =
     (let server_version = semantic_version_of_encoded (rc_current_encoded_server_version context);
          post_header = Format_description_post_header
            (make_fde_post_header default_binlog_version server_version create_timestamp default_common_header_length
              (get_hardcoded_post_header_lengths (get_encoded server_version)));
          body = Format_description_body checksum_algorithm_crc32 in
      rbind (create_event crc Format_description offset timestamp server_id 0 post_header body True event_buffer)
        (\<lambda>(_, event_buffer).
      rbind (make_event_view crc context event_buffer) (\<lambda>v.
      Inr (v, event_buffer))))"

definition generate_previous_gtids_log_event ::
    "'c icl \<Rightarrow> crc32 \<Rightarrow> byte list \<Rightarrow> reader_context \<Rightarrow> uint32 \<Rightarrow> uint64 \<Rightarrow> uint32 \<Rightarrow> 'c gtid_set \<Rightarrow>
     (event_view \<times> byte list) result" where
  "generate_previous_gtids_log_event I crc event_buffer context offset timestamp server_id gtids =
     rbind (make_previous_gtids_body I gtids) (\<lambda>body.
     rbind (create_event crc Previous_gtids_log offset timestamp server_id 0 Empty_post_header
       (Previous_gtids_log_body body) True event_buffer) (\<lambda>(_, event_buffer).
     rbind (make_event_view crc context event_buffer) (\<lambda>v.
     Inr (v, event_buffer))))"

text \<open>The times in the generated events, and the readings made while each event is processed.\<close>

record rewrite_clocks =
  rotate_timestamp :: uint64
  create_timestamp :: uint64
  description_timestamp :: uint64
  previous_gtids_timestamp :: uint64
  while_rotating :: clock_readings
  while_opening :: clock_readings
  while_describing :: clock_readings
  while_listing :: clock_readings
  while_rewriting :: clock_readings

definition skipped_code :: "code_type \<Rightarrow> bool" where
  "skipped_code code \<longleftrightarrow> code = Format_description \<or> code = Previous_gtids_log \<or> code = Rotate \<or> code = Stop"

definition new_file_needed :: "uint64 \<Rightarrow> reader_context \<Rightarrow> 'c storage \<Rightarrow> bool" where
  "new_file_needed file_size context s \<longleftrightarrow>
     is_fresh context \<or> is_at_transaction_boundary context \<and> get_current_position s \<ge> file_size"

definition choose_binlog_name :: "string \<Rightarrow> reader_context \<Rightarrow> 'c storage \<Rightarrow> composite_binlog_name result" where
  "choose_binlog_name base_file_name context s =
     (if storage_is_empty s then make_binlog_name base_file_name 1
      else if is_fresh context then Inr (get_current_binlog_name s)
      else next_binlog_name (get_current_binlog_name s))"

definition finish_binlog_file ::
    "'c icl \<Rightarrow> 'c metadata_codec \<Rightarrow> crc32 \<Rightarrow> rewrite_clocks \<Rightarrow> uint32 \<Rightarrow> composite_binlog_name \<Rightarrow> reader_context \<times> 'c storage \<Rightarrow>
     ((reader_context \<times> 'c storage) \<times> byte list) result" where
  "finish_binlog_file I C crc now server_id binlog_name = (\<lambda>(context, s).
     if \<not> is_fresh context then
       rbind (generate_rotate_event crc [] context (ucast (get_current_position s)) (Some (rotate_timestamp now))
         server_id False binlog_name) (\<lambda>(v, event_buffer).
       rbind (process_binlog_event I C (while_rotating now) v (context, s)) (\<lambda>state.
       Inr (state, event_buffer)))
     else Inr ((context, s), []))"

definition start_binlog_file ::
    "'c icl \<Rightarrow> 'c metadata_codec \<Rightarrow> crc32 \<Rightarrow> rewrite_clocks \<Rightarrow> uint32 \<Rightarrow> composite_binlog_name \<Rightarrow>
     (reader_context \<times> 'c storage) \<times> byte list \<Rightarrow> (reader_context \<times> 'c storage) result" where
  "start_binlog_file I C crc now server_id binlog_name = (\<lambda>((context, s), event_buffer).
     rbind (generate_rotate_event crc event_buffer context 0 None server_id True binlog_name) (\<lambda>(rotate_v, event_buffer).
     rbind (process_binlog_event I C (while_opening now) rotate_v (context, s)) (\<lambda>(context, s).
     rbind (generate_format_description_event crc event_buffer context (ucast magic_binlog_offset)
       (create_timestamp now) (description_timestamp now) server_id) (\<lambda>(description_v, event_buffer).
     rbind (process_binlog_event I C (while_describing now) description_v (context, s)) (\<lambda>(context, s).
     rbind (generate_previous_gtids_log_event I crc event_buffer context
       (ucast magic_binlog_offset + of_nat (get_total_size description_v))
       (previous_gtids_timestamp now) server_id (get_gtids I s)) (\<lambda>(previous_gtids_v, _).
     process_binlog_event I C (while_listing now) previous_gtids_v (context, s)))))))"

definition rewrite_and_process_binlog_event ::
    "'c icl \<Rightarrow> 'c metadata_codec \<Rightarrow> crc32 \<Rightarrow> rewrite_clocks \<Rightarrow> event_view \<Rightarrow> uint32 \<Rightarrow> string \<Rightarrow> uint64 \<Rightarrow> reader_context \<times> 'c storage \<Rightarrow>
     (reader_context \<times> 'c storage) result" where
  "rewrite_and_process_binlog_event I C crc now current_event_v server_id base_file_name file_size = (\<lambda>(context, s).
     rbind (ensure (is_in_gtid_replication_mode s) (Undefined_behaviour ''assert'')) (\<lambda>_.
     let code = get_type_code (get_common_header_raw current_event_v) in
     if skipped_code code then
       if code = Format_description then
         rbind (fde_body_decode (get_body_raw current_event_v)) (\<lambda>format_description_body.
         rbind (ensure (has_checksum_algorithm format_description_body)
           (Logic_error ''rewrite is supported in gtid replication mode only when all events received from the MySQL server have checksums'')) (\<lambda>_.
         Inr (context, s)))
       else Inr (context, s)
     else
       rbind (if new_file_needed file_size context s then
                rbind (choose_binlog_name base_file_name context s) (\<lambda>binlog_name.
                rbind (finish_binlog_file I C crc now server_id binlog_name (context, s)) (\<lambda>state.
                start_binlog_file I C crc now server_id binlog_name state))
              else Inr (context, s)) (\<lambda>(context, s).
       rbind (rewrite crc (get_last_transaction_sequence_number s) current_event_v [] (get_current_position s)) (\<lambda>event_copy_uv.
       process_binlog_event I C (while_rewriting now) event_copy_uv (context, s)))))"

end
