(* ===== verification/Connection.thy ===== *)
theory Connection
  imports Prelude
begin

text \<open>
  The connection to the MySQL server (\<open>easymysql/connection.cpp\<close>): options, queries, the switch to
  replication and fetching of events. The MySQL client library is a parameter, a record of its
  functions over a handle of some type; the values of its constants are fields of the record too.
\<close>

section \<open>The client library\<close>

text \<open>Names of options and SSL modes that the source uses; a value is a text or a number.\<close>

datatype mysql_option =
    MYSQL_OPT_SSL_MODE | MYSQL_OPT_SSL_CA | MYSQL_OPT_SSL_CAPATH | MYSQL_OPT_SSL_CRL | MYSQL_OPT_SSL_CRLPATH
  | MYSQL_OPT_SSL_CERT | MYSQL_OPT_SSL_KEY | MYSQL_OPT_SSL_CIPHER | MYSQL_OPT_TLS_CIPHERSUITES | MYSQL_OPT_TLS_VERSION
  | MYSQL_OPT_CONNECT_TIMEOUT | MYSQL_OPT_READ_TIMEOUT | MYSQL_OPT_WRITE_TIMEOUT

datatype mysql_ssl_mode =
    SSL_MODE_DISABLED | SSL_MODE_PREFERRED | SSL_MODE_REQUIRED | SSL_MODE_VERIFY_CA | SSL_MODE_VERIFY_IDENTITY

datatype option_value = Text_value string | Number_value uint32 | Ssl_mode_value mysql_ssl_mode

text \<open>The structure \<open>MYSQL_RPL\<close>, without the buffer, which is the result of a fetch.\<close>

record mysql_rpl =
  rpl_file_name :: string
  rpl_start_position :: uint64
  rpl_server_id :: uint32
  rpl_flags :: uint32
  rpl_gtid_set :: "byte list"

text \<open>The rows of a result, each with as many fields as the result has; a field may be NULL.\<close>

record mysql_res =
  res_num_fields :: nat
  res_rows :: "string option list list"

record 'm mysql_client =
  mysql_init :: "'m option"
  mysql_options :: "mysql_option \<Rightarrow> option_value \<Rightarrow> 'm \<Rightarrow> bool \<times> 'm"
  mysql_real_connect_dns_srv :: "string \<Rightarrow> string \<Rightarrow> string \<Rightarrow> 'm \<Rightarrow> bool \<times> 'm"
  mysql_real_connect :: "string \<Rightarrow> string \<Rightarrow> string \<Rightarrow> uint16 \<Rightarrow> 'm \<Rightarrow> bool \<times> 'm"
  mysql_real_query :: "string \<Rightarrow> 'm \<Rightarrow> bool \<times> 'm"
  mysql_store_result :: "'m \<Rightarrow> mysql_res option \<times> 'm"
  mysql_ping :: "'m \<Rightarrow> bool \<times> 'm"
  mysql_binlog_open :: "mysql_rpl \<Rightarrow> 'm \<Rightarrow> bool \<times> 'm"
  mysql_binlog_fetch :: "mysql_rpl \<Rightarrow> 'm \<Rightarrow> byte list option \<times> 'm"
  mysql_get_server_version :: "'m \<Rightarrow> uint64"
  mysql_errno :: "'m \<Rightarrow> nat"
  mysql_error :: "'m \<Rightarrow> string"
  cr_server_lost :: nat
  mysql_rpl_skip_heartbeat :: uint32
  mysql_rpl_gtid :: uint32

section \<open>Errors\<close>

definition raise_core_error_from_connection :: "'m mysql_client \<Rightarrow> string \<Rightarrow> 'm \<Rightarrow> 'a result" where
  "raise_core_error_from_connection L user_message handle =
     Inl (Core_error (mysql_errno L handle)
       ((if user_message = [] then [] else user_message @ '': '') @ mysql_error L handle))"

fun is_core_error :: "cpp_error \<Rightarrow> bool" where
  "is_core_error (Core_error _ _) = True"
| "is_core_error _ = False"

text \<open>A call of the library that answers whether it succeeded.\<close>

definition checked_call :: "'m mysql_client \<Rightarrow> string \<Rightarrow> bool \<times> 'm \<Rightarrow> 'm result" where
  "checked_call L user_message answer =
     (if fst answer then Inr (snd answer) else raise_core_error_from_connection L user_message (snd answer))"

section \<open>Configuration\<close>

datatype ssl_mode_type = Disabled | Preferred | Required | Verify_ca | Verify_identity

fun convert_ssl_mode_to_native :: "ssl_mode_type \<Rightarrow> mysql_ssl_mode" where
  "convert_ssl_mode_to_native Disabled = SSL_MODE_DISABLED"
| "convert_ssl_mode_to_native Preferred = SSL_MODE_PREFERRED"
| "convert_ssl_mode_to_native Required = SSL_MODE_REQUIRED"
| "convert_ssl_mode_to_native Verify_ca = SSL_MODE_VERIFY_CA"
| "convert_ssl_mode_to_native Verify_identity = SSL_MODE_VERIFY_IDENTITY"

record ssl_config =
  ssl_mode :: ssl_mode_type
  ssl_ca :: "string option"
  ssl_capath :: "string option"
  ssl_crl :: "string option"
  ssl_crlpath :: "string option"
  ssl_cert :: "string option"
  ssl_key :: "string option"
  ssl_cipher :: "string option"

record tls_config =
  tls_ciphersuites :: "string option"
  tls_version :: "string option"

record connection_config =
  cc_host :: "string option"
  cc_port :: "uint16 option"
  cc_dns_srv_name :: "string option"
  cc_user :: string
  cc_password :: string
  cc_connect_timeout :: uint32
  cc_read_timeout :: uint32
  cc_write_timeout :: uint32
  cc_ssl :: "ssl_config option"
  cc_tls :: "tls_config option"

definition has_dns_srv_name :: "connection_config \<Rightarrow> bool" where
  "has_dns_srv_name config \<longleftrightarrow> cc_dns_srv_name config \<noteq> None"

definition connection_config_validate :: "connection_config \<Rightarrow> unit result" where
  "connection_config_validate config =
     (let has_dns = cc_dns_srv_name config \<noteq> None;
          has_host = cc_host config \<noteq> None;
          has_port = cc_port config \<noteq> None
      in ensure (has_dns \<and> \<not> has_host \<and> \<not> has_port \<or> \<not> has_dns \<and> has_host \<and> has_port)
           (Invalid_argument (''error validating connection config: '' @
             ''either dns_srv_name or both host and port must be specified'')))"

text \<open>An optional value that is not there leaves the option alone.\<close>

definition set_generic_mysql_option ::
    "'m mysql_client \<Rightarrow> mysql_option \<Rightarrow> option_value option \<Rightarrow> string \<Rightarrow> 'm \<Rightarrow> 'm result" where
  "set_generic_mysql_option L option_id optional_value user_message handle =
     (case optional_value of
        None \<Rightarrow> Inr handle
      | Some v \<Rightarrow> checked_call L user_message (mysql_options L option_id v handle))"

definition process_ssl_config :: "'m mysql_client \<Rightarrow> ssl_config \<Rightarrow> 'm \<Rightarrow> 'm result" where
  "process_ssl_config L config handle =
     (let set_text = (\<lambda>option_id optional_text user_message.
            set_generic_mysql_option L option_id (map_option Text_value optional_text) user_message) in
      rbind (set_generic_mysql_option L MYSQL_OPT_SSL_MODE (Some (Ssl_mode_value (convert_ssl_mode_to_native (ssl_mode config))))
        ''cannot set MySQL SSL mode'' handle) (\<lambda>handle.
      rbind (set_text MYSQL_OPT_SSL_CA (ssl_ca config) ''cannot set MySQL SSL CA'' handle) (\<lambda>handle.
      rbind (set_text MYSQL_OPT_SSL_CAPATH (ssl_capath config) ''cannot set MySQL SSL CAPATH'' handle) (\<lambda>handle.
      rbind (set_text MYSQL_OPT_SSL_CRL (ssl_crl config) ''cannot set MySQL SSL CRL'' handle) (\<lambda>handle.
      rbind (set_text MYSQL_OPT_SSL_CRLPATH (ssl_crlpath config) ''cannot set MySQL SSL CRLPATH'' handle) (\<lambda>handle.
      rbind (set_text MYSQL_OPT_SSL_CERT (ssl_cert config) ''cannot set MySQL SSL CERT'' handle) (\<lambda>handle.
      rbind (set_text MYSQL_OPT_SSL_KEY (ssl_key config) ''cannot set MySQL SSL KEY'' handle) (\<lambda>handle.
      set_text MYSQL_OPT_SSL_CIPHER (ssl_cipher config) ''cannot set MySQL SSL CIPHER'' handle))))))))"

definition process_tls_config :: "'m mysql_client \<Rightarrow> tls_config \<Rightarrow> 'm \<Rightarrow> 'm result" where
  "process_tls_config L config handle =
     rbind (set_generic_mysql_option L MYSQL_OPT_TLS_CIPHERSUITES (map_option Text_value (tls_ciphersuites config))
       ''cannot set MySQL TLS CIPHERSUITES'' handle) (\<lambda>handle.
     set_generic_mysql_option L MYSQL_OPT_TLS_VERSION (map_option Text_value (tls_version config))
       ''cannot set MySQL TLS VERSION'' handle)"

definition process_connection_config :: "'m mysql_client \<Rightarrow> connection_config \<Rightarrow> 'm \<Rightarrow> 'm result" where
  "process_connection_config L config handle =
     rbind (set_generic_mysql_option L MYSQL_OPT_CONNECT_TIMEOUT (Some (Number_value (cc_connect_timeout config)))
       ''cannot set MySQL connect timeout'' handle) (\<lambda>handle.
     rbind (set_generic_mysql_option L MYSQL_OPT_READ_TIMEOUT (Some (Number_value (cc_read_timeout config)))
       ''cannot set MySQL read timeout'' handle) (\<lambda>handle.
     rbind (set_generic_mysql_option L MYSQL_OPT_WRITE_TIMEOUT (Some (Number_value (cc_write_timeout config)))
       ''cannot set MySQL write timeout'' handle) (\<lambda>handle.
     rbind (case cc_ssl config of None \<Rightarrow> Inr handle | Some ssl \<Rightarrow> process_ssl_config L ssl handle) (\<lambda>handle.
     case cc_tls config of None \<Rightarrow> Inr handle | Some tls \<Rightarrow> process_tls_config L tls handle))))"

section \<open>Connections\<close>

text \<open>The handle of the library, absent in an empty connection, and the stream of events once requested.\<close>

record 'm connection =
  mysql_impl :: "'m option"
  rpl_impl :: "mysql_rpl option"

definition is_in_replication_mode :: "'m connection \<Rightarrow> bool" where
  "is_in_replication_mode conn \<longleftrightarrow> rpl_impl conn \<noteq> None"

definition make_connection :: "'m mysql_client \<Rightarrow> connection_config \<Rightarrow> 'm connection result" where
  "make_connection L config =
     rbind (or_raise (mysql_init L) (Logic_error ''cannot create MYSQL object'')) (\<lambda>handle.
     rbind (process_connection_config L config handle) (\<lambda>handle.
     rbind (checked_call L ''cannot establish MySQL connection''
       (if has_dns_srv_name config
        then mysql_real_connect_dns_srv L (case cc_dns_srv_name config of None \<Rightarrow> [] | Some name \<Rightarrow> name)
               (cc_user config) (cc_password config) handle
        else mysql_real_connect L (case cc_host config of None \<Rightarrow> [] | Some host \<Rightarrow> host)
               (cc_user config) (cc_password config) (case cc_port config of None \<Rightarrow> 0 | Some port \<Rightarrow> port) handle)) (\<lambda>handle.
     Inr \<lparr> mysql_impl = Some handle, rpl_impl = None \<rparr>)))"

text \<open>The assertion of every operation, and the check of the operations that need a connection not in replication mode.\<close>

definition get_handle :: "'m connection \<Rightarrow> 'm result" where
  "get_handle conn = or_raise (mysql_impl conn) (Undefined_behaviour ''assert'')"

definition get_query_handle :: "string \<Rightarrow> 'm connection \<Rightarrow> 'm result" where
  "get_query_handle user_message conn =
     rbind (get_handle conn) (\<lambda>handle.
     rbind (ensure (\<not> is_in_replication_mode conn) (Logic_error user_message)) (\<lambda>_.
     Inr handle))"

definition get_server_version :: "'m mysql_client \<Rightarrow> 'm connection \<Rightarrow> uint32 result" where
  "get_server_version L conn = rbind (get_handle conn) (\<lambda>handle. Inr (ucast (mysql_get_server_version L handle)))"

definition execute_generic_query_noresult :: "'m mysql_client \<Rightarrow> string \<Rightarrow> 'm connection \<Rightarrow> 'm connection result" where
  "execute_generic_query_noresult L query conn =
     rbind (get_query_handle ''cannot execute query in replication mode'' conn) (\<lambda>handle.
     rbind (checked_call L ''cannot execute noresult query'' (mysql_real_query L query handle)) (\<lambda>handle.
     Inr (conn\<lparr> mysql_impl := Some handle \<rparr>)))"

text \<open>A row has as many fields as the result; one with fewer is a violated assumption of the span over it.\<close>

definition execute_select_query_string_result :: "'m mysql_client \<Rightarrow> string \<Rightarrow> 'm connection \<Rightarrow> (string \<times> 'm connection) result" where
  "execute_select_query_string_result L query conn =
     rbind (get_query_handle ''cannot execute query in replication mode'' conn) (\<lambda>handle.
     rbind (checked_call L ''cannot execute string result query'' (mysql_real_query L query handle)) (\<lambda>handle.
     let (stored, handle) = mysql_store_result L handle in
     case stored of
       None \<Rightarrow> raise_core_error_from_connection L ''cannot store query result'' handle
     | Some res \<Rightarrow>
         if length (res_rows res) \<noteq> 1 then raise_core_error_from_connection L ''query did not return exactly one row'' handle
         else if res_num_fields res \<noteq> 1 then raise_core_error_from_connection L ''query did not return exactly one column'' handle
         else
           (case hd (res_rows res) of
              [] \<Rightarrow> Inl (Undefined_behaviour ''assert'')
            | field # _ \<Rightarrow>
                (case field of
                   None \<Rightarrow> raise_core_error_from_connection L ''query returned NULL value'' handle
                 | Some field \<Rightarrow> Inr (field, conn\<lparr> mysql_impl := Some handle \<rparr>)))))"

definition ping :: "'m mysql_client \<Rightarrow> 'm connection \<Rightarrow> (bool \<times> 'm connection) result" where
  "ping L conn =
     rbind (get_query_handle ''cannot perform ping in replication mode'' conn) (\<lambda>handle.
     let (alive, handle) = mysql_ping L handle in
     Inr (alive, conn\<lparr> mysql_impl := Some handle \<rparr>))"

section \<open>Replication\<close>

datatype connection_replication_mode_type = Blocking | Non_blocking

definition private_binlog_dump_non_block :: uint32 where
  "private_binlog_dump_non_block = 1"

definition get_rpl_flags :: "'m mysql_client \<Rightarrow> bool \<Rightarrow> connection_replication_mode_type \<Rightarrow> uint32" where
  "get_rpl_flags L gtid_mode blocking_mode =
     or (mysql_rpl_skip_heartbeat L)
       (or (if gtid_mode then mysql_rpl_gtid L else 0)
         (if blocking_mode = Non_blocking then private_binlog_dump_non_block else 0))"

definition default_binlog_position :: uint64 where
  "default_binlog_position = 4"

definition make_position_rpl ::
    "'m mysql_client \<Rightarrow> uint32 \<Rightarrow> string \<Rightarrow> uint64 \<Rightarrow> connection_replication_mode_type \<Rightarrow> mysql_rpl" where
  "make_position_rpl L server_id file_name position blocking_mode =
     \<lparr> rpl_file_name = file_name, rpl_start_position = position, rpl_server_id = server_id,
       rpl_flags = get_rpl_flags L False blocking_mode, rpl_gtid_set = [] \<rparr>"

definition make_gtid_rpl :: "'m mysql_client \<Rightarrow> uint32 \<Rightarrow> byte list \<Rightarrow> connection_replication_mode_type \<Rightarrow> mysql_rpl" where
  "make_gtid_rpl L server_id encoded_gtid_set blocking_mode =
     \<lparr> rpl_file_name = [], rpl_start_position = default_binlog_position, rpl_server_id = server_id,
       rpl_flags = get_rpl_flags L True blocking_mode, rpl_gtid_set = encoded_gtid_set \<rparr>"

definition set_binlog_checksum :: "'m mysql_client \<Rightarrow> bool \<Rightarrow> 'm connection \<Rightarrow> 'm connection result" where
  "set_binlog_checksum L checksum_enabled conn =
     (let checksum_algorithm_label = (if checksum_enabled then ''CRC32'' else ''NONE'') in
      execute_generic_query_noresult L
        (''SET @source_binlog_checksum = '' @ [CHR 0x27] @ checksum_algorithm_label @ [CHR 0x27] @
         '', @master_binlog_checksum = '' @ [CHR 0x27] @ checksum_algorithm_label @ [CHR 0x27]) conn)"

text \<open>Both switches: the check, the checksum query, and the request.\<close>

definition open_binlog_stream :: "'m mysql_client \<Rightarrow> mysql_rpl \<Rightarrow> string \<Rightarrow> bool \<Rightarrow> 'm connection \<Rightarrow> 'm connection result" where
  "open_binlog_stream L rpl user_message checksum_enabled conn =
     rbind (get_query_handle ''connection has already been switched to replication'' conn) (\<lambda>_.
     rbind (set_binlog_checksum L checksum_enabled conn) (\<lambda>conn.
     rbind (get_handle conn) (\<lambda>handle.
     rbind (checked_call L user_message (mysql_binlog_open L rpl handle)) (\<lambda>handle.
     Inr (conn\<lparr> mysql_impl := Some handle, rpl_impl := Some rpl \<rparr>)))))"

definition switch_to_position_replication ::
    "'m mysql_client \<Rightarrow> uint32 \<Rightarrow> string \<Rightarrow> uint64 \<Rightarrow> bool \<Rightarrow> connection_replication_mode_type \<Rightarrow> 'm connection \<Rightarrow> 'm connection result" where
  "switch_to_position_replication L server_id file_name position checksum_enabled blocking_mode conn =
     open_binlog_stream L (make_position_rpl L server_id file_name position blocking_mode)
       ''cannot open binary log in position mode'' checksum_enabled conn"

definition switch_to_position_replication_start ::
    "'m mysql_client \<Rightarrow> uint32 \<Rightarrow> bool \<Rightarrow> connection_replication_mode_type \<Rightarrow> 'm connection \<Rightarrow> 'm connection result" where
  "switch_to_position_replication_start L server_id checksum_enabled blocking_mode conn =
     switch_to_position_replication L server_id [] default_binlog_position checksum_enabled blocking_mode conn"

definition switch_to_gtid_replication ::
    "'m mysql_client \<Rightarrow> uint32 \<Rightarrow> byte list \<Rightarrow> bool \<Rightarrow> connection_replication_mode_type \<Rightarrow> 'm connection \<Rightarrow> 'm connection result" where
  "switch_to_gtid_replication L server_id encoded_gtid_set checksum_enabled blocking_mode conn =
     open_binlog_stream L (make_gtid_rpl L server_id encoded_gtid_set blocking_mode)
       ''cannot open binary log in GTID mode'' checksum_enabled conn"

text \<open>The result is none if the connection was lost; an empty portion is the end of the stream.\<close>

definition fetch_binlog_event :: "'m mysql_client \<Rightarrow> 'm connection \<Rightarrow> (byte list option \<times> 'm connection) result" where
  "fetch_binlog_event L conn =
     rbind (get_handle conn) (\<lambda>handle.
     rbind (or_raise (rpl_impl conn) (Logic_error ''connection has not been switched to replication'')) (\<lambda>rpl.
     let (portion, handle) = mysql_binlog_fetch L rpl handle in
     if portion = None \<and> mysql_errno L handle \<noteq> cr_server_lost L
     then raise_core_error_from_connection L ''cannot fetch binlog event'' handle
     else Inr (portion, conn\<lparr> mysql_impl := Some handle \<rparr>)))"

section \<open>What the operations keep\<close>

text \<open>A stream of events can only be opened once, and no query is executed afterwards.\<close>

lemma query_handle_Inr [result_simps]:
  "get_query_handle m conn = Inr handle \<longleftrightarrow> mysql_impl conn = Some handle \<and> rpl_impl conn = None"
  by (auto simp: get_query_handle_def get_handle_def is_in_replication_mode_def result_simps)

lemma open_binlog_stream_Inr:
  assumes "open_binlog_stream L rpl m checksum_enabled conn = Inr conn'"
  shows "rpl_impl conn = None" "rpl_impl conn' = Some rpl" "mysql_impl conn' \<noteq> None"
    "\<exists>handle. mysql_impl conn' = Some (snd (mysql_binlog_open L rpl handle)) \<and> fst (mysql_binlog_open L rpl handle)"
  using assms by (auto simp: open_binlog_stream_def get_handle_def checked_call_def raise_core_error_from_connection_def result_simps
      split: if_splits)

lemma fetch_binlog_event_Inr:
  assumes "fetch_binlog_event L conn = Inr (portion, conn')"
  shows "rpl_impl conn' = rpl_impl conn" "is_in_replication_mode conn'" "mysql_impl conn' \<noteq> None"
  using assms by (auto simp: fetch_binlog_event_def get_handle_def is_in_replication_mode_def raise_core_error_from_connection_def result_simps
      Let_def case_prod_unfold split: if_splits)

end
