(* ===== verification/Config.thy ===== *)
theory Config
  imports Text Event_View Connection
begin

text \<open>
  The configuration of the program: sizes and times with a unit (\<open>size_unit.cpp\<close>, \<open>time_unit.cpp\<close>), the
  sections of the configuration file and their validation (\<open>*_config.cpp\<close>). The file itself is JSON, read
  by the functions that the metadata use as well.
\<close>

section \<open>Sizes and times\<close>

text \<open>\<open>std::from_chars\<close> into 64 bits: the number at the start of a text (which is never a null pointer), and the rest of the text.\<close>

definition from_chars_uint64 :: "string \<Rightarrow> (uint64 \<times> string) option" where
  "from_chars_uint64 input =
     (let digits = takeWhile isdigit input in
      if digits \<noteq> [] \<and> int (decimal_value 0 digits) < 2 ^ 64
      then Some (of_nat (decimal_value 0 digits), dropWhile isdigit input) else None)"

text \<open>\<open>std::find_if\<close> over a table, from an index on.\<close>

fun find_symbol :: "nat \<Rightarrow> char \<Rightarrow> (char \<times> 'a) list \<Rightarrow> nat option" where
  "find_symbol i symbol [] = None"
| "find_symbol i symbol ((c, _) # table) = (if c = symbol then Some i else find_symbol (Suc i) symbol table)"

datatype size_unit = Size_unit uint64 nat

definition shifts :: "(char \<times> nat) list" where
  "shifts = [(CHR ''_'', 0), (CHR ''K'', 10), (CHR ''M'', 20), (CHR ''G'', 30), (CHR ''T'', 40), (CHR ''P'', 50)]"

definition size_unit_of_string :: "string \<Rightarrow> size_unit result" where
  "size_unit_of_string value_sv =
     rbind (or_raise (from_chars_uint64 value_sv) (Invalid_argument ''unable to parse numeric part in the size unit'')) (\<lambda>(base_value, rest).
     case rest of
       [] \<Rightarrow> Inr (Size_unit base_value 0)
     | symbol # rest \<Rightarrow>
         rbind (ensure (rest = [])
           (Invalid_argument ''unit prefix in the size unit is expected to be a single character'')) (\<lambda>_.
         rbind (or_raise (find_symbol 1 symbol (tl shifts)) (Invalid_argument ''unknown unit prefix in the size unit'')) (\<lambda>shift_index.
         if base_value = 0 then Inr (Size_unit base_value 0)
         else
           rbind (ensure (\<not> base_value > drop_bit (snd (shifts ! shift_index)) (- 1))
             (Out_of_range ''the specified size unit cannot be represented in a 64-bit unsigned integer'')) (\<lambda>_.
           Inr (Size_unit base_value shift_index)))))"

fun size_unit_get_value :: "size_unit \<Rightarrow> uint64" where
  "size_unit_get_value (Size_unit base_value shift_index) = push_bit (snd (shifts ! shift_index)) base_value"

fun size_unit_str :: "size_unit \<Rightarrow> string" where
  "size_unit_str (Size_unit base_value shift_index) =
     to_string (unat base_value) @ (if shift_index \<noteq> 0 then [fst (shifts ! shift_index)] else [])"

datatype time_unit = Time_unit uint64 nat

definition multipliers :: "(char \<times> uint64) list" where
  "multipliers = [(CHR ''s'', 1), (CHR ''m'', 60), (CHR ''h'', 60 * 60), (CHR ''d'', 60 * 60 * 24)]"

definition time_unit_of_string :: "string \<Rightarrow> time_unit result" where
  "time_unit_of_string value_sv =
     rbind (or_raise (from_chars_uint64 value_sv) (Invalid_argument ''unable to parse numeric part in the time unit'')) (\<lambda>(base_value, rest).
     case rest of
       [] \<Rightarrow> Inr (Time_unit base_value 0)
     | symbol # rest \<Rightarrow>
         rbind (ensure (rest = [])
           (Invalid_argument ''unit prefix in the time unit is expected to be a single character'')) (\<lambda>_.
         rbind (or_raise (find_symbol 0 symbol multipliers) (Invalid_argument ''unknown unit prefix in the time unit'')) (\<lambda>multiplier_index.
         if base_value = 0 then Inr (Time_unit base_value 0)
         else
           rbind (ensure (\<not> base_value > (- 1) div snd (multipliers ! multiplier_index))
             (Out_of_range ''the specified time unit cannot be represented in a 64-bit unsigned integer'')) (\<lambda>_.
           Inr (Time_unit base_value multiplier_index)))))"

fun time_unit_get_value :: "time_unit \<Rightarrow> uint64" where
  "time_unit_get_value (Time_unit base_value multiplier_index) = base_value * snd (multipliers ! multiplier_index)"

fun time_unit_str :: "time_unit \<Rightarrow> string" where
  "time_unit_str (Time_unit base_value multiplier_index) =
     to_string (unat base_value) @ [fst (multipliers ! multiplier_index)]"

section \<open>Sections of the configuration\<close>

record rewrite_config =
  rw_base_file_name :: string
  rw_file_size :: size_unit

definition min_file_size :: uint64 where
  "min_file_size = 1024"

definition rewrite_config_validate :: "rewrite_config \<Rightarrow> unit result" where
  "rewrite_config_validate config =
     ensure (\<not> size_unit_get_value (rw_file_size config) < min_file_size)
       (Invalid_argument (''error validating rewrite config: file size must be >= '' @ to_string (unat min_file_size) @ '' bytes''))"

record replication_config =
  rp_server_id :: uint32
  rp_idle_time :: uint32
  rp_verify_checksum :: bool
  rp_mode :: replication_mode_type
  rp_rewrite :: "rewrite_config option"

definition replication_config_validate :: "replication_config \<Rightarrow> unit result" where
  "replication_config_validate config =
     (case rp_rewrite config of
        None \<Rightarrow> Inr ()
      | Some rewrite_config \<Rightarrow>
          rbind (ensure (rp_mode config = Gtid_mode)
            (Invalid_argument (''error validating replication config: '' @
              ''rewrite can only be enabled in gtid replication mode''))) (\<lambda>_.
          rewrite_config_validate rewrite_config))"

text \<open>The part of the storage section that the storage uses itself; the rest names and configures the backend.\<close>

record storage_config =
  sc_checkpoint_size :: "size_unit option"
  sc_checkpoint_interval :: "time_unit option"

text \<open>The seconds of a duration are signed.\<close>

definition checkpoint_size_bytes :: "storage_config \<Rightarrow> uint64" where
  "checkpoint_size_bytes config = (case sc_checkpoint_size config of None \<Rightarrow> 0 | Some unit \<Rightarrow> size_unit_get_value unit)"

definition checkpoint_interval_seconds :: "storage_config \<Rightarrow> int" where
  "checkpoint_interval_seconds config = (case sc_checkpoint_interval config of None \<Rightarrow> 0 | Some unit \<Rightarrow> sint (time_unit_get_value unit))"

text \<open>The configuration as a whole, without the section of the logger.\<close>

record config_root =
  root_connection :: connection_config
  root_replication :: replication_config
  root_storage :: storage_config

definition main_config_validate :: "config_root \<Rightarrow> unit result" where
  "main_config_validate root =
     rbind (connection_config_validate (root_connection root)) (\<lambda>_.
     replication_config_validate (root_replication root))"

section \<open>Lemmas\<close>

lemma uint64_bound: "unat (n :: uint64) < 2 ^ 64"
  using unsigned_less [of n, where 'a = nat] by simp

lemma from_chars_uint64_to_string:
  assumes "rest = [] \<or> \<not> isdigit (hd rest)"
  shows "from_chars_uint64 (to_string (unat (n :: uint64)) @ rest) = Some (n, rest)"
proof -
  let ?t = "to_string (unat n)"
  have digits: "\<forall>c \<in> set ?t. isdigit c" using to_string_digits by blast
  have "takeWhile isdigit rest = []" "dropWhile isdigit rest = rest" using assms by (cases rest; simp)+
  then have "takeWhile isdigit (?t @ rest) = ?t" "dropWhile isdigit (?t @ rest) = rest"
    using digits by (simp_all add: takeWhile_append2 dropWhile_append2)
  moreover have "unat n < 2 ^ 64" by (rule uint64_bound)
  ultimately show ?thesis using to_string_nonempty by (simp add: from_chars_uint64_def decimal_value_to_string Let_def)
qed

lemma from_chars_uint64_Some:
  assumes "from_chars_uint64 input = Some (b, rest)"
  shows "takeWhile isdigit input \<noteq> []" "unat b = decimal_value 0 (takeWhile isdigit input)" "rest = dropWhile isdigit input"
  using assms by (auto simp: from_chars_uint64_def Let_def unat_of_nat take_bit_eq_mod split: if_splits)

lemma from_chars_uint64_None:
  assumes "from_chars_uint64 input = None"
  shows "takeWhile isdigit input = [] \<or> 2 ^ 64 \<le> decimal_value 0 (takeWhile isdigit input)"
  using assms by (auto simp: from_chars_uint64_def Let_def split: if_splits)

text \<open>What a text with a unit denotes, by a table of the factors: a number without bounds.\<close>

definition denoted :: "(char \<times> nat) list \<Rightarrow> string \<Rightarrow> nat option" where
  "denoted factors input =
     (let digits = takeWhile isdigit input in
      if digits = [] then None
      else case dropWhile isdigit input of
        [] \<Rightarrow> Some (decimal_value 0 digits)
      | [c] \<Rightarrow> map_option (\<lambda>k. decimal_value 0 digits * k) (map_of factors c)
      | _ \<Rightarrow> None)"

lemma find_symbol_Some:
  "find_symbol j c tbl = Some i \<Longrightarrow> j \<le> i \<and> i - j < length tbl \<and> fst (tbl ! (i - j)) = c \<and> map_of tbl c = Some (snd (tbl ! (i - j)))"
proof (induction j c tbl rule: find_symbol.induct)
  case (2 j c d x tbl)
  then show ?case by (cases "d = c") (auto simp: nth_Cons' Suc_diff_le)
qed simp

lemma find_symbol_None: "find_symbol j c tbl = None \<longleftrightarrow> map_of tbl c = None"
  by (induction j c tbl rule: find_symbol.induct) auto

lemma find_symbol_nth: "distinct (map fst tbl) \<Longrightarrow> i < length tbl \<Longrightarrow> find_symbol j (fst (tbl ! i)) tbl = Some (j + i)"
proof (induction tbl arbitrary: i j)
  case (Cons p tbl)
  then show ?case by (cases i; cases p) (auto simp: rev_image_eqI)
qed simp

text \<open>
  The contract of a class of values with a unit: a value is made of a number and the index of its
  unit in a table, the first units of which may not be written.
\<close>

locale unit_class =
  fixes make :: "uint64 \<Rightarrow> nat \<Rightarrow> 'u" and of_string :: "string \<Rightarrow> 'u result" and str :: "'u \<Rightarrow> string"
    and get_value :: "'u \<Rightarrow> uint64" and symbols :: "(char \<times> nat) list" and first :: nat
  assumes no_number: "from_chars_uint64 input = None \<Longrightarrow> \<not> is_ok (of_string input)"
    and plain: "from_chars_uint64 input = Some (b, []) \<Longrightarrow> of_string input = Inr (make b 0)"
    and long: "from_chars_uint64 input = Some (b, c # d # rest) \<Longrightarrow> \<not> is_ok (of_string input)"
    and unknown: "from_chars_uint64 input = Some (b, [c]) \<Longrightarrow> find_symbol first c (drop first symbols) = None \<Longrightarrow> \<not> is_ok (of_string input)"
    and zero: "from_chars_uint64 input = Some (0, [c]) \<Longrightarrow> find_symbol first c (drop first symbols) = Some i \<Longrightarrow> of_string input = Inr (make 0 0)"
    and fits: "from_chars_uint64 input = Some (b, [c]) \<Longrightarrow> b \<noteq> 0 \<Longrightarrow> find_symbol first c (drop first symbols) = Some i \<Longrightarrow>
      unat b * snd (symbols ! i) < 2 ^ 64 \<Longrightarrow> of_string input = Inr (make b i)"
    and too_large: "from_chars_uint64 input = Some (b, [c]) \<Longrightarrow> b \<noteq> 0 \<Longrightarrow> find_symbol first c (drop first symbols) = Some i \<Longrightarrow>
      2 ^ 64 \<le> unat b * snd (symbols ! i) \<Longrightarrow> \<not> is_ok (of_string input)"
    and value_of: "i < length symbols \<Longrightarrow> unat b * snd (symbols ! i) < 2 ^ 64 \<Longrightarrow> unat (get_value (make b i)) = unat b * snd (symbols ! i)"
    and str_first: "str (make b 0) = to_string (unat b) \<or> first = 0 \<and> str (make b 0) = to_string (unat b) @ [fst (symbols ! 0)]"
    and str_other: "first \<le> i \<Longrightarrow> i < length symbols \<Longrightarrow> 0 < i \<Longrightarrow> str (make b i) = to_string (unat b) @ [fst (symbols ! i)]"
    and table: "0 < length symbols" "snd (symbols ! 0) = 1" "distinct (map fst symbols)" "\<And>c k. (c, k) \<in> set symbols \<Longrightarrow> \<not> isdigit c \<and> 0 < k"
begin

lemma reads_back:
  assumes "i < length symbols" and "i = 0 \<or> first \<le> i" and "unat b * snd (symbols ! i) < 2 ^ 64" and "b = 0 \<Longrightarrow> i = 0"
  shows "of_string (str (make b i)) = Inr (make b i)"
proof -
  have nd: "\<not> isdigit (fst (symbols ! i))" using table(4) [of "fst (symbols ! i)" "snd (symbols ! i)"] assms(1) by simp
  then have parsed: "from_chars_uint64 (to_string (unat b) @ [fst (symbols ! i)]) = Some (b, [fst (symbols ! i)])"
    by (intro from_chars_uint64_to_string) simp
  have found: "find_symbol first (fst (symbols ! i)) (drop first symbols) = Some i" if "first \<le> i"
    using find_symbol_nth [of "drop first symbols" "i - first" first] table(3) that assms(1) by (simp add: drop_map [symmetric])
  have written: "of_string (to_string (unat b) @ [fst (symbols ! i)]) = Inr (make b i)" if "first \<le> i"
    using fits [OF parsed _ found [OF that] assms(3)] zero parsed found [OF that] assms(4)
    by (cases "b = 0") auto
  have bare: "of_string (to_string (unat b)) = Inr (make b 0)"
    using plain from_chars_uint64_to_string [of "[]" b] by simp
  show ?thesis
  proof (cases "i = 0")
    case True
    then show ?thesis using str_first [of b] bare written by auto
  next
    case False
    then show ?thesis using str_other [of i b] assms(1,2) written by simp
  qed
qed

lemma denotes:
  "case denoted (drop first symbols) input of
     None \<Rightarrow> \<not> is_ok (of_string input)
   | Some n \<Rightarrow> if n < 2 ^ 64 then \<exists>u. of_string input = Inr u \<and> unat (get_value u) = n \<and> of_string (str u) = Inr u
       else \<not> is_ok (of_string input)"
proof (cases "from_chars_uint64 input")
  case None
  have "n \<ge> 2 ^ 64" if "denoted (drop first symbols) input = Some n" for n
  proof -
    have "takeWhile isdigit input \<noteq> []" using that by (auto simp: denoted_def Let_def split: if_splits)
    then have big: "2 ^ 64 \<le> decimal_value 0 (takeWhile isdigit input)" using from_chars_uint64_None [OF None] by simp
    have "decimal_value 0 (takeWhile isdigit input) \<le> n"
      using that table(4) by (auto simp: denoted_def Let_def Suc_le_eq dest!: map_of_SomeD in_set_dropD split: if_splits list.splits)
    then show ?thesis using big by simp
  qed
  then show ?thesis using no_number [OF None] by (auto split: option.splits)
next
  case (Some p)
  obtain b rest where p: "from_chars_uint64 input = Some (b, rest)" using Some by (cases p) simp
  note n = from_chars_uint64_Some [OF p]
  consider "rest = []" | c where "rest = [c]" | c d r where "rest = c # d # r" by (metis list.exhaust)
  then show ?thesis
  proof cases
    case 1
    have "unat (get_value (make b 0)) = unat b" using value_of [of 0 b] table(1,2) uint64_bound [of b] by simp
    moreover have "of_string (str (make b 0)) = Inr (make b 0)" using table(1,2) uint64_bound [of b] by (intro reads_back) simp_all
    moreover have "denoted (drop first symbols) input = Some (unat b)"
      unfolding denoted_def Let_def n(3) [symmetric] 1 using n(1,2) by simp
    ultimately show ?thesis using plain [OF p [unfolded 1]] uint64_bound [of b] by simp
  next
    case 2
    show ?thesis
    proof (cases "find_symbol first c (drop first symbols)")
      case None
      then show ?thesis using unknown p 2 n find_symbol_None [of first c "drop first symbols"] by (auto simp: denoted_def Let_def)
    next
      case (Some i)
      note i = find_symbol_Some [OF Some]
      have len: "i < length symbols" using i by auto
      have "map_of (drop first symbols) c = Some (snd (symbols ! i))" using i len by simp
      then have d: "denoted (drop first symbols) input = Some (unat b * snd (symbols ! i))"
        unfolding denoted_def Let_def n(3) [symmetric] 2 using n(1,2) by simp
      show ?thesis
      proof (cases "b = 0")
        case True
        have "unat (get_value (make 0 0)) = 0" "of_string (str (make 0 0)) = Inr (make 0 0)"
          using value_of [of 0 0] table(1) by (simp_all add: reads_back)
        then show ?thesis using zero [of input c i] p 2 True Some d by simp
      next
        case False
        then show ?thesis
          using d fits [OF p [unfolded 2] False Some] too_large [OF p [unfolded 2] False Some] value_of [OF len] reads_back [OF len, of b] i
          by (auto simp: not_less)
      qed
    qed
  next
    case 3
    then show ?thesis using long p n by (auto simp: denoted_def Let_def)
  qed
qed

end

text \<open>The tables of factors: shifts as powers of two, and the seconds of a unit.\<close>

definition size_factors :: "(char \<times> nat) list" where
  "size_factors = map (\<lambda>(c, k). (c, 2 ^ k)) shifts"

definition time_factors :: "(char \<times> nat) list" where
  "time_factors = map (\<lambda>(c, k). (c, unat k)) multipliers"

lemma find_symbol_map: "find_symbol j c (map (\<lambda>(c, k). (c, f k)) tbl) = find_symbol j c tbl"
  by (induction j c tbl rule: find_symbol.induct) auto

lemma shift_fits:
  assumes "i < 6"
  shows "mask (64 - snd (shifts ! i)) < (b :: uint64) \<longleftrightarrow> 2 ^ 64 \<le> unat b * 2 ^ snd (shifts ! i)"
    "unat b * 2 ^ snd (shifts ! i) < 2 ^ 64 \<Longrightarrow> unat (push_bit (snd (shifts ! i)) b) = unat b * 2 ^ snd (shifts ! i)"
proof -
  have "i \<in> {0, 1, 2, 3, 4, 5}" using assms by auto
  then show "mask (64 - snd (shifts ! i)) < (b :: uint64) \<longleftrightarrow> 2 ^ 64 \<le> unat b * 2 ^ snd (shifts ! i)"
    using uint64_bound [of b] by (auto simp: shifts_def word_less_nat_alt mask_eq_exp_minus_1)
  show "unat (push_bit (snd (shifts ! i)) b) = unat b * 2 ^ snd (shifts ! i)" if "unat b * 2 ^ snd (shifts ! i) < 2 ^ 64"
    using that by (simp add: unsigned_push_bit_eq push_bit_eq_mult [of _ "unat b"] take_bit_eq_mod)
qed

lemma multiplier_fits:
  assumes "i < 4"
  shows "- 1 div snd (multipliers ! i) < (b :: uint64) \<longleftrightarrow> 2 ^ 64 \<le> unat b * unat (snd (multipliers ! i))"
proof -
  have "i \<in> {0, 1, 2, 3}" using assms by auto
  then show ?thesis using uint64_bound [of b] by (auto simp: multipliers_def word_less_nat_alt unsigned_minus_1_eq_mask mask_eq_exp_minus_1)
qed

interpretation sizes: unit_class Size_unit size_unit_of_string size_unit_str size_unit_get_value size_factors 1
proof
  have len: "length shifts = 6" "length size_factors = 6" by (simp_all add: shifts_def size_factors_def)
  have nth: "snd (size_factors ! i) = 2 ^ snd (shifts ! i)" "fst (size_factors ! i) = fst (shifts ! i)" if "i < 6" for i
    using that len by (simp_all add: size_factors_def case_prod_unfold)
  have tab: "find_symbol 1 c (drop 1 size_factors) = find_symbol 1 c (tl shifts)" for c
    by (simp add: size_factors_def find_symbol_map drop_Suc map_tl [symmetric])
  have bound: "i < 6" if "find_symbol 1 c (tl shifts) = Some i" for c i
    using find_symbol_Some [OF that] len by auto
  fix input b c d rest i
  show "from_chars_uint64 input = None \<Longrightarrow> \<not> is_ok (size_unit_of_string input)" by (simp add: size_unit_of_string_def)
  show "from_chars_uint64 input = Some (b, []) \<Longrightarrow> size_unit_of_string input = Inr (Size_unit b 0)" by (simp add: size_unit_of_string_def)
  show "from_chars_uint64 input = Some (b, c # d # rest) \<Longrightarrow> \<not> is_ok (size_unit_of_string input)" by (simp add: size_unit_of_string_def)
  show "\<not> is_ok (size_unit_of_string input)" if "from_chars_uint64 input = Some (b, [c])" "find_symbol 1 c (drop 1 size_factors) = None"
    using that unfolding tab by (simp add: size_unit_of_string_def)
  show "size_unit_of_string input = Inr (Size_unit 0 0)"
    if "from_chars_uint64 input = Some (0, [c])" "find_symbol 1 c (drop 1 size_factors) = Some i"
    using that unfolding tab by (simp add: size_unit_of_string_def)
  show "size_unit_of_string input = Inr (Size_unit b i)"
    if "from_chars_uint64 input = Some (b, [c])" "b \<noteq> 0" "find_symbol 1 c (drop 1 size_factors) = Some i" "unat b * snd (size_factors ! i) < 2 ^ 64"
    using that bound unfolding tab by (simp add: size_unit_of_string_def shift_fits(1) nth(1))
  show "\<not> is_ok (size_unit_of_string input)"
    if "from_chars_uint64 input = Some (b, [c])" "b \<noteq> 0" "find_symbol 1 c (drop 1 size_factors) = Some i" "2 ^ 64 \<le> unat b * snd (size_factors ! i)"
    using that bound unfolding tab by (simp add: size_unit_of_string_def shift_fits(1) nth(1))
  show "unat (size_unit_get_value (Size_unit b i)) = unat b * snd (size_factors ! i)"
    if "i < length size_factors" "unat b * snd (size_factors ! i) < 2 ^ 64"
    using that len by (simp add: nth(1) shift_fits(2))
  show "size_unit_str (Size_unit b 0) = to_string (unat b) \<or> 1 = (0 :: nat) \<and> size_unit_str (Size_unit b 0) = to_string (unat b) @ [fst (size_factors ! 0)]"
    by simp
  show "size_unit_str (Size_unit b i) = to_string (unat b) @ [fst (size_factors ! i)]" if "i < length size_factors" "0 < i"
    using that len by (simp add: nth(2))
  show "\<not> isdigit c \<and> 0 < i" if "(c, i) \<in> set size_factors"
    using that by (auto simp: size_factors_def shifts_def isdigit_def)
qed (simp_all add: size_factors_def shifts_def)

interpretation times: unit_class Time_unit time_unit_of_string time_unit_str time_unit_get_value time_factors 0
proof
  have len: "length multipliers = 4" "length time_factors = 4" by (simp_all add: multipliers_def time_factors_def)
  have nth: "snd (time_factors ! i) = unat (snd (multipliers ! i))" "fst (time_factors ! i) = fst (multipliers ! i)" if "i < 4" for i
    using that len by (simp_all add: time_factors_def case_prod_unfold)
  have tab: "find_symbol 0 c (drop 0 time_factors) = find_symbol 0 c multipliers" for c
    by (simp add: time_factors_def find_symbol_map)
  have bound: "i < 4" if "find_symbol 0 c multipliers = Some i" for c i
    using find_symbol_Some [OF that] len by auto
  fix input b c d rest i
  show "from_chars_uint64 input = None \<Longrightarrow> \<not> is_ok (time_unit_of_string input)" by (simp add: time_unit_of_string_def)
  show "from_chars_uint64 input = Some (b, []) \<Longrightarrow> time_unit_of_string input = Inr (Time_unit b 0)" by (simp add: time_unit_of_string_def)
  show "from_chars_uint64 input = Some (b, c # d # rest) \<Longrightarrow> \<not> is_ok (time_unit_of_string input)" by (simp add: time_unit_of_string_def)
  show "\<not> is_ok (time_unit_of_string input)" if "from_chars_uint64 input = Some (b, [c])" "find_symbol 0 c (drop 0 time_factors) = None"
    using that unfolding tab by (simp add: time_unit_of_string_def)
  show "time_unit_of_string input = Inr (Time_unit 0 0)"
    if "from_chars_uint64 input = Some (0, [c])" "find_symbol 0 c (drop 0 time_factors) = Some i"
    using that unfolding tab by (simp add: time_unit_of_string_def)
  show "time_unit_of_string input = Inr (Time_unit b i)"
    if "from_chars_uint64 input = Some (b, [c])" "b \<noteq> 0" "find_symbol 0 c (drop 0 time_factors) = Some i" "unat b * snd (time_factors ! i) < 2 ^ 64"
    using that bound unfolding tab by (simp add: time_unit_of_string_def multiplier_fits nth(1))
  show "\<not> is_ok (time_unit_of_string input)"
    if "from_chars_uint64 input = Some (b, [c])" "b \<noteq> 0" "find_symbol 0 c (drop 0 time_factors) = Some i" "2 ^ 64 \<le> unat b * snd (time_factors ! i)"
    using that bound unfolding tab by (simp add: time_unit_of_string_def multiplier_fits nth(1))
  show "unat (time_unit_get_value (Time_unit b i)) = unat b * snd (time_factors ! i)"
    if "i < length time_factors" "unat b * snd (time_factors ! i) < 2 ^ 64"
    using that len by (simp add: nth(1) unat_word_ariths)
  show "time_unit_str (Time_unit b 0) = to_string (unat b) \<or> 0 = (0 :: nat) \<and> time_unit_str (Time_unit b 0) = to_string (unat b) @ [fst (time_factors ! 0)]"
    by (simp add: nth(2))
  show "time_unit_str (Time_unit b i) = to_string (unat b) @ [fst (time_factors ! i)]" if "i < length time_factors"
    using that len by (simp add: nth(2))
  show "\<not> isdigit c \<and> 0 < i" if "(c, i) \<in> set time_factors"
    using that by (auto simp: time_factors_def multipliers_def isdigit_def)
qed (simp_all add: time_factors_def multipliers_def)

section \<open>Properties\<close>

text \<open>
  C36: Sizes and times in the configuration mean what they say, without overflow: a text is accepted exactly if it is a
  number, alone or with one of the unit letters, whose product fits in 64 bits; the value is then that product, computed
  without wrapping around, and the printed form is accepted again and gives the same value.
\<close>

theorem units_denote_their_product:
  "(case denoted (tl size_factors) input of
      None \<Rightarrow> \<not> is_ok (size_unit_of_string input)
    | Some n \<Rightarrow> if n < 2 ^ 64
        then \<exists>u. size_unit_of_string input = Inr u \<and> unat (size_unit_get_value u) = n \<and> size_unit_of_string (size_unit_str u) = Inr u
        else \<not> is_ok (size_unit_of_string input)) \<and>
   (case denoted time_factors input of
      None \<Rightarrow> \<not> is_ok (time_unit_of_string input)
    | Some n \<Rightarrow> if n < 2 ^ 64
        then \<exists>u. time_unit_of_string input = Inr u \<and> unat (time_unit_get_value u) = n \<and> time_unit_of_string (time_unit_str u) = Inr u
        else \<not> is_ok (time_unit_of_string input))"
  using sizes.denotes [of input] times.denotes [of input] by (simp add: drop_Suc)

end
