(* ===== verification/Receive.thy ===== *)
theory Receive
  imports App_Rewrite Gtid_Set_Text Config
begin

text \<open>
  The life of the streaming process (\<open>app.cpp\<close>): the connection and the request for events, the
  loop that receives them, with or without rewriting, and the loop that reconnects. The client
  library and the readings of the termination flag and of the clock are the environment.
\<close>

section \<open>Requests to the server\<close>

definition select_gtid_purged_query :: string where
  "select_gtid_purged_query = ''SELECT @@GLOBAL.gtid_purged''"

text \<open>An empty storage in GTID mode asks for the purged GTIDs first.\<close>

definition request_purged_gtids ::
    "'c icl \<Rightarrow> 'm mysql_client \<Rightarrow> 'm connection \<times> 'c storage \<Rightarrow> ('m connection \<times> 'c storage) result" where
  "request_purged_gtids I L = (\<lambda>(connection, s).
     if storage_is_empty s then
       rbind (execute_select_query_string_result L select_gtid_purged_query connection) (\<lambda>(gtid_purged, connection).
       rbind (gtid_set_of_string I gtid_purged) (\<lambda>gtids.
       rbind (set_purged_gtids gtids s) (\<lambda>s.
       Inr (connection, s))))
     else Inr (connection, s))"

definition request_gtid_replication ::
    "'c icl \<Rightarrow> 'm mysql_client \<Rightarrow> uint32 \<Rightarrow> bool \<Rightarrow> connection_replication_mode_type \<Rightarrow> 'm connection \<Rightarrow> 'c storage \<Rightarrow> 'm connection result" where
  "request_gtid_replication I L server_id checksum_enabled blocking_mode connection s =
     (let gtids = get_gtids I s in
      rbind (encode_to I gtids ([], replicate (calculate_encoded_size I gtids) 0)) (\<lambda>(encoded, rest).
      switch_to_gtid_replication L server_id (encoded @ rest) checksum_enabled blocking_mode connection))"

text \<open>
  The body of the second \<open>try\<close> block: the storage keeps the purged GTIDs also when the switch to
  replication fails afterwards.
\<close>

definition switch_to_replication ::
    "'c icl \<Rightarrow> 'm mysql_client \<Rightarrow> uint32 \<Rightarrow> bool \<Rightarrow> connection_replication_mode_type \<Rightarrow> 'm connection \<Rightarrow> 'c storage \<Rightarrow>
     'm connection result \<times> 'c storage" where
  "switch_to_replication I L server_id checksum_enabled blocking_mode connection s =
     (if is_in_gtid_replication_mode s then
        (case request_purged_gtids I L (connection, s) of
           Inl e \<Rightarrow> (Inl e, s)
         | Inr (connection, s) \<Rightarrow> (request_gtid_replication I L server_id checksum_enabled blocking_mode connection s, s))
      else if storage_is_empty s then
        (switch_to_position_replication_start L server_id checksum_enabled blocking_mode connection, s)
      else
        (switch_to_position_replication L server_id (binlog_name_str (get_current_binlog_name s)) (get_current_position s)
           checksum_enabled blocking_mode connection, s))"

text \<open>
  The \<open>catch\<close> clauses: an error of the client library ends a fetch, and is passed over while pulling,
  which goes on without a connection.
\<close>

definition caught_core_error :: "operation_mode_type \<Rightarrow> cpp_error \<Rightarrow> 'a \<Rightarrow> 'a result" where
  "caught_core_error operation_mode e fallback =
     (if is_core_error e \<and> operation_mode \<noteq> Fetch then Inr fallback else Inl e)"

definition open_connection_and_switch_to_replication ::
    "'c icl \<Rightarrow> 'm mysql_client \<Rightarrow> operation_mode_type \<Rightarrow> connection_config \<Rightarrow> uint32 \<Rightarrow> bool \<Rightarrow> 'c storage \<Rightarrow>
     ('m connection option \<times> 'c storage) result" where
  "open_connection_and_switch_to_replication I L operation_mode config server_id checksum_enabled s =
     (case make_connection L config of
        Inl e \<Rightarrow> caught_core_error operation_mode e (None, s)
      | Inr connection \<Rightarrow>
          let blocking_mode = (if operation_mode = Fetch then Non_blocking else Blocking) in
          (case switch_to_replication I L server_id checksum_enabled blocking_mode connection s of
             (Inl e, s) \<Rightarrow> caught_core_error operation_mode e (None, s)
           | (Inr connection, s) \<Rightarrow> Inr (Some connection, s)))"

section \<open>The receiving loop\<close>

definition handle_event ::
    "'c icl \<Rightarrow> 'c metadata_codec \<Rightarrow> crc32 \<Rightarrow> uint32 \<Rightarrow> rewrite_config option \<Rightarrow> rewrite_clocks \<Rightarrow> event_view \<Rightarrow>
     reader_context \<times> 'c storage \<Rightarrow> (reader_context \<times> 'c storage) result" where
  "handle_event I C crc server_id optional_rewrite_config now current_event_v =
     (case optional_rewrite_config of
        Some config \<Rightarrow>
          rewrite_and_process_binlog_event I C crc now current_event_v server_id
            (rw_base_file_name config) (size_unit_get_value (rw_file_size config))
      | None \<Rightarrow> process_binlog_event I C (while_rewriting now) current_event_v)"

text \<open>A packet that is not empty: the prefix byte, and the bytes of the event.\<close>

definition receive_packet ::
    "'c icl \<Rightarrow> 'c metadata_codec \<Rightarrow> crc32 \<Rightarrow> uint32 \<Rightarrow> rewrite_config option \<Rightarrow> byte list \<Rightarrow> rewrite_clocks \<Rightarrow>
     reader_context \<times> 'c storage \<Rightarrow> (reader_context \<times> 'c storage) result" where
  "receive_packet I C crc server_id optional_rewrite_config portion now = (\<lambda>(context, s).
     rbind (ensure (\<not> hd portion \<noteq> 0) (Runtime_error ''unexpected event prefix'')) (\<lambda>_.
     rbind (make_event_view crc context (tl portion)) (\<lambda>current_event_v.
     handle_event I C crc server_id optional_rewrite_config now current_event_v (context, s))))"

text \<open>
  The readings of the termination flag and of the clock, one for each iteration of the loop and one
  behind it; at the end of the list the flag is set.
\<close>

type_synonym readings = "(bool \<times> rewrite_clocks) list"

definition termination_flag :: "readings \<Rightarrow> bool" where
  "termination_flag rs = (case rs of [] \<Rightarrow> True | (flag, _) # _ \<Rightarrow> flag)"

datatype fetch_outcome = Terminated | Fetched_everything | Connection_lost

definition fetch_outcome_of :: "bool \<Rightarrow> readings \<Rightarrow> fetch_outcome" where
  "fetch_outcome_of fetch_result rs =
     (if termination_flag rs then Terminated else if fetch_result then Fetched_everything else Connection_lost)"

fun receive_loop ::
    "'c icl \<Rightarrow> 'c metadata_codec \<Rightarrow> crc32 \<Rightarrow> 'm mysql_client \<Rightarrow> uint32 \<Rightarrow> rewrite_config option \<Rightarrow> readings \<Rightarrow>
     'm connection \<Rightarrow> reader_context \<times> 'c storage \<Rightarrow> (fetch_outcome \<times> 'c storage) result" where
  "receive_loop I C crc L server_id cfg [] connection (context, s) = Inr (Terminated, s)"
| "receive_loop I C crc L server_id cfg ((flag, now) # rs) connection (context, s) =
     (if flag then Inr (Terminated, s)
      else
        rbind (fetch_binlog_event L connection) (\<lambda>(portion, connection).
        case portion of
          None \<Rightarrow> Inr (fetch_outcome_of False rs, s)
        | Some portion \<Rightarrow>
            if portion = [] then Inr (fetch_outcome_of True rs, s)
            else rbind (receive_packet I C crc server_id cfg portion now (context, s))
                   (receive_loop I C crc L server_id cfg rs connection)))"

definition connection_context :: "uint32 \<Rightarrow> bool \<Rightarrow> 'c storage \<Rightarrow> reader_context" where
  "connection_context server_version checksum_enabled s =
     make_reader_context server_version checksum_enabled (st_replication_mode s)
       (binlog_name_str (get_current_binlog_name s)) (ucast (get_current_position s))"

text \<open>What follows the loop when the connection was lost.\<close>

definition after_connection_loss :: "'c icl \<Rightarrow> 'c metadata_codec \<Rightarrow> operation_mode_type \<Rightarrow> 'c storage \<Rightarrow> 'c storage result" where
  "after_connection_loss I C operation_mode s =
     (if operation_mode = Fetch
      then Inl (Logic_error ''fetch operation did not reach EOF reading binlog events'')
      else
        rbind (discard_incomplete_transaction_events s) (\<lambda>s.
        flush_event_buffer I C s))"

definition receive_binlog_events ::
    "'c icl \<Rightarrow> 'c metadata_codec \<Rightarrow> crc32 \<Rightarrow> 'm mysql_client \<Rightarrow> operation_mode_type \<Rightarrow> readings \<Rightarrow> connection_config \<Rightarrow> uint32 \<Rightarrow>
     bool \<Rightarrow> rewrite_config option \<Rightarrow> 'c storage \<Rightarrow> 'c storage result" where
  "receive_binlog_events I C crc L operation_mode rs config server_id checksum_enabled cfg s =
     rbind (open_connection_and_switch_to_replication I L operation_mode config server_id checksum_enabled s) (\<lambda>(opened, s).
     case opened of
       None \<Rightarrow> Inr s
     | Some connection \<Rightarrow>
         rbind (get_server_version L connection) (\<lambda>server_version.
         rbind (receive_loop I C crc L server_id cfg rs connection
           (connection_context server_version checksum_enabled s, s)) (\<lambda>(outcome, s).
         case outcome of
           Terminated \<Rightarrow> Inr s
         | Fetched_everything \<Rightarrow> Inr s
         | Connection_lost \<Rightarrow> after_connection_loss I C operation_mode s)))"

section \<open>The main loop\<close>

text \<open>
  \<open>wait_for_interruptable\<close> sleeps for a second at a time: the readings of the flag are a list, at whose
  end the flag is set. It returns whether the flag is still clear, and the readings left.
\<close>

fun wait_for_interruptable :: "nat \<Rightarrow> bool list \<Rightarrow> bool \<times> bool list" where
  "wait_for_interruptable idle_time_seconds [] = (False, [])"
| "wait_for_interruptable 0 (flag # flags) = (\<not> flag, flags)"
| "wait_for_interruptable (Suc n) (flag # flags) =
     (if flag then (case flags of [] \<Rightarrow> (False, []) | flag' # flags' \<Rightarrow> (\<not> flag', flags'))
      else wait_for_interruptable n flags)"

text \<open>
  What one attempt to connect meets: how the client library behaves, and the readings of the loop.
  The attempts to reconnect have the readings of the flag before them.
\<close>

type_synonym 'm attempt = "'m mysql_client \<times> readings"

fun pull_loop ::
    "'c icl \<Rightarrow> 'c metadata_codec \<Rightarrow> crc32 \<Rightarrow> nat \<Rightarrow> connection_config \<Rightarrow> uint32 \<Rightarrow> bool \<Rightarrow> rewrite_config option \<Rightarrow>
     (bool list \<times> 'm attempt) list \<Rightarrow> 'c storage \<Rightarrow> 'c storage result" where
  "pull_loop I C crc idle_time config server_id checksum_enabled cfg [] s = Inr s"
| "pull_loop I C crc idle_time config server_id checksum_enabled cfg ((flags, L, rs) # attempts) s =
     (case flags of
        [] \<Rightarrow> Inr s
      | flag # flags \<Rightarrow>
          if flag then Inr s
          else if \<not> fst (wait_for_interruptable idle_time flags) then Inr s
          else rbind (receive_binlog_events I C crc L Pull rs config server_id checksum_enabled cfg s)
                 (pull_loop I C crc idle_time config server_id checksum_enabled cfg attempts))"

definition stream_binlogs ::
    "'c icl \<Rightarrow> 'c metadata_codec \<Rightarrow> crc32 \<Rightarrow> operation_mode_type \<Rightarrow> nat \<Rightarrow> connection_config \<Rightarrow> uint32 \<Rightarrow> bool \<Rightarrow> rewrite_config option \<Rightarrow>
     'm attempt \<Rightarrow> (bool list \<times> 'm attempt) list \<Rightarrow> 'c storage \<Rightarrow> 'c storage result" where
  "stream_binlogs I C crc operation_mode idle_time config server_id checksum_enabled cfg attempt attempts s =
     rbind (receive_binlog_events I C crc (fst attempt) operation_mode (snd attempt) config server_id checksum_enabled cfg s) (\<lambda>s.
     if operation_mode = Pull
     then pull_loop I C crc idle_time config server_id checksum_enabled cfg attempts s
     else Inr s)"

text \<open>The part of \<open>main\<close> that streams, from the configuration on; the backend is the one that is configured.\<close>

definition main_streaming ::
    "'c icl \<Rightarrow> 'c metadata_codec \<Rightarrow> crc32 \<Rightarrow> operation_mode_type \<Rightarrow> config_root \<Rightarrow> fs_backend \<Rightarrow> 'm attempt \<Rightarrow>
     (bool list \<times> 'm attempt) list \<Rightarrow> 'c storage result" where
  "main_streaming I C crc operation_mode root backend attempt attempts =
     rbind (main_config_validate root) (\<lambda>_.
     rbind (ensure (operation_mode = Fetch \<or> operation_mode = Pull) (Undefined_behaviour ''assert'')) (\<lambda>_.
     let replication = root_replication root in
     rbind (make_storage C (checkpoint_size_bytes (root_storage root)) (checkpoint_interval_seconds (root_storage root)) backend
       Streaming (rp_mode replication)) (\<lambda>s.
     stream_binlogs I C crc operation_mode (unat (rp_idle_time replication)) (root_connection root) (rp_server_id replication)
       (rp_verify_checksum replication) (rp_rewrite replication) attempt attempts s)))"

end
