(* ===== verification/App_Properties.thy ===== *)
theory App_Properties
  imports App
begin

text \<open>
  What the reader context and the storage guarantee together while events are streamed and when
  streaming goes on after a crash, with a
  concrete stream (a rotation, the preamble and a transaction) that meets the hypotheses.
\<close>

section \<open>A sample stream\<close>

definition sample_now :: clock_readings where
  "sample_now = \<lparr> at_closing = 1, at_opening = 2, at_writing = 3, at_final_closing = 4 \<rparr>"

definition rotation_to :: "string \<Rightarrow> byte list" where
  "rotation_to name = [0, 0, 0, 0, 4, 1, 0, 0, 0, of_nat (31 + length name), 0, 0, 0, 0, 0, 0, 0, 32, 0,
     4, 0, 0, 0, 0, 0, 0, 0] @ as_const_byte_span name @ [0, 0, 0, 0]"

definition sample_packets :: "(byte list \<times> clock_readings) list" where
  "sample_packets = map (\<lambda>portion. (portion, sample_now))
     [rotation_to ''b.000001'', format_description_portion, previous_gtids_portion, gtid_log_portion, query_portion]"

abbreviation sample_start :: "(gno_t \<times> gno_t) list storage" where
  "sample_start \<equiv> sample_storage Gtid_mode []"

definition start_context :: reader_context where
  "start_context = make_reader_context 80030 True (st_replication_mode sample_start)
     (binlog_name_str (get_current_binlog_name sample_start)) (ucast (get_current_position sample_start))"

definition sample_state :: "nat \<Rightarrow> reader_context \<times> (gno_t \<times> gno_t) list storage" where
  "sample_state n = projr (rfold (expected_packet list_icl sample_codec (\<lambda>_. 0)) (take n sample_packets) (start_context, sample_start))"


lemma sample_state_ok:
  "is_ok (rfold (expected_packet list_icl sample_codec (\<lambda>_. 0)) (take 4 sample_packets) (start_context, sample_start))"
  by code_simp

lemma sample_streaming:
  "streaming list_icl sample_codec (\<lambda>_. 0) (fst (sample_state 4)) (snd (sample_state 4))"
proof -
  let ?run = "rfold (expected_packet list_icl sample_codec (\<lambda>_. 0)) (take 4 sample_packets) (start_context, sample_start)"
  have ok: "is_ok (rbind (make_storage sample_codec 3 0 empty_backend Streaming Gtid_mode) (rfold (perform list_icl sample_codec) []))"
    by code_simp
  have "storage_reachable list_icl sample_codec sample_start" by (rule sample_storage_reachable [OF ok]) simp
  moreover have "get_current_position sample_start = 0" "\<not> is_binlog_open sample_start" by code_simp+
  ultimately have "streaming list_icl sample_codec (\<lambda>_. 0) start_context sample_start"
    unfolding start_context_def by (intro streaming.connect) simp_all
  moreover have "?run = Inr (fst (sample_state 4), snd (sample_state 4))"
    using sample_state_ok by (cases ?run) (simp_all add: sample_state_def)
  ultimately show ?thesis using streaming_run by blast
qed

section \<open>Going on in a binlog file\<close>

text \<open>The last binlog file can be opened again behind its content.\<close>

lemma open_last_binlog:
  assumes ok: "storage_ok C s" and "\<not> is_binlog_open s" and ne: "st_binlog_records s \<noteq> []" and clear: "buffer_clear s"
    and pos: "magic_binlog_offset \<le> get_current_position s"
  obtains status s' where "open_binlog I C (get_current_binlog_name s) now s = Inr (status, s')"
    "storage_ok C s'" "is_binlog_open s'" "st_binlog_records s' = st_binlog_records s"
    "contents (st_backend s') = contents (st_backend s)" "buffer_clear s'"
proof -
  let ?n = "get_current_binlog_name s"
  obtain rs r where r: "st_binlog_records s = rs @ [r]" using ne by (metis append_butlast_last_id)
  then have n: "?n = br_name r" by (simp add: get_current_binlog_name_def storage_is_empty_def)
  obtain content where content: "contents (st_backend s) (binlog_name_str (br_name r)) = Some content" "of_nat (length content) = br_size r"
    using directory_okD(2) [OF storage_okD(3) [OF ok], of r] r by (auto simp: record_stored_def)
  have size: "get_current_position s = br_size r"
    using clear r by (simp add: buffer_clear_position get_flushed_position_def storage_is_empty_def)
  have ex: "binlog_exists ?n s" by (simp add: binlog_exists_def n r)
  have "fs_ofs (st_backend s) = None" using assms(2) is_binlog_open_ok [OF ok] by simp
  then obtain b where b: "open_stream (binlog_name_str ?n) Stream_append (st_backend s) = Inr (get_current_position s, b)"
    using fs.open_succeeds [OF storage_okD(2) [OF ok], of "binlog_name_str ?n" Stream_append] content size n by auto
  have "get_current_position (s\<lparr> st_backend := b \<rparr>) = get_current_position s" by (rule position_cong) simp_all
  then obtain status where "open_existing_binlog_file_internal (get_current_position s) (s\<lparr> st_backend := b \<rparr>) = Inr (status, s\<lparr> st_backend := b \<rparr>)"
    using pos by (auto simp: open_existing_binlog_file_internal_def)
  moreover have "validate_open ?n s = Inr ()"
    using pos by (auto simp: validate_open_def magic_binlog_offset_def)
  ultimately obtain s' where run: "open_binlog I C ?n now s = Inr (status, s')"
    using ex b clear storage_okD(1) [OF ok]
    by (simp add: open_binlog_def ensure_streaming_mode_def Let_def buffer_clear_def has_event_data_to_flush_def)
  note e = open_binlog_existing [OF run ok ex]
  have "is_binlog_open s'" using is_binlog_open_ok [OF e(1)] e(6) by simp
  then show thesis using that run e by blast
qed

lemma previous_gtids_accepted:
  assumes "rc_state c = Previous_gtids_expected" and "event_code v = Previous_gtids_log" and "\<not> event_artificial v"
    and "\<not> rc_expect_info_only_preamble_events c \<Longrightarrow> event_next_position v \<noteq> 0 \<and> rc_position c + event_size v = event_next_position v"
  shows "process_event_view v c = Inr (rc_expect_info_only_preamble_events c,
    c\<lparr> rc_position := (if rc_expect_info_only_preamble_events c then rc_position c else event_next_position v), rc_state := Gtid_log_expected \<rparr>)"
    (is "_ = Inr (_, ?c)")
  unfolding process_event_view_def rank_zero_loop [of c v False "rc_expect_info_only_preamble_events c" ?c, unfolded assms(1), simplified]
  using assms
  by (auto simp: process_event_in_previous_gtids_expected_state_def validate_position_and_advance_def validate_position_def)

text \<open>
  What the server sends first when it is asked to go on inside a binlog file: an artificial rotation to this file, a format
  description and, in GTID mode, the list of GTIDs before the file. In position mode the rotation gives the
  position, and the description, which is not in the file at that place, gives none.
\<close>

definition resuming_rotation :: "replication_mode_type \<Rightarrow> string \<Rightarrow> uint64 \<Rightarrow> event_view \<Rightarrow> bool" where
  "resuming_rotation mode name position v \<longleftrightarrow> is_artificial_rotate v \<and> event_next_position v = 0 \<and>
     get_timestamp_raw (get_common_header_raw v) = 0 \<and> rotate_body_readable_binlog (get_body_raw v) = name \<and>
     rotate_post_header_decode (get_post_header_raw v) = Inr (if mode = Position_mode then position else magic_binlog_offset)"

definition supported_description :: "uint32 \<Rightarrow> event_view \<Rightarrow> bool" where
  "supported_description version v \<longleftrightarrow> event_code v = Format_description \<and> \<not> event_artificial v \<and>
     is_ok (fde_body_decode (get_body_raw v)) \<and>
     (case fde_post_header_decode (get_post_header_raw v) of
        Inl _ \<Rightarrow> False
      | Inr h \<Rightarrow> fde_binlog_version h = default_binlog_version \<and> unat (fde_common_header_length h) = default_common_header_length \<and>
          (case encoded_server_version_of (fde_server_version h) of
             Inl _ \<Rightarrow> False
           | Inr e \<Rightarrow> e \<le> version \<and>
               validate_post_header_lengths e (fde_post_header_lengths h) (get_known_post_header_lengths e) = Inr ()))"

fun resumption_preamble :: "uint32 \<Rightarrow> replication_mode_type \<Rightarrow> string \<Rightarrow> uint64 \<Rightarrow> event_view list \<Rightarrow> bool" where
  "resumption_preamble version mode name position [v1, v2] \<longleftrightarrow> mode = Position_mode \<and>
     resuming_rotation mode name position v1 \<and> supported_description version v2 \<and> event_next_position v2 = 0"
| "resumption_preamble version mode name position [v1, v2, v3] \<longleftrightarrow> mode = Gtid_mode \<and>
     resuming_rotation mode name position v1 \<and> supported_description version v2 \<and>
     event_code v3 = Previous_gtids_log \<and> \<not> event_artificial v3"
| "resumption_preamble version mode name position _ \<longleftrightarrow> False"

text \<open>The reader context that has the position in that file accepts these events, for information only.\<close>

lemma resuming_rotation_accepted:
  assumes "rc_state c = Rotate_artificial_expected" and "rc_cycle_number c = 0" and "4 < rc_position c"
    and "resuming_rotation (rc_replication_mode c) (rc_binlog_name c) (ucast (rc_position c)) v"
  shows "process_event_view v c = Inr (True, c\<lparr> rc_expect_info_only_preamble_events := True, rc_cycle_number := Suc 0,
    rc_state := Format_description_expected \<rparr>)" (is "_ = Inr (True, ?c)")
proof -
  have "unat (rc_position c) < 2 ^ LENGTH(32)" by (rule unsigned_less)
  then have "(4 :: uint64) < ucast (rc_position c)" using assms(3) by (simp add: word_less_nat_alt unat_ucast_mod)
  then show ?thesis
    unfolding process_event_view_def rank_zero_loop [of c v False True ?c, unfolded assms(1), simplified]
    using assms
    by (auto simp: process_event_in_rotate_artificial_expected_state_def validate_artificial_rotate_position_def
        resuming_rotation_def is_artificial_rotate_def magic_binlog_offset_def Let_def)
qed

lemma supported_description_accepted:
  assumes "rc_state c = Format_description_expected" and info: "rc_expect_info_only_preamble_events c"
    and "supported_description (rc_connection_encoded_server_version c) v"
    and "rc_replication_mode c = Position_mode \<Longrightarrow> event_next_position v = 0"
  obtains c' where "process_event_view v c = Inr (True, c')" "rc_position c' = rc_position c" "rc_binlog_name c' = rc_binlog_name c"
    "rc_expect_info_only_preamble_events c'" "rc_replication_mode c' = rc_replication_mode c" "rc_cycle_number c' = rc_cycle_number c"
    "rc_state c' = (if rc_replication_mode c = Position_mode then Gtid_log_expected else Previous_gtids_expected)"
proof -
  note found = that
  obtain h e body where h: "fde_post_header_decode (get_post_header_raw v) = Inr h" "encoded_server_version_of (fde_server_version h) = Inr e"
    "fde_body_decode (get_body_raw v) = Inr body" "e \<le> rc_connection_encoded_server_version c"
    "validate_post_header_lengths e (fde_post_header_lengths h) (get_known_post_header_lengths e) = Inr ()"
    "fde_binlog_version h = default_binlog_version" "unat (fde_common_header_length h) = default_common_header_length"
    and v: "event_code v = Format_description" "\<not> event_artificial v"
    using assms(3) unfolding supported_description_def is_ok_iff by (auto split: sum.splits)
  let ?c = "c\<lparr> rc_current_encoded_server_version := e, rc_post_header_lengths := fde_post_header_lengths h,
     rc_footer_expected := has_checksum_algorithm body,
     rc_state := (if rc_replication_mode c = Position_mode then Gtid_log_expected else Previous_gtids_expected) \<rparr>"
  have "process_event_view v c = Inr (True, ?c)"
    unfolding process_event_view_def rank_zero_loop [of c v False True ?c, unfolded assms(1), simplified]
    using h v assms(4) info
    by (auto simp: process_event_in_format_description_expected_state_def not_less Let_def)
  then show thesis using info by (intro found [of ?c]) simp_all
qed

lemma preamble_not_stored:
  assumes "process_event_view v c = Inr (True, c')" and "event_code v \<notin> {Rotate, Stop}"
  shows "process_binlog_event I C now v (c, s) = Inr (c', s)"
  using assms by (simp add: process_binlog_event_def store_event_def Let_def)

lemma resuming_rotation_opens:
  assumes ok: "storage_ok C s" and "\<not> is_binlog_open s" and ne: "st_binlog_records s \<noteq> []" and "buffer_clear s"
    and "magic_binlog_offset \<le> get_current_position s" and "is_artificial_rotate v"
    and name: "rotate_body_readable_binlog (get_body_raw v) = binlog_name_str (get_current_binlog_name s)"
    and read: "process_event_view v c = Inr (True, c')"
  obtains s' where "process_binlog_event I C now v (c, s) = Inr (c', s')" "storage_ok C s'" "is_binlog_open s'"
    "st_binlog_records s' = st_binlog_records s" "contents (st_backend s') = contents (st_backend s)" "buffer_clear s'"
proof -
  note found = that
  obtain status s' where s': "open_binlog I C (get_current_binlog_name s) (at_opening now) s = Inr (status, s')"
    "storage_ok C s'" "is_binlog_open s'" "st_binlog_records s' = st_binlog_records s"
    "contents (st_backend s') = contents (st_backend s)" "buffer_clear s'"
    using assms(1-5) by (rule open_last_binlog)
  have "parse_binlog_name (binlog_name_str (get_current_binlog_name s)) = Inr (get_current_binlog_name s)"
    using current_name_ok(1) [OF ok] ne by (simp add: storage_is_empty_def parse_binlog_name_str)
  then have "process_artificial_rotate_event I C now v s = Inr s'"
    using assms(2) name s'(1) by (simp add: process_artificial_rotate_event_def Let_def)
  then have "process_binlog_event I C now v (c, s) = Inr (c', s')"
    using assms(6) read by (simp add: process_binlog_event_def store_event_def is_artificial_rotate_def Let_def)
  then show thesis using found s'(2-6) by blast
qed

abbreviation process_events ::
    "'c icl \<Rightarrow> 'c metadata_codec \<Rightarrow> (event_view \<times> clock_readings) list \<Rightarrow> reader_context \<times> 'c storage \<Rightarrow> (reader_context \<times> 'c storage) result" where
  "process_events I C \<equiv> rfold (\<lambda>(v, now). process_binlog_event I C now v)"

lemma resumption_preamble_processed:
  assumes preamble: "resumption_preamble (rc_connection_encoded_server_version c) (rc_replication_mode c) (rc_binlog_name c)
      (ucast (rc_position c)) (map fst events)"
    and c: "rc_state c = Rotate_artificial_expected" "rc_cycle_number c = 0" "4 < rc_position c"
      "rc_binlog_name c = binlog_name_str (get_current_binlog_name s)"
    and s: "storage_ok C s" "\<not> is_binlog_open s" "st_binlog_records s \<noteq> []" "buffer_clear s"
      "magic_binlog_offset \<le> get_current_position s"
  obtains c' s' where "process_events I C events (c, s) = Inr (c', s')"
    "rc_state c' = Gtid_log_expected" "rc_position c' = rc_position c" "rc_binlog_name c' = rc_binlog_name c"
    "rc_replication_mode c' = rc_replication_mode c"
    "storage_ok C s'" "is_binlog_open s'" "st_binlog_records s' = st_binlog_records s"
    "contents (st_backend s') = contents (st_backend s)" "buffer_clear s'"
proof -
  note found = that
  obtain v1 now1 v2 now2 rest where events: "events = (v1, now1) # (v2, now2) # rest"
    and v1: "resuming_rotation (rc_replication_mode c) (rc_binlog_name c) (ucast (rc_position c)) v1"
    and v2: "supported_description (rc_connection_encoded_server_version c) v2" "rc_replication_mode c = Position_mode \<Longrightarrow> event_next_position v2 = 0"
    and rest: "if rc_replication_mode c = Position_mode then rest = []
      else \<exists>v3 now3. rest = [(v3, now3)] \<and> event_code v3 = Previous_gtids_log \<and> \<not> event_artificial v3"
    using preamble
    by (cases "(rc_connection_encoded_server_version c, rc_replication_mode c, rc_binlog_name c, ucast (rc_position c) :: uint64, map fst events)"
        rule: resumption_preamble.cases) auto
  let ?c1 = "c\<lparr> rc_expect_info_only_preamble_events := True, rc_cycle_number := Suc 0, rc_state := Format_description_expected \<rparr>"
  have p1: "process_event_view v1 c = Inr (True, ?c1)" using c(1-3) v1 by (rule resuming_rotation_accepted)
  have rot: "is_artificial_rotate v1" "rotate_body_readable_binlog (get_body_raw v1) = binlog_name_str (get_current_binlog_name s)"
    using v1 c(4) by (simp_all add: resuming_rotation_def)
  obtain s1 where s1: "process_binlog_event I C now1 v1 (c, s) = Inr (?c1, s1)" "storage_ok C s1" "is_binlog_open s1"
    "st_binlog_records s1 = st_binlog_records s" "contents (st_backend s1) = contents (st_backend s)" "buffer_clear s1"
    using s rot p1 by (rule resuming_rotation_opens)
  obtain c2 where c2: "process_event_view v2 ?c1 = Inr (True, c2)" "rc_position c2 = rc_position c" "rc_binlog_name c2 = rc_binlog_name c"
    "rc_expect_info_only_preamble_events c2" "rc_replication_mode c2 = rc_replication_mode c"
    "rc_state c2 = (if rc_replication_mode c = Position_mode then Gtid_log_expected else Previous_gtids_expected)"
    by (rule supported_description_accepted [of ?c1 v2]) (use v2 in simp_all)
  have p2: "process_binlog_event I C now2 v2 (?c1, s1) = Inr (c2, s1)"
    using c2(1) v2(1) by (intro preamble_not_stored) (simp_all add: supported_description_def)
  show thesis
  proof (cases "rc_replication_mode c = Position_mode")
    case True
    then have "process_events I C events (c, s) = Inr (c2, s1)" using rest s1(1) p2 by (simp add: events)
    then show thesis using found [of c2 s1] c2 True s1 by simp
  next
    case False
    then obtain v3 now3 where v3: "rest = [(v3, now3)]" "event_code v3 = Previous_gtids_log" "\<not> event_artificial v3" using rest by auto
    have "process_event_view v3 c2 = Inr (True, c2\<lparr> rc_state := Gtid_log_expected \<rparr>)"
      using previous_gtids_accepted [of c2 v3] c2(4,6) False v3(2,3) by simp
    then have "process_binlog_event I C now3 v3 (c2, s1) = Inr (c2\<lparr> rc_state := Gtid_log_expected \<rparr>, s1)"
      using v3(2) by (intro preamble_not_stored) simp_all
    then have "process_events I C events (c, s) = Inr (c2\<lparr> rc_state := Gtid_log_expected \<rparr>, s1)"
      using s1(1) p2 by (simp add: events v3(1))
    then show thesis using found [of "c2\<lparr> rc_state := Gtid_log_expected \<rparr>" s1] c2 s1 by simp
  qed
qed

text \<open>The first event of a transaction at the position of the context, not the whole transaction by itself.\<close>

definition next_transaction :: "event_view \<Rightarrow> reader_context \<Rightarrow> bool" where
  "next_transaction v c \<longleftrightarrow> is_gtid_log_code (event_code v) \<and> \<not> (rc_replication_mode c = Gtid_mode \<and> event_code v = Anonymous_gtid_log) \<and>
     event_next_position v = rc_position c + event_size v \<and> event_next_position v \<noteq> 0 \<and>
     (case start_transaction v c of
        Inl _ \<Rightarrow> False
      | Inr c' \<Rightarrow> rc_current_transaction_length c' \<noteq> rc_expected_transaction_length c')"

lemma next_transaction_stored:
  assumes "next_transaction v c" and c: "rc_state c = Gtid_log_expected" and s: "storage_ok C s" "buffer_clear s"
  obtains c' s' where "process_binlog_event I C now v (c, s) = Inr (c', s')" "st_event_buffer s' = ev_portion v"
    "rc_position c' = event_next_position v"
proof -
  obtain ct where ct: "start_transaction v c = Inr ct" "rc_current_transaction_length ct \<noteq> rc_expected_transaction_length ct"
    and v: "is_gtid_log_code (event_code v)" "\<not> (rc_replication_mode c = Gtid_mode \<and> event_code v = Anonymous_gtid_log)"
      "event_next_position v = rc_position c + event_size v" "event_next_position v \<noteq> 0"
    using assms(1) unfolding next_transaction_def by (auto split: sum.splits)
  have keep: "rc_position ct = rc_position c" "rc_replication_mode ct = rc_replication_mode c"
    using ct(1) by (auto simp: start_transaction_def result_simps Let_def split: if_splits)
  let ?c = "ct\<lparr> rc_position := event_next_position v, rc_state := Any_other_expected \<rparr>"
  have codes: "event_code v \<noteq> Rotate" "event_code v \<noteq> Stop" using v(1) by (auto simp: is_gtid_log_code_def)
  have "process_event_in_gtid_log_expected_state v False c = Inr (True, False, ?c)"
    using ct(1) v codes keep
    by (auto simp: process_event_in_gtid_log_expected_state_def validate_position_and_advance_def validate_position_def Let_def)
  then have read: "process_event_view v c = Inr (False, ?c)"
    by (simp add: process_event_view_def process_loop_step c)
  have inside: "\<not> is_at_transaction_boundary ?c" using ct(2) by (simp add: is_at_transaction_boundary_def)
  obtain s' where "write_event I C (ev_portion v) False (rc_transaction_gtid ?c) (uint (get_timestamp_raw (get_common_header_raw v)))
      (rc_transaction_sequence_number ?c) (at_writing now) s = Inr s'" and buffer: "st_event_buffer s' = ev_portion v"
    using storage_okD(1) [OF s(1)] s(2)
    by (simp add: write_event_def ensure_streaming_mode_def buffer_event_def checkpoint_def has_event_data_to_flush_def
        buffer_clear_def Let_def)
  then have "process_binlog_event I C now v (c, s) = Inr (?c, s')"
    using read codes inside by (simp add: process_binlog_event_def store_event_def Let_def)
  then show thesis using that buffer by simp
qed

section \<open>Properties\<close>

text \<open>
  C4: While events are streamed, an event that is written goes to the binlog file the reader context is
  in, at the offset that the event itself states: the position of the storage (in 32 bits) before
  the write is the stated end of the event minus its size, and after the write it is the stated end.
\<close>

theorem events_are_stored_at_their_offsets:
  assumes "streaming I C crc c s" and "make_event_view crc c portion = Inr v" and "rotation_expected v c s"
    and "process_binlog_event I C now v (c, s) = Inr (c', s')" and "process_event_view v c = Inr (False, c')"
  shows "is_binlog_open s \<and> rc_binlog_name c = binlog_name_str (get_current_binlog_name s) \<and>
    event_next_position v = ucast (get_current_position s) + event_size v \<and>
    event_next_position v = ucast (get_current_position s')"
proof -
  have st: "in_step C c s" using streaming_in_step [OF assms(1)] by simp
  have rot: "\<not> is_artificial_rotate v" using rotation_step(1) [OF assms(5)] by auto
  have "rc_state c \<noteq> Rotate_artificial_expected"
    using process_event_view_step [OF assms(5) in_stepD(2) [OF st]] rot by (auto simp: protocol_step_simps is_artificial_rotate_def)
  then show ?thesis
    using in_stepD(5) [OF st] non_rotation_step(5) [OF assms(5) rot] assms(5)
      process_binlog_event_in_step [OF st assms(4) make_event_view_Inr(2) [OF assms(2)] assms(3)] by simp
qed

theorem events_are_stored_at_their_offsets_witness:
  "event_next_position query_view = ucast (get_current_position (snd (sample_state 4))) + event_size query_view"
proof -
  let ?c = "fst (sample_state 4)" and ?s = "snd (sample_state 4)"
  let ?r = "process_binlog_event list_icl sample_codec sample_now query_view (?c, ?s)"
  have "make_event_view (\<lambda>_. 0) ?c query_portion = Inr query_view" by code_simp
  moreover have "rotation_expected query_view ?c ?s" by code_simp
  moreover have "map_sum id fst (process_event_view query_view ?c) = Inr False" by code_simp
  then obtain c1 where c1: "process_event_view query_view ?c = Inr (False, c1)"
    by (cases "process_event_view query_view ?c") auto
  moreover have "is_ok ?r" by code_simp
  then obtain c2 s2 where r: "?r = Inr (c2, s2)" by (cases ?r) auto
  obtain i where "process_event_view query_view ?c = Inr (i, c2)" by (rule process_binlog_event_stages [OF r])
  then have "?r = Inr (c1, s2)" using r c1 by simp
  ultimately show ?thesis using events_are_stored_at_their_offsets [OF sample_streaming] by blast
qed

text \<open>
  C8: A process that stops at any time between two events of a stream goes on after a restart. The storage is
  constructed again; when the server then sends the rotation and the preamble of the file in which the complete transactions end,
  in position mode or in GTID mode, the application processes them, opens this file behind its content and stores nothing
  twice: the binlog records and all objects are those from before the stop. After that the reader context expects a transaction
  at the position of the saved data, and the first event of a transaction that states this position is accepted and buffered.
  This needs readable metadata, a file with at least one event, and a position below 4 GiB.
\<close>

theorem streaming_resumes_after_crash:
  assumes "streaming I C crc c s" and "loadable C (st_replication_mode s) (st_binlog_records s)"
    and "4 < get_flushed_position s" and "unat (get_flushed_position s) < 2 ^ 32"
    and "resumption_preamble version (st_replication_mode s) (binlog_name_str (get_current_binlog_name s)) (get_flushed_position s) (map fst events)"
  shows "\<exists>s0 c' s'. make_storage C checkpoint_size checkpoint_interval (after_crash (st_backend s)) Streaming (st_replication_mode s) = Inr s0 \<and>
    process_events I C events (make_reader_context version checksum (st_replication_mode s0)
      (binlog_name_str (get_current_binlog_name s0)) (ucast (get_current_position s0)), s0) = Inr (c', s') \<and>
    st_binlog_records s' = st_binlog_records s \<and> contents (st_backend s') = contents (st_backend s) \<and>
    is_binlog_open s' \<and> st_event_buffer s' = [] \<and>
    rc_state c' = Gtid_log_expected \<and> rc_position c' = ucast (get_flushed_position s) \<and>
    (\<forall>v now. next_transaction v c' \<longrightarrow>
       (\<exists>c'' s''. process_binlog_event I C now v (c', s') = Inr (c'', s'') \<and> st_event_buffer s'' = ev_portion v))"
proof -
  let ?p = "get_flushed_position s"
  let ?s = "reloaded checkpoint_size checkpoint_interval (after_crash (st_backend s)) Streaming (st_replication_mode s) (st_binlog_records s)"
  let ?c = "make_reader_context version checksum (st_replication_mode ?s) (binlog_name_str (get_current_binlog_name ?s)) (ucast (get_current_position ?s))"
  note make = reconnect(1) [OF assms(1,2,4) refl]
  have position: "get_current_position ?s = ?p" and name: "get_current_binlog_name ?s = get_current_binlog_name s"
    by (simp_all add: buffer_clear_position get_flushed_position_def get_current_binlog_name_def storage_is_empty_def)
  have ok: "storage_ok C ?s" using streaming_in_step [OF assms(1)] in_stepD(1) reloaded_ok by blast
  have ne: "st_binlog_records s \<noteq> []" using assms(3) by (auto simp: get_flushed_position_def storage_is_empty_def)
  have small: "(ucast (ucast ?p :: uint32) :: uint64) = ?p" "4 < (ucast ?p :: uint32)"
    using assms(3,4) by (simp_all add: word_unat_eq_iff word_less_nat_alt unat_ucast_mod)
  then have "(ucast ?p :: uint32) \<noteq> 0" by auto
  then have c: "rc_position ?c = ucast ?p" "rc_state ?c = Rotate_artificial_expected" "rc_cycle_number ?c = 0"
    "rc_binlog_name ?c = binlog_name_str (get_current_binlog_name ?s)" "rc_replication_mode ?c = st_replication_mode s"
    "rc_connection_encoded_server_version ?c = version"
    by (simp_all add: make_reader_context_def position)
  have preamble: "resumption_preamble (rc_connection_encoded_server_version ?c) (rc_replication_mode ?c) (rc_binlog_name ?c)
      (ucast (rc_position ?c)) (map fst events)"
    using assms(5) c small(1) name by simp
  have s: "\<not> is_binlog_open ?s" "st_binlog_records ?s \<noteq> []" "buffer_clear ?s" "magic_binlog_offset \<le> get_current_position ?s"
    using ne assms(3) by (simp_all add: is_binlog_open_def position magic_binlog_offset_def)
  have pos: "4 < rc_position ?c" using c(1) small(2) by simp
  obtain c' s' where "process_events I C events (?c, ?s) = Inr (c', s')"
    "rc_state c' = Gtid_log_expected" "rc_position c' = rc_position ?c" "storage_ok C s'" "is_binlog_open s'" "buffer_clear s'"
    "st_binlog_records s' = st_binlog_records ?s" "contents (st_backend s') = contents (st_backend ?s)"
    using preamble c(2,3) pos c(4) ok s by (rule resumption_preamble_processed)
  moreover from this have "\<forall>v now. next_transaction v c' \<longrightarrow>
       (\<exists>c'' s''. process_binlog_event I C now v (c', s') = Inr (c'', s'') \<and> st_event_buffer s'' = ev_portion v)"
    using next_transaction_stored by metis
  ultimately show ?thesis
    using make c(1) by (intro exI [of _ ?s] exI [of _ c'] exI [of _ s']) (simp add: buffer_clear_def)
qed

definition resumed_rotation :: event_view where
  "resumed_rotation = \<lparr> ev_portion = rotation_to (binlog_name_str (sample_binlog 2)), ev_post_header_size = 8, ev_footer_size = 4 \<rparr>"

definition resumed_gtid :: event_view where
  "resumed_gtid = gtid_log_view\<lparr> ev_portion := take 13 gtid_log_portion @ [80, 0, 0, 0] @ drop 17 gtid_log_portion \<rparr>"

lemma resumed_gtid_next:
  assumes "rc_position c = 7"
  shows "next_transaction resumed_gtid c"
proof -
  let ?v = resumed_gtid
  have code: "event_code ?v = Gtid_log" "event_next_position ?v = 80" "event_size ?v = 73" by code_simp+
  have "is_ok (start_transaction ?v start_context)" by code_simp
  then obtain ct where ct: "start_transaction ?v start_context = Inr ct" unfolding is_ok_iff by blast
  have "start_transaction ?v c = Inr (c\<lparr> rc_transaction_gtid := rc_transaction_gtid ct,
      rc_transaction_sequence_number := rc_transaction_sequence_number ct, rc_expected_transaction_length := rc_expected_transaction_length ct,
      rc_current_transaction_length := rc_current_transaction_length ct \<rparr>)"
    using ct code(1) by (auto simp: start_transaction_def result_simps Let_def)
  moreover have "map_sum id (\<lambda>c. rc_current_transaction_length c = rc_expected_transaction_length c) (start_transaction ?v start_context) = Inr False"
    by code_simp
  ultimately show ?thesis using code assms ct by (simp add: next_transaction_def is_gtid_log_code_def)
qed

theorem streaming_resumes_after_crash_witness:
  "\<exists>s0 c' s'. make_storage sample_codec 3 0 (after_crash (st_backend (sample_storage Gtid_mode sample_ops))) Streaming
      (st_replication_mode (sample_storage Gtid_mode sample_ops)) = Inr s0 \<and>
    process_events list_icl sample_codec
      [(resumed_rotation, sample_now), (format_description_view, sample_now), (previous_gtids_view, sample_now)]
      (make_reader_context 80030 True (st_replication_mode s0) (binlog_name_str (get_current_binlog_name s0))
        (ucast (get_current_position s0)), s0) = Inr (c', s') \<and>
    rc_state c' = Gtid_log_expected \<and> rc_position c' = 7 \<and>
    (\<exists>c'' s''. process_binlog_event list_icl sample_codec sample_now resumed_gtid (c', s') = Inr (c'', s'') \<and>
       st_event_buffer s'' = ev_portion resumed_gtid)"
proof -
  let ?s = "sample_storage Gtid_mode sample_ops"
  let ?events = "[(resumed_rotation, sample_now), (format_description_view, sample_now), (previous_gtids_view, sample_now)]"
  have "is_ok (rbind (make_storage sample_codec 3 0 empty_backend Streaming Gtid_mode) (rfold (perform list_icl sample_codec) sample_ops))"
    "list_all names_ok sample_ops" by code_simp+
  then have "storage_reachable list_icl sample_codec ?s" by (rule sample_storage_reachable)
  moreover have "get_current_position ?s = 8" by code_simp
  ultimately have st: "streaming list_icl sample_codec (\<lambda>_. 0) (make_reader_context 80030 True (st_replication_mode ?s)
      (binlog_name_str (get_current_binlog_name ?s)) (ucast (get_current_position ?s))) ?s"
    by (intro streaming.connect) simp_all
  have load: "loadable sample_codec (st_replication_mode ?s) (st_binlog_records ?s)" by code_simp
  have p: "get_flushed_position ?s = 7" by code_simp
  have small: "4 < get_flushed_position ?s" "unat (get_flushed_position ?s) < 2 ^ 32" by (simp_all add: p)
  have preamble: "resumption_preamble 80030 (st_replication_mode ?s) (binlog_name_str (get_current_binlog_name ?s)) (get_flushed_position ?s)
      (map fst ?events)"
    unfolding p by code_simp
  have seven: "ucast (7 :: uint64) = (7 :: uint32)" by simp
  obtain s0 c' s' where r: "make_storage sample_codec 3 0 (after_crash (st_backend ?s)) Streaming (st_replication_mode ?s) = Inr s0"
    "process_events list_icl sample_codec ?events (make_reader_context 80030 True (st_replication_mode s0)
      (binlog_name_str (get_current_binlog_name s0)) (ucast (get_current_position s0)), s0) = Inr (c', s')"
    "rc_state c' = Gtid_log_expected" "rc_position c' = 7"
    and more: "\<forall>v now. next_transaction v c' \<longrightarrow> (\<exists>c'' s''. process_binlog_event list_icl sample_codec now v (c', s') = Inr (c'', s'') \<and>
      st_event_buffer s'' = ev_portion v)"
    using streaming_resumes_after_crash [OF st load small preamble, of 3 0 True] unfolding p seven by (elim exE conjE) (rule that)
  have stored: "\<exists>c'' s''. process_binlog_event list_icl sample_codec sample_now resumed_gtid (c', s') = Inr (c'', s'') \<and>
      st_event_buffer s'' = ev_portion resumed_gtid"
    using more resumed_gtid_next [OF r(4)] by blast
  show ?thesis
    by (rule exI [of _ s0], rule exI [of _ c'], rule exI [of _ s'], intro conjI) (fact r stored)+
qed

end
