(* ===== verification/Stored_Files.thy ===== *)
theory Stored_Files
  imports App
begin

text \<open>
  The binlog files as a reader of the storage sees them, with the bytes that are still buffered, and
  how the processing of an event changes them: a file is started with the magic payload, or the bytes
  of an event are appended to the last file, at the offset that the event states.
\<close>

section \<open>The bytes of the binlog files\<close>

type_synonym binlog_files = "(composite_binlog_name \<times> byte list) list"

definition stored_files :: "'c storage \<Rightarrow> binlog_files" where
  "stored_files s = append_to_last (st_event_buffer s) (map (file_bytes (contents (st_backend s))) (st_binlog_records s))"

lemma stored_files_log: "stored_files s = append_to_last (lg_pending (log_of s)) (lg_files (log_of s))"
  by (simp add: stored_files_def log_of_def)

lemma stored_files_Nil [simp]: "stored_files s = [] \<longleftrightarrow> st_binlog_records s = []"
  by (simp add: stored_files_def append_to_last_def)

lemma stored_files_names: "n \<in> fst ` set (stored_files s) \<longleftrightarrow> binlog_exists n s"
  using names_in_log [of n s] by (simp add: stored_files_log)

lemma open_has_records: "storage_ok C s \<Longrightarrow> is_binlog_open s \<Longrightarrow> st_binlog_records s \<noteq> []"
  using is_binlog_open_ok storage_okD(5) by (fastforce simp: stream_ok_def)

lemma stored_files_position:
  assumes "storage_ok C s" and "st_binlog_records s \<noteq> []"
  shows "get_current_position s = of_nat (length (snd (last (stored_files s))))"
proof -
  obtain rs r where r: "st_binlog_records s = rs @ [r]" using assms(2) by (metis append_butlast_last_id)
  then obtain content where "contents (st_backend s) (binlog_name_str (br_name r)) = Some content" "of_nat (length content) = br_size r"
    using directory_okD(2) [OF storage_okD(3) [OF assms(1)], of r] by (auto simp: record_stored_def)
  then show ?thesis
    by (simp add: stored_files_def r file_bytes_def get_current_position_def get_flushed_position_def storage_is_empty_def)
qed

text \<open>What the three operations do that change the files.\<close>

lemma write_event_files:
  assumes "write_event I C data boundary g t n now s = Inr s'" and "storage_ok C s" and "is_binlog_open s"
  shows "stored_files s' = append_to_last data (stored_files s)"
proof -
  have "lg_open (log_of s)" using assms(3) by (simp add: log_of_def)
  then have "log_of s' = (if boundary
      then (log_of s)\<lparr> lg_files := append_to_last (lg_pending (log_of s) @ data) (lg_files (log_of s)), lg_pending := [] \<rparr>
      else (log_of s)\<lparr> lg_pending := lg_pending (log_of s) @ data \<rparr>)"
    using write_event_log [OF assms] by simp
  then show ?thesis by (simp add: stored_files_log)
qed

lemma close_binlog_files:
  assumes "close_binlog I C now s = Inr s'" and "storage_ok C s"
    and "drop (st_last_transaction_boundary s) (st_event_buffer s) = []"
  shows "stored_files s' = stored_files s"
proof -
  have "log_of s' = (log_of s)\<lparr> lg_pending := [], lg_open := False \<rparr>" using close_log [OF assms(1,2)] by simp
  moreover have "lg_pending (log_of s) = []" using assms(3) by (simp add: log_of_def)
  ultimately show ?thesis by (simp add: stored_files_log)
qed

lemma open_binlog_files:
  assumes "open_binlog I C n now s = Inr (status, s')" and "storage_ok C s" and "index_name_ok n"
  shows "stored_files s' = (if binlog_exists n s then stored_files s else stored_files s @ [(n, magic_binlog_payload)])"
proof -
  have log: "log_of s' = (if binlog_exists n s then (log_of s)\<lparr> lg_open := True \<rparr>
      else (log_of s)\<lparr> lg_files := lg_files (log_of s) @ [(n, magic_binlog_payload)], lg_open := True \<rparr>)"
    using open_log [OF assms] by (simp add: names_in_log)
  have "buffer_clear s'" using assms(1) by (rule open_binlog_stages)
  then have "lg_pending (log_of s') = []" by (simp add: buffer_clear_def log_of_def)
  then have "lg_pending (log_of s) = []" using log by (simp split: if_splits)
  then show ?thesis by (simp add: stored_files_log log)
qed

section \<open>Actions on the files\<close>

datatype stored_action = Start_file composite_binlog_name | Store event_view

text \<open>
  A file that is started is a new one; an event is appended to the last file, and the position in its header is the
  length of the file behind it, in 32 bits.
\<close>

fun replay :: "stored_action list \<Rightarrow> binlog_files \<Rightarrow> binlog_files option" where
  "replay [] files = Some files"
| "replay (Start_file n # actions) files =
     (if n \<in> fst ` set files then None else replay actions (files @ [(n, magic_binlog_payload)]))"
| "replay (Store v # actions) files =
     (let files' = append_to_last (ev_portion v) files
      in if files \<noteq> [] \<and> event_next_position v = of_nat (length (snd (last files'))) then replay actions files' else None)"

lemma replay_append: "replay (xs @ ys) files = Option.bind (replay xs files) (replay ys)"
  by (induction xs files rule: replay.induct) (auto simp: Let_def)

lemma replay_trans:
  "replay xs files = Some files' \<Longrightarrow> replay ys files' = Some files'' \<Longrightarrow> replay (xs @ ys) files = Some files''"
  by (simp add: replay_append)

lemma ucast_of_nat_64_32: "(ucast (of_nat n :: uint64) :: uint32) = of_nat n"
  by (simp add: word_unat_eq_iff unat_ucast_mod unat_of_nat mod_mod_cancel)

lemma event_replayed:
  assumes "in_step C c s" and "process_event_view v c = Inr (i, c')" and rot: "\<not> is_artificial_rotate v"
    and "event_view_ok v" and "store_event I C now v i c' s = Inr s'"
  shows "replay (if i then [] else [Store v]) (stored_files s) = Some (stored_files s')"
proof -
  note d = in_stepD [OF assms(1)] and n = non_rotation_step [OF assms(2) rot]
  let ?last = "event_code v = Rotate \<and> \<not> event_artificial v \<or> event_code v = Stop"
  have ps: "protocol_step (rc_state c) (event_code v) (event_artificial v) (rc_state c')"
    using process_event_view_step [OF assms(2) d(2)] by simp
  then have "rc_state c \<noteq> Rotate_artificial_expected" using rot by (auto simp: protocol_step_simps is_artificial_rotate_def)
  then have opened: "is_binlog_open s" using d(5) by blast
  have final: "rc_state c' = Rotate_artificial_expected" if ?last
    using ps rot that by cases (auto simp: is_artificial_rotate_def ordinary_code_def is_gtid_log_code_def)
  have "\<not> (event_code v = Rotate \<and> event_artificial v)" using rot by (simp add: is_artificial_rotate_def)
  then obtain s1 where w: "(if \<not> i then write_event I C (ev_portion v) (is_at_transaction_boundary c') (rc_transaction_gtid c')
        (uint (get_timestamp_raw (get_common_header_raw v))) (rc_transaction_sequence_number c') (at_writing now) s
      else Inr s) = Inr s1"
    and close: "(if ?last then close_binlog I C (at_final_closing now) s1 else Inr s1) = Inr s'"
    using assms(5) unfolding store_event_def process_rotate_or_stop_event_def Let_def event_field_defs
    by (auto simp only: result_simps if_False)
  note s1 = write_or_skip_place [OF w d(1)]
  show ?thesis
  proof (cases i)
    case True
    then have "\<not> ?last" using n(4) by auto
    then show ?thesis using w close True by (auto split: if_splits)
  next
    case False
    then have files: "stored_files s1 = append_to_last (ev_portion v) (stored_files s)"
      using w write_event_files [OF _ d(1) opened] by simp
    have "stored_files s' = stored_files s1"
    proof (cases ?last)
      case True
      then have "is_at_transaction_boundary c'" using final by (simp add: is_at_transaction_boundary_def)
      then show ?thesis using True close s1(1,6) False close_binlog_files [of I C _ s1 s'] by simp
    qed (use close in \<open>auto split: if_splits\<close>)
    then have "stored_files s' = append_to_last (ev_portion v) (stored_files s)" using files by simp
    moreover have ne: "stored_files s \<noteq> []" using open_has_records [OF d(1) opened] by simp
    moreover have "storage_ok C s'" using event_in_step(1) [OF assms] in_stepD(1) by blast
    moreover have "st_binlog_records s' \<noteq> []"
      using calculation(1) ne stored_files_Nil [of s'] by (simp add: append_to_last_def)
    ultimately have "event_next_position v = of_nat (length (snd (last (append_to_last (ev_portion v) (stored_files s)))))"
      using event_in_step(2) [OF assms False] stored_files_position [of C s'] by (simp add: ucast_of_nat_64_32)
    then show ?thesis using False ne \<open>stored_files s' = append_to_last (ev_portion v) (stored_files s)\<close> by (simp add: Let_def)
  qed
qed

lemma rotation_replayed:
  assumes ok: "storage_ok C s" and run: "process_artificial_rotate_event I C now v s = Inr s'"
    and lf: "CHR 0x0A \<notin> set (rotate_body_readable_binlog (get_body_raw v))"
    and name: "is_binlog_open s \<Longrightarrow> rotate_body_readable_binlog (get_body_raw v) = binlog_name_str (get_current_binlog_name s)"
  obtains actions where "actions = [] \<or> (\<exists>n. actions = [Start_file n])" "replay actions (stored_files s) = Some (stored_files s')"
  using run
proof (cases rule: artificial_rotate_cases)
  case (reused n)
  then show ?thesis using that [of "[]"] by simp
next
  case (opened n s1 status)
  have "s1 = s"
    using opened(2) parsed_is_current(1) [OF ok opened(1)] name by blast
  note files = open_binlog_files [OF opened(3) [unfolded this] ok parsed_name(3) [OF opened(1) lf]]
  show ?thesis
  proof (cases "binlog_exists n s")
    case True
    then show ?thesis using that [of "[]"] files by simp
  next
    case False
    then show ?thesis using that [of "[Start_file n]"] files stored_files_names [of n s] by simp
  qed
qed

end
