(* ===== verification/App_Rewrite_Properties.thy ===== *)
theory App_Rewrite_Properties
  imports App_Rewrite App_Properties Stored_Files
begin

text \<open>
  The rewrite mode keeps the reader context and the storage in step, and the events that it
  generates at the start of a binlog file are the ones that its own reader context expects.
\<close>

section \<open>Generated events\<close>

definition tables_ok :: "reader_context \<Rightarrow> bool" where
  "tables_ok c \<longleftrightarrow>
     (let v = rc_current_encoded_server_version c in
      get_encoded (semantic_version_of_encoded v) = v \<and> v \<le> rc_connection_encoded_server_version c \<and>
      rc_post_header_lengths c \<in> {get_known_post_header_lengths v, get_hardcoded_post_header_lengths v})"

lemma tables_length:
  assumes "tables_ok c" and "generic_post_header_size (rc_current_encoded_server_version c) code = Some n"
    and "enum_to_index code < 42"
  shows "get_current_post_header_length c code = Some n"
proof -
  have "enum_to_index code < get_number_of_events (rc_current_encoded_server_version c)"
    using assms(3) by (simp add: get_number_of_events_def)
  then show ?thesis
    using assms(1) hardcoded_length [OF assms(2)] known_length [OF assms(2)]
    by (auto simp: tables_ok_def get_current_post_header_length_def Let_def)
qed

lemma tables_lengths:
  assumes "tables_ok c"
  shows "get_current_post_header_length c Rotate = Some 8" "get_current_post_header_length c Previous_gtids_log = Some 0"
  by (intro tables_length [OF assms]; simp add: generic_post_header_size_def)+

lemma created_header_fields:
  assumes "h = create_with_offset offset n timestamp code server_id flags" and "v = parts_view h p b f"
  shows "event_code v = code" "event_artificial v = flag_set_has_element flags artificial_flag" "event_size v = n"
    "event_next_position v = (if code = Rotate \<and> flag_set_has_element flags artificial_flag then 0 else offset + n)"
    "get_timestamp_raw (get_common_header_raw v) = ucast timestamp"
proof -
  have "unat (ch_type_code h) = enum_to_index code"
    using enum_to_index_less [of code] by (simp add: assms(1) create_with_offset_def make_common_header_def unat_of_nat Let_def)
  then show "event_code v = code"
    by (simp add: event_code_def assms(2) get_type_code_def header_getters code_types_nth del: event_field_defs)
qed (simp_all add: event_artificial_def event_size_def event_next_position_def assms is_artificial_def header_getters
    create_with_offset_def make_common_header_def Let_def del: event_field_defs)

lemma artificial_flags: "flag_set_has_element artificial_flag artificial_flag" "\<not> flag_set_has_element 0 artificial_flag"
  by code_simp+

text \<open>A buffer that can be reused: a new one, or one that holds an event.\<close>

definition event_buffer :: "byte list \<Rightarrow> bool" where
  "event_buffer buffer \<longleftrightarrow> buffer = [] \<or>
     (\<exists>h rest. unat (ch_type_code h) < 43 \<and> buffer = common_header_bytes h @ rest)"

lemma event_buffer_reusable: "event_buffer buffer \<Longrightarrow> 19 \<le> n \<Longrightarrow> buffer_reusable n buffer"
  unfolding event_buffer_def using header_prefix_reusable empty_buffer_reusable [of n] by auto

lemma created_event_view:
  assumes "post_header_ok code post_header" and "body_ok code body" and "code = Format_description \<longrightarrow> include_checksum"
    and "created_size post_header body include_checksum < 2 ^ 32" and "event_buffer buffer"
    and "code \<noteq> Format_description \<longrightarrow> rc_footer_expected c = include_checksum \<and>
      get_current_post_header_length c code = Some (length (post_header_bytes post_header))"
  obtains e v h footer where
    "create_event crc code offset timestamp server_id flags post_header body include_checksum buffer = Inr (e, ev_portion v)"
    "make_event_view crc c (ev_portion v) = Inr v" "event_buffer (ev_portion v)"
    "h = create_with_offset offset (of_nat (get_total_size v)) timestamp code server_id flags"
    "v = parts_view h (post_header_bytes post_header) (body_bytes body) footer"
    "get_total_size v = created_size post_header body include_checksum"
proof -
  note found = that
  have reusable: "buffer_reusable (created_size post_header body include_checksum) buffer"
    using assms(5) by (rule event_buffer_reusable) (simp add: created_size_def)
  obtain h e v footer where
    made: "create_event crc code offset timestamp server_id flags post_header body include_checksum buffer = Inr (e, ev_portion v)"
      "make_event_view crc c (ev_portion v) = Inr v"
    and v: "v = parts_view h (post_header_bytes post_header) (body_bytes body) footer"
    and h: "h = create_with_offset offset (of_nat (created_size post_header body include_checksum)) timestamp code server_id flags"
    and size: "unat (ch_event_size h) = length (ev_portion v)" "unat (ch_type_code h) = enum_to_index code"
    by (rule created_view [OF assms(1-4) reusable assms(6)])
  have "get_total_size v = created_size post_header body include_checksum"
    using size(1) assms(4) by (simp add: h create_with_offset_def make_common_header_def get_total_size_def unat_of_nat Let_def)
  moreover have "event_buffer (ev_portion v)"
    using size(2) enum_to_index_less [of code] unfolding event_buffer_def by (intro disjI2 exI [of _ h]) (simp add: v)
  ultimately show thesis using found made v h by metis
qed

abbreviation rotate_size :: "reader_context \<Rightarrow> composite_binlog_name \<Rightarrow> nat" where
  "rotate_size c n \<equiv> created_size (Rotate_post_header magic_binlog_offset) (Rotate_body (make_rotate_body n)) (rc_footer_expected c)"

lemma rotate_size_small: "length (binlog_name_str n) < 2 ^ 31 \<Longrightarrow> rotate_size c n < 2 ^ 32"
  by (simp add: created_size_def make_rotate_body_def)

text \<open>An event too large for its size field is not encoded.\<close>

lemma create_event_fits:
  assumes "create_event crc code offset timestamp server_id flags post_header body include_checksum buffer = Inr x"
    and "post_header_ok code post_header" and "body_ok code body"
  shows "created_size post_header body include_checksum < 2 ^ 32"
proof -
  let ?m = "19 + length (post_header_bytes post_header) + length (body_bytes body)"
  let ?n = "created_size post_header body include_checksum"
  have n: "common_header_size_in_bytes + length (post_header_bytes post_header) + length (body_bytes body) +
      (if include_checksum then footer_size_in_bytes else 0) = ?n"
    by (simp add: created_size_def header_offsets footer_size_in_bytes_def)
  have "?m \<le> unat (of_nat ?n :: uint32)"
    using assms(1) unfolding create_event_def ph.size_bytes [OF assms(2)] body.size_bytes [OF assms(3)] rbind_Inr n
    by (auto simp: encode_and_checksum_def event_encode_to_def event_calculate_encoded_size_def ph.size_bytes [OF assms(2)]
        body.size_bytes [OF assms(3)] create_with_offset_def make_common_header_def header_offsets result_simps Let_def not_less)
  then have m: "?m \<le> ?n mod 2 ^ 32" by (simp add: unat_of_nat)
  show ?thesis
  proof (rule ccontr)
    assume "\<not> ?n < 2 ^ 32"
    then have "?n mod 2 ^ 32 \<le> ?n - 2 ^ 32" by (simp add: le_mod_geq)
    moreover have "?n \<le> ?m + 4" by (simp add: created_size_def)
    ultimately show False using m \<open>\<not> ?n < 2 ^ 32\<close> by simp
  qed
qed

lemma rotate_event_generated:
  assumes "tables_ok c" and small: "rotate_size c n < 2 ^ 32" and "event_buffer buffer"
  obtains v where "generate_rotate_event crc buffer c offset t server_id artificial n = Inr (v, ev_portion v)"
    "make_event_view crc c (ev_portion v) = Inr v" "event_buffer (ev_portion v)"
    "event_code v = Rotate" "event_artificial v = artificial" "event_size v = of_nat (get_total_size v)"
    "event_next_position v = (if artificial then 0 else offset + of_nat (get_total_size v))"
    "get_timestamp_raw (get_common_header_raw v) = (case t of None \<Rightarrow> 0 | Some now \<Rightarrow> ucast now)"
    "get_post_header_raw v = le_of_nat 8 (unat magic_binlog_offset)" "rotate_body_readable_binlog (get_body_raw v) = binlog_name_str n"
proof -
  note found = that
  let ?p = "Rotate_post_header magic_binlog_offset" and ?b = "Rotate_body (make_rotate_body n)"
  let ?flags = "if artificial then artificial_flag else 0" and ?t = "case t of None \<Rightarrow> 0 | Some now \<Rightarrow> now"
  have ok: "post_header_ok Rotate ?p" "body_ok Rotate ?b" "Rotate = Format_description \<longrightarrow> rc_footer_expected c" by simp_all
  have lengths: "Rotate \<noteq> Format_description \<longrightarrow> rc_footer_expected c = rc_footer_expected c \<and>
      get_current_post_header_length c Rotate = Some (length (post_header_bytes ?p))"
    using tables_lengths(1) [OF assms(1)] by simp
  obtain e v h footer where e: "create_event crc Rotate offset ?t server_id ?flags ?p ?b (rc_footer_expected c) buffer = Inr (e, ev_portion v)"
    and v: "make_event_view crc c (ev_portion v) = Inr v" "event_buffer (ev_portion v)"
    and parts: "h = create_with_offset offset (of_nat (get_total_size v)) ?t Rotate server_id ?flags"
      "v = parts_view h (post_header_bytes ?p) (body_bytes ?b) footer"
    by (rule created_event_view [OF ok small assms(3) lengths])
  show thesis
  proof (rule found [OF _ v])
    show "generate_rotate_event crc buffer c offset t server_id artificial n = Inr (v, ev_portion v)"
      using e v(1) by (simp add: generate_rotate_event_def Let_def)
    show "get_post_header_raw v = le_of_nat 8 (unat magic_binlog_offset)"
      "rotate_body_readable_binlog (get_body_raw v) = binlog_name_str n"
      by (simp_all add: parts(2) rotate_body_readable_binlog_def make_rotate_body_def del: le_of_nat.simps)
  qed (use created_header_fields [OF parts] artificial_flags in \<open>auto split: option.split\<close>)
qed

text \<open>The version text in the generated format description is the one that the tables are for.\<close>

definition generated_description :: "reader_context \<Rightarrow> uint64 \<Rightarrow> fde_post_header" where
  "generated_description c created =
     make_fde_post_header default_binlog_version (semantic_version_of_encoded (rc_current_encoded_server_version c))
       created default_common_header_length (get_hardcoded_post_header_lengths (rc_current_encoded_server_version c))"

lemma to_string_length: "n < 10 ^ k \<Longrightarrow> 0 < k \<Longrightarrow> length (to_string n) \<le> k"
proof (induction n arbitrary: k rule: to_string.induct)
  case (1 n)
  show ?case
  proof (cases "n < 10")
    case True
    then show ?thesis using 1(3) by (simp add: to_string.simps [of n])
  next
    case False
    then obtain j where k: "k = Suc j" "0 < j" using 1(2,3) by (cases k) (auto simp: less_Suc_eq gr0_conv_Suc)
    then have "n div 10 < 10 ^ j" using 1(2) by (simp add: less_mult_imp_div_less mult.commute)
    then show ?thesis using 1(1) [OF _ _ k(2)] False by (simp add: to_string.simps [of n] k(1))
  qed
qed

lemma get_string_length: "length (get_string v) \<le> 11"
proof -
  have "length (to_string (unat x)) \<le> 3" for x :: uint8
    using unat_byte_less [of x] by (intro to_string_length) (simp_all del: unat_byte_less)
  from this [of "get_major v"] this [of "get_minor v"] this [of "get_patch v"] show ?thesis by (simp add: get_string_def)
qed

lemma get_string_nonzero: "list_all (\<lambda>b. b \<noteq> 0) (as_const_byte_span (get_string v))"
proof -
  have nz: "of_char ch \<noteq> (0 :: byte)" if "ch \<in> set (get_string v)" for ch
  proof -
    have "isdigit ch \<or> ch = component_delimiter" using that to_string_digits by (auto simp: get_string_def)
    then have "of_char ch \<noteq> (0 :: nat)" by (auto simp: isdigit_def component_delimiter_def)
    moreover have "(of_char ch :: nat) < 256" by simp
    ultimately show ?thesis by (simp add: of_char_eq_of_nat word_unat_eq_iff unat_of_nat del: of_nat_of_char)
  qed
  then show ?thesis by (auto simp: list_all_iff as_const_byte_span_def)
qed

lemma generated_description_ok:
  assumes "tables_ok c"
  shows "post_header_ok Format_description (Format_description_post_header (generated_description c created))"
    "encoded_server_version_of (fde_server_version (generated_description c created)) = Inr (rc_current_encoded_server_version c)"
    "length (post_header_bytes (Format_description_post_header (generated_description c created))) =
       fde_post_header_size (rc_current_encoded_server_version c)"
proof -
  let ?v = "rc_current_encoded_server_version c" and ?h = "generated_description c created"
  let ?text = "get_string (semantic_version_of_encoded ?v)"
  have sv: "fde_server_version ?h = as_const_byte_span ?text"
    using get_string_length [of "semantic_version_of_encoded ?v"]
    by (simp add: generated_description_def make_fde_post_header_def server_version_length_def)
  then show enc: "encoded_server_version_of (fde_server_version ?h) = Inr ?v"
    using assms semantic_version_roundtrip [of "semantic_version_of_encoded ?v" "[]"]
    by (simp add: encoded_server_version_of_def tables_ok_def Let_def)
  have "get_post_header_length_for_code ?v (get_hardcoded_post_header_lengths ?v) Format_description = Some (fde_post_header_size ?v)"
    by (rule hardcoded_length) (simp_all add: generic_post_header_size_def get_number_of_events_def)
  moreover have "length (get_hardcoded_post_header_lengths ?v) = 42"
    "drop (get_number_of_events ?v - 1) (get_hardcoded_post_header_lengths ?v) = replicate (43 - get_number_of_events ?v) 0"
    by (simp_all add: get_hardcoded_post_header_lengths_def get_number_of_events_def)
  ultimately have ok: "fde_post_header_ok ?h ?v"
    using enc get_string_length [of "semantic_version_of_encoded ?v"] get_string_nonzero [of "semantic_version_of_encoded ?v"]
    by (simp add: fde_post_header_ok_def sv server_version_length_def max_number_of_events_def)
      (simp add: generated_description_def make_fde_post_header_def)
  then show "post_header_ok Format_description (Format_description_post_header ?h)" using enc by simp
  show "length (post_header_bytes (Format_description_post_header ?h)) = fde_post_header_size ?v"
    using length_fde_post_header_bytes [OF ok] enc by simp
qed

lemma description_event_generated:
  assumes "tables_ok c" and "event_buffer buffer"
  obtains v where "generate_format_description_event crc buffer c offset created t server_id = Inr (v, ev_portion v)"
    "make_event_view crc c (ev_portion v) = Inr v" "event_buffer (ev_portion v)"
    "event_code v = Format_description" "\<not> event_artificial v" "event_size v = of_nat (get_total_size v)"
    "event_next_position v = offset + of_nat (get_total_size v)" "get_total_size v < 200"
    "fde_post_header_decode (get_post_header_raw v) = Inr (generated_description c created)"
    "fde_body_decode (get_body_raw v) = Inr checksum_algorithm_crc32"
proof -
  note found = that and desc = generated_description_ok [OF assms(1), of created]
  let ?p = "Format_description_post_header (generated_description c created)"
  let ?b = "Format_description_body checksum_algorithm_crc32"
  have size: "created_size ?p ?b True < 200"
    by (simp add: created_size_def desc(3) fde_post_header_size_def get_number_of_events_def del: post_header_bytes.simps)
  then have small: "created_size ?p ?b True < 2 ^ 32" by simp
  have ok: "post_header_ok Format_description ?p" "body_ok Format_description ?b" "Format_description = Format_description \<longrightarrow> True"
    using desc(1) by (simp_all add: checksum_algorithm_crc32_def)
  have lengths: "Format_description \<noteq> Format_description \<longrightarrow> rc_footer_expected c = True \<and>
      get_current_post_header_length c Format_description = Some (length (post_header_bytes ?p))" by simp
  obtain e v h footer where e: "create_event crc Format_description offset t server_id 0 ?p ?b True buffer = Inr (e, ev_portion v)"
    and v: "make_event_view crc c (ev_portion v) = Inr v" "event_buffer (ev_portion v)"
    and parts: "h = create_with_offset offset (of_nat (get_total_size v)) t Format_description server_id 0"
      "v = parts_view h (post_header_bytes ?p) (body_bytes ?b) footer"
    and total: "get_total_size v = created_size ?p ?b True"
    by (rule created_event_view [OF ok small assms(2) lengths])
  have version: "get_encoded (semantic_version_of_encoded (rc_current_encoded_server_version c)) = rc_current_encoded_server_version c"
    using assms(1) by (simp add: tables_ok_def Let_def)
  show thesis
  proof (rule found [OF _ v])
    show "generate_format_description_event crc buffer c offset created t server_id = Inr (v, ev_portion v)"
      using e v(1) by (simp add: generate_format_description_event_def generated_description_def version Let_def)
    have "emplace_post_header Format_description (post_header_bytes ?p) = Inr ?p" by (rule ph.decode_bytes [OF ok(1)])
    then show "fde_post_header_decode (get_post_header_raw v) = Inr (generated_description c created)"
      by (auto simp: parts(2) emplace_post_header_def result_simps simp del: post_header_bytes.simps)
    have "emplace_body Format_description (body_bytes ?b) = Inr ?b" by (rule body.decode_bytes [OF ok(2)])
    then show "fde_body_decode (get_body_raw v) = Inr checksum_algorithm_crc32"
      by (auto simp: parts(2) emplace_body_def result_simps simp del: body_bytes.simps)
  qed (use created_header_fields [OF parts] artificial_flags total size in simp_all)
qed

lemma previous_gtids_event_generated:
  assumes "tables_ok c" and "rc_footer_expected c" and "event_buffer buffer"
    and "make_previous_gtids_body I gtids = Inr body"
    and small: "created_size Empty_post_header (Previous_gtids_log_body body) True < 2 ^ 32"
  obtains v where "generate_previous_gtids_log_event I crc buffer c offset t server_id gtids = Inr (v, ev_portion v)"
    "make_event_view crc c (ev_portion v) = Inr v"
    "event_code v = Previous_gtids_log" "\<not> event_artificial v" "event_size v = of_nat (get_total_size v)"
    "event_next_position v = offset + of_nat (get_total_size v)" "get_body_raw v = body" "get_total_size v = 23 + length body"
proof -
  note found = that
  let ?b = "Previous_gtids_log_body body"
  have ok: "post_header_ok Previous_gtids_log Empty_post_header" "body_ok Previous_gtids_log ?b"
    "Previous_gtids_log = Format_description \<longrightarrow> True" by simp_all
  have lengths: "Previous_gtids_log \<noteq> Format_description \<longrightarrow> rc_footer_expected c = True \<and>
      get_current_post_header_length c Previous_gtids_log = Some (length (post_header_bytes Empty_post_header))"
    using tables_lengths(2) [OF assms(1)] assms(2) by simp
  obtain e v h footer where e: "create_event crc Previous_gtids_log offset t server_id 0 Empty_post_header ?b True buffer = Inr (e, ev_portion v)"
    and v: "make_event_view crc c (ev_portion v) = Inr v"
    and parts: "h = create_with_offset offset (of_nat (get_total_size v)) t Previous_gtids_log server_id 0"
      "v = parts_view h (post_header_bytes Empty_post_header) (body_bytes ?b) footer"
    and total: "get_total_size v = created_size Empty_post_header ?b True"
    by (rule created_event_view [OF ok small assms(3) lengths])
  show thesis
  proof (rule found [OF _ v])
    show "generate_previous_gtids_log_event I crc buffer c offset t server_id gtids = Inr (v, ev_portion v)"
      using e v by (simp add: generate_previous_gtids_log_event_def assms(4))
    show "get_body_raw v = body" by (simp add: parts(2))
    show "get_total_size v = 23 + length body" using total by (simp add: created_size_def)
  qed (use created_header_fields [OF parts] artificial_flags in simp_all)
qed

section \<open>The reader context and the generated events\<close>

definition opened_context :: "string \<Rightarrow> reader_context \<Rightarrow> reader_context" where
  "opened_context name c =
     c\<lparr> rc_expect_info_only_preamble_events := rc_cycle_number c = 0 \<and> name = rc_binlog_name c \<and> 4 < rc_position c,
        rc_binlog_name := name, rc_position := (if name = rc_binlog_name c then rc_position c else 4),
        rc_cycle_number := rc_cycle_number c + 1, rc_state := Format_description_expected \<rparr>"

lemma rotate_artificial_accepted:
  assumes "rc_state c = Rotate_artificial_expected" and "rc_replication_mode c = Gtid_mode"
    and "event_code v = Rotate" and "event_artificial v" and "event_next_position v = 0"
    and "get_timestamp_raw (get_common_header_raw v) = 0"
    and "get_post_header_raw v = le_of_nat 8 (unat magic_binlog_offset)" and "rotate_body_readable_binlog (get_body_raw v) = name"
  shows "process_event_view v c = Inr (True, opened_context name c)"
proof -
  have "rotate_post_header_decode (get_post_header_raw v) = Inr magic_binlog_offset"
    using ph.decode_bytes [of Rotate "Rotate_post_header magic_binlog_offset"]
    by (auto simp: assms(7) emplace_post_header_def result_simps)
  moreover have "unat (rc_position c) < 2 ^ LENGTH(32)" by (rule unsigned_less)
  then have "(4 :: uint64) < ucast (rc_position c) \<longleftrightarrow> 4 < rc_position c"
    by (simp add: word_less_nat_alt unat_ucast_mod)
  ultimately show ?thesis
    unfolding process_event_view_def rank_zero_loop [of c v False True "opened_context name c", unfolded assms(1), simplified]
    using assms
    by (simp add: process_event_in_rotate_artificial_expected_state_def validate_artificial_rotate_position_def reset_position_def
        opened_context_def magic_binlog_offset_def Let_def)
qed

definition described_context :: "event_view \<Rightarrow> reader_context \<Rightarrow> reader_context" where
  "described_context v c =
     c\<lparr> rc_post_header_lengths := get_hardcoded_post_header_lengths (rc_current_encoded_server_version c), rc_footer_expected := True,
        rc_position := (if rc_expect_info_only_preamble_events c then rc_position c else event_next_position v),
        rc_state := Previous_gtids_expected \<rparr>"

lemma description_accepted:
  assumes "rc_state c = Format_description_expected" and "rc_replication_mode c = Gtid_mode" and "tables_ok c"
    and "event_code v = Format_description" and "\<not> event_artificial v"
    and "\<not> rc_expect_info_only_preamble_events c \<Longrightarrow> event_next_position v \<noteq> 0 \<and> rc_position c + event_size v = event_next_position v"
    and "fde_post_header_decode (get_post_header_raw v) = Inr (generated_description c created)"
    and "fde_body_decode (get_body_raw v) = Inr checksum_algorithm_crc32"
  shows "process_event_view v c = Inr (rc_expect_info_only_preamble_events c, described_context v c)"
proof -
  let ?v = "rc_current_encoded_server_version c" and ?h = "generated_description c created"
  have fields: "fde_binlog_version ?h = default_binlog_version" "unat (fde_common_header_length ?h) = default_common_header_length"
    "fde_post_header_lengths ?h = get_hardcoded_post_header_lengths ?v"
    by (simp_all add: generated_description_def make_fde_post_header_def)
  have version: "\<not> rc_connection_encoded_server_version c < ?v" using assms(3) by (simp add: tables_ok_def Let_def not_less)
  have "has_checksum_algorithm checksum_algorithm_crc32" by code_simp
  then show ?thesis
    unfolding process_event_view_def
      rank_zero_loop [of c v False "rc_expect_info_only_preamble_events c" "described_context v c", unfolded assms(1), simplified]
    using assms fields version generated_description_ok(2) [OF assms(3), of created] hardcoded_lengths_validated [of ?v]
    by (auto simp: process_event_in_format_description_expected_state_def described_context_def validate_position_and_advance_def
        validate_position_def Let_def)
qed

text \<open>What the reader context sees of \<open>start_binlog_file\<close>, for the GTIDs that the storage then has.\<close>

definition read_preamble ::
    "'c icl \<Rightarrow> crc32 \<Rightarrow> rewrite_clocks \<Rightarrow> uint32 \<Rightarrow> composite_binlog_name \<Rightarrow> byte list \<Rightarrow> 'c gtid_set \<Rightarrow> reader_context \<Rightarrow>
     ((event_view \<times> bool) list \<times> reader_context) result" where
  "read_preamble I crc now server_id binlog_name buffer gtids c =
     rbind (generate_rotate_event crc buffer c 0 None server_id True binlog_name) (\<lambda>(v1, buffer).
     rbind (process_event_view v1 c) (\<lambda>(i1, c).
     rbind (generate_format_description_event crc buffer c (ucast magic_binlog_offset)
       (create_timestamp now) (description_timestamp now) server_id) (\<lambda>(v2, buffer).
     rbind (process_event_view v2 c) (\<lambda>(i2, c).
     rbind (generate_previous_gtids_log_event I crc buffer c (ucast magic_binlog_offset + of_nat (get_total_size v2))
       (previous_gtids_timestamp now) server_id gtids) (\<lambda>(v3, _).
     rbind (process_event_view v3 c) (\<lambda>(i3, c).
     Inr ([(v1, i1), (v2, i2), (v3, i3)], c)))))))"

lemma start_binlog_file_reads:
  assumes "start_binlog_file I C crc now server_id binlog_name ((c, s), buffer) = Inr (c', s')"
  obtains gtids events where "read_preamble I crc now server_id binlog_name buffer gtids c = Inr (events, c')"
proof -
  note found = that
  obtain v1 b1 c1 s1 v2 b2 c2 s2 v3 b3 where
    e: "generate_rotate_event crc buffer c 0 None server_id True binlog_name = Inr (v1, b1)"
    "process_binlog_event I C (while_opening now) v1 (c, s) = Inr (c1, s1)"
    "generate_format_description_event crc b1 c1 (ucast magic_binlog_offset) (create_timestamp now) (description_timestamp now) server_id = Inr (v2, b2)"
    "process_binlog_event I C (while_describing now) v2 (c1, s1) = Inr (c2, s2)"
    "generate_previous_gtids_log_event I crc b2 c2 (ucast magic_binlog_offset + of_nat (get_total_size v2))
       (previous_gtids_timestamp now) server_id (get_gtids I s2) = Inr (v3, b3)"
    "process_binlog_event I C (while_listing now) v3 (c2, s2) = Inr (c', s')"
    using assms by (auto simp: start_binlog_file_def result_simps)
  obtain i1 i2 i3 where "process_event_view v1 c = Inr (i1, c1)" "process_event_view v2 c1 = Inr (i2, c2)" "process_event_view v3 c2 = Inr (i3, c')"
    using process_binlog_event_stages e(2,4,6) by metis
  then show thesis using e by (intro found [of "get_gtids I s2"]) (simp add: read_preamble_def)
qed

lemma tables_ok_cong:
  "rc_current_encoded_server_version c' = rc_current_encoded_server_version c \<Longrightarrow>
   rc_connection_encoded_server_version c' = rc_connection_encoded_server_version c \<Longrightarrow>
   rc_post_header_lengths c' \<in> {rc_post_header_lengths c, get_hardcoded_post_header_lengths (rc_current_encoded_server_version c)} \<Longrightarrow>
   tables_ok c \<Longrightarrow> tables_ok c'"
  by (auto simp: tables_ok_def Let_def)

lemma read_preamble_ok:
  assumes c: "rc_state c = Rotate_artificial_expected" "rc_replication_mode c = Gtid_mode" "tables_ok c"
    and position: "4 \<le> rc_position c" "rc_cycle_number c \<noteq> 0 \<Longrightarrow> rc_position c = 4"
    and n: "length (binlog_name_str n) < 2 ^ 31" and buffer: "event_buffer buffer"
    and body: "make_previous_gtids_body I gtids = Inr body" "length body < 2 ^ 31"
    and info: "info \<longleftrightarrow> rc_cycle_number c = 0 \<and> binlog_name_str n = rc_binlog_name c \<and> 4 < rc_position c"
  obtains v1 v2 v3 c' where "read_preamble I crc now server_id n buffer gtids c = Inr ([(v1, True), (v2, info), (v3, info)], c')"
    "rc_state c' = Gtid_log_expected" "rc_footer_expected c'" "tables_ok c'" "rc_binlog_name c' = binlog_name_str n"
    "rc_position c' = (if info then rc_position c else 4 + event_size v2 + event_size v3)" "get_body_raw v3 = body"
proof -
  note found = that
  define c1 where "c1 = opened_context (binlog_name_str n) c"
  obtain v1 where v1: "generate_rotate_event crc buffer c 0 None server_id True n = Inr (v1, ev_portion v1)" "event_buffer (ev_portion v1)"
    and p1: "process_event_view v1 c = Inr (True, c1)"
    unfolding c1_def using rotate_artificial_accepted [OF c(1,2)]
    by (rule_tac rotate_event_generated [OF c(3) rotate_size_small [OF n] buffer, of crc 0 None server_id True]) simp
  have c1: "rc_state c1 = Format_description_expected" "rc_replication_mode c1 = Gtid_mode" "tables_ok c1"
    "rc_expect_info_only_preamble_events c1 = info" "rc_position c1 = (if info then rc_position c else 4)" "rc_binlog_name c1 = binlog_name_str n"
    using c position info by (auto simp: c1_def opened_context_def intro: tables_ok_cong [of _ c])
  obtain v2 where v2: "generate_format_description_event crc (ev_portion v1) c1 4 (create_timestamp now) (description_timestamp now) server_id =
      Inr (v2, ev_portion v2)" "event_buffer (ev_portion v2)" "event_size v2 = of_nat (get_total_size v2)"
      "event_next_position v2 = 4 + of_nat (get_total_size v2)" "get_total_size v2 < 200"
    and f2: "event_code v2 = Format_description" "\<not> event_artificial v2"
      "fde_post_header_decode (get_post_header_raw v2) = Inr (generated_description c1 (create_timestamp now))"
      "fde_body_decode (get_body_raw v2) = Inr checksum_algorithm_crc32"
    by (rule description_event_generated [OF c1(3) v1(2)])
  define c2 where "c2 = described_context v2 c1"
  have next2: "event_next_position v2 \<noteq> 0" using v2(4,5) by (simp add: word_unat_eq_iff unat_word_ariths unat_of_nat)
  have p2: "process_event_view v2 c1 = Inr (info, c2)"
    unfolding c2_def c1(4) [symmetric]
    by (rule description_accepted [OF c1(1-3) f2(1,2) _ f2(3,4)]) (use next2 v2(3,4) c1(4,5) in simp)
  have c2: "rc_state c2 = Previous_gtids_expected" "tables_ok c2" "rc_footer_expected c2" "rc_expect_info_only_preamble_events c2 = info"
    "rc_position c2 = (if info then rc_position c else 4 + of_nat (get_total_size v2))" "rc_binlog_name c2 = binlog_name_str n"
    using c1 v2(4) by (auto simp: c2_def described_context_def intro: tables_ok_cong [of _ c1])
  have small: "created_size Empty_post_header (Previous_gtids_log_body body) True < 2 ^ 32"
    using body(2) by (simp add: created_size_def)
  obtain v3 where v3: "generate_previous_gtids_log_event I crc (ev_portion v2) c2 (4 + of_nat (get_total_size v2))
      (previous_gtids_timestamp now) server_id gtids = Inr (v3, ev_portion v3)" "get_body_raw v3 = body"
      "event_size v3 = of_nat (get_total_size v3)" "event_next_position v3 = 4 + of_nat (get_total_size v2) + of_nat (get_total_size v3)"
      "get_total_size v3 = 23 + length body"
    and f3: "event_code v3 = Previous_gtids_log" "\<not> event_artificial v3"
    by (rule previous_gtids_event_generated [OF c2(2,3) v2(2) body(1) small])
  have next3: "event_next_position v3 \<noteq> 0"
    using v3(4,5) v2(5) body(2) by (simp add: word_unat_eq_iff unat_word_ariths unat_of_nat)
  let ?c3 = "c2\<lparr> rc_position := (if info then rc_position c2 else event_next_position v3), rc_state := Gtid_log_expected \<rparr>"
  have p3: "process_event_view v3 c2 = Inr (info, ?c3)"
    unfolding c2(4) [symmetric]
    by (rule previous_gtids_accepted [OF c2(1) f3]) (use next3 v3(3,4) c2(4,5) in simp)
  have four: "ucast magic_binlog_offset = (4 :: uint32)" by code_simp
  show thesis
  proof (rule found [of v1 v2 v3 ?c3])
    show "read_preamble I crc now server_id n buffer gtids c = Inr ([(v1, True), (v2, info), (v3, info)], ?c3)"
      using v1(1) p1 v2(1) p2 v3(1) p3 by (simp add: read_preamble_def four)
    show "tables_ok ?c3" using c2(2) by (auto intro: tables_ok_cong [of _ c2])
    show "rc_position ?c3 = (if info then rc_position c else 4 + event_size v2 + event_size v3)"
      using c2(5) v2(3) v3(3,4) by simp
  qed (use c2 v3(2) in simp_all)
qed

section \<open>Reader context and storage stay in step\<close>

lemma rotate_event_result:
  assumes "generate_rotate_event crc buffer c offset t server_id artificial n = Inr (v, b)" and "tables_ok c" and "event_buffer buffer"
  shows "make_event_view crc c (ev_portion v) = Inr v" "event_buffer b" "event_code v = Rotate" "event_artificial v = artificial"
    "rotate_body_readable_binlog (get_body_raw v) = binlog_name_str n"
proof -
  obtain x where "create_event crc Rotate offset (case t of None \<Rightarrow> 0 | Some now \<Rightarrow> now) server_id
      (if artificial then artificial_flag else 0) (Rotate_post_header magic_binlog_offset) (Rotate_body (make_rotate_body n))
      (rc_footer_expected c) buffer = Inr x"
    using assms(1) by (auto simp: generate_rotate_event_def Let_def result_simps)
  then have small: "rotate_size c n < 2 ^ 32" by (rule create_event_fits) simp_all
  obtain v' where v': "generate_rotate_event crc buffer c offset t server_id artificial n = Inr (v', ev_portion v')"
    "make_event_view crc c (ev_portion v') = Inr v'" "event_buffer (ev_portion v')" "event_code v' = Rotate" "event_artificial v' = artificial"
    "rotate_body_readable_binlog (get_body_raw v') = binlog_name_str n"
    by (rule rotate_event_generated [OF assms(2) small assms(3)])
  then show "make_event_view crc c (ev_portion v) = Inr v" "event_buffer b" "event_code v = Rotate" "event_artificial v = artificial"
    "rotate_body_readable_binlog (get_body_raw v) = binlog_name_str n"
    using assms(1) by simp_all
qed

lemma previous_gtids_event_result:
  assumes "generate_previous_gtids_log_event I crc buffer c offset t server_id gtids = Inr (v, b)" and "tables_ok c"
    and "rc_footer_expected c" and "event_buffer buffer"
  shows "make_event_view crc c (ev_portion v) = Inr v" "event_code v = Previous_gtids_log"
proof -
  obtain body x where body: "make_previous_gtids_body I gtids = Inr body"
    and x: "create_event crc Previous_gtids_log offset t server_id 0 Empty_post_header (Previous_gtids_log_body body) True buffer = Inr x"
    using assms(1) by (auto simp: generate_previous_gtids_log_event_def result_simps)
  have small: "created_size Empty_post_header (Previous_gtids_log_body body) True < 2 ^ 32"
    using x by (rule create_event_fits) simp_all
  obtain v' where "generate_previous_gtids_log_event I crc buffer c offset t server_id gtids = Inr (v', ev_portion v')"
    "make_event_view crc c (ev_portion v') = Inr v'" "event_code v' = Previous_gtids_log"
    by (rule previous_gtids_event_generated [OF assms(2-4) body small])
  then show "make_event_view crc c (ev_portion v) = Inr v" "event_code v = Previous_gtids_log"
    using assms(1) by simp_all
qed

lemma dispatch_tables:
  assumes "dispatch_state q v i c = Inr (p, i', c')" and "event_code v \<noteq> Format_description"
  shows "rc_current_encoded_server_version c' = rc_current_encoded_server_version c \<and>
    rc_connection_encoded_server_version c' = rc_connection_encoded_server_version c \<and>
    rc_post_header_lengths c' = rc_post_header_lengths c \<and> rc_footer_expected c' = rc_footer_expected c"
  using assms
  by (cases q) (auto simp: handler_defs result_simps accounting_Inr start_transaction_def reset_position_def Let_def split: if_splits)

lemma process_loop_tables:
  "process_loop v p i c = Inr (i', c') \<Longrightarrow> event_code v \<noteq> Format_description \<Longrightarrow>
   rc_current_encoded_server_version c' = rc_current_encoded_server_version c \<and>
   rc_connection_encoded_server_version c' = rc_connection_encoded_server_version c \<and>
   rc_post_header_lengths c' = rc_post_header_lengths c \<and> rc_footer_expected c' = rc_footer_expected c"
proof (induction v p i c rule: process_loop.induct)
  case (1 v p i c)
  show ?case
  proof (cases p)
    case False
    then obtain p1 i1 c1 where "dispatch_state (rc_state c) v i c = Inr (p1, i1, c1)" "process_loop v p1 i1 c1 = Inr (i', c')"
      using 1(2) by (auto simp: process_loop_step result_simps)
    then show ?thesis using 1(1) [OF False _ refl refl] 1(3) dispatch_tables by metis
  qed (use 1(2) in simp)
qed

lemma process_event_view_tables:
  assumes "process_event_view v c = Inr (i, c')" and "event_code v \<noteq> Format_description" and "tables_ok c"
  shows "tables_ok c'" "rc_footer_expected c' = rc_footer_expected c"
  using process_loop_tables [of v False False c i c'] assms by (auto simp: process_event_view_def intro: tables_ok_cong [of c' c])

lemma description_tables:
  assumes "process_event_view v c = Inr (i, c')" and "rc_state c = Format_description_expected" and "tables_ok c"
    and "fde_post_header_decode (get_post_header_raw v) = Inr (generated_description c created)"
    and "fde_body_decode (get_body_raw v) = Inr checksum_algorithm_crc32"
  shows "tables_ok c'" "rc_footer_expected c'"
proof -
  let ?v = "rc_current_encoded_server_version c"
  have "process_event_in_format_description_expected_state v False c = Inr (True, i, c')"
    using assms(1,2) rank_zero_loop [of c v False i c'] by (simp add: process_event_view_def)
  moreover have "has_checksum_algorithm checksum_algorithm_crc32" by code_simp
  ultimately have "rc_current_encoded_server_version c' = ?v \<and> rc_footer_expected c' \<and>
      rc_connection_encoded_server_version c' = rc_connection_encoded_server_version c \<and>
      rc_post_header_lengths c' = fde_post_header_lengths (generated_description c created)"
    using generated_description_ok(2) [OF assms(3), of created]
    by (auto simp: process_event_in_format_description_expected_state_def assms(4,5) result_simps accounting_Inr Let_def split: if_splits)
  moreover have "fde_post_header_lengths (generated_description c created) = get_hardcoded_post_header_lengths ?v"
    by (simp add: generated_description_def make_fde_post_header_def)
  ultimately show "tables_ok c'" "rc_footer_expected c'" using assms(3) by (auto intro: tables_ok_cong [of c' c])
qed

lemma store_event_name:
  assumes "store_event I C now v i c' s = Inr s'" and "storage_ok C s" and "\<not> is_artificial_rotate v"
  shows "get_current_binlog_name s' = get_current_binlog_name s"
proof -
  have "\<not> (event_code v = Rotate \<and> event_artificial v)" using assms(3) by (simp add: is_artificial_rotate_def)
  then obtain s1 where w: "(if \<not> i then write_event I C (ev_portion v) (is_at_transaction_boundary c') (rc_transaction_gtid c')
        (uint (get_timestamp_raw (get_common_header_raw v))) (rc_transaction_sequence_number c') (at_writing now) s
      else Inr s) = Inr s1"
    and close: "(if event_code v = Rotate \<and> \<not> event_artificial v \<or> event_code v = Stop
      then close_binlog I C (at_final_closing now) s1 else Inr s1) = Inr s'"
    using assms(1) unfolding store_event_def process_rotate_or_stop_event_def Let_def event_field_defs
    by (auto simp only: result_simps if_False)
  note s1 = write_or_skip_place [OF w assms(2)]
  show ?thesis using close s1(1,2) close_binlog_place(1) [of I C _ s1 s'] by (auto split: if_splits)
qed

definition aligned :: "'c icl \<Rightarrow> 'c metadata_codec \<Rightarrow> reader_context \<Rightarrow> 'c storage \<Rightarrow> bool" where
  "aligned I C c s \<longleftrightarrow> storage_reachable I C s \<and> in_step C c s \<and> tables_ok c"

lemma process_aligned:
  assumes "aligned I C c s" and "process_binlog_event I C now v (c, s) = Inr (c', s')" and "event_view_ok v" and "rotation_expected v c s"
    and "tables_ok c'"
  shows "aligned I C c' s'"
proof -
  obtain i where i: "store_event I C now v i c' s = Inr s'" using assms(2) by (rule process_binlog_event_stages)
  have "is_artificial_rotate v \<longrightarrow> CHR 0x0A \<notin> set (rotate_body_readable_binlog (get_body_raw v))"
    using assms(4) by (simp add: rotation_expected_def Let_def)
  then have "storage_reachable I C s'" using store_event_reachable [OF _ i] assms(1) by (simp add: aligned_def)
  moreover have "in_step C c' s'"
    using process_binlog_event_in_step [OF _ assms(2-4)] assms(1) by (simp add: aligned_def)
  ultimately show ?thesis using assms(5) by (simp add: aligned_def)
qed

lemma process_other_aligned:
  assumes "aligned I C c s" and "process_binlog_event I C now v (c, s) = Inr (c', s')" and "event_view_ok v" and "rotation_expected v c s"
    and "event_code v \<noteq> Format_description"
  shows "aligned I C c' s'"
proof -
  obtain i where "process_event_view v c = Inr (i, c')" using assms(2) by (rule process_binlog_event_stages)
  then have "tables_ok c'" using process_event_view_tables(1) assms(1,5) by (simp add: aligned_def)
  with assms(1-4) show ?thesis by (rule process_aligned)
qed

lemma start_binlog_file_stages:
  assumes al: "aligned I C c s" and buffer: "event_buffer buffer"
    and name: "CHR 0x0A \<notin> set (binlog_name_str n)"
      "rc_cycle_number c = 0 \<or> binlog_name_str n \<noteq> binlog_name_str (get_current_binlog_name s)"
    and run: "start_binlog_file I C crc now server_id n ((c, s), buffer) = Inr (c', s')"
  obtains v1 b1 c1 s1 v2 c2 s2 v3 where
    "generate_rotate_event crc buffer c 0 None server_id True n = Inr (v1, b1)"
    "process_binlog_event I C (while_opening now) v1 (c, s) = Inr (c1, s1)"
    "make_event_view crc c1 (ev_portion v2) = Inr v2" "event_code v2 = Format_description"
    "process_binlog_event I C (while_describing now) v2 (c1, s1) = Inr (c2, s2)"
    "make_event_view crc c2 (ev_portion v3) = Inr v3" "event_code v3 = Previous_gtids_log"
    "process_binlog_event I C (while_listing now) v3 (c2, s2) = Inr (c', s')"
    "aligned I C c1 s1" "aligned I C c2 s2" "aligned I C c' s'"
proof -
  note found = that
  obtain v1 b1 c1 s1 v2 b2 c2 s2 v3 b3 where
    g1: "generate_rotate_event crc buffer c 0 None server_id True n = Inr (v1, b1)"
    and p1: "process_binlog_event I C (while_opening now) v1 (c, s) = Inr (c1, s1)"
    and g2: "generate_format_description_event crc b1 c1 (ucast magic_binlog_offset) (create_timestamp now) (description_timestamp now) server_id = Inr (v2, b2)"
    and p2: "process_binlog_event I C (while_describing now) v2 (c1, s1) = Inr (c2, s2)"
    and g3: "generate_previous_gtids_log_event I crc b2 c2 (ucast magic_binlog_offset + of_nat (get_total_size v2))
       (previous_gtids_timestamp now) server_id (get_gtids I s2) = Inr (v3, b3)"
    and p3: "process_binlog_event I C (while_listing now) v3 (c2, s2) = Inr (c', s')"
    using run by (auto simp: start_binlog_file_def result_simps)
  have tables: "tables_ok c" using al by (simp add: aligned_def)
  note v1 = rotate_event_result [OF g1 tables buffer]
  have "rotation_expected v1 c s" using v1(5) name by (auto simp: rotation_expected_def Let_def)
  then have al1: "aligned I C c1 s1"
    using process_other_aligned [OF al p1 make_event_view_Inr(2) [OF v1(1)]] v1(3) by simp
  then have tables1: "tables_ok c1" by (simp add: aligned_def)
  obtain i1 where i1: "process_event_view v1 c = Inr (i1, c1)" using p1 by (rule process_binlog_event_stages)
  have "is_artificial_rotate v1" using v1(3,4) by (simp add: is_artificial_rotate_def)
  note state1 = rotation_step(2) [OF i1 this]
  obtain v where v: "generate_format_description_event crc b1 c1 (ucast magic_binlog_offset) (create_timestamp now) (description_timestamp now) server_id =
      Inr (v, ev_portion v)" "make_event_view crc c1 (ev_portion v) = Inr v" "event_buffer (ev_portion v)" "event_code v = Format_description"
      "fde_post_header_decode (get_post_header_raw v) = Inr (generated_description c1 (create_timestamp now))"
      "fde_body_decode (get_body_raw v) = Inr checksum_algorithm_crc32"
    by (rule description_event_generated [OF tables1 v1(2)])
  then have v2: "v2 = v" "b2 = ev_portion v" using g2 by auto
  obtain i2 where i2: "process_event_view v c1 = Inr (i2, c2)" using p2 [unfolded v2] by (rule process_binlog_event_stages)
  note tables2 = description_tables [OF i2 state1 tables1 v(5,6)]
  have "rotation_expected v c1 s1" using v(4) by (simp add: rotation_expected_def is_artificial_rotate_def)
  then have al2: "aligned I C c2 s2"
    using process_aligned [OF al1 p2 [unfolded v2] make_event_view_Inr(2) [OF v(2)]] tables2(1) by simp
  note v3 = previous_gtids_event_result [OF g3 tables2 v(3) [folded v2(2)]]
  have "rotation_expected v3 c2 s2" using v3(2) by (simp add: rotation_expected_def is_artificial_rotate_def)
  then have "aligned I C c' s'" using process_other_aligned [OF al2 p3 make_event_view_Inr(2) [OF v3(1)]] v3(2) by simp
  then show thesis
    using found [OF g1 p1 _ _ p2 v3 p3 al1 al2] v(2,4) by (simp add: v2)
qed


lemma start_binlog_file_aligned:
  assumes "aligned I C c s" and "event_buffer buffer" and "CHR 0x0A \<notin> set (binlog_name_str n)"
    and "rc_cycle_number c = 0 \<or> binlog_name_str n \<noteq> binlog_name_str (get_current_binlog_name s)"
    and "start_binlog_file I C crc now server_id n ((c, s), buffer) = Inr (c', s')"
  shows "aligned I C c' s'"
  using assms by (rule start_binlog_file_stages)

lemma finish_binlog_file_aligned:
  assumes al: "aligned I C c s" and run: "finish_binlog_file I C crc now server_id n (c, s) = Inr ((c', s'), buffer)"
  shows "aligned I C c' s'" "event_buffer buffer" "rc_cycle_number c' = rc_cycle_number c"
    "get_current_binlog_name s' = get_current_binlog_name s"
proof -
  have "aligned I C c' s' \<and> event_buffer buffer \<and> rc_cycle_number c' = rc_cycle_number c \<and> get_current_binlog_name s' = get_current_binlog_name s"
  proof (cases "is_fresh c")
    case True
    then show ?thesis using al run by (simp add: finish_binlog_file_def event_buffer_def)
  next
    case False
    then obtain v where g: "generate_rotate_event crc [] c (ucast (get_current_position s)) (Some (rotate_timestamp now)) server_id False n = Inr (v, buffer)"
      and p: "process_binlog_event I C (while_rotating now) v (c, s) = Inr (c', s')"
      using run by (auto simp: finish_binlog_file_def result_simps)
    have new: "event_buffer []" by (simp add: event_buffer_def)
    have tables: "tables_ok c" and ok: "storage_ok C s" using al in_stepD(1) by (auto simp: aligned_def)
    note v = rotate_event_result [OF g tables new]
    have rot: "\<not> is_artificial_rotate v" using v(4) by (simp add: is_artificial_rotate_def)
    have "aligned I C c' s'"
      by (rule process_other_aligned [OF al p make_event_view_Inr(2) [OF v(1)]]) (use rot v(3) in \<open>simp_all add: rotation_expected_def\<close>)
    moreover obtain i where i: "process_event_view v c = Inr (i, c')" "store_event I C (while_rotating now) v i c' s = Inr s'"
      using p by (rule process_binlog_event_stages)
    ultimately show ?thesis using non_rotation_step(1) [OF i(1) rot] store_event_name [OF i(2) ok rot] v(2) by simp
  qed
  then show "aligned I C c' s'" "event_buffer buffer" "rc_cycle_number c' = rc_cycle_number c"
    "get_current_binlog_name s' = get_current_binlog_name s" by simp_all
qed

lemma index_name_line: "index_name_ok n \<Longrightarrow> CHR 0x0A \<notin> set (binlog_name_str n)"
proof -
  assume n: "index_name_ok n"
  have "\<not> isdigit (CHR 0x0A)" by code_simp
  then have "CHR 0x0A \<notin> set (zero_pad 6 (unat (get_sequence_number n)))"
    using isdigit_zero_pad [of 6 "unat (get_sequence_number n)"] by (auto simp: list_all_iff)
  moreover have "CHR 0x0A \<noteq> components_separator" by code_simp
  ultimately show ?thesis using n by (simp add: binlog_name_str_def index_name_ok_def number_of_sequence_number_characters_def)
qed

lemma choose_binlog_name_ok:
  assumes "choose_binlog_name base c s = Inr n" and "storage_ok C s" and "CHR 0x0A \<notin> set base"
  shows "CHR 0x0A \<notin> set (binlog_name_str n)"
    "rc_cycle_number c = 0 \<or> binlog_name_str n \<noteq> binlog_name_str (get_current_binlog_name s)"
proof -
  have "index_name_ok n \<and> (rc_cycle_number c = 0 \<or> binlog_name_str n \<noteq> binlog_name_str (get_current_binlog_name s))"
  proof (cases "storage_is_empty s")
    case True
    then have n: "make_binlog_name base 1 = Inr n" using assms(1) by (simp add: choose_binlog_name_def)
    then have ok: "binlog_name_ok n" "get_base_name n = base" by (auto simp: make_binlog_name_Inr binlog_name_ok_iff)
    have "binlog_name_str n \<noteq> binlog_name_str (get_current_binlog_name s)"
      using parse_binlog_name_str [OF ok(1)] empty_name_not_parsed [of n] True by (auto simp: get_current_binlog_name_def)
    then show ?thesis using ok assms(3) by (simp add: index_name_ok_def)
  next
    case False
    note cur = current_name_ok(1) [OF assms(2) False]
    have "br_name (last (st_binlog_records s)) = get_current_binlog_name s" "last (st_binlog_records s) \<in> set (st_binlog_records s)"
      using False by (simp_all add: get_current_binlog_name_def storage_is_empty_def)
    then have idx: "index_name_ok (get_current_binlog_name s)"
      using directory_okD(1) [OF storage_okD(3) [OF assms(2)]] by (metis record_ok_def)
    show ?thesis
    proof (cases "is_fresh c")
      case True
      then show ?thesis using assms(1) False idx by (simp add: choose_binlog_name_def is_fresh_def)
    next
      case fresh: False
      then have n: "next_binlog_name (get_current_binlog_name s) = Inr n" using assms(1) False by (simp add: choose_binlog_name_def)
      then have ok: "binlog_name_ok n" "get_base_name n = get_base_name (get_current_binlog_name s)"
        "get_sequence_number n = get_sequence_number (get_current_binlog_name s) + 1"
        by (auto simp: next_binlog_name_def make_binlog_name_Inr binlog_name_ok_iff)
      then have "n \<noteq> get_current_binlog_name s" by auto
      then show ?thesis using ok idx binlog_name_str_inject [OF ok(1) cur] by (simp add: index_name_ok_def)
    qed
  qed
  then show "CHR 0x0A \<notin> set (binlog_name_str n)"
    "rc_cycle_number c = 0 \<or> binlog_name_str n \<noteq> binlog_name_str (get_current_binlog_name s)"
    using index_name_line by blast+
qed

lemma rewritten_view:
  assumes "make_event_view crc0 c portion = Inr v" and "rewritable v" and "rewrite crc local v buffer offset = Inr v'"
  shows "event_view_ok v'" "event_code v' = event_code v" "event_next_position v' = ucast (offset + of_nat (get_total_size v'))"
proof -
  obtain h n p b where h: "get_common_header_raw v = common_header_bytes h" "unat (ch_type_code h) < 43"
    and n: "n = 23 + length p + length b" "n < 2 ^ 32"
    and out: "rewrite crc local v buffer offset = Inr (footed_view crc (relocated offset n h) p b)"
    by (rule made_view_rewrite [OF assms(1,2)])
  have v': "v' = footed_view crc (relocated offset n h) p b" using out assms(3) by simp
  have head: "get_common_header_raw v' = common_header_bytes (relocated offset n h)" and total: "get_total_size v' = n"
    by (simp_all add: v' footed_view_def n(1))
  have "unat (ch_event_size (relocated offset n h)) = n" using n(2) by (simp add: unat_of_nat)
  then show "event_view_ok v'"
    using h(2) total unfolding event_view_ok_def head
    by (simp add: common_header_view_def header_getters header_offsets n(1) v' footed_view_def del: event_field_defs)
  show "event_code v' = event_code v" "event_next_position v' = ucast (offset + of_nat (get_total_size v'))"
    by (simp_all add: event_code_def event_next_position_def head total h(1) get_type_code_def header_getters del: event_field_defs)
qed

text \<open>The generated events: what is stored of them goes to the files event by event.\<close>

fun generated_action :: "stored_action \<Rightarrow> bool" where
  "generated_action (Start_file n) = True"
| "generated_action (Store v) = (event_code v \<in> {Rotate, Format_description, Previous_gtids_log})"

lemma process_replayed:
  assumes "in_step C c s" and "process_binlog_event I C now v (c, s) = Inr (c', s')" and "event_view_ok v"
    and "\<not> is_artificial_rotate v" and "event_code v \<in> {Rotate, Format_description, Previous_gtids_log}"
  obtains actions where "list_all generated_action actions" "replay actions (stored_files s) = Some (stored_files s')"
proof -
  obtain i where i: "process_event_view v c = Inr (i, c')" "store_event I C now v i c' s = Inr s'"
    using assms(2) by (rule process_binlog_event_stages)
  show thesis
    by (rule that [OF _ event_replayed [OF assms(1) i(1) assms(4,3) i(2)]]) (use assms(5) in simp)
qed

lemma start_binlog_file_replayed:
  assumes al: "aligned I C c s" and buffer: "event_buffer buffer"
    and name: "CHR 0x0A \<notin> set (binlog_name_str n)"
      "rc_cycle_number c = 0 \<or> binlog_name_str n \<noteq> binlog_name_str (get_current_binlog_name s)"
      "is_binlog_open s \<Longrightarrow> binlog_name_str n = binlog_name_str (get_current_binlog_name s)"
    and run: "start_binlog_file I C crc now server_id n ((c, s), buffer) = Inr (c', s')"
  obtains actions where "list_all generated_action actions" "replay actions (stored_files s) = Some (stored_files s')"
proof -
  note found = that
  obtain v1 b1 c1 s1 v2 b2 c2 s2 v3 b3 where
    g1: "generate_rotate_event crc buffer c 0 None server_id True n = Inr (v1, b1)"
    and p1: "process_binlog_event I C (while_opening now) v1 (c, s) = Inr (c1, s1)"
    and v2: "make_event_view crc c1 (ev_portion v2) = Inr v2" "event_code v2 = Format_description"
    and p2: "process_binlog_event I C (while_describing now) v2 (c1, s1) = Inr (c2, s2)"
    and v3: "make_event_view crc c2 (ev_portion v3) = Inr v3" "event_code v3 = Previous_gtids_log"
    and p3: "process_binlog_event I C (while_listing now) v3 (c2, s2) = Inr (c', s')"
    and al1: "aligned I C c1 s1" "aligned I C c2 s2"
    using al buffer name(1,2) run by (rule start_binlog_file_stages)
  have tables: "tables_ok c" and ok: "storage_ok C s" using al in_stepD(1) by (auto simp: aligned_def)
  note v1 = rotate_event_result [OF g1 tables buffer]
  have rot: "is_artificial_rotate v1" using v1(3,4) by (simp add: is_artificial_rotate_def)
  obtain i where i: "process_event_view v1 c = Inr (i, c1)" "store_event I C (while_opening now) v1 i c1 s = Inr s1"
    using p1 by (rule process_binlog_event_stages)
  have opened: "process_artificial_rotate_event I C (while_opening now) v1 s = Inr s1"
    using i(2) rot rotation_step(1) [OF i(1) rot] by (rule store_rotation)
  obtain a1 where a1: "a1 = [] \<or> (\<exists>n. a1 = [Start_file n])" "replay a1 (stored_files s) = Some (stored_files s1)"
    by (rule rotation_replayed [OF ok opened]) (use v1(5) name in simp_all)
  obtain a2 where a2: "list_all generated_action a2" "replay a2 (stored_files s1) = Some (stored_files s2)"
    by (rule process_replayed [OF _ p2 make_event_view_Inr(2) [OF v2(1)]]) (use al1 v2(2) in \<open>simp_all add: aligned_def is_artificial_rotate_def\<close>)
  obtain a3 where a3: "list_all generated_action a3" "replay a3 (stored_files s2) = Some (stored_files s')"
    by (rule process_replayed [OF _ p3 make_event_view_Inr(2) [OF v3(1)]]) (use al1 v3(2) in \<open>simp_all add: aligned_def is_artificial_rotate_def\<close>)
  show thesis
    by (rule found [OF _ replay_trans [OF a1(2) replay_trans [OF a2(2) a3(2)]]]) (use a1(1) a2(1) a3(1) in auto)
qed

lemma finish_binlog_file_replayed:
  assumes al: "aligned I C c s" and run: "finish_binlog_file I C crc now server_id n (c, s) = Inr ((c', s'), buffer)"
  obtains actions where "list_all generated_action actions" "replay actions (stored_files s) = Some (stored_files s')"
proof (cases "is_fresh c")
  case True
  then show thesis using run that [of "[]"] by (simp add: finish_binlog_file_def)
next
  case False
  then obtain v where g: "generate_rotate_event crc [] c (ucast (get_current_position s)) (Some (rotate_timestamp now)) server_id False n = Inr (v, buffer)"
    and p: "process_binlog_event I C (while_rotating now) v (c, s) = Inr (c', s')"
    using run by (auto simp: finish_binlog_file_def result_simps)
  have tables: "tables_ok c" and st: "in_step C c s" using al by (simp_all add: aligned_def)
  have new: "event_buffer []" by (simp add: event_buffer_def)
  note v = rotate_event_result [OF g tables new]
  show thesis
    by (rule process_replayed [OF st p make_event_view_Inr(2) [OF v(1)] _ _ that]) (use v(3,4) in \<open>simp_all add: is_artificial_rotate_def\<close>)
qed

lemma finish_binlog_file_state:
  assumes al: "aligned I C c s" and run: "finish_binlog_file I C crc now server_id n (c, s) = Inr ((c', s'), buffer)"
  shows "rc_state c' = Rotate_artificial_expected"
proof (cases "is_fresh c")
  case True
  then show ?thesis using run in_stepD(4) [of C c s] al by (auto simp: finish_binlog_file_def aligned_def is_fresh_def)
next
  case False
  then obtain v where g: "generate_rotate_event crc [] c (ucast (get_current_position s)) (Some (rotate_timestamp now)) server_id False n = Inr (v, buffer)"
    and p: "process_binlog_event I C (while_rotating now) v (c, s) = Inr (c', s')"
    using run by (auto simp: finish_binlog_file_def result_simps)
  have tables: "tables_ok c" and reader: "reader_ok c" using al in_stepD(2) by (auto simp: aligned_def)
  have new: "event_buffer []" by (simp add: event_buffer_def)
  obtain i where i: "process_event_view v c = Inr (i, c')" using p by (rule process_binlog_event_stages)
  have "protocol_step (rc_state c) Rotate False (rc_state c')"
    using process_event_view_step [OF i reader] rotate_event_result(3,4) [OF g tables new] by simp
  then show ?thesis by cases (auto simp: ordinary_code_def is_gtid_log_code_def)
qed

text \<open>The file that is open when a file is started is the one that is started: it is resumed.\<close>

lemma started_file_is_open_file:
  assumes "in_step C c s" and "in_step C c0 s0" and "rc_cycle_number c0 = rc_cycle_number c" and "choose_binlog_name base c s = Inr n"
    and "get_current_binlog_name s0 = get_current_binlog_name s" and "rc_state c0 = Rotate_artificial_expected"
    and "is_fresh c \<Longrightarrow> s0 = s" and "is_binlog_open s0"
  shows "binlog_name_str n = binlog_name_str (get_current_binlog_name s0)"
proof -
  have "rc_cycle_number c0 = 0" using in_stepD(7) [OF assms(2,6)] assms(8) by blast
  then have fresh: "is_fresh c" using assms(3) by (simp add: is_fresh_def)
  then have "\<not> storage_is_empty s" using open_has_records [OF in_stepD(1) [OF assms(2)] assms(8)] assms(7) by (simp add: storage_is_empty_def)
  then show ?thesis using assms(4,5) fresh by (simp add: choose_binlog_name_def)
qed

lemma rewriting_stages:
  assumes al: "aligned I C c s" and base: "CHR 0x0A \<notin> set base" and code: "\<not> skipped_code (event_code v)"
    and run: "rewrite_and_process_binlog_event I C crc now v server_id base file_size (c, s) = Inr (c', s')"
  obtains c1 s1 v' actions where "aligned I C c1 s1"
    "list_all generated_action actions" "replay actions (stored_files s) = Some (stored_files s1)"
    "rewrite crc (get_last_transaction_sequence_number s1) v [] (get_current_position s1) = Inr v'"
    "process_binlog_event I C (while_rewriting now) v' (c1, s1) = Inr (c', s')"
proof -
  note found = that
  define prologue where "prologue = (if new_file_needed file_size c s then
      rbind (choose_binlog_name base c s) (\<lambda>binlog_name.
      rbind (finish_binlog_file I C crc now server_id binlog_name (c, s)) (\<lambda>state.
      start_binlog_file I C crc now server_id binlog_name state))
    else Inr (c, s))"
  obtain c1 s1 v' where o: "prologue = Inr (c1, s1)"
    and w: "rewrite crc (get_last_transaction_sequence_number s1) v [] (get_current_position s1) = Inr v'"
    and p: "process_binlog_event I C (while_rewriting now) v' (c1, s1) = Inr (c', s')"
    using run code by (auto simp: rewrite_and_process_binlog_event_def prologue_def [symmetric] result_simps)
  show thesis
  proof (cases "new_file_needed file_size c s")
    case True
    then obtain n c0 s0 b where n: "choose_binlog_name base c s = Inr n"
      and f: "finish_binlog_file I C crc now server_id n (c, s) = Inr ((c0, s0), b)"
      and st: "start_binlog_file I C crc now server_id n ((c0, s0), b) = Inr (c1, s1)"
      using o by (auto simp: prologue_def result_simps)
    have d: "in_step C c s" using al by (simp add: aligned_def)
    note name = choose_binlog_name_ok [OF n in_stepD(1) [OF d] base] and fin = finish_binlog_file_aligned [OF al f]
    have d0: "in_step C c0 s0" and fresh: "is_fresh c \<Longrightarrow> s0 = s"
      using fin(1) f by (auto simp: aligned_def finish_binlog_file_def)
    have "binlog_name_str n = binlog_name_str (get_current_binlog_name s0)" if "is_binlog_open s0"
      using d d0 fin(3) n fin(4) finish_binlog_file_state [OF al f] fresh that by (rule started_file_is_open_file)
    moreover have other: "rc_cycle_number c0 = 0 \<or> binlog_name_str n \<noteq> binlog_name_str (get_current_binlog_name s0)"
      using name(2) fin(3,4) by simp
    ultimately obtain a2 where a2: "list_all generated_action a2" "replay a2 (stored_files s0) = Some (stored_files s1)"
      using start_binlog_file_replayed [OF fin(1,2) name(1) _ _ st] by blast
    obtain a1 where a1: "list_all generated_action a1" "replay a1 (stored_files s) = Some (stored_files s0)"
      using al f by (rule finish_binlog_file_replayed)
    show thesis
      by (rule found [OF start_binlog_file_aligned [OF fin(1,2) name(1) other st] _ replay_trans [OF a1(2) a2(2)] w p])
        (use a1(1) a2(1) in simp)
  next
    case False
    then show thesis using o al found [of c s "[]" v'] w p by (simp add: prologue_def)
  qed
qed

lemma rewritten_not_rotate:
  "event_code v' = event_code v \<Longrightarrow> \<not> skipped_code (event_code v) \<Longrightarrow> \<not> is_artificial_rotate v' \<and> event_code v' \<noteq> Format_description"
  by (auto simp: is_artificial_rotate_def skipped_code_def)

lemma rewriting_aligned:
  assumes al: "aligned I C c s" and v: "make_event_view crc c portion = Inr v" "rewritable v" and base: "CHR 0x0A \<notin> set base"
    and run: "rewrite_and_process_binlog_event I C crc now v server_id base file_size (c, s) = Inr (c', s')"
  shows "aligned I C c' s'"
proof (cases "skipped_code (event_code v)")
  case True
  then have "c' = c \<and> s' = s"
    using run by (auto simp: rewrite_and_process_binlog_event_def result_simps split: if_splits)
  then show ?thesis using al by simp
next
  case False
  obtain c1 s1 v' where al1: "aligned I C c1 s1"
    and w: "rewrite crc (get_last_transaction_sequence_number s1) v [] (get_current_position s1) = Inr v'"
    and p: "process_binlog_event I C (while_rewriting now) v' (c1, s1) = Inr (c', s')"
    by (rule rewriting_stages [OF al base False run])
  note r = rewritten_view [OF v w]
  show ?thesis
    by (rule process_other_aligned [OF al1 p r(1)]) (use rewritten_not_rotate [OF r(2) False] in \<open>simp_all add: rotation_expected_def\<close>)
qed

section \<open>Rewriting as a transition system\<close>

text \<open>
  A process in rewrite mode: connections are opened over a reachable storage in GTID mode, and events
  are received one by one. The version of the server has an encoded form of its own.
\<close>

inductive rewriting :: "'c icl \<Rightarrow> 'c metadata_codec \<Rightarrow> crc32 \<Rightarrow> string \<Rightarrow> uint64 \<Rightarrow> reader_context \<Rightarrow> 'c storage \<Rightarrow> bool"
  for I C crc base file_size where
  connect: "storage_reachable I C s \<Longrightarrow> is_in_gtid_replication_mode s \<Longrightarrow> unat (get_current_position s) < 2 ^ 32 \<Longrightarrow>
    (is_binlog_open s \<longrightarrow> get_current_position s \<noteq> 0) \<Longrightarrow> get_encoded (semantic_version_of_encoded version) = version \<Longrightarrow>
    rewriting I C crc base file_size (make_reader_context version checksum (st_replication_mode s)
      (binlog_name_str (get_current_binlog_name s)) (ucast (get_current_position s))) s"
| receive: "rewriting I C crc base file_size c s \<Longrightarrow> make_event_view crc c portion = Inr v \<Longrightarrow> rewritable v \<Longrightarrow>
    rewrite_and_process_binlog_event I C crc now v server_id base file_size (c, s) = Inr (c', s') \<Longrightarrow>
    rewriting I C crc base file_size c' s'"

lemma rewriting_is_aligned:
  assumes "rewriting I C crc base file_size c s" and "CHR 0x0A \<notin> set base"
  shows "aligned I C c s"
  using assms(1)
proof (induction rule: rewriting.induct)
  case (connect s version checksum)
  have "tables_ok (make_reader_context version checksum (st_replication_mode s)
      (binlog_name_str (get_current_binlog_name s)) (ucast (get_current_position s)))"
    using connect.hyps(5) by (simp add: tables_ok_def make_reader_context_def Let_def)
  then show ?case
    using connect.hyps(1) connect_in_step [OF reachable_ok [OF connect.hyps(1)] connect.hyps(3,4)] by (simp add: aligned_def)
next
  case (receive c s portion v now server_id c' s')
  then show ?case using rewriting_aligned assms(2) by blast
qed

section \<open>A sample event\<close>

definition sample_clocks :: rewrite_clocks where
  "sample_clocks = \<lparr> rotate_timestamp = 7, create_timestamp = 0, description_timestamp = 7, previous_gtids_timestamp = 7,
     while_rotating = sample_now, while_opening = sample_now, while_describing = sample_now, while_listing = sample_now,
     while_rewriting = sample_now \<rparr>"

lemma sample_rewriting: "rewriting list_icl sample_codec (\<lambda>_. 0) ''b'' 1000 start_context sample_start"
proof -
  have ok: "is_ok (rbind (make_storage sample_codec 3 0 empty_backend Streaming Gtid_mode) (rfold (perform list_icl sample_codec) []))"
    by code_simp
  have "storage_reachable list_icl sample_codec sample_start" by (rule sample_storage_reachable [OF ok]) simp
  moreover have "get_current_position sample_start = 0" "\<not> is_binlog_open sample_start" "is_in_gtid_replication_mode sample_start"
    "get_encoded (semantic_version_of_encoded 80030) = 80030" by code_simp+
  ultimately show ?thesis unfolding start_context_def by (intro rewriting.connect) simp_all
qed

text \<open>With these readings of the clock, the generated events are those of the sample stream.\<close>

lemma rfold_prefix_ok: "is_ok (rfold f (xs @ ys) s) \<Longrightarrow> is_ok (rfold f xs s)"
  by (cases "rfold f xs s") (simp_all add: rfold_append)

lemma rfold_single: "rfold f [x] = f x"
proof
  show "rfold f [x] s = f x s" for s by (cases "f x s") simp_all
qed

lemma sample_step:
  assumes "k < 4"
  shows "expected_packet list_icl sample_codec (\<lambda>_. 0) (sample_packets ! k) (sample_state k) = Inr (sample_state (Suc k))"
proof -
  let ?f = "expected_packet list_icl sample_codec (\<lambda>_. 0)" and ?s = "(start_context, sample_start)"
  have len: "length sample_packets = 5" by (simp add: sample_packets_def)
  have prefix: "is_ok (rfold ?f (take j sample_packets) ?s)" if "j \<le> 4" for j
  proof -
    have "take 4 sample_packets = take j sample_packets @ drop j (take 4 sample_packets)"
      using that by (metis append_take_drop_id take_take min.absorb1)
    then show ?thesis using sample_state_ok by (metis rfold_prefix_ok)
  qed
  have "rfold ?f (take (Suc k) sample_packets) ?s = rbind (rfold ?f (take k sample_packets) ?s) (?f (sample_packets ! k))"
    using assms len by (simp add: take_Suc_conv_app_nth rfold_append rfold_single)
  moreover have "rfold ?f (take k sample_packets) ?s = Inr (sample_state k)" "rfold ?f (take (Suc k) sample_packets) ?s = Inr (sample_state (Suc k))"
    using prefix [of k] prefix [of "Suc k"] assms
    by (cases "rfold ?f (take k sample_packets) ?s", simp_all add: sample_state_def)
      (cases "rfold ?f (take (Suc k) sample_packets) ?s", simp_all add: sample_state_def)
  ultimately show ?thesis by simp
qed

lemma sample_process:
  assumes "k < 4" and "make_event_view (\<lambda>_. 0) (fst (sample_state k)) (fst (sample_packets ! k)) = Inr v"
  shows "process_binlog_event list_icl sample_codec sample_now v (fst (sample_state k), snd (sample_state k)) =
    Inr (fst (sample_state (Suc k)), snd (sample_state (Suc k)))"
proof -
  have "snd (sample_packets ! k) = sample_now" using assms(1) by (simp add: sample_packets_def nth_Cons split: nat.splits)
  then obtain portion where "sample_packets ! k = (portion, sample_now)" by (metis prod.collapse)
  moreover obtain c s where "sample_state k = (c, s)" by fastforce
  ultimately show ?thesis using sample_step [OF assms(1)] assms(2) by (auto simp: expected_packet_def result_simps)
qed

abbreviation sample_name :: composite_binlog_name where
  "sample_name \<equiv> Composite_binlog_name ''b'' 1"

definition rotation_view :: event_view where
  "rotation_view = \<lparr> ev_portion = rotation_to ''b.000001'', ev_post_header_size = 8, ev_footer_size = 4 \<rparr>"

lemma sample_rotate:
  "generate_rotate_event (\<lambda>_. 0) [] start_context 0 None 1 True sample_name = Inr (rotation_view, rotation_to ''b.000001'')"
  by code_simp

lemma sample_description:
  "generate_format_description_event (\<lambda>_. 0) (rotation_to ''b.000001'') (fst (sample_state 1)) 4 0 7 1 =
     Inr (format_description_view, format_description_portion)"
  by code_simp

lemma sample_previous_gtids:
  "generate_previous_gtids_log_event list_icl (\<lambda>_. 0) format_description_portion (fst (sample_state 2)) 126 7 1
     (get_gtids list_icl (snd (sample_state 2))) = Inr (previous_gtids_view, previous_gtids_portion)"
  by code_simp

lemma sample_rewritten:
  "rewrite (\<lambda>_. 0) (get_last_transaction_sequence_number (snd (sample_state 3))) gtid_log_view []
     (get_current_position (snd (sample_state 3))) = Inr gtid_log_view"
  by code_simp

lemma sample_views_made:
  "make_event_view (\<lambda>_. 0) (fst (sample_state 0)) (fst (sample_packets ! 0)) = Inr rotation_view"
  "make_event_view (\<lambda>_. 0) (fst (sample_state 1)) (fst (sample_packets ! 1)) = Inr format_description_view"
  "make_event_view (\<lambda>_. 0) (fst (sample_state 2)) (fst (sample_packets ! 2)) = Inr previous_gtids_view"
  "make_event_view (\<lambda>_. 0) (fst (sample_state 3)) (fst (sample_packets ! 3)) = Inr gtid_log_view"
  by code_simp+

lemma sample_prologue:
  "choose_binlog_name ''b'' start_context sample_start = Inr sample_name" "is_fresh start_context"
  "\<not> skipped_code (get_type_code (get_common_header_raw gtid_log_view))" "get_total_size format_description_view = 122"
  "ucast magic_binlog_offset = (4 :: uint32)" "is_in_gtid_replication_mode sample_start"
  by code_simp+

lemma sample_clocks_simps [simp]:
  "while_opening sample_clocks = sample_now" "while_describing sample_clocks = sample_now" "while_listing sample_clocks = sample_now"
  "while_rewriting sample_clocks = sample_now" "create_timestamp sample_clocks = 0" "description_timestamp sample_clocks = 7"
  "previous_gtids_timestamp sample_clocks = 7"
  by (simp_all add: sample_clocks_def)

lemma sample_rewrite:
  "rewrite_and_process_binlog_event list_icl sample_codec (\<lambda>_. 0) sample_clocks gtid_log_view 1 ''b'' 1000 (start_context, sample_start) =
     Inr (fst (sample_state 4), snd (sample_state 4))"
proof -
  let ?p = "process_binlog_event list_icl sample_codec sample_now"
  have zero: "fst (sample_state 0) = start_context" "snd (sample_state 0) = sample_start" by (simp_all add: sample_state_def)
  have s1: "?p rotation_view (start_context, sample_start) = Inr (fst (sample_state 1), snd (sample_state 1))"
    using sample_process [OF _ sample_views_made(1)] zero by simp
  have s2: "?p format_description_view (fst (sample_state 1), snd (sample_state 1)) = Inr (fst (sample_state 2), snd (sample_state 2))"
    using sample_process [OF _ sample_views_made(2)] by (simp add: numeral_2_eq_2)
  have s3: "?p previous_gtids_view (fst (sample_state 2), snd (sample_state 2)) = Inr (fst (sample_state 3), snd (sample_state 3))"
    using sample_process [OF _ sample_views_made(3)] by (simp add: numeral_3_eq_3 numeral_2_eq_2)
  have s4: "?p gtid_log_view (fst (sample_state 3), snd (sample_state 3)) = Inr (fst (sample_state 4), snd (sample_state 4))"
    using sample_process [OF _ sample_views_made(4)] by (simp add: eval_nat_numeral)
  have offset: "4 + of_nat (get_total_size format_description_view) = (126 :: uint32)" by (simp add: sample_prologue(4))
  have "start_binlog_file list_icl sample_codec (\<lambda>_. 0) sample_clocks 1 sample_name ((start_context, sample_start), []) =
      Inr (fst (sample_state 3), snd (sample_state 3))"
    by (simp only: start_binlog_file_def prod.case rbind_Inr sample_clocks_simps sample_prologue(5) sample_rotate s1 sample_description s2
        offset sample_previous_gtids s3)
  moreover have "finish_binlog_file list_icl sample_codec (\<lambda>_. 0) sample_clocks 1 sample_name (start_context, sample_start) =
      Inr ((start_context, sample_start), [])"
    by (simp add: finish_binlog_file_def sample_prologue(2))
  moreover have "new_file_needed 1000 start_context sample_start" by (simp add: new_file_needed_def sample_prologue(2))
  ultimately show ?thesis
    by (simp only: rewrite_and_process_binlog_event_def prod.case Let_def sample_prologue(1,3,6) ensure_True if_False if_True rbind_Inr
        sample_rewritten sample_clocks_simps s4)
qed

lemma gtid_log_view_rewritable: "rewritable gtid_log_view"
proof -
  have "get_type_code (get_common_header_raw gtid_log_view) = Gtid_log" by code_simp
  moreover have "(case gtid_log_post_header_decode (get_post_header_raw gtid_log_view) of
      Inl _ \<Rightarrow> False | Inr g \<Rightarrow> glp_last_committed g < glp_sequence_number g)" by code_simp
  moreover have "get_total_size gtid_log_view < 1000" by code_simp
  ultimately show ?thesis by (simp add: rewritable_def del: event_field_defs)
qed

section \<open>Properties\<close>

text \<open>
  C5: In rewrite mode, processing an event of a transaction changes the binlog files, with the bytes that are still
  buffered, by appending whole events to the last file and by starting a file, and by nothing else: first the
  generated events that are not read for information only and possibly a new file, then the received event as it is rewritten for
  the length that the last file has by then. Every event that is appended, generated or received, states in its header the
  length of the file behind it. The storage stays in a state that its own operations reach; its open binlog file is the one of the
  reader context, and its position in 32 bits is the position of the context. This needs events that can be
  rewritten and a base name without a line feed.
\<close>

theorem rewriting_keeps_positions:
  assumes "rewriting I C crc base file_size c s" and "CHR 0x0A \<notin> set base"
    and "make_event_view crc c portion = Inr v" and "rewritable v" and "\<not> skipped_code (event_code v)"
    and "rewrite_and_process_binlog_event I C crc now v server_id base file_size (c, s) = Inr (c', s')"
  shows "rewriting I C crc base file_size c' s' \<and> storage_reachable I C s' \<and> is_binlog_open s' \<and>
    rc_binlog_name c' = binlog_name_str (get_current_binlog_name s') \<and> rc_position c' = ucast (get_current_position s') \<and>
    (\<exists>actions files local v'. list_all generated_action actions \<and> replay actions (stored_files s) = Some files \<and>
       rewrite crc local v [] (of_nat (length (snd (last files)))) = Inr v' \<and>
       replay [Store v'] files = Some (stored_files s'))"
proof -
  note al = rewriting_is_aligned [OF assms(1,2)]
  obtain c1 s1 v' actions where al1: "aligned I C c1 s1"
    and generated: "list_all generated_action actions" "replay actions (stored_files s) = Some (stored_files s1)"
    and w: "rewrite crc (get_last_transaction_sequence_number s1) v [] (get_current_position s1) = Inr v'"
    and p: "process_binlog_event I C (while_rewriting now) v' (c1, s1) = Inr (c', s')"
    by (rule rewriting_stages [OF al assms(2,5,6)])
  have al': "aligned I C c' s'" by (rule rewriting_aligned [OF al assms(3,4,2,6)])
  note r = rewritten_view [OF assms(3,4) w]
  obtain i where i: "process_event_view v' c1 = Inr (i, c')" "store_event I C (while_rewriting now) v' i c' s1 = Inr s'"
    using p by (rule process_binlog_event_stages)
  have d: "in_step C c1 s1" using al1 by (simp add: aligned_def)
  have code: "event_code v' \<noteq> Rotate" "event_code v' \<noteq> Stop" "event_code v' \<noteq> Format_description" "event_code v' \<noteq> Previous_gtids_log"
    using assms(5) r(2) by (auto simp: skipped_code_def)
  have rot: "\<not> is_artificial_rotate v'" using code(1) by (simp add: is_artificial_rotate_def)
  have "\<not> i" using non_rotation_step(4) [OF i(1) rot] code by simp
  then have stored: "replay [Store v'] (stored_files s1) = Some (stored_files s')"
    using event_replayed [OF d i(1) rot r(1) i(2)] by simp
  have step: "protocol_step (rc_state c1) (event_code v') (event_artificial v') (rc_state c')"
    using process_event_view_step [OF i(1) in_stepD(2) [OF d]] by simp
  then have "rc_state c1 \<noteq> Rotate_artificial_expected" using code by (auto simp: protocol_step_simps)
  then have "st_binlog_records s1 \<noteq> []" using in_stepD(1,5) [OF d] open_has_records by blast
  then have position: "get_current_position s1 = of_nat (length (snd (last (stored_files s1))))"
    using in_stepD(1) [OF d] stored_files_position by blast
  have "rc_state c' \<noteq> Rotate_artificial_expected" using step code by cases auto
  moreover have "in_step C c' s'" using al' by (simp add: aligned_def)
  ultimately have "is_binlog_open s' \<and> rc_binlog_name c' = binlog_name_str (get_current_binlog_name s') \<and> rc_position c' = ucast (get_current_position s')"
    using in_stepD(5) by blast
  moreover have "rewriting I C crc base file_size c' s'" using assms(1,3,4,6) by (rule rewriting.receive)
  moreover have "storage_reachable I C s'" using al' by (simp add: aligned_def)
  ultimately show ?thesis using generated w [unfolded position] stored by blast
qed

theorem rewriting_keeps_positions_witness:
  "\<exists>c' s' actions files local v'.
     rewrite_and_process_binlog_event list_icl sample_codec (\<lambda>_. 0) sample_clocks gtid_log_view 1 ''b'' 1000 (start_context, sample_start) = Inr (c', s') \<and>
     is_binlog_open s' \<and> rc_position c' = ucast (get_current_position s') \<and> stored_files sample_start = [] \<and>
     list_all generated_action actions \<and> replay actions [] = Some files \<and>
     rewrite (\<lambda>_. 0) local gtid_log_view [] (of_nat (length (snd (last files)))) = Inr v' \<and>
     replay [Store v'] files = Some (stored_files s')"
proof -
  let ?c = "fst (sample_state 4)" and ?s = "snd (sample_state 4)"
  have code: "\<not> skipped_code (event_code gtid_log_view)" and v: "make_event_view (\<lambda>_. 0) start_context gtid_log_portion = Inr gtid_log_view"
    and none: "stored_files sample_start = []"
    by code_simp+
  have line: "CHR 0x0A \<notin> set ''b''" by simp
  note stored = rewriting_keeps_positions [OF sample_rewriting line v gtid_log_view_rewritable code sample_rewrite]
  then show ?thesis
    using sample_rewrite none unfolding none
    by (elim conjE exE) (intro exI [of _ ?c] exI [of _ ?s] exI conjI, assumption+)
qed

text \<open>
  C19: The events that are generated at the start of a binlog file in rewrite mode are the ones the reader context expects: the
  context accepts the rotation, the format description and the list of GTIDs one after the other, whether the file is
  new or goes on after a reconnection; it then expects the first GTID event, with checksums, at the position behind
  the generated events, or, if they are not written again, at the one where the file goes on.
\<close>

theorem generated_preamble_accepted:
  assumes "rc_state c = Rotate_artificial_expected" and "rc_replication_mode c = Gtid_mode" and "tables_ok c"
    and "4 \<le> rc_position c" and "rc_cycle_number c \<noteq> 0 \<Longrightarrow> rc_position c = 4"
    and "length (binlog_name_str n) < 2 ^ 31" and "event_buffer buffer"
    and "make_previous_gtids_body I gtids = Inr body" and "length body < 2 ^ 31"
  shows "\<exists>v1 v2 v3 c'. let info = (rc_cycle_number c = 0 \<and> binlog_name_str n = rc_binlog_name c \<and> 4 < rc_position c) in
    read_preamble I crc now server_id n buffer gtids c = Inr ([(v1, True), (v2, info), (v3, info)], c') \<and>
    rc_state c' = Gtid_log_expected \<and> rc_footer_expected c' \<and> tables_ok c' \<and> rc_binlog_name c' = binlog_name_str n \<and>
    rc_position c' = (if info then rc_position c else 4 + event_size v2 + event_size v3) \<and> get_body_raw v3 = body"
proof -
  let ?info = "rc_cycle_number c = 0 \<and> binlog_name_str n = rc_binlog_name c \<and> 4 < rc_position c"
  obtain v1 v2 v3 c' where "read_preamble I crc now server_id n buffer gtids c = Inr ([(v1, True), (v2, ?info), (v3, ?info)], c')"
    "rc_state c' = Gtid_log_expected" "rc_footer_expected c'" "tables_ok c'" "rc_binlog_name c' = binlog_name_str n"
    "rc_position c' = (if ?info then rc_position c else 4 + event_size v2 + event_size v3)" "get_body_raw v3 = body"
    by (rule read_preamble_ok [OF assms refl])
  then show ?thesis unfolding Let_def by (intro exI [of _ v1] exI [of _ v2] exI [of _ v3] exI [of _ c'] conjI)
qed

theorem generated_preamble_accepted_witness:
  "\<exists>v1 v2 v3 c'. read_preamble list_icl (\<lambda>_. 0) sample_clocks 1 (Composite_binlog_name ''b'' 1) [] [] start_context =
     Inr ([(v1, True), (v2, False), (v3, False)], c') \<and> rc_state c' = Gtid_log_expected"
proof -
  have c: "rc_state start_context = Rotate_artificial_expected" "rc_replication_mode start_context = Gtid_mode" "tables_ok start_context"
    "4 \<le> rc_position start_context" "rc_cycle_number start_context = 0" "\<not> 4 < rc_position start_context"
    "length (binlog_name_str (Composite_binlog_name ''b'' 1)) = 8" "make_previous_gtids_body list_icl [] = Inr (replicate 8 0)"
    by code_simp+
  have "event_buffer []" by (simp add: event_buffer_def)
  moreover have "length (binlog_name_str (Composite_binlog_name ''b'' 1)) < 2 ^ 31" "length (replicate 8 (0 :: byte)) < 2 ^ 31"
    using c(7) by simp_all
  ultimately show ?thesis
    using generated_preamble_accepted [OF c(1-4) _ _ _ c(8), of "Composite_binlog_name ''b'' 1" "[]" "\<lambda>_. 0" sample_clocks 1] c(5,6)
    by (simp add: Let_def del: length_replicate) blast
qed

end
