(* ===== verification/Receive_Properties.thy ===== *)
theory Receive_Properties
  imports Receive App_Rewrite_Properties
begin

text \<open>
  The streaming process over a whole life of connections: whatever the connections do, the storage
  stays in a state that its operations reach; a lost connection leaves exactly the complete
  transactions; and the request for events asks for what the storage does not have.
\<close>

section \<open>What is expected of the server\<close>

text \<open>
  Without rewriting, rotations are as expected; with rewriting, the events can be rewritten. The
  condition concerns the events that are received, each in the state it meets.
\<close>

definition event_expected :: "rewrite_config option \<Rightarrow> event_view \<Rightarrow> reader_context \<Rightarrow> 'c storage \<Rightarrow> bool" where
  "event_expected cfg v c s \<longleftrightarrow> (if cfg = None then rotation_expected v c s else rewritable v)"

fun events_expected ::
    "'c icl \<Rightarrow> 'c metadata_codec \<Rightarrow> crc32 \<Rightarrow> 'm mysql_client \<Rightarrow> uint32 \<Rightarrow> rewrite_config option \<Rightarrow> readings \<Rightarrow> 'm connection \<Rightarrow>
     reader_context \<times> 'c storage \<Rightarrow> bool" where
  "events_expected I C crc L server_id cfg [] connection state \<longleftrightarrow> True"
| "events_expected I C crc L server_id cfg ((flag, now) # rs) connection (c, s) \<longleftrightarrow>
     (case fetch_binlog_event L connection of
        Inr (Some portion, connection) \<Rightarrow>
          portion = [] \<or>
          (case make_event_view crc c (tl portion) of
             Inl _ \<Rightarrow> True
           | Inr v \<Rightarrow> event_expected cfg v c s \<and>
               (case handle_event I C crc server_id cfg now v (c, s) of
                  Inl _ \<Rightarrow> True
                | Inr state \<Rightarrow> events_expected I C crc L server_id cfg rs connection state))
      | _ \<Rightarrow> True)"

text \<open>The storage at a connection: the position fits, and with rewriting the version of the server has an encoded form of its own.\<close>

definition connection_expected ::
    "'c icl \<Rightarrow> 'c metadata_codec \<Rightarrow> crc32 \<Rightarrow> 'm attempt \<Rightarrow> uint32 \<Rightarrow> bool \<Rightarrow> rewrite_config option \<Rightarrow> 'm connection \<Rightarrow> uint32 \<Rightarrow> 'c storage \<Rightarrow> bool" where
  "connection_expected I C crc attempt server_id checksum_enabled cfg connection version s \<longleftrightarrow>
     uint (get_current_position s) < 2 ^ 32 \<and> (is_binlog_open s \<longrightarrow> get_current_position s \<noteq> 0) \<and>
     (cfg \<noteq> None \<longrightarrow> get_encoded (semantic_version_of_encoded version) = version \<and> CHR 0x0A \<notin> set (rw_base_file_name (the cfg))) \<and>
     events_expected I C crc (fst attempt) server_id cfg (snd attempt) connection (connection_context version checksum_enabled s, s)"

section \<open>The storage stays reachable\<close>

lemma handle_event_keeps:
  assumes "storage_reachable I C s" and "in_step C c s" and "cfg \<noteq> None \<longrightarrow> tables_ok c \<and> CHR 0x0A \<notin> set (rw_base_file_name (the cfg))"
    and v: "make_event_view crc c portion = Inr v" and "event_expected cfg v c s"
    and run: "handle_event I C crc server_id cfg now v (c, s) = Inr (c', s')"
  shows "storage_reachable I C s' \<and> in_step C c' s' \<and> (cfg \<noteq> None \<longrightarrow> tables_ok c')"
proof (cases cfg)
  case None
  then have p: "process_binlog_event I C (while_rewriting now) v (c, s) = Inr (c', s')" and rot: "rotation_expected v c s"
    using run assms(5) by (simp_all add: handle_event_def event_expected_def)
  obtain i where i: "store_event I C (while_rewriting now) v i c' s = Inr s'" using p by (rule process_binlog_event_stages)
  have "is_artificial_rotate v \<longrightarrow> CHR 0x0A \<notin> set (rotate_body_readable_binlog (get_body_raw v))"
    using rot by (simp add: rotation_expected_def Let_def)
  then show ?thesis
    using store_event_reachable [OF assms(1) i] process_binlog_event_in_step [OF assms(2) p make_event_view_Inr(2) [OF v] rot] None by simp
next
  case (Some config)
  have al: "aligned I C c s" using assms(1-3) Some by (simp add: aligned_def)
  have "aligned I C c' s'"
    by (rule rewriting_aligned [OF al v]) (use assms(3,5) run Some in \<open>simp_all add: handle_event_def event_expected_def\<close>)
  then show ?thesis by (simp add: aligned_def)
qed

lemma receive_loop_keeps:
  assumes "receive_loop I C crc L server_id cfg rs connection (c, s) = Inr (outcome, s')"
    and "storage_reachable I C s" and "in_step C c s" and "cfg \<noteq> None \<longrightarrow> tables_ok c \<and> CHR 0x0A \<notin> set (rw_base_file_name (the cfg))"
    and "events_expected I C crc L server_id cfg rs connection (c, s)"
  shows "storage_reachable I C s'"
  using assms
proof (induction rs arbitrary: connection c s)
  case (Cons reading rs)
  obtain flag now where reading: "reading = (flag, now)" by fastforce
  show ?case
  proof (cases "s' = s")
    case False
    then obtain portion connection1 c1 s1 v where f: "\<not> flag" "fetch_binlog_event L connection = Inr (Some portion, connection1)" "portion \<noteq> []"
      and v: "make_event_view crc c (tl portion) = Inr v"
      and h: "handle_event I C crc server_id cfg now v (c, s) = Inr (c1, s1)"
      and rest: "receive_loop I C crc L server_id cfg rs connection1 (c1, s1) = Inr (outcome, s')"
      using Cons.prems(1) reading by (auto simp: receive_packet_def result_simps split: if_splits option.splits)
    have e: "event_expected cfg v c s" "events_expected I C crc L server_id cfg rs connection1 (c1, s1)"
      using Cons.prems(5) reading f v h by simp_all
    note keeps = handle_event_keeps [OF Cons.prems(2-4) v e(1) h]
    then show ?thesis using Cons.IH [OF rest] e(2) Cons.prems(4) by simp
  qed (use Cons.prems in simp)
qed simp

lemma connection_context_tables:
  "get_encoded (semantic_version_of_encoded version) = version \<Longrightarrow> tables_ok (connection_context version checksum_enabled s)"
  by (simp add: tables_ok_def connection_context_def make_reader_context_def Let_def)

lemma switched_storage:
  assumes "switch_to_replication I L server_id checksum_enabled blocking_mode connection s = (outcome, s')"
  shows "s' = s \<or> (\<exists>gtids. set_purged_gtids gtids s = Inr s')"
  using assms by (auto simp: switch_to_replication_def request_purged_gtids_def result_simps split: if_splits sum.splits)

lemma opened_storage_reachable:
  assumes "open_connection_and_switch_to_replication I L mode config server_id checksum_enabled s = Inr (opened, s')"
    and "storage_reachable I C s"
  shows "storage_reachable I C s'"
proof -
  have "s' = s \<or> (\<exists>gtids. set_purged_gtids gtids s = Inr s')"
    using assms(1) switched_storage
    by (fastforce simp: open_connection_and_switch_to_replication_def caught_core_error_def Let_def split: if_splits sum.splits prod.splits)
  then show ?thesis using storage_reachable.step [of I C s "Set_purged_gtids _" s'] assms(2) by auto
qed

lemma after_connection_loss_reachable:
  assumes "after_connection_loss I C mode s = Inr s'" and "storage_reachable I C s"
  shows "storage_reachable I C s'"
proof -
  obtain s1 where s1: "discard_incomplete_transaction_events s = Inr s1" "flush_event_buffer I C s1 = Inr s'"
    using assms(1) by (auto simp: after_connection_loss_def result_simps split: if_splits)
  have "storage_reachable I C s1" using storage_reachable.step [of I C s Discard_incomplete s1] assms(2) s1(1) by simp
  then show ?thesis using storage_reachable.step [of I C s1 Flush_event_buffer s'] s1(2) by simp
qed

lemma uint_below: "uint (w :: uint64) < 2 ^ 32 \<Longrightarrow> unat w < 2 ^ 32"
  using nat_less_iff [of "uint w" "2 ^ 32"] by simp

text \<open>The attempts to connect of a whole process, each in the storage the earlier ones leave.\<close>

definition attempt_expected ::
    "'c icl \<Rightarrow> 'c metadata_codec \<Rightarrow> crc32 \<Rightarrow> operation_mode_type \<Rightarrow> connection_config \<Rightarrow> uint32 \<Rightarrow> bool \<Rightarrow> rewrite_config option \<Rightarrow> 'm attempt \<Rightarrow>
     'c storage \<Rightarrow> bool" where
  "attempt_expected I C crc mode config server_id checksum_enabled cfg attempt s \<longleftrightarrow>
     (case open_connection_and_switch_to_replication I (fst attempt) mode config server_id checksum_enabled s of
        Inr (Some connection, s') \<Rightarrow>
          (case get_server_version (fst attempt) connection of
             Inl _ \<Rightarrow> True
           | Inr version \<Rightarrow> connection_expected I C crc attempt server_id checksum_enabled cfg connection version s')
      | _ \<Rightarrow> True)"

primrec attempts_expected ::
    "'c icl \<Rightarrow> 'c metadata_codec \<Rightarrow> crc32 \<Rightarrow> operation_mode_type \<Rightarrow> connection_config \<Rightarrow> uint32 \<Rightarrow> bool \<Rightarrow> rewrite_config option \<Rightarrow> 'm attempt list \<Rightarrow>
     'c storage \<Rightarrow> bool" where
  "attempts_expected I C crc mode config server_id checksum_enabled cfg [] s \<longleftrightarrow> True"
| "attempts_expected I C crc mode config server_id checksum_enabled cfg (attempt # attempts) s \<longleftrightarrow>
     attempt_expected I C crc mode config server_id checksum_enabled cfg attempt s \<and>
     (case receive_binlog_events I C crc (fst attempt) mode (snd attempt) config server_id checksum_enabled cfg s of
        Inl _ \<Rightarrow> True
      | Inr s' \<Rightarrow> attempts_expected I C crc mode config server_id checksum_enabled cfg attempts s')"

lemma attempt_reachable:
  assumes run: "receive_binlog_events I C crc (fst attempt) mode (snd attempt) config server_id checksum_enabled cfg s = Inr s'"
    and "storage_reachable I C s" and expected: "attempt_expected I C crc mode config server_id checksum_enabled cfg attempt s"
  shows "storage_reachable I C s'"
proof -
  obtain opened s1 where o: "open_connection_and_switch_to_replication I (fst attempt) mode config server_id checksum_enabled s = Inr (opened, s1)"
    using run by (auto simp: receive_binlog_events_def result_simps)
  note r1 = opened_storage_reachable [OF o assms(2)]
  show ?thesis
  proof (cases opened)
    case None
    then show ?thesis using run o r1 by (simp add: receive_binlog_events_def)
  next
    case (Some connection)
    then obtain version outcome s2 where v: "get_server_version (fst attempt) connection = Inr version"
      and l: "receive_loop I C crc (fst attempt) server_id cfg (snd attempt) connection (connection_context version checksum_enabled s1, s1) =
        Inr (outcome, s2)"
      and out: "(case outcome of Terminated \<Rightarrow> Inr s2 | Fetched_everything \<Rightarrow> Inr s2 | Connection_lost \<Rightarrow> after_connection_loss I C mode s2) = Inr s'"
      using run o by (auto simp: receive_binlog_events_def result_simps)
    let ?c = "connection_context version checksum_enabled s1"
    have ce: "connection_expected I C crc attempt server_id checksum_enabled cfg connection version s1"
      using expected o Some v by (simp add: attempt_expected_def)
    note ce = ce [unfolded connection_expected_def]
    have "unat (get_current_position s1) < 2 ^ 32" using ce uint_below by blast
    then have step: "in_step C ?c s1"
      unfolding connection_context_def using ce connect_in_step [OF reachable_ok [OF r1]] by blast
    have tables: "cfg \<noteq> None \<longrightarrow> tables_ok ?c \<and> CHR 0x0A \<notin> set (rw_base_file_name (the cfg))"
      using ce connection_context_tables by blast
    have "storage_reachable I C s2" using receive_loop_keeps [OF l r1 step tables] ce by blast
    then show ?thesis using out after_connection_loss_reachable by (cases outcome) auto
  qed
qed

lemma pull_loop_reachable:
  assumes "pull_loop I C crc idle_time config server_id checksum_enabled cfg attempts s = Inr s'" and "storage_reachable I C s"
    and "attempts_expected I C crc Pull config server_id checksum_enabled cfg (map snd attempts) s"
  shows "storage_reachable I C s'"
  using assms
proof (induction attempts arbitrary: s)
  case (Cons a attempts)
  obtain flags attempt where a: "a = (flags, attempt)" by (metis prod.collapse)
  then consider "s' = s"
    | s1 where "receive_binlog_events I C crc (fst attempt) Pull (snd attempt) config server_id checksum_enabled cfg s = Inr s1"
      and "pull_loop I C crc idle_time config server_id checksum_enabled cfg attempts s1 = Inr s'"
    using Cons.prems(1) by (cases attempt) (auto simp: result_simps split: list.splits if_splits)
  then show ?case
  proof cases
    case 1
    then show ?thesis using Cons.prems(2) by simp
  next
    case 2
    then show ?thesis using Cons.IH [OF 2(2) attempt_reachable [OF 2(1) Cons.prems(2)]] Cons.prems(3) a by simp
  qed
qed simp

lemma stream_binlogs_reachable:
  assumes "stream_binlogs I C crc mode idle_time config server_id checksum_enabled cfg attempt attempts s = Inr s'" and "storage_reachable I C s"
    and "attempts_expected I C crc mode config server_id checksum_enabled cfg (attempt # map snd attempts) s"
  shows "storage_reachable I C s'"
proof -
  obtain s1 where s1: "receive_binlog_events I C crc (fst attempt) mode (snd attempt) config server_id checksum_enabled cfg s = Inr s1"
    and rest: "if mode = Pull then pull_loop I C crc idle_time config server_id checksum_enabled cfg attempts s1 = Inr s' else s' = s1"
    using assms(1) by (auto simp: stream_binlogs_def result_simps split: if_splits)
  have "storage_reachable I C s1" using attempt_reachable [OF s1 assms(2)] assms(3) by simp
  then show ?thesis using rest pull_loop_reachable [of I C crc idle_time config server_id checksum_enabled cfg attempts s1 s'] assms(3) s1
    by (simp split: if_splits)
qed

text \<open>A process from its configuration on, over a new backend.\<close>

lemma main_streaming_reachable:
  assumes "main_streaming I C crc mode root empty_backend attempt attempts = Inr s'"
    and "\<And>s. make_storage C (checkpoint_size_bytes (root_storage root)) (checkpoint_interval_seconds (root_storage root)) empty_backend Streaming
        (rp_mode (root_replication root)) = Inr s \<Longrightarrow>
      attempts_expected I C crc mode (root_connection root) (rp_server_id (root_replication root)) (rp_verify_checksum (root_replication root))
        (rp_rewrite (root_replication root)) (attempt # map snd attempts) s"
  shows "storage_reachable I C s'" "rp_rewrite (root_replication root) \<noteq> None \<Longrightarrow> rp_mode (root_replication root) = Gtid_mode"
proof -
  obtain s where s: "make_storage C (checkpoint_size_bytes (root_storage root)) (checkpoint_interval_seconds (root_storage root)) empty_backend
      Streaming (rp_mode (root_replication root)) = Inr s"
    and run: "stream_binlogs I C crc mode (unat (rp_idle_time (root_replication root))) (root_connection root)
      (rp_server_id (root_replication root)) (rp_verify_checksum (root_replication root)) (rp_rewrite (root_replication root)) attempt attempts s = Inr s'"
    and valid: "main_config_validate root = Inr ()"
    using assms(1) by (auto simp: main_streaming_def Let_def result_simps)
  show "storage_reachable I C s'" using stream_binlogs_reachable [OF run storage_reachable.fresh [OF s] assms(2) [OF s]] .
  show "rp_mode (root_replication root) = Gtid_mode" if "rp_rewrite (root_replication root) \<noteq> None"
    using valid that by (auto simp: main_config_validate_def replication_config_validate_def result_simps)
qed

lemma gtid_request:
  assumes "open_connection_and_switch_to_replication I L mode config server_id checksum_enabled s = Inr (Some connection, s')"
    and "is_in_gtid_replication_mode s"
  obtains connection0 where "request_gtid_replication I L server_id checksum_enabled (if mode = Fetch then Non_blocking else Blocking)
    connection0 s' = Inr connection"
  using assms
  by (fastforce simp: open_connection_and_switch_to_replication_def caught_core_error_def switch_to_replication_def Let_def
      split: if_splits sum.splits prod.splits)

lemma discarded:
  assumes "discard_incomplete_transaction_events s = Inr s'" and "storage_ok C s"
  shows "storage_ok C s'" "log_of s' = (log_of s)\<lparr> lg_pending := [] \<rparr>" "get_ready_to_flush_position s' = get_ready_to_flush_position s"
    "length (st_event_buffer s') = st_last_transaction_boundary s'"
proof -
  show "storage_ok C s'" by (rule perform_ok [of I C Discard_incomplete s s']) (use assms in simp_all)
  show "log_of s' = (log_of s)\<lparr> lg_pending := [] \<rparr>" by (rule perform_log [of I C Discard_incomplete s s']) (use assms in simp_all)
  show "get_ready_to_flush_position s' = get_ready_to_flush_position s" "length (st_event_buffer s') = st_last_transaction_boundary s'"
    using assms(1) storage_okD(4) [OF assms(2)]
    by (auto simp: discard_incomplete_transaction_events_def result_simps get_ready_to_flush_position_def get_flushed_position_def
        storage_is_empty_def buffer_ok_def)
qed

lemma flushed_buffer:
  assumes "flush_event_buffer I C s = Inr s'" and "storage_ok C s" and "length (st_event_buffer s) = st_last_transaction_boundary s"
  shows "st_event_buffer s' = []" "get_current_position s' = get_ready_to_flush_position s"
proof -
  have "st_event_buffer s' = [] \<and> get_flushed_position s' = get_ready_to_flush_position s"
  proof (cases "has_event_data_to_flush s")
    case True
    then have "flush_event_buffer_internal I C s = Inr s'"
      using assms(1) by (auto simp: flush_event_buffer_def result_simps)
    then obtain rs r where "st_binlog_records s = rs @ [r]" "st_binlog_records s' = rs @ [flushed_record I s r]"
      "st_event_buffer s' = drop (st_last_transaction_boundary s) (st_event_buffer s)"
      using assms(2) by (rule flush_internal_effect)
    then show ?thesis using assms(3)
      by (simp add: get_ready_to_flush_position_def get_flushed_position_def storage_is_empty_def flushed_record_def)
  qed (use assms in \<open>auto simp: flush_event_buffer_def has_event_data_to_flush_def get_ready_to_flush_position_def result_simps\<close>)
  then show "st_event_buffer s' = []" "get_current_position s' = get_ready_to_flush_position s" by (simp_all add: get_current_position_def)
qed

section \<open>Properties\<close>

text \<open>
  C7: When the connection is lost while pulling, what is left is exactly the complete transactions: the events of an
  incomplete one are dropped, the buffered complete ones are written, the files on disk are those of the abstract
  log, and the next request starts at the position behind the last complete transaction.
\<close>

theorem connection_loss_keeps_transactions:
  assumes "storage_reachable I C s" and "after_connection_loss I C Pull s = Inr s'"
  shows "storage_reachable I C s' \<and> st_event_buffer s' = [] \<and> log_of s' = (log_of s)\<lparr> lg_pending := [] \<rparr> \<and>
    map (file_bytes (contents (st_backend s'))) (st_binlog_records s') = lg_files (log_of s) \<and>
    get_current_position s' = get_ready_to_flush_position s"
proof -
  obtain s1 where s1: "discard_incomplete_transaction_events s = Inr s1" "flush_event_buffer I C s1 = Inr s'"
    using assms(2) by (auto simp: after_connection_loss_def result_simps)
  note d = discarded [OF s1(1) reachable_ok [OF assms(1)]]
  note f = flushed_buffer [OF s1(2) d(1,4)]
  have log: "log_of s' = (log_of s)\<lparr> lg_pending := [] \<rparr>" using flush_event_buffer_log [OF s1(2) d(1)] d(2) by simp
  have "lg_files (log_of s') = map (file_bytes (contents (st_backend s'))) (st_binlog_records s')"
    by (simp add: log_of_def f(1))
  then show ?thesis using after_connection_loss_reachable [OF assms(2,1)] f d(3) log by simp
qed

theorem connection_loss_keeps_transactions_witness:
  "\<exists>s'. after_connection_loss list_icl sample_codec Pull (sample_storage Position_mode sample_ops) = Inr s' \<and>
     map (file_bytes (contents (st_backend s'))) (st_binlog_records s') =
       [(sample_binlog 1, magic_binlog_payload @ [1, 2, 3]), (sample_binlog 2, magic_binlog_payload @ [4, 5, 6])]"
proof -
  let ?s = "sample_storage Position_mode sample_ops" and ?r = "after_connection_loss list_icl sample_codec Pull (sample_storage Position_mode sample_ops)"
  have "is_ok ?r" by code_simp
  then obtain s' where s': "?r = Inr s'" by (cases ?r) simp_all
  have "is_ok (rbind (make_storage sample_codec 3 0 empty_backend Streaming Position_mode) (rfold (perform list_icl sample_codec) sample_ops))"
    "list_all names_ok sample_ops" by code_simp+
  then have "storage_reachable list_icl sample_codec ?s" by (rule sample_storage_reachable)
  moreover have "lg_files (log_of ?s) =
      [(sample_binlog 1, magic_binlog_payload @ [1, 2, 3]), (sample_binlog 2, magic_binlog_payload @ [4, 5, 6])]" by code_simp
  ultimately show ?thesis using connection_loss_keeps_transactions [OF _ s'] s' by simp
qed

text \<open>
  C20: The request that reaches the server in GTID replication mode excludes exactly the transactions the storage has: the
  GTID set of the stream that is opened decodes to a set with the same GTIDs as the storage, those of an empty storage
  being the purged ones the server reported; the stream is requested without waiting at its end if and only if it is fetched.
\<close>

theorem request_excludes_stored_gtids:
  assumes "icl_interval_set I invar"
    and "open_connection_and_switch_to_replication I L mode config server_id checksum_enabled s = Inr (Some connection, s')"
    and "is_in_gtid_replication_mode s" and "gtid_set_inv I invar (get_gtids I s')" and "gtid_set_valid I (get_gtids I s')"
    and "length (gtid_entries (get_gtids I s')) < 2 ^ 48"
  shows "\<exists>rpl gtids handle. rpl_impl connection = Some rpl \<and> fst (mysql_binlog_open L rpl handle) \<and>
    gtid_set_decode I (rpl_gtid_set rpl) = Inr gtids \<and> gtid_set_abs I gtids = gtid_set_abs I (get_gtids I s') \<and>
    rpl_server_id rpl = server_id \<and> rpl_flags rpl = get_rpl_flags L True (if mode = Fetch then Non_blocking else Blocking)"
proof -
  obtain connection0 where r: "request_gtid_replication I L server_id checksum_enabled (if mode = Fetch then Non_blocking else Blocking)
      connection0 s' = Inr connection"
    using gtid_request [OF assms(2,3)] .
  let ?g = "get_gtids I s'" and ?room = "replicate (calculate_encoded_size I (get_gtids I s')) (0 :: byte)"
  obtain bytes gtids where e: "encode_to I ?g ([], ?room) = Inr (write_bytes bytes ([], ?room))"
    and len: "length bytes = calculate_encoded_size I ?g" and d: "gtid_set_decode I bytes = Inr gtids"
    and eq: "gtid_set_inv I invar gtids" "gtid_set_equal I gtids ?g"
    using icl_interval_set.encode_decode [OF assms(1,4-6), of ?room "[]"] by auto
  have "gtid_set_abs I gtids = gtid_set_abs I ?g"
    using icl_interval_set.gtid_set_equal_refines [OF assms(1) eq(1) assms(4)] eq(2) by simp
  moreover have "open_binlog_stream L (make_gtid_rpl L server_id bytes (if mode = Fetch then Non_blocking else Blocking))
      ''cannot open binary log in GTID mode'' checksum_enabled connection0 = Inr connection"
    using e len r by (simp add: request_gtid_replication_def write_bytes_def switch_to_gtid_replication_def Let_def)
  note open_binlog_stream_Inr(2,4) [OF this]
  ultimately show ?thesis using d
    by (intro exI [of _ "make_gtid_rpl L server_id bytes (if mode = Fetch then Non_blocking else Blocking)"]) (auto simp: make_gtid_rpl_def)
qed

text \<open>A client whose handle is the packets that it still delivers; it loses the connection behind them.\<close>

definition sample_client :: "bool \<Rightarrow> string \<Rightarrow> byte list list \<Rightarrow> byte list list mysql_client" where
  "sample_client reachable purged packets =
     \<lparr> mysql_init = Some packets, mysql_options = (\<lambda>_ _ m. (True, m)),
       mysql_real_connect_dns_srv = (\<lambda>_ _ _ m. (reachable, m)), mysql_real_connect = (\<lambda>_ _ _ _ m. (reachable, m)),
       mysql_real_query = (\<lambda>_ m. (True, m)),
       mysql_store_result = (\<lambda>m. (Some \<lparr> res_num_fields = 1, res_rows = [[Some purged]] \<rparr>, m)),
       mysql_ping = (\<lambda>m. (True, m)), mysql_binlog_open = (\<lambda>_ m. (True, m)),
       mysql_binlog_fetch = (\<lambda>_ m. case m of [] \<Rightarrow> (None, []) | p # ps \<Rightarrow> (Some p, ps)),
       mysql_get_server_version = (\<lambda>_. 80030), mysql_errno = (\<lambda>_. 1), mysql_error = (\<lambda>_. ''lost''),
       cr_server_lost = 1, mysql_rpl_skip_heartbeat = 131072, mysql_rpl_gtid = 65536 \<rparr>"

definition sample_config :: connection_config where
  "sample_config = \<lparr> cc_host = Some ''localhost'', cc_port = Some 3306, cc_dns_srv_name = None, cc_user = ''rpl'', cc_password = [],
     cc_connect_timeout = 20, cc_read_timeout = 60, cc_write_timeout = 60,
     cc_ssl = Some \<lparr> ssl_mode = Required, ssl_ca = Some ''ca.pem'', ssl_capath = None, ssl_crl = None, ssl_crlpath = None, ssl_cert = None,
       ssl_key = None, ssl_cipher = None \<rparr>,
     cc_tls = None \<rparr>"

text \<open>A storage with three transactions.\<close>

definition sample_stored :: "(gno_t \<times> gno_t) list storage" where
  "sample_stored = sample_storage Gtid_mode
     [Open_binlog (sample_binlog 1) 100, Write_event [1] True (sample_gtid 1) 50 1 101, Write_event [2] True (sample_gtid 2) 51 2 102,
      Write_event [3] True (sample_gtid 3) 52 3 103, Close_binlog 104]"

definition sample_open :: "(byte list list connection option \<times> (gno_t \<times> gno_t) list storage) result" where
  "sample_open = open_connection_and_switch_to_replication list_icl (sample_client True [] []) Pull sample_config 1 True sample_stored"

lemma sample_client_connects:
  "make_connection (sample_client True purged packets) sample_config = Inr \<lparr> mysql_impl = Some packets, rpl_impl = None \<rparr>"
  "open_binlog_stream (sample_client True purged packets) rpl m b \<lparr> mysql_impl = Some packets, rpl_impl = None \<rparr> =
     Inr \<lparr> mysql_impl = Some packets, rpl_impl = Some rpl \<rparr>"
  by (simp_all add: make_connection_def process_connection_config_def process_ssl_config_def set_generic_mysql_option_def checked_call_def
      open_binlog_stream_def set_binlog_checksum_def execute_generic_query_noresult_def get_query_handle_def get_handle_def
      is_in_replication_mode_def has_dns_srv_name_def sample_client_def sample_config_def Let_def)

lemma sample_open_ok: "\<exists>connection. sample_open = Inr (Some connection, sample_stored)"
proof -
  have "get_gtids list_icl sample_stored = sample_set 1 4" "is_in_gtid_replication_mode sample_stored" "\<not> storage_is_empty sample_stored"
    by code_simp+
  note stored = this
  have "length (gtid_entries (sample_set 1 4)) < 2 ^ 48" "(1 :: gno_t) < 4" by (simp_all add: gtid_entries_def)
  then obtain bytes where "encode_to list_icl (sample_set 1 4) ([], replicate (calculate_encoded_size list_icl (sample_set 1 4)) 0) =
      Inr (write_bytes bytes ([], replicate (calculate_encoded_size list_icl (sample_set 1 4)) 0))"
    using icl_interval_set.encode_decode [OF list_icl_interval_set sample_set_inv sample_set_valid] by (metis length_replicate order_refl)
  then show ?thesis
    by (simp add: sample_open_def open_connection_and_switch_to_replication_def switch_to_replication_def request_purged_gtids_def
        request_gtid_replication_def switch_to_gtid_replication_def write_bytes_def sample_client_connects stored Let_def)
qed

theorem request_excludes_stored_gtids_witness:
  "\<exists>connection rpl gtids. sample_open = Inr (Some connection, sample_stored) \<and> rpl_impl connection = Some rpl \<and>
    gtid_set_decode list_icl (rpl_gtid_set rpl) = Inr gtids \<and> gtid_set_abs list_icl gtids = gtid_set_abs list_icl (sample_set 1 4)"
proof -
  obtain connection where o: "sample_open = Inr (Some connection, sample_stored)" using sample_open_ok by blast
  have g: "get_gtids list_icl sample_stored = sample_set 1 4" and m: "is_in_gtid_replication_mode sample_stored" by code_simp+
  have "length (gtid_entries (sample_set 1 4)) < 2 ^ 48" "(1 :: gno_t) < 4" by (simp_all add: gtid_entries_def)
  then show ?thesis
    using request_excludes_stored_gtids [OF list_icl_interval_set o [unfolded sample_open_def] m] sample_set_inv sample_set_valid o
    unfolding g by blast
qed

text \<open>
  C6: Over a whole process, with connections that are refused, lost and made again, with or without rewriting, the storage
  stays in a state from which it can be constructed again after a stop, with the same binlog records and position; this
  needs rotations as expected of a server, positions below 4 GiB at each connection, and readable metadata.
\<close>

theorem streaming_process_is_restartable:
  assumes "storage_reachable I C s"
    and "stream_binlogs I C crc mode idle_time config server_id checksum_enabled cfg attempt attempts s = Inr s'"
    and "attempts_expected I C crc mode config server_id checksum_enabled cfg (attempt # map snd attempts) s"
    and "loadable C (st_replication_mode s') (st_binlog_records s')"
  shows "\<exists>s2. make_storage C checkpoint_size checkpoint_interval (after_crash (st_backend s')) construction_mode (st_replication_mode s') = Inr s2 \<and>
    st_binlog_records s2 = st_binlog_records s' \<and> get_current_position s2 = get_flushed_position s' \<and>
    (construction_mode = Streaming \<longrightarrow> storage_reachable I C s2)"
proof -
  note r = stream_binlogs_reachable [OF assms(2,1,3)]
  let ?s = "reloaded checkpoint_size checkpoint_interval (after_crash (st_backend s')) construction_mode (st_replication_mode s') (st_binlog_records s')"
  have make: "make_storage C checkpoint_size checkpoint_interval (after_crash (st_backend s')) construction_mode (st_replication_mode s') = Inr ?s"
    using restart_succeeds(1) [OF reachable_ok [OF r] assms(4)] .
  then have "construction_mode = Streaming \<Longrightarrow> storage_reachable I C ?s" using storage_reachable.restart [OF r assms(4)] by simp
  moreover have "get_current_position ?s = get_flushed_position s'"
    by (simp add: buffer_clear_position get_flushed_position_def storage_is_empty_def)
  ultimately show ?thesis using make by (intro exI [of _ ?s]) simp
qed

text \<open>A connection that is lost after the rotation to the first binlog file and its format description, and a reconnection that is refused.\<close>

definition sample_attempt :: "bool \<Rightarrow> byte list list attempt" where
  "sample_attempt reachable = (sample_client reachable [] [0 # rotation_to ''b.000001'', 0 # format_description_portion],
     replicate 4 (False, sample_clocks))"

definition sample_pull :: "(gno_t \<times> gno_t) list storage result" where
  "sample_pull = stream_binlogs list_icl sample_codec (\<lambda>_. 0) Pull 0 sample_config 1 True None (sample_attempt True)
     [([False, False], sample_attempt False)] (sample_storage Position_mode [])"

theorem streaming_process_is_restartable_witness:
  "\<exists>s' s2. sample_pull = Inr s' \<and>
     make_storage sample_codec 3 0 (after_crash (st_backend s')) Streaming (st_replication_mode s') = Inr s2 \<and>
     st_binlog_records s2 = st_binlog_records s' \<and> storage_reachable list_icl sample_codec s2"
proof -
  have "is_ok sample_pull" by code_simp
  then obtain s' where s': "sample_pull = Inr s'" unfolding is_ok_iff by blast
  have "is_ok (rbind (make_storage sample_codec 3 0 empty_backend Streaming Position_mode) (rfold (perform list_icl sample_codec) []))"
    by code_simp
  then have r: "storage_reachable list_icl sample_codec (sample_storage Position_mode [])" by (rule sample_storage_reachable) simp
  have e: "attempts_expected list_icl sample_codec (\<lambda>_. 0) Pull sample_config 1 True None
      (sample_attempt True # map snd [([False, False], sample_attempt False)]) (sample_storage Position_mode [])" by code_simp
  have "loadable sample_codec (st_replication_mode (projr sample_pull)) (st_binlog_records (projr sample_pull))" by code_simp
  then have l: "loadable sample_codec (st_replication_mode s') (st_binlog_records s')" by (simp add: s')
  show ?thesis using streaming_process_is_restartable [OF r s' [unfolded sample_pull_def] e l, of 3 0 Streaming] s' by blast
qed

end
