(* ===== verification/Spec2Isabelle.thy ===== *)
theory Spec2Isabelle
  imports Gtid_Set_Codec Gtid_Set_Text Metadata_Loading Storage_Properties Commands_Properties Receive_Properties
begin

text \<open>
  \<^bold>\<open>Percona Binlog Server.\<close> The program connects to a MySQL server as a replica, receives its binary
  log events, validates them and stores them in binlog files with an index and metadata. This
  development models the core of it, the sources under \<open>src/src/binsrv\<close> and \<open>src/src/util\<close>.

  \<^bold>\<open>Parts and theories.\<close> Errors of the C++ code are values of \<open>cpp_error\<close>: a function that may throw
  returns a \<open>result\<close>, undefined behaviour and failed assertions are the error
  \<open>Undefined_behaviour\<close>, and \<open>std::terminate\<close> is \<open>Terminate\<close>. Machine integers are words of
  their width.
    \<^item> \<open>Prelude\<close>: errors, bytes and sequencing of fallible steps, shared lemmas.
    \<^item> \<open>Byte_Span\<close>: integers and byte ranges read from and written to byte spans
      (\<open>util/byte_span_extractors.hpp\<close>, \<open>byte_span_inserters.hpp\<close>). The locale \<open>checked_codec\<close> states
      what a pair of reader and writer promises; it is interpreted for fixed, packed and
      variable-length integers.
    \<^item> \<open>Text\<close>: character classes, decimal numbers and the parser helpers (\<open>util/bnf_parser_helpers.hpp\<close>).
    \<^item> \<open>Interval_Set\<close>: the interface of \<open>boost::icl::interval_set\<close>, which is a parameter everywhere; the
      locale \<open>icl_interval_set\<close> states its documented laws and is interpreted on lists of intervals.
    \<^item> \<open>Gtid\<close>, \<open>Gtid_Set\<close>, \<open>Gtid_Set_Codec\<close>, \<open>Gtid_Set_Text\<close>: tags, UUIDs, GTIDs and sets of GTIDs, their
      binary form and their text form (\<open>binsrv/gtids\<close>). Set operations refine those on sets of
      triples; both forms read back what they wrote.
    \<^item> \<open>Protocol\<close>, \<open>Semantic_Version\<close>: event codes, flags, post header lengths and server versions.
    \<^item> \<open>Common_Header\<close>, \<open>Event_Parts\<close>, \<open>Gtid_Tagged_Log\<close>, \<open>Event_View\<close>: the parts of an event, their
      codecs, and the view of an event over its bytes with its checksum (\<open>binsrv/events\<close>).
    \<^item> \<open>Event\<close>: owned events and their construction (\<open>event.cpp\<close>, \<open>event.hpp\<close>): a created event reads back.
    \<^item> \<open>Rewriter\<close>, \<open>Rewriter_Properties\<close>: copying events into a buffer, with or without a footer, and
      the renumbering of GTID events (\<open>rewriter.cpp\<close>): what is rewritten is accepted again, with the
      local numbers and otherwise the contents received.
    \<^item> \<open>Reader_Context\<close>, \<open>Reader_Properties\<close>: the state machine that validates the stream of events
      (\<open>reader_context.cpp\<close>): every accepted stream follows the documented grammar, transactions have
      their declared length, written events are contiguous.
    \<^item> \<open>Binlog_Name\<close>, \<open>Timestamp_Range\<close>, \<open>Backend\<close>: names of binlog files, ranges of timestamps, and the
      filesystem backend, whose contract is the locale \<open>object_store\<close>.
    \<^item> \<open>Storage\<close>, \<open>Storage_Load\<close>: the class \<open>storage\<close>: buffering, checkpoints, opening and closing of
      binlog files, metadata files and index, construction over an existing backend, purging.
    \<^item> \<open>Storage_Layout\<close>, \<open>Storage_Invariant\<close>, \<open>Storage_Reload\<close>, \<open>Storage_Runs\<close>, \<open>Storage_Purge\<close>,
      \<open>Storage_Properties\<close>: object names never clash, the representation invariant and its
      preservation by every operation, construction from every stored state, runs with crashes, the
      refinement of an abstract log, purging, and the states that the sources do not handle.
    \<^item> \<open>Metadata\<close>, \<open>Metadata_Loading\<close>: the JSON metadata classes that implement the interface
      \<open>metadata_codec\<close> of the storage: they read back what they wrote, and satisfy the condition
      \<open>loadable\<close> of the constructor in both replication modes.
    \<^item> \<open>App\<close>, \<open>App_Properties\<close>: the processing of received events by the application (\<open>app.cpp\<close>), which
      joins the reader context and the storage: a joint invariant of both over all streams, the
      offset of every stored event, and after a crash the events with which the server goes on are
      accepted up to the next transaction.
    \<^item> \<open>Stored_Files\<close>: the bytes of the binlog files, buffered ones included, and how processed events
      change them.
    \<^item> \<open>App_Rewrite\<close>, \<open>App_Rewrite_Properties\<close>: the processing with a rewrite configuration, which
      chooses the binlog files itself and generates their first events (\<open>app.cpp\<close>): the reader context
      accepts them, the joint invariant holds for the rewritten stream too, and every event that is
      stored states its offset.
    \<^item> \<open>Connection\<close>: the connection to the MySQL server over the client library (\<open>src/src/easymysql\<close>).
    \<^item> \<open>Config\<close>: sizes and times with units and the validation of the configuration (\<open>size_unit.cpp\<close>,
      \<open>time_unit.cpp\<close>, \<open>*_config.cpp\<close>); the locale \<open>unit_class\<close> states what both classes of units promise.
    \<^item> \<open>Receive\<close>, \<open>Receive_Properties\<close>: the request for events, the receiving loop, lost connections and
      the loop that reconnects (\<open>app.cpp\<close>): requests ask for what the storage lacks, a lost connection
      leaves the complete transactions, and a whole process leaves a storage that can be constructed again.
    \<^item> \<open>Commands\<close>, \<open>Commands_Properties\<close>: the command line and the commands that list, search and purge
      the stored binlogs, with their responses (\<open>app.cpp\<close>, \<open>binsrv/models\<close>): the GTID search computes
      an irredundant cover, the search by time a prefix of the files.

  \<^bold>\<open>Interaction.\<close> An event view is built from received bytes with the post header lengths of the reader
  context; the reader context consumes it and says whether it has to be written and whether it ends
  a transaction; the storage buffers what is written and keeps positions, GTIDs and timestamps. With
  a rewrite configuration the event is renumbered and moved first, for the position and the sequence
  number of the storage. After a reconnection the storage says where to go on, and a new reader
  context starts there.

  \<^bold>\<open>Termination and bounds.\<close> All definitions are total. The dispatch loop of the reader context
  ends because a handler that does not consume the event moves on to a later state, and takes at
  most two rounds; the fixed point iteration for the size of a tagged
  GTID body keeps the bound of the source and is proved to end within it; the one for the size of a
  rewritten tagged event takes at most three rounds of its nine. The receiving and the reconnecting
  loop run over lists of readings of the termination flag, which is the only thing sure to end them.

  \<^bold>\<open>Parameters.\<close> Code outside the repository enters as arguments: the interval container, the printing
  of UUIDs and points in time, JSON texts, CRC-32, the clock, and the MySQL client library
  with the server behind it. What is assumed of them is a named
  hypothesis of the theorem concerned, or a locale that is interpreted.

  \<^bold>\<open>Not modelled.\<close> The S3 backend wraps the AWS library; the \<open>minimysql\<close> server is a program of its own
  over vendored protocol code; loggers and printing of events for logs have no effect on the state;
  the configuration file is read with the JSON library; the operating system is taken to carry out
  reads, writes, renames and removals. The handler of signals only sets the termination flag, whose
  readings are part of the environment.
\<close>

end
